(* ===== verification/Prelude.thy ===== *)
theory Prelude
  imports Main "HOL-Library.Word" "HOL-Library.Monad_Syntax"
begin

section \<open>Shared types, automation and lemmas\<close>

text \<open>
  Types and generic facts that every component theory uses: the C integer types as words, the
  wrap-around decrement of an unsigned counter, byte memory with block reads and writes, and
  little-endian words. The fact collections \<open>wordsimps\<close> (conversions between words and
  naturals) and \<open>memsimps\<close> (block reads after block writes) carry the routine parts of
  the component proofs.
\<close>

unbundle bit_operations_syntax

named_theorems wordsimps \<open>unat of word expressions\<close>
named_theorems memsimps \<open>reads of memory after writes\<close>

type_synonym u8 = "8 word"
type_synonym u16 = "16 word"
type_synonym u32 = "32 word"

subsection \<open>Unsigned counters\<close>

text \<open>
  A counter of C type \<open>size_t\<close> or \<open>uint32_t\<close> that is held as a natural number below
  \<open>2 ^ 32\<close>: decrementing it at zero wraps.
\<close>

definition dec32 :: "nat \<Rightarrow> nat" where
  "dec32 n = (if n = 0 then 2 ^ 32 - 1 else n - 1)"

lemma dec32_pos [simp]: "0 < n \<Longrightarrow> dec32 n = n - 1"
  by (simp add: dec32_def)

lemma dec32_Suc [simp]: "dec32 (Suc n) = n"
  by (simp add: dec32_def)

subsection \<open>Words\<close>

lemma unat_of_nat_small [wordsimps]:
  "n < 2 ^ LENGTH('a) \<Longrightarrow> unat (word_of_nat n :: 'a::len word) = n"
  by (simp add: unat_of_nat take_bit_nat_eq_self)

lemma unat_of_nat_below: "j < unat (N :: 'a::len word) \<Longrightarrow> unat (word_of_nat j :: 'a word) = j"
  by (meson less_trans unat_of_nat_small unsigned_less)

lemma unat_byte_less [simp]: "unat (b :: u8) < 256"
  using unsigned_less [of b] by simp

lemma unat_u32_less [simp]: "unat (a :: u32) < 4294967296"
  using unsigned_less [of a] by simp

lemma unat_plus_noof [wordsimps]:
  "unat a + unat b < 2 ^ LENGTH('a) \<Longrightarrow> unat (a + b :: 'a::len word) = unat a + unat b"
  by (simp add: unat_word_ariths)

lemma unat_minus_le [wordsimps]:
  "(b :: 'a::len word) \<le> a \<Longrightarrow> unat (a - b) = unat a - unat b"
  by (simp add: unat_sub)

lemma uint_minus_le [wordsimps]:
  "(b :: 'a::len word) \<le> a \<Longrightarrow> uint (a - b) = uint a - uint b"
  using uint_sub_lem [of b a] by (simp add: word_le_def)

lemma unat_pow2 [wordsimps]:
  "k < LENGTH('a) \<Longrightarrow> unat (2 ^ k :: 'a::len word) = 2 ^ k"
  using unat_of_nat_small [of "2 ^ k", where 'a = 'a] by simp

lemma unat_suc [wordsimps]: "w \<noteq> - 1 \<Longrightarrow> unat (w + 1 :: 'a::len word) = unat w + 1"
  by (metis unatSuc Suc_eq_plus1 add.commute add.inverse_unique add_eq_0_iff)

text \<open>A mask that is clear is clear in every part of it.\<close>

lemma and_zero_sub: "x AND m = 0 \<Longrightarrow> m AND k = k \<Longrightarrow> x AND k = (0 :: 'a::len word)"
  by (metis and.left_commute and.assoc word_log_esimps(1) and_zero_eq and.commute)

subsection \<open>Byte memory\<close>

type_synonym memory = "u32 \<Rightarrow> u8"

fun mem_read :: "memory \<Rightarrow> u32 \<Rightarrow> nat \<Rightarrow> u8 list" where
  "mem_read m a 0 = []"
| "mem_read m a (Suc n) = m a # mem_read m (a + 1) n"

fun mem_write :: "memory \<Rightarrow> u32 \<Rightarrow> u8 list \<Rightarrow> memory" where
  "mem_write m a [] = m"
| "mem_write m a (b # bs) = mem_write (m(a := b)) (a + 1) bs"

lemma length_mem_read [simp]: "length (mem_read m a n) = n"
  by (induction n arbitrary: a) auto

text \<open>A byte at offset below the length of a block is written, every other byte is kept.\<close>

lemma mem_write_other [memsimps]:
  "unat (x - a) \<ge> length bs \<Longrightarrow> length bs < 2 ^ 32 \<Longrightarrow> mem_write m a bs x = m x"
proof (induction bs arbitrary: m a)
  case (Cons b bs)
  have ne: "x \<noteq> a" using Cons.prems by auto
  have "unat (x - (a + 1)) = unat (x - a) - 1"
  proof -
    have "x - a \<noteq> 0" using ne by simp
    then have "unat (x - a - 1) = unat (x - a) - 1"
      by (simp add: unat_minus_one)
    then show ?thesis by (simp add: algebra_simps)
  qed
  then have "unat (x - (a + 1)) \<ge> length bs" using Cons.prems by simp
  then have "mem_write (m(a := b)) (a + 1) bs x = (m(a := b)) x"
    by (rule Cons.IH) (use Cons.prems in simp)
  then show ?case using ne by simp
qed simp

lemma mem_write_at [memsimps]:
  "k < length bs \<Longrightarrow> length bs \<le> 2 ^ 32 \<Longrightarrow> mem_write m a bs (a + word_of_nat k) = bs ! k"
proof (induction bs arbitrary: m a k)
  case (Cons b bs)
  show ?case
  proof (cases k)
    case 0
    have "unat (a - (a + 1)) = 2 ^ 32 - 1"
    proof -
      have "a - (a + 1) = (- 1 :: u32)" by simp
      then show ?thesis by (simp add: unsigned_minus_1_eq_mask mask_eq_exp_minus_1)
    qed
    moreover have "length bs < 2 ^ 32" using Cons.prems by simp
    ultimately have "mem_write (m(a := b)) (a + 1) bs a = (m(a := b)) a"
      by (intro mem_write_other) simp_all
    then show ?thesis using 0 by simp
  next
    case (Suc j)
    have "mem_write (m(a := b)) (a + 1) bs (a + 1 + word_of_nat j) = bs ! j"
      using Cons Suc by simp
    then show ?thesis using Suc by (simp add: algebra_simps)
  qed
qed simp

lemma mem_read_conv_map:
  "mem_read m a n = map (\<lambda>k. m (a + word_of_nat k)) [0..<n]"
proof (induction n arbitrary: a)
  case (Suc n)
  have "map (\<lambda>k. m (a + word_of_nat k)) [0..<Suc n]
      = m a # map (\<lambda>k. m (a + word_of_nat (Suc k))) [0..<n]"
    by (simp add: upt_conv_Cons map_Suc_upt [symmetric] del: upt_Suc)
  then show ?case using Suc by (simp add: algebra_simps)
qed simp

lemma mem_read_write_same [memsimps]:
  "length bs = n \<Longrightarrow> n \<le> 2 ^ 32 \<Longrightarrow> mem_read (mem_write m a bs) a n = bs"
  by (rule nth_equalityI) (auto simp: mem_read_conv_map mem_write_at)

text \<open>A block that lies outside the written block is kept.\<close>

lemma mem_read_write_other [memsimps]:
  assumes "length bs \<le> unat (b - a)" "unat (b - a) + k \<le> 2 ^ 32" "length bs < 2 ^ 32"
  shows "mem_read (mem_write m a bs) b k = mem_read m b k"
proof -
  have "mem_write m a bs (b + word_of_nat j) = m (b + word_of_nat j)" if "j < k" for j
  proof (rule mem_write_other)
    have j: "unat (word_of_nat j :: u32) = j" using that assms(2) by (intro unat_of_nat_small) simp
    have "unat (b - a + word_of_nat j) = unat (b - a) + j"
      using that assms(2) j by (subst unat_plus_noof) simp_all
    then show "length bs \<le> unat (b + word_of_nat j - a)"
      using assms(1) by (simp only: add_diff_eq [symmetric] add.commute [of b] diff_add_eq)
  qed (use assms(3) in simp)
  then show ?thesis by (simp add: mem_read_conv_map)
qed

lemma mem_read_append: "mem_read m a (n + k) = mem_read m a n @ mem_read m (a + word_of_nat n) k"
  by (induction n arbitrary: a) (simp_all add: ac_simps)

lemma mem_read_4: "mem_read m a 4 = [m a, m (a + 1), m (a + 2), m (a + 3)]"
  by (simp add: numeral_eq_Suc ac_simps)

subsection \<open>Little-endian words\<close>

definition le32 :: "u32 \<Rightarrow> u8 list" where
  "le32 w = [ucast w, ucast (drop_bit 8 w), ucast (drop_bit 16 w), ucast (drop_bit 24 w)]"

definition le16 :: "u16 \<Rightarrow> u8 list" where
  "le16 w = [ucast w, ucast (drop_bit 8 w)]"

lemma length_le32 [simp]: "length (le32 w) = 4"
  by (simp add: le32_def)

lemma le32_bytes:
  "le32 (ucast a OR push_bit 8 (ucast b) OR push_bit 16 (ucast c) OR push_bit 24 (ucast d)) = [a, b, c, d]"
  unfolding le32_def list.inject
  by (intro conjI refl; rule bit_word_eqI)
    (auto simp: bit_simps dest: bit_imp_le_length)

lemma length_le16 [simp]: "length (le16 w) = 2"
  by (simp add: le16_def)

end
