(* ===== verification/Bit_Functions.thy ===== *)
theory Bit_Functions
  imports Prelude
begin

section \<open>Bit functions of the ROM (assembler)\<close>

text \<open>
  \<open>bootrom/bit_functions.S\<close>, in the variants that its \<open>NEW_\<close> switches select: \<open>popcount32\<close>,
  \<open>reverse32\<close>, \<open>clz32\<close> and \<open>ctz32\<close>, which the ROM's function table offers to user code. Each
  definition is a sequence of lets, one per instruction that writes a register; a branch on the
  zero flag of a shift is a test of its result. The tables are byte lists.
\<close>

subsection \<open>The routines\<close>

definition rev_bytes :: "u32 \<Rightarrow> u32" where \<comment> \<open>the instruction \<open>rev\<close>\<close>
  "rev_bytes w =
     push_bit 24 (w AND 0xff) OR push_bit 8 (w AND 0xff00) OR
     drop_bit 8 (w AND 0xff0000) OR drop_bit 24 (w AND 0xff000000)"

definition popcount32 :: "u32 \<Rightarrow> u32" where
  "popcount32 r0 =
     (let r1 = 0x49249249;
          r2 = drop_bit 1 r0;
          r2 = r2 AND r1;
          r3 = drop_bit 2 r0;
          r3 = r3 AND r1;
          r0 = r0 AND r1;
          r0 = r0 + r2;
          r0 = r0 + r3;
          r1 = drop_bit 3 r0;
          r0 = r0 + r1;
          r1 = 0xC71C71C7;
          r0 = r0 AND r1;
          r1 = drop_bit 6 r0;
          r0 = r0 + r1;
          r1 = 0x04004004;
          r0 = r0 * r1
      in drop_bit 26 r0)"

definition reverse32 :: "u32 \<Rightarrow> u32" where
  "reverse32 r0 =
     (let r2 = 0xcccccccc;
          r1 = drop_bit 1 r2;
          r1 = r1 XOR r2;
          r3 = push_bit 1 r0;
          r3 = r3 AND r1;
          r0 = r0 AND r1;
          r0 = drop_bit 1 r0;
          r0 = r0 OR r3;
          r3 = push_bit 2 r0;
          r3 = r3 AND r2;
          r0 = r0 AND r2;
          r0 = drop_bit 2 r0;
          r3 = r3 OR r0;
          r2 = 0xf0f0f0f0;
          r0 = push_bit 4 r3;
          r0 = r0 AND r2;
          r3 = r3 AND r2;
          r3 = drop_bit 4 r3;
          r0 = r0 OR r3
      in rev_bytes r0)"

text \<open>The tables hold the counts of a six-bit index.\<close>

definition clz6_table :: "u8 list" where
  "clz6_table =
     [6, 5, 4, 4, 3, 3, 3, 3, 2, 2, 2, 2, 2, 2, 2, 2, 1, 1, 1, 1, 1, 1, 1, 1, 1, 1, 1, 1, 1, 1, 1, 1,
      0, 0, 0, 0, 0, 0, 0, 0, 0, 0, 0, 0, 0, 0, 0, 0, 0, 0, 0, 0, 0, 0, 0, 0, 0, 0, 0, 0, 0, 0, 0, 0]"

definition ctz6_table :: "u8 list" where
  "ctz6_table =
     [6, 0, 1, 0, 2, 0, 1, 0, 3, 0, 1, 0, 2, 0, 1, 0, 4, 0, 1, 0, 2, 0, 1, 0, 3, 0, 1, 0, 2, 0, 1, 0,
      5, 0, 1, 0, 2, 0, 1, 0, 3, 0, 1, 0, 2, 0, 1, 0, 4, 0, 1, 0, 2, 0, 1, 0, 3, 0, 1, 0, 2, 0, 1, 0]"

definition ldrb_table :: "u8 list \<Rightarrow> u32 \<Rightarrow> u32 option" where
  "ldrb_table tab r = (if unat r < length tab then Some (ucast (tab ! unat r)) else None)"

definition clz32 :: "u32 \<Rightarrow> u32 option" where
  "clz32 r0 =
     (let r1 = drop_bit 16 r0 in
      if r1 \<noteq> 0 then
        (let r0 = drop_bit 10 r1 in
         if r0 \<noteq> 0 then ldrb_table clz6_table r0
         else
           (let r0 = drop_bit 4 r1 in
            if r0 \<noteq> 0 then map_option (\<lambda>r0. r0 + 6) (ldrb_table clz6_table r0)
            else map_option (\<lambda>r0. r0 + (12 - 2)) (ldrb_table clz6_table r1)))
      else
        (let r1 = drop_bit 10 r0 in
         if r1 \<noteq> 0 then map_option (\<lambda>r0. r0 + 16) (ldrb_table clz6_table r1)
         else
           (let r1 = drop_bit 4 r0 in
            if r1 \<noteq> 0 then map_option (\<lambda>r0. r0 + 22) (ldrb_table clz6_table r1)
            else map_option (\<lambda>r0. r0 + (28 - 2)) (ldrb_table clz6_table r0))))"

definition ctz32 :: "u32 \<Rightarrow> u32 option" where
  "ctz32 r0 =
     (let r1 = push_bit 16 r0 in
      if r1 \<noteq> 0 then
        (let r0 = push_bit 6 r1 in
         if r0 = 0 then map_option (\<lambda>r0. r0 + 10) (ldrb_table ctz6_table (drop_bit 26 r1))
         else
           (let r1 = push_bit 6 r0 in
            if r1 = 0 then map_option (\<lambda>r0. r0 + 4) (ldrb_table ctz6_table (drop_bit 26 r0))
            else ldrb_table ctz6_table (drop_bit 28 r1 + 16)))
      else
        (let r1 = push_bit 6 r0 in
         if r1 = 0 then map_option (\<lambda>r0. r0 + 26) (ldrb_table ctz6_table (drop_bit 26 r0))
         else
           (let r0 = push_bit 6 r1 in
            if r0 = 0 then map_option (\<lambda>r0. r0 + 20) (ldrb_table ctz6_table (drop_bit 26 r1))
            else map_option (\<lambda>r0. r0 + 16) (ldrb_table ctz6_table (drop_bit 28 r0 + 16)))))"

subsection \<open>Reference definitions\<close>

definition popcount_ref :: "u32 \<Rightarrow> nat" where
  "popcount_ref x = length (filter (bit x) [0..<32])"

definition leading_zeros :: "u32 \<Rightarrow> nat" where
  "leading_zeros x = length (takeWhile (\<lambda>i. \<not> bit x (31 - i)) [0..<32])"

definition trailing_zeros :: "u32 \<Rightarrow> nat" where
  "trailing_zeros x = length (takeWhile (\<lambda>i. \<not> bit x i) [0..<32])"

lemma takeWhile_upt:
  assumes "c \<le> n" "\<And>i. i < c \<Longrightarrow> P i" "c < n \<Longrightarrow> \<not> P c"
  shows "length (takeWhile P [0..<n]) = c"
proof -
  have "[0..<n] = [0..<c] @ [c..<n]" using assms(1) upt_add_eq_append [of 0 c "n - c"] by simp
  moreover have "takeWhile P [c..<n] = []" using assms(3) by (cases "c < n") (simp_all add: upt_conv_Cons)
  moreover have "takeWhile P ([0..<c] @ [c..<n]) = [0..<c] @ takeWhile P [c..<n]"
    using assms(2) by (intro takeWhile_append2) simp
  ultimately show ?thesis by simp
qed

subsection \<open>Bit reversal\<close>

text \<open>Exchanging neighbouring groups of \<open>k\<close> bits with a mask of the upper groups.\<close>

lemma bit_swap:
  assumes "n < 32" "bit (M :: u32) n = hi n" "hi n \<Longrightarrow> k \<le> n" "\<not> hi n \<Longrightarrow> n + k < 32"
    "n + k < 32 \<Longrightarrow> bit M (n + k) \<longleftrightarrow> \<not> hi n"
  shows "bit ((push_bit k x AND M) OR drop_bit k (x AND M)) n \<longleftrightarrow> bit x (if hi n then n - k else n + k)"
  using assms by (cases "hi n") (auto simp: bit_simps add.commute [of k] dest: bit_imp_le_length)

lemma bit_rev_bytes:
  assumes "n < 32"
  shows "bit (rev_bytes w) n \<longleftrightarrow> bit w (8 * (3 - n div 8) + n mod 8)"
proof -
  have m: "\<forall>i \<in> set [0..<32]. bit (0xff :: u32) i = (i < 8) \<and> bit (0xff00 :: u32) i = (8 \<le> i \<and> i < 16) \<and>
      bit (0xff0000 :: u32) i = (16 \<le> i \<and> i < 24) \<and> bit (0xff000000 :: u32) i = (24 \<le> i)"
    by code_simp
  have m': "bit (0xff :: u32) i = (i < 8)" "bit (0xff00 :: u32) i = (8 \<le> i \<and> i < 16)"
      "bit (0xff0000 :: u32) i = (16 \<le> i \<and> i < 24)" "bit (0xff000000 :: u32) i = (24 \<le> i \<and> i < 32)" for i
    using m by (cases "i < 32"; auto dest: bit_imp_le_length)+
  consider "n < 8" | "8 \<le> n \<and> n < 16" | "16 \<le> n \<and> n < 24" | "24 \<le> n \<and> n < 32"
    using assms by linarith
  then show ?thesis
  proof cases
    case 1
    then have "8 * (3 - n div 8) + n mod 8 = n + 24" by simp
    then show ?thesis using 1 unfolding rev_bytes_def bit_simps m' by (auto simp: add.commute [of _ n])
  next
    case 2
    then have "n div 8 = 1" by presburger
    then have "8 * (3 - n div 8) + n mod 8 = n + 8" by presburger
    then show ?thesis using 2 unfolding rev_bytes_def bit_simps m' by (auto simp: add.commute [of _ n])
  next
    case 3
    then have "n div 8 = 2" by presburger
    then have "8 * (3 - n div 8) + n mod 8 = n - 8" by presburger
    then show ?thesis using 3 unfolding rev_bytes_def bit_simps m' by (auto simp: add.commute [of _ n])
  next
    case 4
    then have "n div 8 = 3" by presburger
    then have "8 * (3 - n div 8) + n mod 8 = n - 24" by presburger
    then show ?thesis using 4 unfolding rev_bytes_def bit_simps m' by (auto simp: add.commute [of _ n])
  qed
qed

definition swap_index :: "nat \<Rightarrow> nat \<Rightarrow> nat" where
  "swap_index k n = (if k \<le> n mod (2 * k) then n - k else n + k)"

lemma swap_indices:
  "\<forall>n \<in> set [0..<32].
     swap_index 1 (swap_index 2 (swap_index 4 (8 * (3 - n div 8) + n mod 8))) = 31 - n \<and>
     swap_index 2 (swap_index 4 (8 * (3 - n div 8) + n mod 8)) < 32 \<and>
     swap_index 4 (8 * (3 - n div 8) + n mod 8) < 32 \<and> 8 * (3 - n div 8) + n mod 8 < 32"
  by code_simp

lemma reverse_masks:
  "\<forall>n \<in> set [0..<32]. bit (0xaaaaaaaa :: u32) n = (1 \<le> n mod 2) \<and>
     bit (0xcccccccc :: u32) n = (2 \<le> n mod 4) \<and> bit (0xf0f0f0f0 :: u32) n = (4 \<le> n mod 8)"
  by code_simp

lemma bit_swap_group:
  assumes "n < 32" "k = 1 \<and> M = 0xaaaaaaaa \<or> k = 2 \<and> M = 0xcccccccc \<or> k = 4 \<and> M = (0xf0f0f0f0 :: u32)"
  shows "bit ((push_bit k x AND M) OR drop_bit k (x AND M)) n \<longleftrightarrow> bit x (swap_index k n)"
proof -
  have M: "bit M i = (k \<le> i mod (2 * k))" if "i < 32" for i
    using assms(2) reverse_masks that by auto
  have low: "k \<le> n" if "k \<le> n mod (2 * k)"
    using that mod_less_eq_dividend [of n "2 * k"] by linarith
  have high: "n + k < 32" if "\<not> k \<le> n mod (2 * k)"
    using assms that by (elim disjE conjE; hypsubst) presburger+
  have next': "k \<le> (n + k) mod (2 * k) \<longleftrightarrow> \<not> k \<le> n mod (2 * k)"
    using assms(2) by (elim disjE conjE; hypsubst) presburger+
  show ?thesis
    unfolding swap_index_def
    by (rule bit_swap [where hi = "\<lambda>n. k \<le> n mod (2 * k)"]) (simp_all add: assms(1) M low high next')
qed

lemma reverse32_bit: "bit (reverse32 x) n \<longleftrightarrow> n < 32 \<and> bit x (31 - n)"
proof (cases "n < 32")
  case True
  define y where "y = (push_bit 1 x AND 0xaaaaaaaa) OR drop_bit 1 (x AND (0xaaaaaaaa :: u32))"
  define z where "z = (push_bit 2 y AND 0xcccccccc) OR drop_bit 2 (y AND (0xcccccccc :: u32))"
  define w where "w = (push_bit 4 z AND 0xf0f0f0f0) OR drop_bit 4 (z AND (0xf0f0f0f0 :: u32))"
  have "reverse32 x = rev_bytes w"
    by (simp add: reverse32_def Let_def w_def z_def y_def or.commute)
  moreover have "bit y i = bit x (swap_index 1 i)" "bit z i = bit y (swap_index 2 i)"
      "bit w i = bit z (swap_index 4 i)" if "i < 32" for i
    unfolding w_def z_def y_def by (rule bit_swap_group [OF that], simp)+
  moreover have "n \<in> set [0..<32]" using True by simp
  note bspec [OF swap_indices this]
  ultimately show ?thesis using True by (simp add: bit_rev_bytes)
qed (auto dest: bit_imp_le_length)

subsection \<open>The tables\<close>

lemma clz6_entries:
  "\<forall>v \<in> set [0..<64]. let c = unat (clz6_table ! v) in
     c \<le> 6 \<and> (\<forall>i \<in> set [0..<c]. \<not> bit v (5 - i)) \<and> (c < 6 \<longrightarrow> bit v (5 - c))"
  by code_simp

lemma ctz6_entries:
  "\<forall>v \<in> set [0..<64]. let c = unat (ctz6_table ! v) in
     c \<le> 6 \<and> (\<forall>i \<in> set [0..<c]. \<not> bit v i) \<and> (c < 6 \<longrightarrow> bit v c)"
  by code_simp

lemma ctz4_entries:
  "\<forall>v \<in> set [1..<16]. let c = unat (ctz6_table ! (v + 16)) in
     c < 4 \<and> (\<forall>i \<in> set [0..<c]. \<not> bit v i) \<and> bit v c"
  by code_simp

lemma clz6:
  assumes "unat (v :: u32) < 64"
  shows "\<exists>c. ldrb_table clz6_table v = Some (word_of_nat c) \<and> c \<le> 6 \<and>
      (\<forall>i < c. \<not> bit v (5 - i)) \<and> (c < 6 \<longrightarrow> bit v (5 - c))"
proof -
  have len: "length clz6_table = 64" by (simp add: clz6_table_def)
  have "unat v \<in> set [0..<64]" using assms by simp
  from bspec [OF clz6_entries this] show ?thesis
    using assms by (intro exI [of _ "unat (clz6_table ! unat v)"])
      (auto simp: Let_def ldrb_table_def len bit_unsigned_iff)
qed

lemma ctz6:
  assumes "unat (v :: u32) < 64"
  shows "\<exists>c. ldrb_table ctz6_table v = Some (word_of_nat c) \<and> c \<le> 6 \<and>
      (\<forall>i < c. \<not> bit v i) \<and> (c < 6 \<longrightarrow> bit v c)"
proof -
  have len: "length ctz6_table = 64" by (simp add: ctz6_table_def)
  have "unat v \<in> set [0..<64]" using assms by simp
  from bspec [OF ctz6_entries this] show ?thesis
    using assms by (intro exI [of _ "unat (ctz6_table ! unat v)"])
      (auto simp: Let_def ldrb_table_def len bit_unsigned_iff)
qed

lemma ctz4:
  assumes "unat (v :: u32) < 16" "v \<noteq> 0"
  shows "\<exists>c. ldrb_table ctz6_table (v + 16) = Some (word_of_nat c) \<and> c < 4 \<and>
      (\<forall>i < c. \<not> bit v i) \<and> bit v c"
proof -
  have len: "length ctz6_table = 64" by (simp add: ctz6_table_def)
  have u: "unat (v + 16) = unat v + 16" using assms by (simp add: wordsimps)
  have "unat v \<in> set [1..<16]" using assms unat_gt_0 [of v] by simp
  from bspec [OF ctz4_entries this] show ?thesis
    using assms by (intro exI [of _ "unat (ctz6_table ! (unat v + 16))"])
      (auto simp: Let_def ldrb_table_def len u bit_unsigned_iff)
qed

subsection \<open>Leading and trailing zeros\<close>


lemma unat_less_pow2:
  assumes "\<And>i. bit (v :: 'a::len word) i \<Longrightarrow> i < k"
  shows "unat v < 2 ^ k"
proof -
  have "take_bit k v = v" using assms by (intro bit_word_eqI) (auto simp: bit_simps)
  then have "unat v = take_bit k (unat v)" by (metis unsigned_take_bit_eq)
  then show ?thesis by (metis take_bit_nat_less_exp)
qed

text \<open>The table lookup for the six bits of \<open>x\<close> from \<open>s\<close> on, when the bits above are clear.\<close>

lemma leading_zeros_window:
  assumes "drop_bit (s + 6) x = 0" "s \<le> 26" "drop_bit s x \<noteq> 0 \<or> s = 0"
  shows "\<exists>c. ldrb_table clz6_table (drop_bit s x) = Some (word_of_nat c) \<and> c \<le> 6 \<and> leading_zeros x = 26 - s + c"
proof -
  have clear: "\<not> bit x i" if "s + 6 \<le> i" for i
    using arg_cong [OF assms(1), of "\<lambda>w. bit w (i - (s + 6))"] that by (simp add: bit_simps)
  have "i < 6" if "bit (drop_bit s x) i" for i
    using clear [of "s + i"] that by (auto simp: bit_simps not_less [symmetric])
  from unat_less_pow2 [OF this] have "unat (drop_bit s x) < 64" by simp
  from clz6 [OF this] obtain c where c: "ldrb_table clz6_table (drop_bit s x) = Some (word_of_nat c)" "c \<le> 6"
      "\<And>i. i < c \<Longrightarrow> \<not> bit x (s + (5 - i))" "c < 6 \<Longrightarrow> bit x (s + (5 - c))"
    unfolding bit_drop_bit_eq o_def by blast
  have "leading_zeros x = 26 - s + c"
    unfolding leading_zeros_def
  proof (rule takeWhile_upt)
    fix i assume i: "i < 26 - s + c"
    show "\<not> bit x (31 - i)"
    proof (cases "i < 26 - s")
      case True
      then show ?thesis by (intro clear) simp
    next
      case False
      then have "31 - i = s + (5 - (i - (26 - s)))" using assms(2) c(2) i by simp
      moreover have "i - (26 - s) < c" using i False by simp
      ultimately show ?thesis using c(3) [of "i - (26 - s)"] by metis
    qed
  next
    assume "26 - s + c < 32"
    show "\<not> \<not> bit x (31 - (26 - s + c))"
    proof (cases "c < 6")
      case True
      then have "31 - (26 - s + c) = s + (5 - c)" using assms(2) by simp
      then show ?thesis using c(4) [OF True] by metis
    next
      case False
      then have "c = 6" using c(2) by simp
      have "\<not> bit (drop_bit s x) i" for i
        using c(3) [of "5 - i"] clear [of "s + i"] \<open>c = 6\<close> by (cases "i < 6") (auto simp: bit_simps)
      then have "drop_bit s x = 0" by (auto intro: bit_word_eqI)
      then show ?thesis using assms(3) \<open>26 - s + c < 32\<close> \<open>c = 6\<close> by simp
    qed
  qed (use assms(2) c(2) in simp)
  then show ?thesis using c by blast
qed

lemma clz32_correct: "clz32 x = Some (word_of_nat (leading_zeros x))"
proof -
  note [simp] = drop_bit_drop_bit
  have lookup: "map_option (\<lambda>r. r + k) (ldrb_table clz6_table (drop_bit s x)) = Some (word_of_nat (leading_zeros x))"
    if "drop_bit (s + 6) x = 0" "s \<le> 26" "drop_bit s x \<noteq> 0 \<or> s = 0" "k = word_of_nat (26 - s)" for s k
    using leading_zeros_window [OF that(1-3)] that(4) by (auto simp: add.commute)
  have mono: "drop_bit b x = 0" if "drop_bit a x = 0" "a \<le> b" for a b
    using that drop_bit_drop_bit [of "b - a" a x] by simp
  show ?thesis
    using lookup [of 26 0] lookup [of 20 6] lookup [of 16 "12 - 2"] lookup [of 10 16] lookup [of 4 22]
      lookup [of 0 "28 - 2"] mono [of 20 22] mono [of 4 6]
    by (auto simp: clz32_def Let_def option.map_ident)
qed


text \<open>The same for \<open>ctz32\<close>: the six bits from \<open>s\<close> on, when the bits below are clear.\<close>

lemma push_bit_zero_iff: "push_bit k (x :: u32) = 0 \<longleftrightarrow> (\<forall>i < 32 - k. \<not> bit x i)"
proof
  assume z: "push_bit k x = 0"
  show "\<forall>i < 32 - k. \<not> bit x i"
  proof (intro allI impI)
    fix i assume "i < 32 - k"
    then show "\<not> bit x i" using arg_cong [OF z, of "\<lambda>w. bit w (i + k)"] by (simp add: bit_simps)
  qed
next
  assume "\<forall>i < 32 - k. \<not> bit x i"
  then show "push_bit k x = 0" by (intro bit_word_eqI) (auto simp: bit_simps)
qed

lemma trailing_zerosI:
  "c \<le> 32 \<Longrightarrow> (\<And>i. i < c \<Longrightarrow> \<not> bit x i) \<Longrightarrow> (c < 32 \<Longrightarrow> bit x c) \<Longrightarrow> trailing_zeros x = c"
  unfolding trailing_zeros_def by (rule takeWhile_upt) auto

lemma trailing_zeros_window:
  assumes "\<forall>i < s. \<not> bit x i" "s \<le> 26" "push_bit (26 - s) x \<noteq> 0 \<or> s = 26"
  shows "\<exists>c. ldrb_table ctz6_table (drop_bit 26 (push_bit (26 - s) x)) = Some (word_of_nat c) \<and>
      trailing_zeros x = s + c"
proof -
  let ?v = "drop_bit 26 (push_bit (26 - s) x)"
  have v: "bit ?v i \<longleftrightarrow> i < 6 \<and> bit x (s + i)" for i
    using assms(2) by (auto simp: bit_simps add.commute [of s] dest: bit_imp_le_length)
  have "unat ?v < 64" using unat_less_pow2 [of ?v 6] v by simp
  from ctz6 [OF this] obtain c where c: "ldrb_table ctz6_table ?v = Some (word_of_nat c)" "c \<le> 6"
      "\<And>i. i < c \<Longrightarrow> \<not> bit x (s + i)" "c < 6 \<Longrightarrow> bit x (s + c)"
    unfolding v by force
  have "trailing_zeros x = s + c"
  proof (rule trailing_zerosI)
    fix i assume "i < s + c"
    then show "\<not> bit x i" using assms(1) c(3) [of "i - s"] by (cases "i < s") auto
  next
    assume "s + c < 32"
    have "c < 6"
    proof (rule ccontr)
      assume "\<not> c < 6"
      then have "\<forall>i < s + 6. \<not> bit x i"
        using assms(1) c(2,3) by (metis le_neq_implies_less less_diff_conv2 not_less add.commute le_add_diff_inverse)
      then show False
        using assms(2,3) \<open>s + c < 32\<close> \<open>\<not> c < 6\<close> c(2) by (auto simp: push_bit_zero_iff)
    qed
    then show "bit x (s + c)" by (rule c(4))
  qed (use assms(2) c(2) in simp)
  then show ?thesis using c(1) by blast
qed

lemma trailing_zeros_window4:
  assumes "\<forall>i < s. \<not> bit x i" "s \<le> 28" "push_bit (28 - s) x \<noteq> 0"
  shows "\<exists>c. ldrb_table ctz6_table (drop_bit 28 (push_bit (28 - s) x) + 16) = Some (word_of_nat c) \<and>
      trailing_zeros x = s + c"
proof -
  let ?v = "drop_bit 28 (push_bit (28 - s) x)"
  have v: "bit ?v i \<longleftrightarrow> i < 4 \<and> bit x (s + i)" for i
    using assms(2) by (auto simp: bit_simps add.commute [of s] dest: bit_imp_le_length)
  have "unat ?v < 16" using unat_less_pow2 [of ?v 4] v by simp
  moreover obtain j where j: "j < 4 + s" "bit x j" using assms(2,3) by (auto simp: push_bit_zero_iff)
  then have "bit ?v (j - s)" using assms(1) v [of "j - s"] by (cases "j < s") auto
  then have "?v \<noteq> 0" by auto
  ultimately obtain c where c: "ldrb_table ctz6_table (?v + 16) = Some (word_of_nat c)" "c < 4"
      "\<And>i. i < c \<Longrightarrow> \<not> bit x (s + i)" "bit x (s + c)"
    using ctz4 [of ?v] unfolding v by auto
  have "trailing_zeros x = s + c"
  proof (rule trailing_zerosI)
    fix i assume "i < s + c"
    then show "\<not> bit x i" using assms(1) c(3) [of "i - s"] by (cases "i < s") auto
  qed (use assms(2) c in simp_all)
  then show ?thesis using c(1) by blast
qed

lemma ctz32_correct: "ctz32 x = Some (word_of_nat (trailing_zeros x))"
proof -
  have lookup: "map_option (\<lambda>r. r + k) (ldrb_table ctz6_table (drop_bit 26 (push_bit (26 - s) x)))
      = Some (word_of_nat (trailing_zeros x))"
    if "\<forall>i < s. \<not> bit x i" "s \<le> 26" "push_bit (26 - s) x \<noteq> 0 \<or> s = 26" "k = word_of_nat s" for s k
    using trailing_zeros_window [OF that(1-3)] that(4) by (auto simp: add.commute)
  have lookup4: "map_option (\<lambda>r. r + k) (ldrb_table ctz6_table (drop_bit 28 (push_bit (28 - s) x) + 16))
      = Some (word_of_nat (trailing_zeros x))"
    if "\<forall>i < s. \<not> bit x i" "s \<le> 28" "push_bit (28 - s) x \<noteq> 0" "k = word_of_nat s" for s k
    using trailing_zeros_window4 [OF that(1-3)] that(4) by (auto simp: add.commute)
  have push: "push_bit 6 (push_bit k x) = push_bit (k + 6) x" for k
    by (simp add: push_bit_push_bit add.commute)
  have z: "(\<forall>i < 4. \<not> bit x i) = (push_bit 28 x = 0)" "(\<forall>i < 10. \<not> bit x i) = (push_bit 22 x = 0)"
      "(\<forall>i < 16. \<not> bit x i) = (push_bit 16 x = 0)" "(\<forall>i < 20. \<not> bit x i) = (push_bit 12 x = 0)"
      "(\<forall>i < 26. \<not> bit x i) = (push_bit 6 x = 0)"
    by (simp_all add: push_bit_zero_iff)
  have p: "push_bit 6 (push_bit 16 x) = push_bit 22 x" "push_bit 6 (push_bit 22 x) = push_bit 28 x"
      "push_bit 6 (push_bit 6 x) = push_bit 12 x"
    by (simp_all add: push)
  show ?thesis
    using lookup [of 10 10] lookup [of 4 4] lookup4 [of 0 0] lookup [of 26 26] lookup [of 20 20]
      lookup4 [of 16 16]
    by (auto simp: ctz32_def Let_def p z option.map_ident)
qed

subsection \<open>Counting bits\<close>

text \<open>
  A number as a list of fields of \<open>k\<close> bits, the lowest first. Additions work on the fields one
  by one, masks and shifts too as long as the fields do not overflow.
\<close>

abbreviation fields :: "nat \<Rightarrow> nat list \<Rightarrow> nat" where
  "fields k \<equiv> horner_sum id (2 ^ k)"

lemma bit_field:
  assumes "a < 2 ^ k"
  shows "bit (a + 2 ^ k * c :: nat) n \<longleftrightarrow> (if n < k then bit a n else bit c (n - k))"
proof -
  have a: "bit a n \<Longrightarrow> n < k" for n
    using assms by (metis bit_take_bit_iff take_bit_nat_eq_self)
  have "a + 2 ^ k * c = a + push_bit k c" by (simp add: push_bit_eq_mult mult.commute)
  also have "bit \<dots> n \<longleftrightarrow> bit a n \<or> bit (push_bit k c) n"
    by (rule bit_disjunctive_add_iff) (auto simp: bit_push_bit_iff dest!: a)
  finally show ?thesis using a by (auto simp: bit_simps)
qed

lemma and_field:
  assumes "a < 2 ^ k" "b < 2 ^ k"
  shows "(a + 2 ^ k * c) AND (b + 2 ^ k * d) = (a AND b) + 2 ^ k * (c AND d :: nat)"
proof -
  have "a AND b < 2 ^ k"
    using assms by (metis take_bit_and take_bit_nat_eq_self take_bit_nat_less_exp)
  then show ?thesis by (intro bit_eqI) (simp add: bit_field assms bit_and_iff)
qed

lemma fields_and:
  "length xs = length ys \<Longrightarrow> \<forall>x \<in> set xs. x < 2 ^ k \<Longrightarrow> \<forall>y \<in> set ys. y < 2 ^ k \<Longrightarrow>
     fields k xs AND fields k ys = fields k (map2 (AND) xs ys)"
  by (induction xs ys rule: list_induct2) (simp_all add: and_field)

lemma length_filter_sum: "length (filter P xs) = (\<Sum>x \<leftarrow> xs. of_bool (P x))"
  by (induction xs) simp_all

lemma unat_bits: "unat (x :: u32) = fields 1 (map (\<lambda>i. of_bool (bit x i)) [0..<32])"
proof -
  have "unat x = take_bit 32 (unat x)" by (simp add: take_bit_nat_eq_self)
  also have "\<dots> = horner_sum of_bool 2 (map (bit (unat x)) [0..<32])"
    by (simp only: horner_sum_bit_eq_take_bit)
  finally show ?thesis by (simp add: horner_sum_foldr foldr_map o_def bit_unsigned_iff)
qed

lemma upt_0_32: "[0..<32] = [0, 1, 2, 3, 4, 5, 6, 7, 8, 9, 10, 11, 12, 13, 14, 15, 16, 17, 18, 19, 20, 21, 22, 23, 24, 25, 26, 27, 28, 29, 30, 31]"
  by code_simp

lemma upt_0_11: "[0..<11] = [0, 1, 2, 3, 4, 5, 6, 7, 8, 9, 10]"
  by code_simp

lemma fields_1_3:
  "b 32 = 0 \<Longrightarrow> fields 1 (map b [0..<32]) =
     fields 3 (map (\<lambda>j. b (3 * j) + 2 * (b (3 * j + 1) + 2 * b (3 * j + 2))) [0..<11])"
  unfolding upt_0_32 upt_0_11 by (simp add: numeral_2_eq_2 [symmetric])

text \<open>Every third bit of a word, from \<open>lsr\<close> and the mask \<open>0x49249249\<close>.\<close>

lemma fields_drop: "c < 2 ^ k \<Longrightarrow> fields k (c # cs) div 2 ^ k = fields k cs"
  by simp

lemma unat_lsr: "unat (drop_bit k r :: u32) = unat r div 2 ^ k"
  by (subst unat_drop_bit_eq) (rule drop_bit_eq_div)

lemma middle_field:
  fixes p t l h :: nat
  assumes "p = l + 2 ^ 26 * t + 2 ^ 32 * h" "l < 2 ^ 26" "t < 64"
  shows "p mod 2 ^ 32 div 2 ^ 26 = t"
proof -
  have "p mod 2 ^ 32 = l + 2 ^ 26 * t" using assms by simp
  then show ?thesis using assms by simp
qed

lemma low_field: "a < 2 ^ k \<Longrightarrow> a AND (2 ^ k - 1) = (a :: nat)"
  using take_bit_nat_eq_self [of a k] by (simp add: take_bit_eq_mask mask_eq_exp_minus_1)

lemma low_bit: "(of_bool p + 2 * c) AND 1 = (of_bool p :: nat)"
  by (simp add: and_one_eq)

lemma every_third_bit:
  "unat (y AND 0x49249249 :: u32) = fields 3 (map (\<lambda>j. of_bool (bit y (3 * j))) [0..<11])"
proof -
  let ?b = "\<lambda>i. of_bool (bit y i) :: nat"
  let ?f = "\<lambda>j. ?b (3 * j) + 2 * (?b (3 * j + 1) + 2 * ?b (3 * j + 2))"
  have "\<not> bit y 32" by (auto dest: bit_imp_le_length)
  then have "unat y = fields 3 (map ?f [0..<11])"
    unfolding unat_bits [of y] by (intro fields_1_3) simp
  moreover have "unat (0x49249249 :: u32) = fields 3 (map (\<lambda>_. 1) [0..<11])"
    unfolding upt_0_11 by simp
  ultimately have "unat (y AND 0x49249249) = fields 3 (map ?f [0..<11]) AND fields 3 (map (\<lambda>_. 1) [0..<11])"
    by (simp only: unsigned_and_eq)
  also have "\<dots> = fields 3 (map2 (AND) (map ?f [0..<11]) (map (\<lambda>_. 1) [0..<11]))"
    by (intro fields_and) (auto simp: of_bool_def)
  finally show ?thesis by (simp only: map2_map_map low_bit)
qed

text \<open>The rest of the routine on the eleven sums of three bits.\<close>

lemma popcount_fields:
  fixes r :: u32
  assumes r: "unat r = fields 3 [c0, c1, c2, c3, c4, c5, c6, c7, c8, c9, c10]"
    and c: "c0 \<le> 3" "c1 \<le> 3" "c2 \<le> 3" "c3 \<le> 3" "c4 \<le> 3" "c5 \<le> 3" "c6 \<le> 3" "c7 \<le> 3" "c8 \<le> 3" "c9 \<le> 3" "c10 \<le> 2"
  defines "r2 \<equiv> (r + drop_bit 3 r) AND 0xC71C71C7"
  shows "drop_bit 26 ((r2 + drop_bit 6 r2) * 0x04004004) = word_of_nat (c0 + c1 + c2 + c3 + c4 + c5 + c6 + c7 + c8 + c9 + c10)"
proof -
  have "unat (drop_bit 3 r) = fields 3 [c1, c2, c3, c4, c5, c6, c7, c8, c9, c10, 0]"
    using c(1) unfolding unat_lsr r by (subst fields_drop) simp_all
  then have "unat (r + drop_bit 3 r) = fields 3 [c0 + c1, c1 + c2, c2 + c3, c3 + c4, c4 + c5, c5 + c6, c6 + c7, c7 + c8, c8 + c9, c9 + c10, c10]"
    using c by (subst unat_plus_noof) (simp_all add: r)
  moreover have "unat (0xC71C71C7 :: u32) = fields 3 [7, 0, 7, 0, 7, 0, 7, 0, 7, 0, 3]"
    by simp
  ultimately have "unat r2 = fields 3 [c0 + c1, c1 + c2, c2 + c3, c3 + c4, c4 + c5, c5 + c6, c6 + c7, c7 + c8, c8 + c9, c9 + c10, c10] AND fields 3 [7, 0, 7, 0, 7, 0, 7, 0, 7, 0, 3]"
    by (simp only: r2_def unsigned_and_eq)
  also have "\<dots> = fields 3 (map2 (AND) [c0 + c1, c1 + c2, c2 + c3, c3 + c4, c4 + c5, c5 + c6, c6 + c7, c7 + c8, c8 + c9, c9 + c10, c10] [7, 0, 7, 0, 7, 0, 7, 0, 7, 0, 3])"
    using c by (intro fields_and) auto
  also have "map2 (AND) [c0 + c1, c1 + c2, c2 + c3, c3 + c4, c4 + c5, c5 + c6, c6 + c7, c7 + c8, c8 + c9, c9 + c10, c10] [7, 0, 7, 0, 7, 0, 7, 0, 7, 0, 3] =
      [c0 + c1, 0, c2 + c3, 0, c4 + c5, 0, c6 + c7, 0, c8 + c9, 0, c10]"
    using c low_field [where k = 3] low_field [where k = 2] by simp
  finally have r2: "unat r2 = fields 6 [c0 + c1, c2 + c3, c4 + c5, c6 + c7, c8 + c9, c10]"
    by simp
  have "unat (drop_bit 6 r2) = fields 6 [c2 + c3, c4 + c5, c6 + c7, c8 + c9, c10]"
    using c unfolding unat_lsr r2 by (subst fields_drop) simp_all
  then have e: "unat (r2 + drop_bit 6 r2) = fields 6 [c0 + c1 + (c2 + c3), c2 + c3 + (c4 + c5), c4 + c5 + (c6 + c7), c6 + c7 + (c8 + c9), c8 + c9 + (c10), c10]"
    using c by (subst unat_plus_noof) (simp_all add: r2)
  let ?t = "c0 + c1 + c2 + c3 + c4 + c5 + c6 + c7 + c8 + c9 + c10"
  have "unat ((r2 + drop_bit 6 r2) * 0x04004004) = (unat (r2 + drop_bit 6 r2) * 0x04004004) mod 2 ^ 32"
    by (subst unat_word_ariths(2)) (simp only: word_size unat_numeral, simp)
  also have "\<dots> div 2 ^ 26 = ?t"
  proof (rule middle_field)
    show "unat (r2 + drop_bit 6 r2) * 0x04004004 = (4 * (c0 + c1 + c2 + c3) + 256 * (c2 + c3 + c4 + c5) + 16384 * (c0 + c1 + c2 + c3) + 16384 * (c4 + c5 + c6 + c7) + 1048576 * (c2 + c3 + c4 + c5) + 1048576 * (c6 + c7 + c8 + c9)) + 2 ^ 26 * ?t + 2 ^ 32 * (1 * (c2 + c3 + c4 + c5) + 1 * (c6 + c7 + c8 + c9) + 1 * (c10) + 64 * (c4 + c5 + c6 + c7) + 64 * (c8 + c9 + c10) + 4096 * (c6 + c7 + c8 + c9) + 4096 * (c10) + 262144 * (c8 + c9 + c10) + 16777216 * (c10))"
      unfolding e by simp
  qed (use c in simp_all)
  finally have "unat (drop_bit 26 ((r2 + drop_bit 6 r2) * 0x04004004)) = ?t"
    by (simp only: unat_lsr)
  then show ?thesis by (metis of_nat_unat ucast_id)
qed

lemma popcount32_correct: "popcount32 x = word_of_nat (popcount_ref x)"
proof -
  let ?b = "\<lambda>i. of_bool (bit x i) :: nat"
  let ?c = "\<lambda>j. ?b (3 * j) + ?b (3 * j + 1) + ?b (3 * j + 2)"
  let ?M = "0x49249249 :: u32"
  let ?r = "(x AND ?M) + (drop_bit 1 x AND ?M) + (drop_bit 2 x AND ?M)"
  have hi: "\<not> bit x 32" by (auto dest: bit_imp_le_length)
  have third: "unat (drop_bit k x AND ?M) = fields 3 (map (\<lambda>j. ?b (k + 3 * j)) [0..<11])" for k
    by (simp add: every_third_bit bit_drop_bit_eq)
  have small: "unat (y AND ?M) \<le> 1227133513" for y
    using word_and_le1 [of y ?M] by (simp add: word_le_nat_alt)
  have "unat ?r = unat (x AND ?M) + unat (drop_bit 1 x AND ?M) + unat (drop_bit 2 x AND ?M)"
    using small [of x] small [of "drop_bit 1 x"] small [of "drop_bit 2 x"]
    by (simp add: unat_plus_noof del: drop_bit_eq_div)
  also have "\<dots> = fields 3 (map ?c [0..<11])"
    using third [of 0] third [of 1] third [of 2] unfolding upt_0_11
    by (simp add: numeral_2_eq_2 [symmetric])
  also have "map ?c [0..<11] = [?c 0, ?c 1, ?c 2, ?c 3, ?c 4, ?c 5, ?c 6, ?c 7, ?c 8, ?c 9, ?c 10]"
    unfolding upt_0_11 by simp
  finally have r: "unat ?r = fields 3 [?c 0, ?c 1, ?c 2, ?c 3, ?c 4, ?c 5, ?c 6, ?c 7, ?c 8, ?c 9, ?c 10]" .
  have "popcount32 x = word_of_nat (?c 0 + ?c 1 + ?c 2 + ?c 3 + ?c 4 + ?c 5 + ?c 6 + ?c 7 + ?c 8 + ?c 9 + ?c 10)"
    using popcount_fields [OF r] hi by (simp add: popcount32_def Let_def)
  also have "?c 0 + ?c 1 + ?c 2 + ?c 3 + ?c 4 + ?c 5 + ?c 6 + ?c 7 + ?c 8 + ?c 9 + ?c 10 = popcount_ref x"
    using hi unfolding popcount_ref_def length_filter_sum upt_0_32 by (simp add: numeral_2_eq_2 [symmetric])
  finally show ?thesis .
qed

subsection \<open>The four routines\<close>

text \<open>
  C19. For every argument the bit functions of the ROM compute what their names say: the number
  of bits set, the bits in reverse order, and the number of leading and of trailing zeros (32 for
  zero); no table is read outside its bounds.
\<close>

theorem bit_functions_correct:
  "popcount32 x = word_of_nat (length (filter (bit x) [0..<32])) \<and>
   (bit (reverse32 x) n \<longleftrightarrow> n < 32 \<and> bit x (31 - n)) \<and>
   clz32 x = Some (word_of_nat (length (takeWhile (\<lambda>i. \<not> bit x (31 - i)) [0..<32]))) \<and>
   ctz32 x = Some (word_of_nat (length (takeWhile (\<lambda>i. \<not> bit x i) [0..<32])))"
  using popcount32_correct [of x] reverse32_bit [of x n] clz32_correct [of x] ctz32_correct [of x]
  by (simp add: popcount_ref_def leading_zeros_def trailing_zeros_def)

end
