(* ===== verification/Rom_Routines.thy ===== *)
theory Rom_Routines
  imports Bit_Functions
begin

section \<open>Checksum and text routines of the ROM (assembler)\<close>

text \<open>
  \<open>crc32_small\<close> and \<open>poor_mans_text_decompress\<close> of \<open>bootrom/bootrom_misc.S\<close>, on the byte memory
  and the registers. A loop whose branch tests the zero flag of an increment need not end, and is
  a \<open>partial_function\<close>. For the callers there are list versions, which the memory versions are proved to
  compute: \<open>crc32_small\<close> reads the bytes of a list, and \<open>poor_mans_text_decompress\<close> gives the bytes
  that are stored.
\<close>

subsection \<open>crc32_small\<close>

text \<open>The loop over the eight bits of \<open>r4\<close>; \<open>lsl\<close> moves the top bit into the carry flag.\<close>

fun crc_bit_loop :: "nat \<Rightarrow> u32 \<Rightarrow> u32" where
  "crc_bit_loop 0 r4 = r4"
| "crc_bit_loop (Suc r3) r4 =
     (let c = bit r4 31;
          r4 = push_bit 1 r4;
          r4 = (if c then r4 XOR 0x4c11db7 else r4)
      in crc_bit_loop r3 r4)"

definition crc_byte :: "u8 \<Rightarrow> u32 \<Rightarrow> u32" where
  "crc_byte b r2 =
     (let r4 = ucast b;
          r3 = rev_bytes r2;
          r4 = r4 XOR r3;
          r4 = push_bit 24 r4;
          r4 = crc_bit_loop 8 r4;
          r2 = push_bit 8 r2
      in r2 XOR r4)"

lemma sint_suc:
  fixes a b :: u32
  assumes "sint a < sint b"
  shows "sint (a + 1) = sint a + 1"
proof -
  have "sint (a + 1) = signed_take_bit 31 (sint a + 1)"
    by (simp add: sint_word_ariths)
  also have "\<dots> = sint a + 1"
    using assms sint_ge [of a] sint_lt [of b] by (intro signed_take_bit_int_eq_self) simp_all
  finally show ?thesis .
qed

text \<open>The branch \<open>blt\<close> compares the pointers as signed numbers.\<close>

function crc_loop :: "memory \<Rightarrow> u32 \<Rightarrow> u32 \<Rightarrow> u32 \<Rightarrow> u32" where
  "crc_loop m r0 r1 r2 =
     (if sint r0 < sint r1 then crc_loop m (r0 + 1) r1 (crc_byte (m r0) r2) else r2)"
  by pat_completeness auto

termination
  by (relation "measure (\<lambda>(m, r0, r1, r2). nat (sint r1 - sint r0))") (auto simp: sint_suc)

declare crc_loop.simps [simp del]

definition crc32_small_at :: "memory \<Rightarrow> u32 \<Rightarrow> u32 \<Rightarrow> u32 \<Rightarrow> u32" where
  "crc32_small_at m r0 r1 r2 = (let r1 = r1 + r0 in crc_loop m r0 r1 r2)"

fun crc32_small :: "u8 list \<Rightarrow> u32 \<Rightarrow> u32" where
  "crc32_small [] r2 = r2"
| "crc32_small (b # bs) r2 = crc32_small bs (crc_byte b r2)"

text \<open>The reference: every bit of the message, the most significant one of a byte first.\<close>

definition crc_shift :: "u32 \<Rightarrow> u32" where
  "crc_shift c = (if bit c 31 then push_bit 1 c XOR 0x04c11db7 else push_bit 1 c)"

definition crc32_reference :: "u8 list \<Rightarrow> u32 \<Rightarrow> u32" where
  "crc32_reference bytes seed =
     foldl (\<lambda>c b. (crc_shift ^^ 8) (c XOR push_bit 24 (ucast b))) seed bytes"

subsection \<open>The checksum is the reference\<close>

lemma crc_bit_loop_shift: "crc_bit_loop n r = (crc_shift ^^ n) r"
  by (induction n arbitrary: r) (simp_all add: Let_def crc_shift_def funpow_swap1)

lemma crc_shift_xor: "crc_shift (a XOR b) = crc_shift a XOR crc_shift b"
  by (rule bit_word_eqI) (auto simp: crc_shift_def bit_simps)

lemma crc_shifts_xor: "(crc_shift ^^ n) (a XOR b) = (crc_shift ^^ n) a XOR (crc_shift ^^ n) b"
  by (induction n) (simp_all add: crc_shift_xor)

text \<open>As long as no bit reaches the top, shifting is a plain shift.\<close>

lemma crc_shifts_low:
  assumes "n \<le> 32" "\<And>i. 32 - n \<le> i \<Longrightarrow> \<not> bit c i"
  shows "(crc_shift ^^ n) c = push_bit n c"
  using assms
proof (induction n)
  case (Suc n)
  have IH: "(crc_shift ^^ n) c = push_bit n c" using Suc.prems by (intro Suc.IH) auto
  have "\<not> bit (push_bit n c) 31" using Suc.prems(1) Suc.prems(2) [of "31 - n"] by (auto simp: bit_simps)
  then have "crc_shift (push_bit n c) = push_bit 1 (push_bit n c)"
    unfolding crc_shift_def by (simp only: if_False)
  then show ?case by (simp only: funpow.simps comp_apply IH push_bit_push_bit plus_1_eq_Suc)
qed simp

lemma crc_byte_reference: "crc_byte b r2 = (crc_shift ^^ 8) (r2 XOR push_bit 24 (ucast b))"
proof -
  let ?hi = "push_bit 24 (drop_bit 24 r2)" and ?lo = "take_bit 24 r2"
  have "push_bit 24 (rev_bytes r2) = ?hi"
    by (rule bit_word_eqI) (auto simp: bit_push_bit_iff bit_drop_bit_eq bit_rev_bytes split: if_splits)
  then have r4: "push_bit 24 (ucast b XOR rev_bytes r2) = push_bit 24 (ucast b) XOR ?hi"
    by (simp add: push_bit_xor)
  have lo: "(crc_shift ^^ 8) ?lo = push_bit 8 r2"
  proof -
    have "(crc_shift ^^ 8) ?lo = push_bit 8 ?lo"
      by (rule crc_shifts_low) (auto simp: bit_simps)
    also have "\<dots> = push_bit 8 r2" by (rule bit_word_eqI) (auto simp: bit_simps)
    finally show ?thesis .
  qed
  have "r2 XOR push_bit 24 (ucast b) = ?lo XOR (push_bit 24 (ucast b) XOR ?hi)"
    by (rule bit_word_eqI) (auto simp: bit_simps)
  then show ?thesis
    unfolding crc_byte_def Let_def crc_bit_loop_shift r4 by (simp only: crc_shifts_xor lo)
qed

lemma crc32_small_reference: "crc32_small bytes seed = crc32_reference bytes seed"
  by (induction bytes arbitrary: seed) (simp_all add: crc32_reference_def crc_byte_reference)

lemma sint_add_nat: "sint (a + word_of_nat n :: u32) = signed_take_bit 31 (sint a + int n)"
proof -
  have "a + word_of_nat n = word_of_int (sint a + int n)" by simp
  then show ?thesis using sint_sbintrunc' [of "sint a + int n", where 'a = 32] by simp
qed

lemma crc_loop_list:
  "sint a + int n < 2 ^ 31 \<Longrightarrow> crc_loop m a (a + word_of_nat n) c = crc32_small (mem_read m a n) c"
proof (induction n arbitrary: a c)
  case 0
  then show ?case by (simp add: crc_loop.simps)
next
  case (Suc n)
  have e: "sint (a + word_of_nat (Suc n)) = sint a + int (Suc n)"
    unfolding sint_add_nat by (rule signed_take_bit_int_eq_self) (use Suc.prems sint_ge [of a] in simp_all)
  have "sint a < sint (a + word_of_nat (Suc n))"
    using Suc.prems e by simp
  moreover have "sint (a + 1) = sint a + 1" using sint_suc calculation by blast
  then have "crc_loop m (a + 1) (a + 1 + word_of_nat n) (crc_byte (m a) c) = crc32_small (mem_read m (a + 1) n) (crc_byte (m a) c)"
    using Suc.prems by (intro Suc.IH) simp
  ultimately show ?case by (subst crc_loop.simps) (simp add: ac_simps)
qed

text \<open>
  C17. \<open>crc32_small\<close> computes the CRC-32 of its reference definition, bit by bit and the top bit of
  a byte first, for every memory, start and seed, except that a block that reaches across the
  address \<open>0x80000000\<close> is not read at all: the end is compared as a signed number.
\<close>

theorem crc32_small_correct:
  "crc32_small_at m start len seed =
     (if sint start + int (unat len) < 2 ^ 31 then crc32_reference (mem_read m start (unat len)) seed else seed)"
proof (cases "sint start + int (unat len) < 2 ^ 31")
  case True
  then show ?thesis
    using crc_loop_list [of start "unat len"] by (simp add: crc32_small_at_def crc32_small_reference add.commute)
next
  case False
  let ?e = "start + word_of_nat (unat len)"
  have len: "uint len < 2 ^ 32" using uint_lt2p [of len] by simp
  have "sint ?e = take_bit 32 (sint start + uint len + 2 ^ 31) - 2 ^ 31"
    unfolding sint_add_nat signed_take_bit_eq_take_bit_shift by simp
  also have "take_bit 32 (sint start + uint len + 2 ^ 31) = sint start + uint len + 2 ^ 31 - 2 ^ 32"
  proof -
    have "sint start + uint len + 2 ^ 31 - 2 ^ 32 < 2 ^ 32" "0 \<le> sint start + uint len + 2 ^ 31 - 2 ^ 32"
      using False len sint_lt [of start] by simp_all
    then have "(sint start + uint len + 2 ^ 31 - 2 ^ 32) mod 2 ^ 32 = sint start + uint len + 2 ^ 31 - 2 ^ 32"
      by (intro mod_pos_pos_trivial)
    then show ?thesis unfolding take_bit_eq_mod minus_mod_self2 .
  qed
  finally have "\<not> sint start < sint ?e" using len by simp
  then show ?thesis using False by (simp add: crc32_small_at_def crc_loop.simps add.commute)
qed

text \<open>The register over parts of a message, and over zeros.\<close>

lemma crc32_small_append: "crc32_small (xs @ ys) c = crc32_small ys (crc32_small xs c)"
  by (induction xs arbitrary: c) simp_all

lemma crc_shift_zero_iff: "crc_shift c = 0 \<longleftrightarrow> c = 0"
proof
  assume z: "crc_shift c = 0"
  have "\<not> bit c 31"
  proof
    assume "bit c 31"
    then have "push_bit 1 c XOR 0x04c11db7 = 0" using z unfolding crc_shift_def by (simp only: if_True)
    then have "\<not> bit (push_bit 1 c XOR 0x04c11db7) 0" by simp
    moreover have "bit (push_bit 1 c XOR 0x04c11db7) 0" unfolding bit_xor_iff bit_push_bit_iff by simp
    ultimately show False by blast
  qed
  then have "push_bit 1 c = 0" using z unfolding crc_shift_def by (simp only: if_False)
  then have low: "\<not> bit c i" if "i < 31" for i using push_bit_zero_iff [of 1 c] that by simp
  have "\<not> bit c i" if "i < 32" for i
    using low [of i] \<open>\<not> bit c 31\<close> that by (cases "i = 31") simp_all
  then show "c = 0" by (intro bit_word_eqI) simp
qed (simp add: crc_shift_def)

lemma crc_byte_zero_iff: "crc_byte 0 c = 0 \<longleftrightarrow> c = 0"
proof -
  have "(crc_shift ^^ n) c = 0 \<longleftrightarrow> c = 0" for n by (induction n) (simp_all add: crc_shift_zero_iff)
  then show ?thesis by (simp add: crc_byte_reference)
qed

lemma crc32_small_zeros: "crc32_small (replicate n 0) c = 0 \<longleftrightarrow> c = 0"
  by (induction n arbitrary: c) (simp_all add: crc_byte_zero_iff)

subsection \<open>poor_mans_text_decompress\<close>

lemma unat_count_up:
  assumes "r + 1 \<noteq> (0 :: u32)"
  shows "unat (- 2 - r) < unat (- r - 1)"
proof -
  have ne: "- r - 1 \<noteq> 0"
  proof
    assume "- r - 1 = 0"
    then have "- (r + 1) = 0" by simp
    then show False using assms by (simp only: neg_equal_0_iff_equal)
  qed
  have "- 2 - r = - r - 1 - 1" by simp
  then show ?thesis using unat_minus_one [OF ne] ne by (simp add: unat_gt_0)
qed

text \<open>
  The copy loop: \<open>r4\<close> and \<open>r2\<close> are the ends of the source and of the destination, \<open>r5\<close> counts
  from minus the length up to zero.
\<close>

function text_copy :: "memory \<Rightarrow> u32 \<Rightarrow> u32 \<Rightarrow> u32 \<Rightarrow> memory" where
  "text_copy m r2 r4 r5 =
     (let r3 = m (r4 + r5);
          m = m(r2 + r5 := r3);
          r5 = r5 + 1
      in if r5 \<noteq> 0 then text_copy m r2 r4 r5 else m)"
  by pat_completeness auto

termination
  by (relation "measure (\<lambda>(m, r2, r4, r5). unat (- r5 - 1))") (auto simp: unat_count_up)

declare text_copy.simps [simp del]

text \<open>
  The loop over the compressed bytes: \<open>r0\<close> is their end and \<open>r1\<close> counts up to zero. The top bit of
  the byte goes through the carry flag into \<open>r5\<close>; the second subtraction takes the carry of the
  addition before it.
\<close>

partial_function (option) text_loop :: "memory \<Rightarrow> u32 \<Rightarrow> u32 \<Rightarrow> u32 \<Rightarrow> memory option" where
  "text_loop m r0 r1 r2 =
     (let r3 = m (r0 + r1);
          r2 = r2 + 1
      in if \<not> bit r3 7 then
           (let r5 = - 1;
                m = m(r2 + r5 := r3);
                r1 = r1 + 1
            in if r1 \<noteq> 0 then text_loop m r0 r1 r2 else Some m)
         else
           (let r5 = scast r3;
                r1 = r1 + 1;
                carry = (r1 = 0);
                r4 = ucast (m (r0 + r1));
                r2 = r2 - r5 - (if carry then 0 else 1);
                r4 = r2 - r4;
                m = text_copy m r2 r4 r5;
                r1 = r1 + 1
            in if r1 \<noteq> 0 then text_loop m r0 r1 r2 else Some m))"

definition text_decompress_at :: "memory \<Rightarrow> u32 \<Rightarrow> u32 \<Rightarrow> u32 \<Rightarrow> memory option" where
  "text_decompress_at m r0 r1 r2 = (let r1 = - r1 in text_loop m r0 r1 r2)"

text \<open>
  The bytes that are stored, for compressed data whose pairs are complete and copy from within
  the text before them, as all that \<open>compress\<close> emits.
\<close>

fun copy_text :: "nat \<Rightarrow> nat \<Rightarrow> u8 list \<Rightarrow> u8 list" where
  "copy_text 0 d out = out"
| "copy_text (Suc n) d out = copy_text n d (out @ [out ! (length out - d)])"

fun text_bytes :: "u8 list \<Rightarrow> u8 list \<Rightarrow> u8 list option" where
  "text_bytes [] out = Some out"
| "text_bytes (b # z) out =
     (if \<not> bit b 7 then text_bytes z (out @ [b])
      else
        (case z of
           [] \<Rightarrow> None
         | d # z' \<Rightarrow>
             if 0 < d \<and> unat d \<le> length out then text_bytes z' (copy_text (256 - unat b) (unat d) out)
             else None))"

definition poor_mans_text_decompress :: "u8 list \<Rightarrow> u8 list" where
  "poor_mans_text_decompress z = (case text_bytes z [] of Some text \<Rightarrow> text | None \<Rightarrow> [])"

subsection \<open>The decompressor stores the bytes of the text\<close>

lemma copy_text_append: "\<exists>rest. copy_text n d out = out @ rest \<and> length rest = n"
proof (induction n d out rule: copy_text.induct)
  case (2 n d out)
  then obtain rest where "copy_text n d (out @ [out ! (length out - d)]) = (out @ [out ! (length out - d)]) @ rest"
      "length rest = n" by blast
  then show ?case by simp
qed simp

lemma text_bytes_append: "text_bytes z out = Some text \<Longrightarrow> \<exists>rest. text = out @ rest"
proof (induction z out rule: text_bytes.induct)
  case (2 b z out)
  show ?case
  proof (cases "bit b 7")
    case False
    then show ?thesis using 2 by auto
  next
    case True
    then obtain d z' where "z = d # z'" "text_bytes z' (copy_text (256 - unat b) (unat d) out) = Some text"
        "0 < d" "unat d \<le> length out"
      using "2.prems" by (auto split: list.splits if_splits)
    then obtain rest where "text = copy_text (256 - unat b) (unat d) out @ rest" using "2.IH"(2) True by blast
    then show ?thesis using copy_text_append [of "256 - unat b" "unat d" out] by auto
  qed
qed simp

text \<open>\<open>out\<close> is in memory at \<open>dp\<close>.\<close>

definition text_at :: "memory \<Rightarrow> u32 \<Rightarrow> u8 list \<Rightarrow> bool" where
  "text_at m a bs \<longleftrightarrow> (\<forall>k < length bs. m (a + word_of_nat k) = bs ! k)"

lemma text_at_mem_read: "text_at m a bs \<longleftrightarrow> mem_read m a (length bs) = bs"
  unfolding text_at_def mem_read_conv_map by (subst list_eq_iff_nth_eq) simp

lemma offset_neq:
  assumes "i < j" "j < 2 ^ 32"
  shows "a + word_of_nat i \<noteq> (a + word_of_nat j :: u32)"
proof
  assume "a + word_of_nat i = (a + word_of_nat j :: u32)"
  then have "unat (word_of_nat i :: u32) = unat (word_of_nat j :: u32)" by simp
  then show False using assms unat_of_nat_small [of i, where 'a = 32] unat_of_nat_small [of j, where 'a = 32] by simp
qed

lemma text_atD: "text_at m a bs \<Longrightarrow> k < length bs \<Longrightarrow> m (a + word_of_nat k) = bs ! k"
  by (simp add: text_at_def)

lemma text_at_snoc:
  assumes "text_at m a bs" "length bs < 2 ^ 32"
  shows "text_at (m(a + word_of_nat (length bs) := b)) a (bs @ [b])"
  unfolding text_at_def
proof (intro allI impI)
  fix k assume "k < length (bs @ [b])"
  then consider "k < length bs" | "k = length bs" by fastforce
  then show "(m(a + word_of_nat (length bs) := b)) (a + word_of_nat k) = (bs @ [b]) ! k"
  proof cases
    case 1
    then show ?thesis using assms offset_neq [OF 1 assms(2), of a] text_atD by (simp add: nth_append)
  qed simp
qed

lemma text_copy_correct:
  assumes "text_at m dp out" "0 < n" "0 < d" "d \<le> length out" "length out + n < 2 ^ 32"
    and "e = dp + word_of_nat (length out + n)"
  shows "text_copy m e (e - word_of_nat d) (- word_of_nat n) =
      mem_write m (dp + word_of_nat (length out)) (drop (length out) (copy_text n d out))"
  using assms
proof (induction n arbitrary: m out)
  case (Suc n)
  let ?v = "out ! (length out - d)"
  have src: "e - word_of_nat d + - word_of_nat (Suc n) = dp + word_of_nat (length out - d)"
    using Suc.prems by (simp add: of_nat_diff)
  have dst: "e + - word_of_nat (Suc n) = dp + word_of_nat (length out)"
    using Suc.prems by simp
  have v: "m (dp + word_of_nat (length out - d)) = ?v"
    using Suc.prems(1,3,4) by (intro text_atD) simp_all
  let ?m = "m(dp + word_of_nat (length out) := ?v)"
  have st: "text_at ?m dp (out @ [?v])" using Suc.prems by (intro text_at_snoc) simp_all
  obtain rest where rest: "copy_text n d (out @ [?v]) = (out @ [?v]) @ rest" "length rest = n"
    using copy_text_append by blast
  have "text_copy m e (e - word_of_nat d) (- word_of_nat (Suc n)) =
      (if - word_of_nat (Suc n) + 1 \<noteq> (0 :: u32)
       then text_copy ?m e (e - word_of_nat d) (- word_of_nat (Suc n) + 1) else ?m)"
    by (subst text_copy.simps) (simp only: Let_def src dst v)
  moreover have "- word_of_nat (Suc n) + 1 = (- word_of_nat n :: u32)" by simp
  ultimately have step: "text_copy m e (e - word_of_nat d) (- word_of_nat (Suc n)) =
      (if n = 0 then ?m else text_copy ?m e (e - word_of_nat d) (- word_of_nat n))"
    using offset_neq [of 0 n 0] Suc.prems(5) by (cases "n = 0") simp_all
  show ?case
  proof (cases "n = 0")
    case True
    then show ?thesis unfolding step by simp
  next
    case False
    have "text_copy ?m e (e - word_of_nat d) (- word_of_nat n)
        = mem_write ?m (dp + word_of_nat (length (out @ [?v]))) (drop (length (out @ [?v])) (copy_text n d (out @ [?v])))"
      by (intro Suc.IH st) (use Suc.prems False in simp_all)
    then show ?thesis unfolding step using False by (simp add: rest(1) add.assoc add.commute [of 1])
  qed
qed simp

lemma negative_bytes:
  "\<forall>v \<in> set [128..<256]. scast (word_of_nat v :: u8) = (- word_of_nat (256 - v) :: u32)"
  by code_simp

lemma top_bit_bytes: "\<forall>v \<in> set [0..<256]. bit (word_of_nat v :: u8) 7 = (128 \<le> v)"
  by code_simp

lemma top_bit_byte: "bit (b :: u8) 7 \<longleftrightarrow> 128 \<le> unat b"
proof -
  have "unat b \<in> set [0..<256]" unfolding set_upt by simp
  from bspec [OF top_bit_bytes this] show ?thesis by simp
qed

lemma scast_negative:
  assumes "bit (b :: u8) 7"
  shows "scast b = (- word_of_nat (256 - unat b) :: u32)"
proof -
  have "unat b \<in> set [128..<256]" unfolding set_upt using assms by (simp add: top_bit_byte)
  from bspec [OF negative_bytes this] show ?thesis by simp
qed

text \<open>A block of compressed data that no store within \<open>L\<close> bytes from \<open>dp\<close> reaches.\<close>

definition input_at :: "u32 \<Rightarrow> nat \<Rightarrow> memory \<Rightarrow> u32 \<Rightarrow> u8 list \<Rightarrow> bool" where
  "input_at dp L m a z \<longleftrightarrow>
     (\<forall>k < length z. m (a + word_of_nat k) = z ! k \<and> L \<le> unat (a + word_of_nat k - dp))"

lemma input_at_Cons:
  "input_at dp L m a (b # z) \<longleftrightarrow> m a = b \<and> L \<le> unat (a - dp) \<and> input_at dp L m (a + 1) z"
  unfolding input_at_def by (auto simp: less_Suc_eq_0_disj nth_Cons' add.assoc)

lemma input_at_write:
  assumes "input_at dp L m a z" "i + length bs \<le> L" "L < 2 ^ 32"
  shows "input_at dp L (mem_write m (dp + word_of_nat i) bs) a z"
  unfolding input_at_def
proof (intro allI impI)
  fix k assume "k < length z"
  with assms(1) have k: "m (a + word_of_nat k) = z ! k" "L \<le> unat (a + word_of_nat k - dp)"
    by (auto simp: input_at_def)
  have "unat (a + word_of_nat k - dp - word_of_nat i) = unat (a + word_of_nat k - dp) - i"
    using k(2) assms(2,3) by (subst unat_minus_le) (simp_all add: unat_of_nat_small word_le_nat_alt)
  then have "length bs \<le> unat (a + word_of_nat k - (dp + word_of_nat i))"
    using k(2) assms(2) by (simp add: diff_diff_eq)
  then show "mem_write m (dp + word_of_nat i) bs (a + word_of_nat k) = z ! k \<and> L \<le> unat (a + word_of_nat k - dp)"
    using k assms(2,3) by (simp add: mem_write_other)
qed

lemma mem_write_append:
  "mem_write m a (xs @ ys) = mem_write (mem_write m a xs) (a + word_of_nat (length xs)) ys"
  by (induction xs arbitrary: m a) (simp_all add: ac_simps)

lemma text_at_write:
  assumes "text_at m a bs" "length bs + length cs < 2 ^ 32"
  shows "text_at (mem_write m (a + word_of_nat (length bs)) cs) a (bs @ cs)"
  using assms
proof (induction cs arbitrary: m bs)
  case (Cons c cs)
  have "text_at (m(a + word_of_nat (length bs) := c)) a (bs @ [c])"
    using Cons.prems by (intro text_at_snoc) simp_all
  from Cons.IH [OF this] Cons.prems(2) show ?case
    by (simp add: add.assoc add.commute [of 1] del: fun_upd_apply)
qed simp

lemma text_loop_correct:
  assumes "text_bytes z out = Some text" "z \<noteq> []" "text_at m dp out" "input_at dp (length text) m a z"
    and "length text < 2 ^ 32" "length z < 2 ^ 32" "r0 = a + word_of_nat (length z)"
  shows "text_loop m r0 (- word_of_nat (length z)) (dp + word_of_nat (length out)) =
      Some (mem_write m (dp + word_of_nat (length out)) (drop (length out) text))"
  using assms
proof (induction z out arbitrary: m a rule: text_bytes.induct)
  case (2 b z out)
  let ?w = "dp + word_of_nat (length out)"
  have b: "m (r0 + - word_of_nat (length (b # z))) = b" and z: "input_at dp (length text) m (a + 1) z"
    using "2.prems"(4,7) by (simp_all add: input_at_Cons)
  have r1: "- word_of_nat (length (b # z)) + 1 = (- word_of_nat (length z) :: u32)" by simp
  have nz: "- word_of_nat n \<noteq> (0 :: u32)" if "n \<noteq> 0" "n < 2 ^ 32" for n
    using offset_neq [of 0 n 0] that by simp
  show ?case
  proof (cases "bit b 7")
    case False
    let ?m = "m(?w := b)"
    have t: "text_bytes z (out @ [b]) = Some text" using "2.prems"(1) False by simp
    obtain rest where rest: "text = (out @ [b]) @ rest" using text_bytes_append [OF t] by blast
    have st: "text_at ?m dp (out @ [b])"
      using "2.prems"(3,5) rest by (intro text_at_snoc) simp_all
    have inp: "input_at dp (length text) ?m (a + 1) z"
      using input_at_write [OF z, of "length out" "[b]"] "2.prems"(5) rest by simp
    have step: "text_loop m r0 (- word_of_nat (length (b # z))) ?w =
        (if - word_of_nat (length z) \<noteq> (0 :: u32)
         then text_loop ?m r0 (- word_of_nat (length z)) (?w + 1) else Some ?m)"
      by (subst text_loop.simps) (simp only: Let_def b False r1 not_False_eq_True if_True, simp)
    show ?thesis
    proof (cases "z = []")
      case True
      then show ?thesis unfolding step using t by auto
    next
      case z: False
      have "text_loop ?m r0 (- word_of_nat (length z)) (dp + word_of_nat (length (out @ [b]))) =
          Some (mem_write ?m (dp + word_of_nat (length (out @ [b]))) (drop (length (out @ [b])) text))"
        by (rule "2.IH"(1) [OF _ t z st inp]) (use False "2.prems" in simp_all)
      then show ?thesis
        unfolding step using nz [of "length z"] z "2.prems"(6) rest
        by (simp add: add.assoc add.commute [of 1])
    qed
  next
    case True
    then obtain d z' where zd: "z = d # z'" and dd: "0 < d" "unat d \<le> length out"
        and t: "text_bytes z' (copy_text (256 - unat b) (unat d) out) = Some text"
      using "2.prems"(1) by (auto split: list.splits if_splits)
    let ?n = "256 - unat b"
    obtain chunk where chunk: "copy_text ?n (unat d) out = out @ chunk" "length chunk = ?n"
      using copy_text_append by blast
    obtain rest where rest: "text = (out @ chunk) @ rest"
      using text_bytes_append [OF t] chunk by auto
    have n: "0 < ?n" using unat_byte_less [of b] by simp
    let ?m = "mem_write m ?w chunk" and ?e = "?w + word_of_nat ?n"
    have d: "m (r0 + - word_of_nat (length z)) = d" and z': "input_at dp (length text) m (a + 1 + 1) z'"
      using z "2.prems"(7) by (simp_all add: zd input_at_Cons add.commute [of 1] add.commute [of 2])
    have carry: "- word_of_nat (length z) \<noteq> (0 :: u32)" using nz [of "length z"] "2.prems"(6) zd by simp
    have r1': "- word_of_nat (length z) + 1 = (- word_of_nat (length z') :: u32)" by (simp add: zd)
    have e: "?w + 1 - scast b - 1 = ?e" by (simp add: scast_negative [OF True])
    have copy: "text_copy m ?e (?e - ucast d) (scast b) = ?m"
    proof -
      have "text_copy m ?e (?e - word_of_nat (unat d)) (- word_of_nat ?n) =
          mem_write m ?w (drop (length out) (copy_text ?n (unat d) out))"
        by (rule text_copy_correct [OF "2.prems"(3) n])
          (use dd "2.prems"(5) rest chunk(2) in \<open>simp_all add: word_gt_0 unat_gt_0\<close>)
      then show ?thesis by (simp add: scast_negative [OF True] chunk(1))
    qed
    have step: "text_loop m r0 (- word_of_nat (length (b # z))) ?w =
        (if - word_of_nat (length z') \<noteq> (0 :: u32)
         then text_loop ?m r0 (- word_of_nat (length z')) ?e else Some ?m)"
      by (subst text_loop.simps) (simp only: Let_def b True r1 d carry r1' e copy not_True_eq_False if_False)
    have st: "text_at ?m dp (out @ chunk)"
      using "2.prems"(3,5) rest by (intro text_at_write) simp_all
    have inp: "input_at dp (length text) ?m (a + 1 + 1) z'"
      by (rule input_at_write [OF z']) (use "2.prems"(5) rest in simp_all)
    show ?thesis
    proof (cases "z' = []")
      case True
      then have "text = out @ chunk" using t chunk(1) by simp
      then show ?thesis unfolding step using True by simp
    next
      case z'_ne: False
      have "text_loop ?m r0 (- word_of_nat (length z')) (dp + word_of_nat (length (out @ chunk))) =
          Some (mem_write ?m (dp + word_of_nat (length (out @ chunk))) (drop (length (out @ chunk)) text))"
        by (rule "2.IH"(2) [OF _ zd _ _ z'_ne, unfolded chunk(1)])
          (use True dd t chunk(1) st inp "2.prems" zd in \<open>simp_all add: add.commute [of 2]\<close>)
      moreover have "drop (length out) text = chunk @ drop (length (out @ chunk)) text" by (simp add: rest)
      ultimately show ?thesis
        unfolding step using nz [of "length z'"] z'_ne "2.prems"(6) chunk(2)
        by (simp add: zd mem_write_append add.assoc)
    qed
  qed
qed simp

lemma text_decompress_at_correct:
  assumes "text_bytes z [] = Some text" "z \<noteq> []" "length z < 2 ^ 32" "length text < 2 ^ 32"
    and "mem_read m src (length z) = z"
    and "length text \<le> unat (src - dest)" "unat (src - dest) + length z \<le> 2 ^ 32"
  shows "text_decompress_at m (src + word_of_nat (length z)) (word_of_nat (length z)) dest =
      Some (mem_write m dest text)"
proof -
  have "input_at dest (length text) m src z"
    unfolding input_at_def
  proof (intro allI impI)
    fix k assume k: "k < length z"
    have "unat (word_of_nat k :: u32) = k" using k assms(3) by (intro unat_of_nat_small) simp
    then have "unat (src - dest + word_of_nat k) = unat (src - dest) + k"
      using assms(7) k by (subst unat_plus_noof) simp_all
    then have "length text \<le> unat (src + word_of_nat k - dest)"
      using assms(6) by (simp add: algebra_simps)
    moreover have "m (src + word_of_nat k) = z ! k"
      using assms(5) k text_at_mem_read text_atD by blast
    ultimately show "m (src + word_of_nat k) = z ! k \<and> length text \<le> unat (src + word_of_nat k - dest)"
      by simp
  qed
  then show ?thesis
    using text_loop_correct [OF assms(1,2) _ _ assms(4,3) refl, of m dest src]
    by (simp add: text_decompress_at_def text_at_def)
qed

end
