(* ===== verification/Generator.thy ===== *)
theory Generator
  imports Prelude
begin

section \<open>The text compressor of the build-time generator\<close>

text \<open>
  \<open>generator/main.c\<close> compresses the text files that the ROM embeds: \<open>compress\<close> and the
  \<open>decompress\<close> it checks its own output with. Buffers are byte lists; a store or a load
  outside its buffer is an error value, so the model shows where the C code would be
  undefined. The static buffers are 4096 bytes long; the models take the buffer to fill as an
  argument.
\<close>

subsection \<open>Decompression\<close>

datatype dec_error = Read_Past_Input | Read_Outside_Buffer | Write_Outside_Buffer

text \<open>The copy loop \<open>while (len--) buf[n++] = buf[off++]\<close>; the offset may be negative.\<close>

fun copy_back :: "nat \<Rightarrow> int \<Rightarrow> nat \<Rightarrow> u8 list \<Rightarrow> dec_error + u8 list" where
  "copy_back 0 off n buf = Inr buf"
| "copy_back (Suc len) off n buf =
     (if off < 0 \<or> int (length buf) \<le> off then Inl Read_Outside_Buffer
      else if length buf \<le> n then Inl Write_Outside_Buffer
      else copy_back len (off + 1) (n + 1) (buf[n := buf ! nat off]))"

text \<open>
  The loop over the input. The list argument is the input from index \<open>i\<close> on, \<open>n\<close> the
  number of bytes produced.
\<close>

fun decompress_loop :: "u8 list \<Rightarrow> nat \<Rightarrow> u8 list \<Rightarrow> dec_error + (u8 list \<times> nat)" where
  "decompress_loop [] n buf = Inr (buf, n)"
| "decompress_loop (b # ds) n buf =
     (if n < length buf then
        if b < 0x80 then decompress_loop ds (n + 1) (buf[n := b])
        else
          (case ds of
             [] \<Rightarrow> Inl Read_Past_Input
           | d # ds' \<Rightarrow>
               let len = 0x100 - unat b; off = int n - int (unat d) in
               (case copy_back len off n buf of
                  Inl e \<Rightarrow> Inl e
                | Inr buf' \<Rightarrow> decompress_loop ds' (n + len) buf'))
      else Inr (buf, n))"

definition decompress :: "u8 list \<Rightarrow> u8 list \<Rightarrow> dec_error + (u8 list \<times> nat)" where
  "decompress data buf =
     (case decompress_loop data 0 buf of
        Inl e \<Rightarrow> Inl e
      | Inr (buf', n) \<Rightarrow> Inr (buf', if n = length buf' then 0 else n))"

subsection \<open>Compression\<close>

definition memcmp_eq :: "u8 list \<Rightarrow> nat \<Rightarrow> nat \<Rightarrow> nat \<Rightarrow> bool" where
  "memcmp_eq src to from n \<longleftrightarrow> take n (drop to src) = take n (drop from src)"

text \<open>
  The two search loops: the longest match first, and for one length the first position
  in the window of 255 bytes before \<open>to\<close>.
\<close>

fun find_match :: "u8 list \<Rightarrow> nat \<Rightarrow> nat \<Rightarrow> (nat \<times> nat) option" where
  "find_match src to 0 = None"
| "find_match src to (Suc m) =
     (if Suc m < 3 then None
      else
        (case List.find (\<lambda>from. memcmp_eq src to from (Suc m)) [to - 255..<to] of
           Some from \<Rightarrow> Some (Suc m, from)
         | None \<Rightarrow> find_match src to m))"

text \<open>
  One iteration up to the literal: how far a match moves \<open>to\<close>, the two bytes it stores, and
  what it adds to \<open>cost\<close>.
\<close>

definition compress_match :: "u8 list \<Rightarrow> nat \<Rightarrow> nat \<times> u8 list \<times> int" where
  "compress_match src to =
     (case find_match src to (min 127 (length src - to)) of
        Some (match_len, from) \<Rightarrow>
          (match_len, [word_of_nat (0x100 - match_len), word_of_nat (to - from)], 2 - int match_len)
      | None \<Rightarrow> (0, [], 0))"

function compress_loop :: "u8 list \<Rightarrow> nat \<Rightarrow> u8 list \<Rightarrow> int \<Rightarrow> u8 list \<times> int" where
  "compress_loop src to buf cost =
     (if to < length src then
        let (moved, stored, saved) = compress_match src to;
            to' = to + moved;
            literal = (if to' \<noteq> length src then [src ! to'] else [])
        in compress_loop src (to' + 1) (buf @ stored @ literal) (cost + saved)
      else (buf, cost))"
  by pat_completeness auto
termination
  by (relation "measure (\<lambda>(src, to, buf, cost). length src - to)") auto

declare compress_loop.simps [simp del]

datatype compress_result =
    Top_Bit_Set
  | Check_Failed
  | Emitted "u8 list" int \<comment> \<open>the dumped bytes and the cost printed with them\<close>

definition compress :: "u8 list \<Rightarrow> u8 list \<Rightarrow> compress_result" where
  "compress src check_buf =
     (if \<exists>b \<in> set src. 0x80 \<le> b then Top_Bit_Set
      else
        let (buf, cost) = compress_loop src 0 [] (int (length src)) in
        (case decompress buf check_buf of
           Inr (out, check_n) \<Rightarrow>
             if check_n \<noteq> length src \<or> src \<noteq> take (length src) out then Check_Failed
             else Emitted buf cost
         | Inl _ \<Rightarrow> Check_Failed))"

subsection \<open>The search finds real matches\<close>

lemma find_match_Some:
  "find_match src to m = Some (l, f) \<Longrightarrow>
     3 \<le> l \<and> l \<le> m \<and> f < to \<and> to - f \<le> 255 \<and> memcmp_eq src to f l"
proof (induction m)
  case (Suc m)
  show ?case
  proof (cases "List.find (\<lambda>from. memcmp_eq src to from (Suc m)) [to - 255..<to]")
    case None
    with Suc show ?thesis by (auto split: if_splits)
  next
    case (Some g)
    then have "memcmp_eq src to g (Suc m) \<and> g \<in> set [to - 255..<to]"
      by (auto simp: find_Some_iff)
    with Some Suc.prems show ?thesis by (auto split: if_splits)
  qed
qed simp

lemma memcmp_eq_nth:
  assumes "memcmp_eq src to from n" "k < n" "to + n \<le> length src" "from \<le> to"
  shows "src ! (to + k) = src ! (from + k)"
proof -
  have "take n (drop to src) ! k = take n (drop from src) ! k"
    using assms(1) by (simp add: memcmp_eq_def)
  then show ?thesis using assms by simp
qed

text \<open>What one step of the compressor does, as a case rule for the proofs about the loop.\<close>

lemma compress_match_cases:
  assumes "to < length src"
  obtains (match) l f where
      "compress_match src to =
         (l, [word_of_nat (0x100 - l), word_of_nat (to - f)], 2 - int l)"
      "3 \<le> l" "l \<le> 127" "to + l \<le> length src" "f < to" "to - f \<le> 255"
      "memcmp_eq src to f l"
  | (literal) "compress_match src to = (0, [], 0)"
proof (cases "find_match src to (min 127 (length src - to))")
  case None
  then show ?thesis using literal by (simp add: compress_match_def)
next
  case (Some p)
  obtain l f where p: "p = (l, f)" by force
  from Some p have fm: "3 \<le> l \<and> l \<le> min 127 (length src - to) \<and> f < to \<and> to - f \<le> 255 \<and>
      memcmp_eq src to f l"
    using find_match_Some by blast
  show ?thesis
    by (rule match [of l f]) (use fm Some p assms in \<open>auto simp: compress_match_def\<close>)
qed

subsection \<open>The accumulators of the loop\<close>

abbreviation compressed_from :: "u8 list \<Rightarrow> nat \<Rightarrow> u8 list" where
  "compressed_from src to \<equiv> fst (compress_loop src to [] 0)"

lemma compress_loop_acc:
  "compress_loop src to buf cost =
     (buf @ compressed_from src to, cost + snd (compress_loop src to [] 0))"
proof (induction "length src - to" arbitrary: to buf cost rule: less_induct)
  case less
  show ?case
  proof (cases "to < length src")
    case False
    then show ?thesis by (simp add: compress_loop.simps)
  next
    case True
    obtain m st sv where cm: "compress_match src to = (m, st, sv)"
      by (cases "compress_match src to")
    have any: "compress_loop src (Suc (to + m)) b c
        = (b @ compressed_from src (Suc (to + m)), c + snd (compress_loop src (Suc (to + m)) [] 0))"
      for b c
      by (rule less) (use True in simp)
    show ?thesis
      using True
      by (simp add: compress_loop.simps [of src to] cm any [of "_ @ _"] any [of "[_]"] Let_def
          split del: if_split)
  qed
qed

text \<open>The output of the loop, one iteration at a time.\<close>

lemma compressed_from_end: "length src \<le> to \<Longrightarrow> compressed_from src to = []"
  by (simp add: compress_loop.simps)

lemma compressed_from_step:
  assumes "to < length src" "compress_match src to = (m, st, sv)"
  shows "compressed_from src to =
      st @ (if to + m \<noteq> length src then [src ! (to + m)] else []) @ compressed_from src (Suc (to + m))"
  using assms
  by (simp add: compress_loop.simps [of src to] Let_def
      compress_loop_acc [of src "Suc (to + m)" "st @ _"] compress_loop_acc [of src "Suc (to + m)" st])

lemma compress_cost_step:
  assumes "to < length src" "compress_match src to = (m, st, sv)"
  shows "snd (compress_loop src to [] 0) = sv + snd (compress_loop src (Suc (to + m)) [] 0)"
  using assms
  by (simp add: compress_loop.simps [of src to] Let_def
      compress_loop_acc [of src "Suc (to + m)" "st @ _"] compress_loop_acc [of src "Suc (to + m)" st])

subsection \<open>Decompression undoes compression\<close>

lemma copy_back_match:
  assumes "f < n" "n + l \<le> length buf" "n + l \<le> length src"
    and "\<forall>k < l. src ! (n + k) = src ! (f + k)" and "take n buf = take n src"
  shows "\<exists>buf'. copy_back l (int f) n buf = Inr buf' \<and> length buf' = length buf \<and>
      take (n + l) buf' = take (n + l) src"
  using assms
proof (induction l arbitrary: f n buf)
  case (Suc l)
  have "buf ! f = src ! f"
    using Suc.prems by (metis nth_take)
  then have bf: "buf ! f = src ! n" using Suc.prems(4) by fastforce
  have "take (Suc n) (buf[n := buf ! f]) = take (Suc n) src"
    using Suc.prems bf by (simp add: take_Suc_conv_app_nth)
  moreover have "\<forall>k < l. src ! (Suc n + k) = src ! (Suc f + k)"
    using Suc.prems(4) by fastforce
  ultimately have "\<exists>buf'. copy_back l (int (Suc f)) (Suc n) (buf[n := buf ! f]) = Inr buf' \<and>
      length buf' = length (buf[n := buf ! f]) \<and> take (Suc n + l) buf' = take (Suc n + l) src"
    using Suc.prems by (intro Suc.IH) auto
  then show ?case using Suc.prems by (simp add: add.commute)
qed simp

lemma decompress_compressed_from:
  assumes "to \<le> length src" "length src < length buf" "take to buf = take to src"
    and ascii: "\<forall>b \<in> set src. b < 0x80"
  shows "\<exists>buf'. decompress_loop (compressed_from src to) to buf = Inr (buf', length src) \<and>
      length buf' = length buf \<and> take (length src) buf' = src"
  using assms(1-3)
proof (induction "length src - to" arbitrary: to buf rule: less_induct)
  case less
  have literal: "\<exists>buf'. decompress_loop (src ! t # compressed_from src (Suc t)) t b = Inr (buf', length src) \<and>
      length buf' = length b \<and> take (length src) buf' = src"
    if t: "t < length src" "to \<le> t" and b: "take t b = take t src" "length b = length buf" for t b
  proof -
    have "take (Suc t) (b[t := src ! t]) = take (Suc t) src"
      using t b less.prems by (simp add: take_Suc_conv_app_nth)
    then have "\<exists>buf'. decompress_loop (compressed_from src (Suc t)) (Suc t) (b[t := src ! t])
        = Inr (buf', length src) \<and> length buf' = length (b[t := src ! t]) \<and> take (length src) buf' = src"
      using t b less.prems by (intro less.hyps) auto
    then show ?thesis using t b less.prems ascii by simp
  qed
  show ?case
  proof (cases "to < length src")
    case False
    then show ?thesis using less.prems by (simp add: compressed_from_end)
  next
    case True
    then show ?thesis
    proof (cases rule: compress_match_cases)
      case no_match: literal
      show ?thesis
        using compressed_from_step [OF True no_match] literal [of to buf] True less.prems by simp
    next
      case (match l f)
      let ?a = "word_of_nat (0x100 - l) :: u8" and ?d = "word_of_nat (to - f) :: u8"
      have a: "unat ?a = 256 - l" and d: "unat ?d = to - f"
        by (rule unat_of_nat_small, use match in simp)+
      have big: "\<not> ?a < 0x80" using a match by (simp add: word_less_nat_alt)
      have "\<forall>k < l. src ! (to + k) = src ! (f + k)"
        using match memcmp_eq_nth by simp
      then obtain b where b: "copy_back l (int f) to buf = Inr b" "length b = length buf"
          "take (to + l) b = take (to + l) src"
        using copy_back_match [of f to l buf src] match less.prems by auto
      show ?thesis
      proof (cases "to + l = length src")
        case True
        then show ?thesis
          using compressed_from_step [OF \<open>to < length src\<close> match(1)] big a d b match less.prems
          by (simp add: compressed_from_end)
      next
        case False
        then show ?thesis
          using compressed_from_step [OF \<open>to < length src\<close> match(1)] big a d b match less.prems
            literal [of "to + l" b] by simp
      qed
    qed
  qed
qed

lemma compress_loop_roundtrip:
  assumes "length src < length buf" "\<forall>b \<in> set src. b < 0x80"
  shows "\<exists>out. decompress (fst (compress_loop src 0 [] cost)) buf = Inr (out, length src) \<and>
      take (length src) out = src"
proof -
  obtain out where "decompress_loop (compressed_from src 0) 0 buf = Inr (out, length src)"
      "length out = length buf" "take (length src) out = src"
    using decompress_compressed_from [of 0 src buf] assms by auto
  then show ?thesis
    using assms by (simp add: compress_loop_acc [of src 0 "[]" cost] decompress_def)
qed

subsection \<open>Size and cost\<close>

lemma length_compressed_from: "length (compressed_from src to) \<le> length src - to"
proof (induction "length src - to" arbitrary: to rule: less_induct)
  case less
  show ?case
  proof (cases "to < length src")
    case True
    then show ?thesis
    proof (cases rule: compress_match_cases)
      case (match l f)
      have "length (compressed_from src (Suc (to + l))) \<le> length src - Suc (to + l)"
        using True by (intro less) simp
      then show ?thesis
        using compressed_from_step [OF True match(1)] match(2,4)
        by (cases "to + l = length src") (simp_all add: compressed_from_end)
    next
      case literal
      have "length (compressed_from src (Suc to)) \<le> length src - Suc to"
        using True by (intro less) simp
      then show ?thesis
        using compressed_from_step [OF True literal] True by simp
    qed
  qed (simp add: compressed_from_end)
qed

lemma compress_cost_from:
  "to \<le> length src \<Longrightarrow>
     snd (compress_loop src to [] 0) + int (length src - to) = int (length (compressed_from src to))"
proof (induction "length src - to" arbitrary: to rule: less_induct)
  case less
  show ?case
  proof (cases "to < length src")
    case True
    then show ?thesis
    proof (cases rule: compress_match_cases)
      case (match l f)
      show ?thesis
      proof (cases "to + l = length src")
        case True
        then show ?thesis
          using compressed_from_step [OF \<open>to < length src\<close> match(1)]
            compress_cost_step [OF \<open>to < length src\<close> match(1)] match
          by (simp add: compress_loop.simps)
      next
        case False
        then have fits: "Suc (to + l) \<le> length src" using match by simp
        have "snd (compress_loop src (Suc (to + l)) [] 0) + int (length src - Suc (to + l))
            = int (length (compressed_from src (Suc (to + l))))"
          using fits by (intro less) simp_all
        moreover have "int (length src - Suc (to + l)) = int (length src - to) - 1 - int l"
          using fits by simp
        ultimately show ?thesis
          using compressed_from_step [OF \<open>to < length src\<close> match(1)] False
            compress_cost_step [OF \<open>to < length src\<close> match(1)]
          by simp
      qed
    next
      case literal
      have "snd (compress_loop src (Suc to) [] 0) + int (length src - Suc to)
          = int (length (compressed_from src (Suc to)))"
        using True by (intro less) simp_all
      moreover have "int (length src - Suc to) = int (length src - to) - 1"
        using True by simp
      ultimately show ?thesis
        using compressed_from_step [OF True literal] compress_cost_step [OF True literal] True
        by simp
    qed
  next
    case False
    then show ?thesis using less(2) by (simp add: compress_loop.simps)
  qed
qed

subsection \<open>The properties of compress\<close>

text \<open>
  C37. A text without top bits that is shorter than the check buffer compresses: the self-check
  of \<open>compress\<close> passes, the emitted bytes decompress to exactly the text, they are at
  most as many as the text's (so the 4096 byte buffer that holds them cannot overflow), and the
  printed cost is their number.
\<close>

theorem compress_correct:
  assumes "\<forall>b \<in> set src. b < 0x80" and "length src < length check_buf"
  shows "\<exists>z cost out. compress src check_buf = Emitted z cost \<and>
      decompress z check_buf = Inr (out, length src) \<and> take (length src) out = src \<and>
      length z \<le> length src \<and> cost = int (length z)"
proof -
  obtain z cost where z: "compress_loop src 0 [] (int (length src)) = (z, cost)" by force
  have zc: "z = compressed_from src 0" "cost = int (length src) + snd (compress_loop src 0 [] 0)"
    using z compress_loop_acc [of src 0 "[]" "int (length src)"] by auto
  obtain out where out: "decompress z check_buf = Inr (out, length src)" "take (length src) out = src"
    using compress_loop_roundtrip [OF assms(2,1), of "int (length src)"] z by auto
  have "length z \<le> length src" using zc length_compressed_from [of src 0] by simp
  moreover have "cost = int (length z)" using zc compress_cost_from [of 0 src] by simp
  moreover have "compress src check_buf = Emitted z cost"
    using assms(1) z out by (auto simp: compress_def not_le)
  ultimately show ?thesis using out by blast
qed

theorem compress_correct_witness:
  "\<exists>z cost out. compress [97, 98, 97, 98, 97, 98, 97] (replicate 8 0) = Emitted z cost \<and>
      decompress z (replicate 8 0) = Inr (out, 7) \<and> take 7 out = [97, 98, 97, 98, 97, 98, 97] \<and>
      length z \<le> 7 \<and> cost = int (length z)"
proof -
  let ?src = "[97, 98, 97, 98, 97, 98, 97] :: u8 list"
  have ascii: "\<forall>b \<in> set ?src. b < 0x80" by simp
  have fits: "length ?src < length (replicate 8 0 :: u8 list)" by simp
  have len: "length ?src = 7" by simp
  show ?thesis using compress_correct [OF ascii fits] unfolding len .
qed

subsection \<open>The buffer bound of the check\<close>

lemma copy_back_length:
  "copy_back l off n buf = Inr buf' \<Longrightarrow> length buf' = length buf \<and> (0 < l \<longrightarrow> n + l \<le> length buf)"
proof (induction l off n buf rule: copy_back.induct)
  case (2 l off n buf)
  then show ?case by (cases l) (auto split: if_splits)
qed simp

lemma decompress_loop_length:
  "decompress_loop data n buf = Inr (buf', n') \<Longrightarrow> n \<le> length buf \<Longrightarrow>
     length buf' = length buf \<and> n' \<le> length buf"
proof (induction data n buf rule: decompress_loop.induct)
  case (2 b ds n buf)
  show ?case
  proof (cases "n < length buf \<and> \<not> b < 0x80")
    case True
    then obtain d ds' buf1 where ds: "ds = d # ds'"
        and c: "copy_back (0x100 - unat b) (int n - int (unat d)) n buf = Inr buf1"
        and r: "decompress_loop ds' (n + (0x100 - unat b)) buf1 = Inr (buf', n')"
      using "2.prems" by (auto simp: Let_def split: list.splits sum.splits)
    have "0 < 0x100 - unat b" using unat_byte_less [of b] by simp
    with copy_back_length [OF c]
    have b1: "length buf1 = length buf" "n + (0x100 - unat b) \<le> length buf" by blast+
    have "length buf' = length buf1 \<and> n' \<le> length buf1"
      by (rule "2.IH"(2) [OF _ _ ds refl refl c r]) (use True b1 in auto)
    then show ?thesis using b1 by simp
  next
    case False
    then show ?thesis using 2 by (auto split: if_splits)
  qed
qed simp

text \<open>
  The self-check fails exactly when the text does not leave a byte of the check buffer
  free. The reader accepts texts of up to 4096 bytes, the size of the buffer, so a text of
  exactly 4096 bytes is read but never compresses.
\<close>

theorem compress_check_fails_iff:
  assumes ascii: "\<forall>b \<in> set src. b < 0x80" and "src \<noteq> []"
  shows "compress src check_buf = Check_Failed \<longleftrightarrow> length check_buf \<le> length src"
proof (cases "length src < length check_buf")
  case True
  then show ?thesis using compress_correct [OF ascii True] by auto
next
  case False
  obtain z cost where z: "compress_loop src 0 [] (int (length src)) = (z, cost)" by force
  have "check_n \<noteq> length src" if "decompress z check_buf = Inr (out, check_n)" for out check_n
    using that False \<open>src \<noteq> []\<close> decompress_loop_length [of z 0 check_buf]
    by (fastforce simp: decompress_def split: sum.splits prod.splits if_splits)
  then show ?thesis
    using ascii False z by (auto simp: compress_def not_le split: sum.splits)
qed

theorem compress_check_fails_iff_witness:
  "compress [97, 98] [0, 0] = Check_Failed \<longleftrightarrow> length [0 :: u8, 0] \<le> length [97 :: u8, 98]"
  by (rule compress_check_fails_iff) simp_all

end
