(* ===== verification/Rom_Text.thy ===== *)
theory Rom_Text
  imports Rom_Routines Generator
begin

section \<open>The build tool and the ROM agree on the compressed texts\<close>

text \<open>
  What \<open>compress\<close> of \<open>generator/main.c\<close> emits is decompressed to the text by
  \<open>poor_mans_text_decompress\<close> of the ROM, in its list version and in the version on memory.
\<close>

lemma copy_text_match:
  assumes "f < to" "to + l \<le> length src" "\<And>k. k < l \<Longrightarrow> src ! (to + k) = src ! (f + k)"
  shows "copy_text l (to - f) (take to src) = take (to + l) src"
  using assms
proof (induction l arbitrary: f to)
  case (Suc l)
  have "src ! f = src ! to" using Suc.prems(3) [of 0] by simp
  then have "take to src @ [take to src ! (length (take to src) - (to - f))] = take (Suc to) src"
    using Suc.prems by (simp add: take_Suc_conv_app_nth min_def)
  moreover have "copy_text l (Suc to - Suc f) (take (Suc to) src) = take (Suc to + l) src"
    using Suc.prems(3) [of "Suc _"] Suc.prems(1,2) by (intro Suc.IH) simp_all
  ultimately show ?case by simp
qed simp

lemma text_bytes_compressed_from:
  assumes "to \<le> length src" "\<forall>b \<in> set src. b < 0x80"
  shows "text_bytes (compressed_from src to) (take to src) = Some src"
  using assms(1)
proof (induction "length src - to" arbitrary: to rule: less_induct)
  case less
  have literal: "text_bytes (src ! t # compressed_from src (Suc t)) (take t src) = Some src"
    if t: "t < length src" "to \<le> t" for t
  proof -
    have "\<not> bit (src ! t) 7"
      using assms(2) t by (auto simp: top_bit_byte word_less_nat_alt not_le)
    moreover have "text_bytes (compressed_from src (Suc t)) (take (Suc t) src) = Some src"
      using t less.prems by (intro less.hyps) auto
    ultimately show ?thesis using t by (simp add: take_Suc_conv_app_nth)
  qed
  show ?case
  proof (cases "to < length src")
    case False
    then show ?thesis using less.prems by (simp add: compressed_from_end)
  next
    case True
    then show ?thesis
    proof (cases rule: compress_match_cases)
      case no_match: literal
      then show ?thesis using compressed_from_step [OF True no_match] literal [of to] True by simp
    next
      case (match l f)
      let ?a = "word_of_nat (0x100 - l) :: u8" and ?d = "word_of_nat (to - f) :: u8"
      have a: "unat ?a = 256 - l" and d: "unat ?d = to - f"
        by (rule unat_of_nat_small, use match in simp)+
      have "0 < unat ?d" unfolding d using match(5) by simp
      then have pos: "0 < ?d" by (simp only: unat_gt_0 word_neq_0_conv [symmetric] simp_thms)
      have big: "bit ?a 7" unfolding top_bit_byte a using match(3) by simp
      have dl: "unat ?d \<le> length (take to src)" unfolding d using True by simp
      have copy: "copy_text (256 - unat ?a) (unat ?d) (take to src) = take (to + l) src"
        unfolding a d using copy_text_match [of f to l src] match memcmp_eq_nth by simp
      have pair: "text_bytes (?a # ?d # z) (take to src) = text_bytes z (take (to + l) src)" for z
        using big pos copy dl by (simp only: text_bytes.simps list.case not_True_eq_False if_False if_True simp_thms)
      show ?thesis
      proof (cases "to + l = length src")
        case True
        then show ?thesis
          using compressed_from_step [OF \<open>to < length src\<close> match(1)] pair by (simp add: compressed_from_end)
      next
        case False
        then show ?thesis
          using compressed_from_step [OF \<open>to < length src\<close> match(1)] pair match(4) literal [of "to + l"]
          by simp
      qed
    qed
  qed
qed

lemma text_bytes_compress:
  assumes "compress src check_buf = Emitted z cost"
  shows "text_bytes z [] = Some src"
proof -
  have ascii: "\<forall>b \<in> set src. b < 0x80"
    using assms by (auto simp: compress_def not_le split: if_splits)
  have "z = compressed_from src 0"
    using assms compress_loop_acc [of src 0 "[]" "int (length src)"]
    by (auto simp: compress_def split: if_splits prod.splits sum.splits)
  then show ?thesis using text_bytes_compressed_from [OF _ ascii, of 0] by simp
qed

text \<open>
  C18. The text comes back from the ROM as the build tool read it: when \<open>compress\<close> has emitted the
  bytes \<open>z\<close> for a text, and they lie in memory apart from the destination, then
  \<open>poor_mans_text_decompress\<close> of the ROM, called as the C code calls it with the end of \<open>z\<close>,
  returns, and the memory is changed in exactly the bytes of the text.
\<close>

theorem rom_text_roundtrip:
  assumes "compress text check_buf = Emitted z cost" "text \<noteq> []" "length text < 2 ^ 32"
    and "mem_read m src (length z) = z"
    and "length text \<le> unat (src - dest)" "unat (src - dest) + length z \<le> 2 ^ 32"
  shows "text_decompress_at m (src + word_of_nat (length z)) (word_of_nat (length z)) dest =
      Some (mem_write m dest text)"
proof -
  note t = text_bytes_compress [OF assms(1)]
  have "z \<noteq> []" using t assms(2) by auto
  moreover have "length z < 2 ^ 32" using assms(2,5,6) by (cases "text") auto
  ultimately show ?thesis using text_decompress_at_correct [OF t] assms by blast
qed

lemma compress_example: "compress [97, 98, 97, 98, 97] (replicate 8 0) = Emitted [97, 98, 253, 2] 4"
  by code_simp

theorem rom_text_roundtrip_witness:
  "text_decompress_at (mem_write (\<lambda>_. 0) 0x1000 [97, 98, 253, 2]) 0x1004 4 0x2000 =
     Some (mem_write (mem_write (\<lambda>_. 0) 0x1000 [97, 98, 253, 2]) 0x2000 [97, 98, 97, 98, 97])"
proof -
  let ?m = "mem_write (\<lambda>_. 0) 0x1000 [97, 98, 253, 2]"
  have z: "mem_read ?m 0x1000 (length [97 :: u8, 98, 253, 2]) = [97, 98, 253, 2]"
    by (rule mem_read_write_same) simp_all
  have "text_decompress_at ?m (0x1000 + word_of_nat (length [97 :: u8, 98, 253, 2]))
      (word_of_nat (length [97 :: u8, 98, 253, 2])) 0x2000 = Some (mem_write ?m 0x2000 [97, 98, 97, 98, 97])"
    by (rule rom_text_roundtrip [OF compress_example _ _ z]) simp_all
  then show ?thesis by (simp del: mem_write.simps)
qed

end
