(* ===== verification/Rom_Tables.thy ===== *)
theory Rom_Tables
  imports Prelude
begin

section \<open>The tables of the ROM and their lookup (assembler)\<close>

text \<open>
  \<open>table_lookup\<close>, \<open>function_table\<close> and \<open>data_table\<close> of \<open>bootrom/bootrom_rt0.S\<close>: the interface
  through which user code finds the ROM's functions by two-character codes. The addresses are
  the linker's, and an argument. A load from an odd address faults: the routine does not
  return, nor does it when a table has no end.
\<close>

subsection \<open>The lookup\<close>

definition ldrh :: "memory \<Rightarrow> u32 \<Rightarrow> u32 option" where
  "ldrh m a = (if bit a 0 then None else Some (ucast (m a) OR push_bit 8 (ucast (m (a + 1)))))"

partial_function (option) table_lookup :: "memory \<Rightarrow> u32 \<Rightarrow> u32 \<Rightarrow> u32 option" where
  "table_lookup m r0 r1 =
     (let r3 = 0
      in case ldrh m r0 of
           None \<Rightarrow> None
         | Some r2 \<Rightarrow>
             if r2 = r3 then Some r3
             else
               (case ldrh m (r0 + 2) of
                  None \<Rightarrow> None
                | Some r3 \<Rightarrow>
                    let r0 = r0 + 4 in if r1 \<noteq> r2 then table_lookup m r0 r1 else Some r3))"

subsection \<open>The tables\<close>

datatype rom_symbol =
    Popcount32 | Reverse32 | Clz32 | Ctz32 | Memset | Memset_4 | Memcpy | Memcpy_44
  | Reset_usb_boot | Debug_trampoline | Debug_trampoline_end | Wait_for_vector
  | Connect_internal_flash | Flash_exit_xip | Flash_range_erase | Flash_range_program
  | Flash_flush_cache | Flash_enter_cmd_xip
  | Software_git_revision | Copyright | Soft_float_table | Soft_double_table
  | Soft_float_table_size | Mufp_lib_start | Mufp_lib_end | Mufp_lib_double_start
  | Mufp_lib_double_end

text \<open>The two bytes of a code, the first character in the low one.\<close>

definition rom_code :: "char \<times> char \<Rightarrow> u16" where
  "rom_code c = of_char (fst c) OR push_bit 8 (of_char (snd c))"

definition function_symbols :: "((char \<times> char) \<times> rom_symbol) list" where
  "function_symbols =
     [((CHR ''P'', CHR ''3''), Popcount32), ((CHR ''R'', CHR ''3''), Reverse32),
      ((CHR ''L'', CHR ''3''), Clz32), ((CHR ''T'', CHR ''3''), Ctz32),
      ((CHR ''M'', CHR ''S''), Memset), ((CHR ''S'', CHR ''4''), Memset_4),
      ((CHR ''M'', CHR ''C''), Memcpy), ((CHR ''C'', CHR ''4''), Memcpy_44),
      ((CHR ''U'', CHR ''B''), Reset_usb_boot), ((CHR ''D'', CHR ''T''), Debug_trampoline),
      ((CHR ''D'', CHR ''E''), Debug_trampoline_end), ((CHR ''W'', CHR ''V''), Wait_for_vector),
      ((CHR ''I'', CHR ''F''), Connect_internal_flash), ((CHR ''E'', CHR ''X''), Flash_exit_xip),
      ((CHR ''R'', CHR ''E''), Flash_range_erase), ((CHR ''R'', CHR ''P''), Flash_range_program),
      ((CHR ''F'', CHR ''C''), Flash_flush_cache), ((CHR ''C'', CHR ''X''), Flash_enter_cmd_xip)]"

definition data_symbols :: "((char \<times> char) \<times> rom_symbol) list" where
  "data_symbols =
     [((CHR ''G'', CHR ''R''), Software_git_revision), ((CHR ''C'', CHR ''R''), Copyright),
      ((CHR ''S'', CHR ''F''), Soft_float_table), ((CHR ''S'', CHR ''D''), Soft_double_table),
      ((CHR ''F'', CHR ''Z''), Soft_float_table_size), ((CHR ''F'', CHR ''S''), Mufp_lib_start),
      ((CHR ''F'', CHR ''E''), Mufp_lib_end), ((CHR ''D'', CHR ''S''), Mufp_lib_double_start),
      ((CHR ''D'', CHR ''E''), Mufp_lib_double_end)]"

text \<open>An entry is a code and a halfword; functions have the Thumb bit set. A zero ends the table.\<close>

definition table_bytes :: "(u16 \<times> u16) list \<Rightarrow> u8 list" where
  "table_bytes tab = concat (map (\<lambda>(c, p). le16 c @ le16 p) tab) @ le16 0"

definition function_table :: "(rom_symbol \<Rightarrow> u16) \<Rightarrow> (u16 \<times> u16) list" where
  "function_table addr = map (\<lambda>(c, f). (rom_code c, addr f + 1)) function_symbols"

definition data_table :: "(rom_symbol \<Rightarrow> u16) \<Rightarrow> (u16 \<times> u16) list" where
  "data_table addr = map (\<lambda>(c, d). (rom_code c, addr d)) data_symbols"

subsection \<open>The lookup finds the first entry with the code\<close>

lemma le16_word: "ucast (ucast w :: u8) OR push_bit 8 (ucast (ucast (drop_bit 8 w) :: u8)) = (ucast (w :: u16) :: u32)"
  by (rule bit_word_eqI) (auto simp: bit_simps dest: bit_imp_le_length)

lemma ldrh_le16:
  assumes "mem_read m a 2 = le16 w" "\<not> bit a 0"
  shows "ldrh m a = Some (ucast w)"
  using assms le16_word [of w] by (simp add: ldrh_def le16_def numeral_2_eq_2)

lemma ucast_u16_eq: "(ucast a :: u32) = ucast b \<longleftrightarrow> a = (b :: u16)"
proof
  assume eq: "(ucast a :: u32) = ucast b"
  show "a = b"
  proof (rule bit_word_eqI)
    fix n assume "n < LENGTH(16)"
    then show "bit a n = bit b n" using arg_cong [OF eq, of "\<lambda>w. bit w n"] by (simp add: bit_simps)
  qed
qed simp

lemma even_add: "\<not> bit (a :: u32) 0 \<Longrightarrow> even b \<Longrightarrow> \<not> bit (a + b) 0"
  by (simp add: bit_0)

lemma table_lookup_correct:
  assumes "mem_read m base (length (table_bytes tab)) = table_bytes tab" "\<not> bit base 0"
    and "\<forall>(c, p) \<in> set tab. c \<noteq> 0"
  shows "table_lookup m base r1 =
      Some (case map_of (map (\<lambda>(c, p). (ucast c, ucast p)) tab) r1 of Some p \<Rightarrow> p | None \<Rightarrow> 0)"
  using assms
proof (induction tab arbitrary: base)
  case Nil
  then have "ldrh m base = Some 0" using ldrh_le16 [of m base 0] by (simp add: table_bytes_def)
  then show ?case by (subst table_lookup.simps) simp
next
  case (Cons e tab)
  obtain c p where e: "e = (c, p)" by force
  have bytes: "table_bytes (e # tab) = le16 c @ le16 p @ table_bytes tab"
    by (simp add: table_bytes_def e)
  have "mem_read m base (2 + (2 + length (table_bytes tab))) = le16 c @ le16 p @ table_bytes tab"
    using Cons.prems(1) unfolding bytes by simp
  then have r: "mem_read m base 2 = le16 c" "mem_read m (base + 2) 2 = le16 p"
      "mem_read m (base + 4) (length (table_bytes tab)) = table_bytes tab"
    unfolding mem_read_append by (simp_all add: add.commute [of 4])
  have c: "ldrh m base = Some (ucast c)" "ldrh m (base + 2) = Some (ucast p)"
    using ldrh_le16 [OF r(1)] ldrh_le16 [OF r(2)] Cons.prems(2) by (simp_all add: even_add)
  have "ucast c \<noteq> (0 :: u32)" using Cons.prems(3) e ucast_u16_eq [of c 0] by simp
  moreover have "table_lookup m (base + 4) r1 =
      Some (case map_of (map (\<lambda>(c, p). (ucast c, ucast p)) tab) r1 of Some p \<Rightarrow> p | None \<Rightarrow> 0)"
    using Cons.prems by (intro Cons.IH r(3)) (auto simp: even_add)
  ultimately show ?case by (subst table_lookup.simps) (auto simp: c e Let_def)
qed

lemma rom_codes_distinct:
  "distinct (map (rom_code \<circ> fst) function_symbols)" "distinct (map (rom_code \<circ> fst) data_symbols)"
  "\<forall>(c, f) \<in> set function_symbols. rom_code c \<noteq> 0" "\<forall>(c, f) \<in> set data_symbols. rom_code c \<noteq> 0"
  by code_simp+

lemma map_of_symbols:
  assumes "distinct (map (rom_code \<circ> fst) syms)" "(c, f) \<in> set syms"
  shows "map_of (map (\<lambda>(c, p). (ucast c :: u32, ucast p :: u32)) (map (\<lambda>(c, f). (rom_code c, g f)) syms))
      (ucast (rom_code c)) = Some (ucast (g f :: u16))"
  using assms by (induction syms) (auto simp: ucast_u16_eq rev_image_eqI)

lemma map_of_no_symbol:
  "r1 \<notin> (ucast \<circ> rom_code \<circ> fst) ` set syms \<Longrightarrow>
     map_of (map (\<lambda>(c, p). (ucast c :: u32, ucast p :: u32)) (map (\<lambda>(c, f). (rom_code c, g f)) syms)) r1 = None"
  by (induction syms) auto

text \<open>
  C20. User code finds every function of the ROM by its code, with the Thumb bit set, and every
  data item; the codes do not hide one another, and a code that is not in the table gives zero.
\<close>

theorem rom_tables_complete:
  assumes "mem_read m fbase (length (table_bytes (function_table addr))) = table_bytes (function_table addr)"
    and "mem_read m dbase (length (table_bytes (data_table addr))) = table_bytes (data_table addr)"
    and "\<not> bit fbase 0" "\<not> bit dbase 0"
  shows "(\<forall>(c, f) \<in> set function_symbols. table_lookup m fbase (ucast (rom_code c)) = Some (ucast (addr f + 1))) \<and>
    (\<forall>(c, d) \<in> set data_symbols. table_lookup m dbase (ucast (rom_code c)) = Some (ucast (addr d))) \<and>
    (r1 \<notin> (ucast \<circ> rom_code \<circ> fst) ` set function_symbols \<longrightarrow> table_lookup m fbase r1 = Some 0)"
proof -
  have f: "\<forall>(c, p) \<in> set (function_table addr). c \<noteq> 0"
    using rom_codes_distinct(3) by (auto simp: function_table_def)
  have d: "\<forall>(c, p) \<in> set (data_table addr). c \<noteq> 0"
    using rom_codes_distinct(4) by (auto simp: data_table_def)
  note lookup = table_lookup_correct [OF assms(1,3) f] table_lookup_correct [OF assms(2,4) d]
  have "table_lookup m fbase (ucast (rom_code c)) = Some (ucast (addr f + 1))"
    if "(c, f) \<in> set function_symbols" for c f
    using map_of_symbols [OF rom_codes_distinct(1) that, of "\<lambda>f. addr f + 1"]
    by (simp add: lookup function_table_def)
  moreover have "table_lookup m dbase (ucast (rom_code c)) = Some (ucast (addr d))"
    if "(c, d) \<in> set data_symbols" for c d
    using map_of_symbols [OF rom_codes_distinct(2) that, of addr] by (simp add: lookup data_table_def)
  moreover have "table_lookup m fbase r1 = Some 0"
    if "r1 \<notin> (ucast \<circ> rom_code \<circ> fst) ` set function_symbols"
    using map_of_no_symbol [OF that, of "\<lambda>f. addr f + 1"] by (simp add: lookup function_table_def)
  ultimately show ?thesis by blast
qed

lemma length_table_bytes: "length (table_bytes tab) = 4 * length tab + 2"
  by (induction tab) (auto simp: table_bytes_def)

theorem rom_tables_complete_witness:
  "let m = mem_write (mem_write (\<lambda>_. 0) 0x100 (table_bytes (function_table (\<lambda>_. 0x200))))
        0x180 (table_bytes (data_table (\<lambda>_. 0x200)))
   in table_lookup m 0x100 (ucast (rom_code (CHR ''T'', CHR ''3''))) = Some 0x201 \<and>
      table_lookup m 0x180 (ucast (rom_code (CHR ''G'', CHR ''R''))) = Some 0x200"
proof -
  let ?f = "table_bytes (function_table (\<lambda>_. 0x200))" and ?d = "table_bytes (data_table (\<lambda>_. 0x200))"
  let ?m = "mem_write (mem_write (\<lambda>_. 0) 0x100 ?f) 0x180 ?d"
  have len: "length ?f = 74" "length ?d = 38"
    by (simp_all add: length_table_bytes function_table_def data_table_def function_symbols_def data_symbols_def)
  have f: "mem_read ?m 0x100 (length ?f) = ?f"
    by (subst mem_read_write_other) (simp_all add: len mem_read_write_same)
  have d: "mem_read ?m 0x180 (length ?d) = ?d"
    by (rule mem_read_write_same) (simp_all add: len)
  have "(\<forall>(c, f) \<in> set function_symbols. table_lookup ?m 0x100 (ucast (rom_code c)) = Some (ucast (0x200 + 1 :: u16))) \<and>
      (\<forall>(c, f) \<in> set data_symbols. table_lookup ?m 0x180 (ucast (rom_code c)) = Some (ucast (0x200 :: u16))) \<and>
      ((0 :: u32) \<notin> (ucast \<circ> rom_code \<circ> fst) ` set function_symbols \<longrightarrow> table_lookup ?m 0x100 0 = Some 0)"
    by (rule rom_tables_complete [OF f d]) (simp_all add: bit_0)
  then show ?thesis by (simp add: function_symbols_def data_symbols_def)
qed

end
