(* ===== verification/Platform.thy ===== *)
theory Platform
  imports Prelude
begin

section \<open>The address map and words in memory\<close>

text \<open>
  The address map and the protocol codes of the SDK headers (\<open>addressmap.h\<close>,
  \<open>picoboot.h\<close>, \<open>uf2.h\<close>) are not part of the sources: \<open>platform\<close> is a parameter of
  every operation that uses them, and \<open>rp2040_map\<close> is the documented layout that some
  theorems rely on. The address classes of \<open>usb_boot_device.h\<close> and little-endian words in
  the byte memory are defined here.
\<close>

subsection \<open>Words in memory\<close>

definition rd32 :: "memory \<Rightarrow> u32 \<Rightarrow> u32" where
  "rd32 m a = ucast (m a) OR push_bit 8 (ucast (m (a + 1))) OR push_bit 16 (ucast (m (a + 2))) OR
     push_bit 24 (ucast (m (a + 3)))"

definition wr32 :: "memory \<Rightarrow> u32 \<Rightarrow> u32 \<Rightarrow> memory" where
  "wr32 m a w = mem_write m a (le32 w)"

definition rd16 :: "memory \<Rightarrow> u32 \<Rightarrow> u16" where
  "rd16 m a = ucast (m a) OR push_bit 8 (ucast (m (a + 1)))"

subsection \<open>Constants of the SDK\<close>

text \<open>The fields of a UF2 block that the code reads.\<close>

record uf2_block =
  magic_start0 :: u32
  magic_start1 :: u32
  uf2_flags :: u32
  target_addr :: u32
  payload_size :: u32
  uf2_block_no :: u32
  uf2_num_blocks :: u32
  file_size :: u32
  magic_end :: u32

record platform =
  XIP_MAIN_BASE :: u32
  XIP_SRAM_BASE :: u32
  XIP_SRAM_END :: u32
  SRAM_BASE :: u32
  SRAM_END :: u32
  PICOBOOT_OK :: u32
  PICOBOOT_UNKNOWN_CMD :: u32
  PICOBOOT_INVALID_CMD_LENGTH :: u32
  PICOBOOT_INVALID_TRANSFER_LENGTH :: u32
  PICOBOOT_INVALID_ADDRESS :: u32
  PICOBOOT_BAD_ALIGNMENT :: u32
  PICOBOOT_INTERLEAVED_WRITE :: u32
  PICOBOOT_REBOOTING :: u32
  EXCLUSIVE_AND_EJECT :: u8
  UF2_MAGIC_START0 :: u32
  UF2_MAGIC_START1 :: u32
  UF2_MAGIC_END :: u32
  UF2_FLAG_NOT_MAIN_FLASH :: u32
  UF2_FLAG_FAMILY_ID_PRESENT :: u32
  RP2040_FAMILY_ID :: u32
  uf2_block_at :: "memory \<Rightarrow> u32 \<Rightarrow> uf2_block" \<comment> \<open>the structure laid out at an address\<close>
  offsetof_uf2_data :: u32

text \<open>The documented address map, and success is code zero.\<close>

definition rp2040_map :: "platform \<Rightarrow> bool" where
  "rp2040_map p \<longleftrightarrow>
     XIP_MAIN_BASE p = 0x10000000 \<and> XIP_SRAM_BASE p = 0x15000000 \<and> XIP_SRAM_END p = 0x15004000 \<and>
     SRAM_BASE p = 0x20000000 \<and> SRAM_END p = 0x20042000 \<and>
     distinct [PICOBOOT_OK p, PICOBOOT_UNKNOWN_CMD p, PICOBOOT_INVALID_CMD_LENGTH p,
       PICOBOOT_INVALID_TRANSFER_LENGTH p, PICOBOOT_INVALID_ADDRESS p, PICOBOOT_BAD_ALIGNMENT p,
       PICOBOOT_INTERLEAVED_WRITE p, PICOBOOT_REBOOTING p] \<and>
     PICOBOOT_OK p = 0"

definition rp2040 :: platform where
  "rp2040 = \<lparr>XIP_MAIN_BASE = 0x10000000, XIP_SRAM_BASE = 0x15000000, XIP_SRAM_END = 0x15004000,
     SRAM_BASE = 0x20000000, SRAM_END = 0x20042000,
     PICOBOOT_OK = 0, PICOBOOT_UNKNOWN_CMD = 1, PICOBOOT_INVALID_CMD_LENGTH = 2,
     PICOBOOT_INVALID_TRANSFER_LENGTH = 3, PICOBOOT_INVALID_ADDRESS = 4, PICOBOOT_BAD_ALIGNMENT = 5,
     PICOBOOT_INTERLEAVED_WRITE = 6, PICOBOOT_REBOOTING = 7, EXCLUSIVE_AND_EJECT = 2,
     UF2_MAGIC_START0 = 0x0A324655, UF2_MAGIC_START1 = 0x9E5D5157, UF2_MAGIC_END = 0x0AB16F30,
     UF2_FLAG_NOT_MAIN_FLASH = 1, UF2_FLAG_FAMILY_ID_PRESENT = 0x2000, RP2040_FAMILY_ID = 0xe48bff56,
     uf2_block_at = (\<lambda>m a. \<lparr>magic_start0 = rd32 m a, magic_start1 = rd32 m (a + 4), uf2_flags = rd32 m (a + 8),
       target_addr = rd32 m (a + 12), payload_size = rd32 m (a + 16), uf2_block_no = rd32 m (a + 20),
       uf2_num_blocks = rd32 m (a + 24), file_size = rd32 m (a + 28), magic_end = rd32 m (a + 508)\<rparr>),
     offsetof_uf2_data = 32\<rparr>"

lemma rp2040_map_rp2040: "rp2040_map rp2040"
  by (simp add: rp2040_map_def rp2040_def)

subsection \<open>Address classes\<close>

definition is_address_ram :: "platform \<Rightarrow> u32 \<Rightarrow> bool" where
  "is_address_ram p addr \<longleftrightarrow>
     SRAM_BASE p \<le> addr \<and> addr \<le> SRAM_END p \<or> XIP_SRAM_BASE p \<le> addr \<and> addr \<le> XIP_SRAM_END p"

definition is_address_flash :: "platform \<Rightarrow> u32 \<Rightarrow> bool" where
  "is_address_flash p addr \<longleftrightarrow> XIP_MAIN_BASE p \<le> addr \<and> addr \<le> SRAM_BASE p"

definition is_address_rom :: "u32 \<Rightarrow> bool" where
  "is_address_rom addr \<longleftrightarrow> addr < 8192"

subsection \<open>Reading and writing words\<close>

lemma le32_word:
  "ucast (ucast w :: u8) OR push_bit 8 (ucast (ucast (drop_bit 8 w) :: u8)) OR
     push_bit 16 (ucast (ucast (drop_bit 16 w) :: u8)) OR push_bit 24 (ucast (ucast (drop_bit 24 w) :: u8)) =
   (w :: u32)"
proof (rule bit_word_eqI)
  fix n assume "n < LENGTH(32)"
  then consider "n < 8" | "8 \<le> n" "n < 16" | "16 \<le> n" "n < 24" | "24 \<le> n" "n < 32" by fastforce
  then show "bit (ucast (ucast w :: u8) OR push_bit 8 (ucast (ucast (drop_bit 8 w) :: u8)) OR
     push_bit 16 (ucast (ucast (drop_bit 16 w) :: u8)) OR push_bit 24 (ucast (ucast (drop_bit 24 w) :: u8)) :: u32) n
     \<longleftrightarrow> bit w n"
    by cases (auto simp: bit_simps)
qed

lemma rd32_le32: "mem_read m a 4 = le32 w \<Longrightarrow> rd32 m a = w"
  by (simp add: mem_read_4 le32_def rd32_def le32_word)

lemma le32_rd32: "le32 (rd32 m a) = mem_read m a 4"
  by (simp add: rd32_def le32_bytes mem_read_4)

lemma rd32_cong: "mem_read m a 4 = mem_read m' a 4 \<Longrightarrow> rd32 m a = rd32 m' a"
  by (simp add: mem_read_4 rd32_def)

lemma rd32_wr32_same [memsimps]: "rd32 (wr32 m a w) a = w"
  by (rule rd32_le32) (simp add: wr32_def mem_read_write_same)

lemma rd32_write_other [memsimps]:
  "length bs \<le> unat (b - a) \<Longrightarrow> unat (b - a) + 4 \<le> 2 ^ 32 \<Longrightarrow> rd32 (mem_write m a bs) b = rd32 m b"
  by (intro rd32_cong mem_read_write_other) auto

lemma rd32_wr32_other [memsimps]:
  "4 \<le> unat (b - a) \<Longrightarrow> unat (b - a) + 4 \<le> 2 ^ 32 \<Longrightarrow> rd32 (wr32 m a w) b = rd32 m b"
  unfolding wr32_def by (intro rd32_write_other) auto

end
