(* ===== verification/Runtime.thy ===== *)
theory Runtime
  imports Platform
begin

section \<open>Runtime services: interrupts, the watchdog reboot and the activity pin\<close>

text \<open>
  \<open>usb_device_tiny/runtime.c\<close>: the hardware registers it writes are fields of
  \<open>runtime_hw\<close>, the register constants of the SDK a parameter. \<open>boot_vector\<close> is the test
  that \<open>check_wdog\<close> in \<open>bootrom/bootrom_rt0.S\<close> makes on the scratch registers after the
  reset, so that the reboot can be followed to the entry point it asks for.
\<close>

record runtime_consts =
  PSM_WDSEL_BITS :: u32
  PSM_WDSEL_ROSC_BITS :: u32
  PSM_WDSEL_XOSC_BITS :: u32
  WATCHDOG_CTRL_ENABLE_BITS :: u32
  WATCHDOG_CTRL_PAUSE_BITS :: u32 \<comment> \<open>\<open>PAUSE_DBG0\<close>, \<open>PAUSE_DBG1\<close> and \<open>PAUSE_JTAG\<close>\<close>
  CLOCKS_CLK_REF_CTRL_SRC_VALUE_XOSC_CLKSRC :: nat
  CLOCKS_CLK_REF_CTRL_SRC_BITS :: u32
  WATCHDOG_TICK_CYCLES_LSB :: nat
  WATCHDOG_TICK_ENABLE_BITS :: u32
  PADS_BANK0_GPIO0_OD_BITS :: u32
  IO_BANK0_GPIO0_CTRL_FUNCSEL_LSB :: nat
  running_on_fpga :: bool
  clk_ref_selected :: "nat \<Rightarrow> u32" \<comment> \<open>the \<open>n\<close>-th read of the selected clock after the switch\<close>

record runtime_hw =
  rebooting :: bool
  nvic_enabled :: u32
  nvic_pending :: u32
  psm_wdsel :: u32
  wd_ctrl :: u32
  wd_scratch :: "nat \<Rightarrow> u32"
  wd_load :: u32
  wd_tick :: u32
  clk_ref_ctrl :: u32
  usb_activity_gpio_pin_mask :: u32
  io_bank0_in_reset :: bool
  gpio_out :: u32
  gpio_oe :: u32
  pad_ctrl :: "nat \<Rightarrow> u32"
  gpio_ctrl :: "nat \<Rightarrow> u32"

subsection \<open>Operations\<close>

definition watchdog_rebooting :: "'z runtime_hw_scheme \<Rightarrow> bool" where
  "watchdog_rebooting r = rebooting r"

definition interrupt_enable :: "nat \<Rightarrow> bool \<Rightarrow> 'z runtime_hw_scheme \<Rightarrow> 'z runtime_hw_scheme" where
  "interrupt_enable irq enable r =
     (if enable then
        r\<lparr>nvic_pending := nvic_pending r AND NOT (push_bit irq 1),
          nvic_enabled := nvic_enabled r OR push_bit irq 1\<rparr>
      else r\<lparr>nvic_enabled := nvic_enabled r AND NOT (push_bit irq 1)\<rparr>)"

text \<open>Wait for a hardware flag: \<open>flag n\<close> is what the \<open>n\<close>-th read finds.\<close>

partial_function (option) poll_until :: "(nat \<Rightarrow> bool) \<Rightarrow> nat \<Rightarrow> nat option" where
  "poll_until flag n = (if flag n then Some n else poll_until flag (Suc n))"

definition watchdog_vector :: "u32 \<Rightarrow> u32 \<Rightarrow> 'z runtime_hw_scheme \<Rightarrow> 'z runtime_hw_scheme" where
  "watchdog_vector pc0 sp r =
     (if pc0 \<noteq> 0 then
        (let pc = pc0 OR 1;
             r1 = r\<lparr>wd_scratch := (wd_scratch r)(4 := 0xb007c0d3)\<rparr>
         in r1\<lparr>wd_scratch := (wd_scratch r1)(5 := pc XOR - wd_scratch r1 4, 6 := sp, 7 := pc)\<rparr>)
      else r\<lparr>wd_scratch := (wd_scratch r)(4 := 0)\<rparr>)"

definition watchdog_reboot ::
    "runtime_consts \<Rightarrow> u32 \<Rightarrow> u32 \<Rightarrow> u32 \<Rightarrow> 'z runtime_hw_scheme \<Rightarrow> 'z runtime_hw_scheme option" where
  "watchdog_reboot c pc sp delay_ms r =
     (let r1 = r\<lparr>psm_wdsel := PSM_WDSEL_BITS c AND NOT (PSM_WDSEL_ROSC_BITS c OR PSM_WDSEL_XOSC_BITS c),
                 wd_ctrl := wd_ctrl r AND NOT (WATCHDOG_CTRL_ENABLE_BITS c OR WATCHDOG_CTRL_PAUSE_BITS c)\<rparr>;
          r2 = watchdog_vector pc sp r1;
          r3 = r2\<lparr>wd_load := delay_ms * 1000\<rparr>;
          finish = (\<lambda>r.
            let r' = r\<lparr>wd_tick := push_bit (WATCHDOG_TICK_CYCLES_LSB c) 12\<rparr>
            in r'\<lparr>wd_tick := wd_tick r' OR WATCHDOG_TICK_ENABLE_BITS c,
                 wd_ctrl := wd_ctrl r' OR WATCHDOG_CTRL_ENABLE_BITS c, rebooting := True\<rparr>)
      in if running_on_fpga c then Some (finish r3)
         else
           (let src = CLOCKS_CLK_REF_CTRL_SRC_VALUE_XOSC_CLKSRC c;
                msk = CLOCKS_CLK_REF_CTRL_SRC_BITS c;
                r4 = r3\<lparr>clk_ref_ctrl := (clk_ref_ctrl r3 AND NOT msk) OR (word_of_nat src AND msk)\<rparr>
            in map_option (\<lambda>_. finish r4)
                 (poll_until (\<lambda>n. clk_ref_selected c n AND push_bit src 1 \<noteq> 0) 0)))"

text \<open>The number of trailing zero bits.\<close>

definition ctz32 :: "u32 \<Rightarrow> nat" where
  "ctz32 w = length (takeWhile (\<lambda>n. \<not> bit w n) [0..<32])"

definition gpio_funcsel :: "runtime_consts \<Rightarrow> nat \<Rightarrow> u32 \<Rightarrow> 'z runtime_hw_scheme \<Rightarrow> 'z runtime_hw_scheme" where
  "gpio_funcsel c i fn r =
     r\<lparr>pad_ctrl := (pad_ctrl r)(i := pad_ctrl r i AND NOT (PADS_BANK0_GPIO0_OD_BITS c)),
       gpio_ctrl := (gpio_ctrl r)(i := push_bit (IO_BANK0_GPIO0_CTRL_FUNCSEL_LSB c) fn)\<rparr>"

definition gpio_setup :: "runtime_consts \<Rightarrow> 'z runtime_hw_scheme \<Rightarrow> 'z runtime_hw_scheme" where
  "gpio_setup c r =
     (if usb_activity_gpio_pin_mask r \<noteq> 0 then
        gpio_funcsel c (ctz32 (usb_activity_gpio_pin_mask r)) 5
          (r\<lparr>io_bank0_in_reset := False,
             gpio_out := gpio_out r OR usb_activity_gpio_pin_mask r,
             gpio_oe := gpio_oe r OR usb_activity_gpio_pin_mask r\<rparr>)
      else r)"

definition gpio_set_mask :: "u32 \<Rightarrow> 'z runtime_hw_scheme \<Rightarrow> 'z runtime_hw_scheme" where
  "gpio_set_mask msk r = r\<lparr>gpio_out := gpio_out r OR msk\<rparr>"

definition gpio_clr_mask :: "u32 \<Rightarrow> 'z runtime_hw_scheme \<Rightarrow> 'z runtime_hw_scheme" where
  "gpio_clr_mask msk r = r\<lparr>gpio_out := gpio_out r AND NOT msk\<rparr>"

subsection \<open>A reboot reaches the entry point it was asked for\<close>

definition boot_vector :: "'z runtime_hw_scheme \<Rightarrow> (u32 \<times> u32) option" where
  "boot_vector r =
     (let s = wd_scratch r
      in if s 4 = 0xb007c0d3 \<and> s 4 + (s 5 XOR s 7) = 0 then Some (s 7, s 6) else None)"

lemma poll_until_ends: "flag k \<Longrightarrow> n \<le> k \<Longrightarrow> \<exists>m. poll_until flag n = Some m"
proof (induction "k - n" arbitrary: n)
  case 0
  then show ?case by (subst poll_until.simps) auto
next
  case (Suc d)
  then show ?case by (subst poll_until.simps) auto
qed

lemma boot_vector_watchdog: "boot_vector (watchdog_vector pc sp r) = (if pc = 0 then None else Some (pc OR 1, sp))"
proof -
  have "(pc' XOR y) XOR pc' = y" for pc' y :: u32
    by (metis xor.assoc xor.commute xor.right_neutral xor_self_eq)
  then show ?thesis by (simp add: boot_vector_def watchdog_vector_def Let_def)
qed

lemma boot_vector_update [simp]:
  "boot_vector (r\<lparr>wd_load := v\<rparr>) = boot_vector r" "boot_vector (r\<lparr>wd_tick := v\<rparr>) = boot_vector r"
  "boot_vector (r\<lparr>wd_ctrl := v\<rparr>) = boot_vector r" "boot_vector (r\<lparr>rebooting := b\<rparr>) = boot_vector r"
  "boot_vector (r\<lparr>clk_ref_ctrl := v\<rparr>) = boot_vector r"
  by (simp_all add: boot_vector_def)

lemma watchdog_reboot_ok:
  assumes "running_on_fpga c \<or>
    (\<exists>k. clk_ref_selected c k AND push_bit (CLOCKS_CLK_REF_CTRL_SRC_VALUE_XOSC_CLKSRC c) 1 \<noteq> 0)"
  shows "\<exists>r'. watchdog_reboot c pc sp delay_ms r = Some r' \<and> watchdog_rebooting r' \<and>
    boot_vector r' = (if pc = 0 then None else Some (pc OR 1, sp)) \<and>
    wd_load r' = delay_ms * 1000 \<and> WATCHDOG_CTRL_ENABLE_BITS c AND wd_ctrl r' = WATCHDOG_CTRL_ENABLE_BITS c"
proof -
  have en: "x AND (y OR x) = x" for x y :: u32 by (rule bit_word_eqI) (auto simp: bit_simps)
  let ?sel = "\<lambda>n. clk_ref_selected c n AND push_bit (CLOCKS_CLK_REF_CTRL_SRC_VALUE_XOSC_CLKSRC c) 1 \<noteq> 0"
  obtain m where m: "running_on_fpga c \<or> poll_until ?sel 0 = Some m"
    using assms poll_until_ends [of ?sel _ 0] by blast
  show ?thesis
    using m by (cases "running_on_fpga c")
      (auto simp: watchdog_reboot_def watchdog_rebooting_def Let_def en boot_vector_watchdog)
qed

text \<open>
  C34. If clk_ref switches to the crystal at some point (or on the FPGA, where there is no
  switch), \<open>watchdog_reboot\<close> returns with the watchdog enabled, its load the delay in
  microseconds and the rebooting flag set; after the reset the ROM jumps to the given entry
  point with the thumb bit set and the given stack pointer, and for entry point 0 it boots
  normally.
\<close>

theorem watchdog_reboot_correct:
  assumes "running_on_fpga c \<or>
    (\<exists>k. clk_ref_selected c k AND push_bit (CLOCKS_CLK_REF_CTRL_SRC_VALUE_XOSC_CLKSRC c) 1 \<noteq> 0)"
  shows "\<exists>r'. watchdog_reboot c pc sp delay_ms r = Some r' \<and> watchdog_rebooting r' \<and>
    boot_vector r' = (if pc = 0 then None else Some (pc OR 1, sp)) \<and>
    wd_load r' = delay_ms * 1000 \<and> WATCHDOG_CTRL_ENABLE_BITS c AND wd_ctrl r' = WATCHDOG_CTRL_ENABLE_BITS c"
  using assms by (rule watchdog_reboot_ok)

definition reset_hw :: runtime_hw where
  "reset_hw = \<lparr>rebooting = False, nvic_enabled = 0, nvic_pending = 0, psm_wdsel = 0, wd_ctrl = 0,
     wd_scratch = \<lambda>_. 0, wd_load = 0, wd_tick = 0, clk_ref_ctrl = 0, usb_activity_gpio_pin_mask = 0,
     io_bank0_in_reset = True, gpio_out = 0, gpio_oe = 0, pad_ctrl = \<lambda>_. 0, gpio_ctrl = \<lambda>_. 0\<rparr>"

definition example_runtime :: runtime_consts where
  "example_runtime = \<lparr>PSM_WDSEL_BITS = 0x1ffff, PSM_WDSEL_ROSC_BITS = 1, PSM_WDSEL_XOSC_BITS = 2,
     WATCHDOG_CTRL_ENABLE_BITS = 0x40000000, WATCHDOG_CTRL_PAUSE_BITS = 0x7000000,
     CLOCKS_CLK_REF_CTRL_SRC_VALUE_XOSC_CLKSRC = 2, CLOCKS_CLK_REF_CTRL_SRC_BITS = 3,
     WATCHDOG_TICK_CYCLES_LSB = 0, WATCHDOG_TICK_ENABLE_BITS = 0x200, PADS_BANK0_GPIO0_OD_BITS = 0x80,
     IO_BANK0_GPIO0_CTRL_FUNCSEL_LSB = 0, running_on_fpga = False,
     clk_ref_selected = \<lambda>n. if n < 5 then 1 else 4\<rparr>"

lemma example_runtime_selected:
  "clk_ref_selected example_runtime 5 AND
     push_bit (CLOCKS_CLK_REF_CTRL_SRC_VALUE_XOSC_CLKSRC example_runtime) 1 \<noteq> 0"
  by (simp add: example_runtime_def)

theorem watchdog_reboot_correct_witness:
  "\<exists>r'. watchdog_reboot example_runtime 0x20000100 0x20042000 1000 reset_hw = Some r' \<and>
    watchdog_rebooting r' \<and> boot_vector r' = Some (0x20000101, 0x20042000)"
  using watchdog_reboot_correct [of example_runtime "0x20000100" "0x20042000" 1000 reset_hw]
    example_runtime_selected by auto

end
