(* ===== verification/Flash_Port.thy ===== *)
theory Flash_Port
  imports Prelude
begin

section \<open>The SSI port to the flash chip and \<open>flash_put_get\<close>\<close>

text \<open>
  \<open>bootrom/program_flash_generic.c\<close> talks to the flash through the SSI controller: a transmit
  FIFO, a shift register and a receive FIFO of 16 entries. The hardware is not part of the
  sources, so it is a parameter: \<open>spi_env\<close> holds the chip (one byte exchanged, the chip select
  moved) and a schedule that says how far the controller gets before each register access of
  the processor, and at which accesses an interrupt handler calls \<open>flash_abort\<close>. The state
  \<open>flash_hw\<close> holds the registers the code writes and the FIFO contents. The model of
  \<open>flash_put_get\<close> is the C loop over this state, one iteration per \<open>put_get_step\<close>.
\<close>

subsection \<open>Controller, chip and schedule\<close>

datatype outover = OUTOVER_NORMAL | OUTOVER_INVERT | OUTOVER_LOW | OUTOVER_HIGH

record 'd spi_env =
  exchange :: "'d \<Rightarrow> u8 \<Rightarrow> u8 \<times> 'd" \<comment> \<open>the chip shifts one byte in and one out\<close>
  chip_select :: "'d \<Rightarrow> outover \<Rightarrow> 'd" \<comment> \<open>the select line of the chip changes\<close>
  shifts :: "nat \<Rightarrow> nat" \<comment> \<open>steps of the controller before the \<open>n\<close>-th access\<close>
  abort_irq :: "nat \<Rightarrow> bool" \<comment> \<open>\<open>flash_abort\<close> runs in an interrupt before the \<open>n\<close>-th access\<close>
  stack_bytes :: "nat \<Rightarrow> u8" \<comment> \<open>what the bytes of an uninitialised local hold\<close>

record 'd flash_hw =
  ssienr :: u32
  baudr :: u32
  ctrlr0 :: u32
  ser :: u32
  spi_ctrlr0 :: u32
  tx_fifo :: "u8 list"
  shift_reg :: "u8 option"
  rx_fifo :: "u8 list"
  rx_overflow :: bool \<comment> \<open>a received byte was lost\<close>
  cs_over :: outover
  sd0 :: u32
  sd1 :: u32
  sd2 :: u32
  sd3 :: u32
  xip_ctrl :: u32
  xip_flush :: u32
  inover_low :: bool \<comment> \<open>the input override that \<open>flash_abort\<close> sets: the data line reads as zero\<close>
  chip :: 'd
  now :: nat

definition fifo_depth :: nat where
  "fifo_depth = 16"

definition receive :: "u8 \<Rightarrow> 'd flash_hw \<Rightarrow> 'd flash_hw" where
  "receive r h =
     (if length (rx_fifo h) < fifo_depth then h\<lparr>rx_fifo := rx_fifo h @ [r]\<rparr>
      else h\<lparr>rx_overflow := True\<rparr>)"

text \<open>
  One step of an enabled controller: a byte is loaded into the shift register, or the byte in
  the shift register is exchanged with the chip.
\<close>

definition ssi_step :: "'d spi_env \<Rightarrow> 'd flash_hw \<Rightarrow> 'd flash_hw" where
  "ssi_step env h =
     (if ssienr h = 0 then h
      else
        (case shift_reg h of
           Some b \<Rightarrow>
             let (r, d) = exchange env (chip h) b
             in receive (if inover_low h then 0 else r) (h\<lparr>shift_reg := None, chip := d\<rparr>)
         | None \<Rightarrow>
             (case tx_fifo h of
                [] \<Rightarrow> h
              | b # bs \<Rightarrow> h\<lparr>tx_fifo := bs, shift_reg := Some b\<rparr>)))"

fun ssi_steps :: "'d spi_env \<Rightarrow> nat \<Rightarrow> 'd flash_hw \<Rightarrow> 'd flash_hw" where
  "ssi_steps env 0 h = h"
| "ssi_steps env (Suc n) h = ssi_steps env n (ssi_step env h)"

text \<open>What happens between the previous register access of the processor and this one.\<close>

definition tick :: "'d spi_env \<Rightarrow> 'd flash_hw \<Rightarrow> 'd flash_hw" where
  "tick env h =
     (let h1 = ssi_steps env (shifts env (now h)) h;
          h2 = (if abort_irq env (now h) then h1\<lparr>inover_low := True\<rparr> else h1)
      in h2\<lparr>now := Suc (now h)\<rparr>)"

subsection \<open>Register accesses\<close>

definition read_txflr :: "'d spi_env \<Rightarrow> 'd flash_hw \<Rightarrow> nat \<times> 'd flash_hw" where
  "read_txflr env h = (let h' = tick env h in (length (tx_fifo h'), h'))"

definition read_rxflr :: "'d spi_env \<Rightarrow> 'd flash_hw \<Rightarrow> nat \<times> 'd flash_hw" where
  "read_rxflr env h = (let h' = tick env h in (length (rx_fifo h'), h'))"

definition write_dr0 :: "'d spi_env \<Rightarrow> u8 \<Rightarrow> 'd flash_hw \<Rightarrow> 'd flash_hw" where
  "write_dr0 env b h =
     (let h' = tick env h
      in if length (tx_fifo h') < fifo_depth then h'\<lparr>tx_fifo := tx_fifo h' @ [b]\<rparr> else h')"

definition read_dr0 :: "'d spi_env \<Rightarrow> 'd flash_hw \<Rightarrow> u8 \<times> 'd flash_hw" where
  "read_dr0 env h =
     (let h' = tick env h
      in case rx_fifo h' of [] \<Rightarrow> (0, h') | b # bs \<Rightarrow> (b, h'\<lparr>rx_fifo := bs\<rparr>))"

definition flash_was_aborted :: "'d spi_env \<Rightarrow> 'd flash_hw \<Rightarrow> bool \<times> 'd flash_hw" where
  "flash_was_aborted env h = (let h' = tick env h in (inover_low h', h'))"

definition flash_abort :: "'d flash_hw \<Rightarrow> 'd flash_hw" where
  "flash_abort h = h\<lparr>inover_low := True\<rparr>"

definition flash_cs_force :: "'d spi_env \<Rightarrow> outover \<Rightarrow> 'd flash_hw \<Rightarrow> 'd flash_hw" where
  "flash_cs_force env over h =
     (let h' = tick env h in h'\<lparr>cs_over := over, chip := chip_select env (chip h') over\<rparr>)"

subsection \<open>The transfer loop\<close>

record put_get =
  tx_data :: "u8 list option" \<comment> \<open>what \<open>tx\<close> still points to, \<open>None\<close> for a null pointer\<close>
  tx_count :: nat
  rx_count :: nat
  rx_skip :: nat
  rx_data :: "u8 list" \<comment> \<open>the bytes stored through \<open>rx\<close> so far\<close>

definition max_in_flight :: nat where
  "max_in_flight = 16 - 2"

definition put_get_send :: "'d spi_env \<Rightarrow> put_get \<Rightarrow> 'd flash_hw \<Rightarrow> put_get \<times> 'd flash_hw" where
  "put_get_send env l h =
     (case tx_data l of
        None \<Rightarrow> (l\<lparr>tx_count := dec32 (tx_count l)\<rparr>, write_dr0 env 0 h)
      | Some bs \<Rightarrow>
          (l\<lparr>tx_data := Some (tl bs), tx_count := dec32 (tx_count l)\<rparr>, write_dr0 env (hd bs) h))"

definition put_get_receive ::
    "'d spi_env \<Rightarrow> bool \<Rightarrow> put_get \<Rightarrow> 'd flash_hw \<Rightarrow> put_get \<times> 'd flash_hw" where
  "put_get_receive env rx l h =
     (let (rxbyte, h') = read_dr0 env h
      in if rx_skip l \<noteq> 0 then (l\<lparr>rx_skip := dec32 (rx_skip l)\<rparr>, h')
         else
           (l\<lparr>rx_data := (if rx then rx_data l @ [rxbyte] else rx_data l),
              rx_count := dec32 (rx_count l)\<rparr>, h'))"

text \<open>One iteration; the boolean says that the loop is left by \<open>break\<close>.\<close>

definition put_get_step ::
    "'d spi_env \<Rightarrow> bool \<Rightarrow> put_get \<Rightarrow> 'd flash_hw \<Rightarrow> bool \<times> put_get \<times> 'd flash_hw" where
  "put_get_step env rx l h =
     (let (tx_level, h1) = read_txflr env h;
          (rx_level, h2) = read_rxflr env h1;
          sends = (tx_count l \<noteq> 0 \<and> tx_level + rx_level < max_in_flight);
          (l3, h3) = (if sends then put_get_send env l h2 else (l, h2));
          (l4, h4) = (if rx_level \<noteq> 0 then put_get_receive env rx l3 h3 else (l3, h3));
          did_something = (sends \<or> rx_level \<noteq> 0)
      in if did_something then (False, l4, h4)
         else (let (aborted, h5) = flash_was_aborted env h4 in (aborted, l4, h5)))"

definition put_get_busy :: "put_get \<Rightarrow> bool" where
  "put_get_busy l \<longleftrightarrow> tx_count l \<noteq> 0 \<or> rx_skip l \<noteq> 0 \<or> rx_count l \<noteq> 0"

partial_function (option) put_get_loop ::
    "'d spi_env \<Rightarrow> bool \<Rightarrow> put_get \<Rightarrow> 'd flash_hw \<Rightarrow> (put_get \<times> 'd flash_hw) option" where
  "put_get_loop env rx l h =
     (if put_get_busy l then
        (case put_get_step env rx l h of
           (leave, l', h') \<Rightarrow> if leave then Some (l', h') else put_get_loop env rx l' h')
      else Some (l, h))"

text \<open>
  \<open>flash_put_get(tx, rx, count, rx_skip)\<close>: the bytes stored through \<open>rx\<close> and the hardware
  state after the loop and the release of the chip; \<open>None\<close> if the loop never ends. The
  transmit buffer holds at least \<open>count\<close> bytes. The buffers may be the same: a byte is
  stored only after the byte of the same index has been sent.
\<close>

definition flash_put_get ::
    "'d spi_env \<Rightarrow> u8 list option \<Rightarrow> bool \<Rightarrow> nat \<Rightarrow> nat \<Rightarrow> 'd flash_hw \<Rightarrow>
       (u8 list \<times> 'd flash_hw) option" where
  "flash_put_get env tx rx count skip h =
     (case put_get_loop env rx
         \<lparr>tx_data = tx, tx_count = count, rx_count = count, rx_skip = skip, rx_data = []\<rparr> h of
        None \<Rightarrow> None
      | Some (l, h') \<Rightarrow> Some (rx_data l, flash_cs_force env OUTOVER_HIGH h'))"

subsection \<open>Bytes in flight\<close>

definition shifting :: "'d flash_hw \<Rightarrow> u8 list" where
  "shifting h = (case shift_reg h of None \<Rightarrow> [] | Some b \<Rightarrow> [b])"

definition pending :: "'d flash_hw \<Rightarrow> u8 list" where
  "pending h = shifting h @ tx_fifo h"

definition in_flight :: "'d flash_hw \<Rightarrow> nat" where
  "in_flight h = length (pending h) + length (rx_fifo h)"

text \<open>The FIFOs hold at most 15 bytes together with the shift register, and no byte was lost.\<close>

definition fifo_ok :: "'d flash_hw \<Rightarrow> bool" where
  "fifo_ok h \<longleftrightarrow> ssienr h \<noteq> 0 \<and> \<not> rx_overflow h \<and> in_flight h < fifo_depth"

text \<open>How much the controller still has to do for the bytes it holds.\<close>

definition engine_work :: "'d flash_hw \<Rightarrow> nat" where
  "engine_work h = 2 * length (tx_fifo h) + length (shifting h)"

lemmas flight_defs = in_flight_def pending_def shifting_def fifo_depth_def

fun exchange_all :: "'d spi_env \<Rightarrow> 'd \<Rightarrow> u8 list \<Rightarrow> u8 list \<times> 'd" where
  "exchange_all env d [] = ([], d)"
| "exchange_all env d (b # bs) =
     (let (r, d1) = exchange env d b; (rs, d2) = exchange_all env d1 bs in (r # rs, d2))"

lemma exchange_all_append:
  "exchange_all env d (xs @ ys) =
     (let (rs1, d1) = exchange_all env d xs; (rs2, d2) = exchange_all env d1 ys in (rs1 @ rs2, d2))"
  by (induction xs arbitrary: d) (auto simp: Let_def split: prod.splits)

lemma length_exchange_all [simp]: "length (fst (exchange_all env d bs)) = length bs"
  by (induction bs arbitrary: d) (simp_all add: Let_def case_prod_beta)

text \<open>What will have been received, and the chip, once everything in flight is exchanged.\<close>

definition drained :: "'d spi_env \<Rightarrow> u8 list \<Rightarrow> 'd flash_hw \<Rightarrow> u8 list \<times> 'd" where
  "drained env bs h =
     (let (rs, d) = exchange_all env (chip h) (pending h @ bs) in (rx_fifo h @ rs, d))"

subsection \<open>The controller keeps what is in flight\<close>

lemma ssi_step_frame [simp]:
  "now (ssi_step env h) = now h" "inover_low (ssi_step env h) = inover_low h"
  "ssienr (ssi_step env h) = ssienr h" "cs_over (ssi_step env h) = cs_over h"
  by (auto simp: ssi_step_def receive_def Let_def split: option.splits list.splits prod.splits)

lemma ssi_step_flight:
  assumes "in_flight h < fifo_depth"
  shows "in_flight (ssi_step env h) = in_flight h"
    and "rx_overflow (ssi_step env h) = rx_overflow h"
    and "length (tx_fifo (ssi_step env h)) \<le> length (tx_fifo h)"
    and "engine_work (ssi_step env h) \<le> engine_work h"
    and "ssienr h \<noteq> 0 \<Longrightarrow> pending h \<noteq> [] \<Longrightarrow> engine_work (ssi_step env h) < engine_work h"
  using assms
  by (auto simp: ssi_step_def receive_def flight_defs engine_work_def Let_def
      split: option.splits list.splits prod.splits)

lemma ssi_step_drained:
  assumes "in_flight h < fifo_depth" "\<not> inover_low h"
  shows "drained env bs (ssi_step env h) = drained env bs h"
  using assms
  by (auto simp: ssi_step_def receive_def flight_defs drained_def Let_def
      split: option.splits list.splits prod.splits)

lemma ssi_steps_frame [simp]:
  "now (ssi_steps env n h) = now h" "inover_low (ssi_steps env n h) = inover_low h"
  "ssienr (ssi_steps env n h) = ssienr h" "cs_over (ssi_steps env n h) = cs_over h"
  by (induction n arbitrary: h) simp_all

lemma ssi_steps_flight:
  "in_flight h < fifo_depth \<Longrightarrow>
     in_flight (ssi_steps env n h) = in_flight h \<and>
     rx_overflow (ssi_steps env n h) = rx_overflow h \<and>
     length (tx_fifo (ssi_steps env n h)) \<le> length (tx_fifo h) \<and>
     engine_work (ssi_steps env n h) \<le> engine_work h"
proof (induction n arbitrary: h)
  case (Suc n)
  note s = ssi_step_flight [OF Suc.prems, of env]
  from Suc.IH [of "ssi_step env h"] s Suc.prems show ?case by simp
qed simp

lemma ssi_steps_progress:
  assumes "in_flight h < fifo_depth" "ssienr h \<noteq> 0" "pending h \<noteq> []" "0 < n"
  shows "engine_work (ssi_steps env n h) < engine_work h"
proof -
  obtain k where n: "n = Suc k" using assms(4) by (cases n) auto
  have "engine_work (ssi_steps env k (ssi_step env h)) \<le> engine_work (ssi_step env h)"
    using ssi_steps_flight [of "ssi_step env h" env k] ssi_step_flight(1) [OF assms(1)] assms(1)
    by simp
  also have "\<dots> < engine_work h" using ssi_step_flight(5) assms by blast
  finally show ?thesis by (simp add: n)
qed

lemma ssi_steps_drained:
  "in_flight h < fifo_depth \<Longrightarrow> \<not> inover_low h \<Longrightarrow>
     drained env bs (ssi_steps env n h) = drained env bs h"
proof (induction n arbitrary: h)
  case (Suc n)
  then show ?case using Suc.IH [of "ssi_step env h"]
    by (simp add: ssi_step_flight ssi_step_drained)
qed simp

lemma tick_frame [simp]:
  "now (tick env h) = Suc (now h)" "ssienr (tick env h) = ssienr h"
  "cs_over (tick env h) = cs_over h"
  "inover_low (tick env h) \<longleftrightarrow> inover_low h \<or> abort_irq env (now h)"
  by (auto simp: tick_def Let_def)

lemma flight_update [simp]:
  "in_flight (h\<lparr>inover_low := b\<rparr>) = in_flight h" "in_flight (h\<lparr>now := n\<rparr>) = in_flight h"
  "engine_work (h\<lparr>inover_low := b\<rparr>) = engine_work h" "engine_work (h\<lparr>now := n\<rparr>) = engine_work h"
  "drained env bs (h\<lparr>inover_low := b\<rparr>) = drained env bs h"
  "drained env bs (h\<lparr>now := n\<rparr>) = drained env bs h"
  by (simp_all add: flight_defs engine_work_def drained_def)

lemma tick_flight:
  assumes "in_flight h < fifo_depth"
  shows "in_flight (tick env h) = in_flight h" "rx_overflow (tick env h) = rx_overflow h"
    "length (tx_fifo (tick env h)) \<le> length (tx_fifo h)"
    "engine_work (tick env h) \<le> engine_work h"
  using ssi_steps_flight [OF assms, of env "shifts env (now h)"] by (simp_all add: tick_def Let_def)

lemma tick_progress:
  "in_flight h < fifo_depth \<Longrightarrow> ssienr h \<noteq> 0 \<Longrightarrow> pending h \<noteq> [] \<Longrightarrow> 0 < shifts env (now h) \<Longrightarrow>
     engine_work (tick env h) < engine_work h"
  using ssi_steps_progress [of h "shifts env (now h)" env] by (simp add: tick_def Let_def)

lemma tick_fifo_ok: "fifo_ok h \<Longrightarrow> fifo_ok (tick env h)"
  by (simp add: fifo_ok_def tick_flight)

lemma tick_drained:
  "in_flight h < fifo_depth \<Longrightarrow> \<not> inover_low h \<Longrightarrow> drained env bs (tick env h) = drained env bs h"
  by (simp add: tick_def Let_def ssi_steps_drained)

lemma ssi_step_rx: "length (rx_fifo h) \<le> length (rx_fifo (ssi_step env h))"
  by (auto simp: ssi_step_def receive_def Let_def split: option.splits list.splits prod.splits)

lemma ssi_steps_rx: "length (rx_fifo h) \<le> length (rx_fifo (ssi_steps env n h))"
  by (induction n arbitrary: h) (auto intro: order_trans [OF ssi_step_rx])

lemma tick_rx: "length (rx_fifo h) \<le> length (rx_fifo (tick env h))"
  by (simp add: tick_def Let_def ssi_steps_rx)

lemma write_dr0_flight:
  assumes "in_flight h + 1 < fifo_depth"
  shows "in_flight (write_dr0 env b h) = Suc (in_flight h)"
    and "rx_overflow (write_dr0 env b h) = rx_overflow h"
    and "engine_work (write_dr0 env b h) \<le> engine_work h + 2"
    and "ssienr (write_dr0 env b h) = ssienr h"
    and "inover_low (write_dr0 env b h) = inover_low (tick env h)"
    and "now (write_dr0 env b h) = Suc (now h)"
    and "\<not> inover_low h \<Longrightarrow> drained env bs (write_dr0 env b h) = drained env (b # bs) h"
proof -
  have fl: "in_flight h < fifo_depth" using assms by simp
  have room: "length (tx_fifo (tick env h)) < fifo_depth"
    using tick_flight(1) [OF fl, of env] assms by (simp add: in_flight_def pending_def)
  have w: "write_dr0 env b h = (tick env h)\<lparr>tx_fifo := tx_fifo (tick env h) @ [b]\<rparr>"
    using room by (simp add: write_dr0_def Let_def)
  show "in_flight (write_dr0 env b h) = Suc (in_flight h)"
    using tick_flight(1) [OF fl, of env] by (simp add: w flight_defs)
  show "rx_overflow (write_dr0 env b h) = rx_overflow h"
    using tick_flight(2) [OF fl, of env] by (simp add: w)
  show "engine_work (write_dr0 env b h) \<le> engine_work h + 2"
    using tick_flight(4) [OF fl, of env] by (simp add: w engine_work_def shifting_def)
  show "ssienr (write_dr0 env b h) = ssienr h" "now (write_dr0 env b h) = Suc (now h)"
    "inover_low (write_dr0 env b h) = inover_low (tick env h)"
    by (simp_all add: w)
  show "drained env bs (write_dr0 env b h) = drained env (b # bs) h" if "\<not> inover_low h"
    using tick_drained [OF fl that, of env "b # bs"]
    by (simp add: w drained_def pending_def shifting_def)
qed

lemma read_dr0_flight:
  assumes "in_flight h < fifo_depth" "rx_fifo h \<noteq> []"
  obtains b h' where "read_dr0 env h = (b, h')"
    "in_flight h = Suc (in_flight h')" "rx_overflow h' = rx_overflow h"
    "engine_work h' \<le> engine_work h" "ssienr h' = ssienr h"
    "inover_low h' = inover_low (tick env h)" "now h' = Suc (now h)"
    "\<And>bs. \<not> inover_low h \<Longrightarrow>
       drained env bs h = (b # fst (drained env bs h'), snd (drained env bs h'))"
proof -
  have "rx_fifo (tick env h) \<noteq> []" using tick_rx [of h env] assms(2) by auto
  then obtain b rest where r: "rx_fifo (tick env h) = b # rest" by (cases "rx_fifo (tick env h)") auto
  show ?thesis
  proof
    let ?h = "(tick env h)\<lparr>rx_fifo := rest\<rparr>"
    show "read_dr0 env h = (b, ?h)" using r by (simp add: read_dr0_def Let_def)
    show "in_flight h = Suc (in_flight ?h)"
      using tick_flight(1) [OF assms(1), of env] r by (simp add: flight_defs)
    show "rx_overflow ?h = rx_overflow h" using tick_flight(2) [OF assms(1), of env] by simp
    show "engine_work ?h \<le> engine_work h"
      using tick_flight(4) [OF assms(1), of env] by (simp add: engine_work_def shifting_def)
    show "ssienr ?h = ssienr h" "inover_low ?h = inover_low (tick env h)" "now ?h = Suc (now h)"
      by simp_all
    show "drained env bs h = (b # fst (drained env bs ?h), snd (drained env bs ?h))"
      if "\<not> inover_low h" for bs
      using tick_drained [OF assms(1) that, of env bs] r
      by (simp add: drained_def pending_def shifting_def case_prod_beta)
  qed
qed

subsection \<open>The invariant of the loop\<close>

definition tx_stream :: "put_get \<Rightarrow> u8 list" where
  "tx_stream l =
     (case tx_data l of None \<Rightarrow> replicate (tx_count l) 0 | Some bs \<Rightarrow> take (tx_count l) bs)"

definition tx_enough :: "put_get \<Rightarrow> bool" where
  "tx_enough l \<longleftrightarrow> (case tx_data l of None \<Rightarrow> True | Some bs \<Rightarrow> tx_count l \<le> length bs)"

text \<open>Every byte still to be sent or in flight is one the loop will skip or store.\<close>

definition put_get_inv :: "put_get \<Rightarrow> 'd flash_hw \<Rightarrow> bool" where
  "put_get_inv l h \<longleftrightarrow>
     fifo_ok h \<and> tx_enough l \<and> tx_count l + in_flight h = rx_skip l + rx_count l"

text \<open>What the loop will have stored in the end, and the chip then.\<close>

definition put_get_target :: "'d spi_env \<Rightarrow> put_get \<Rightarrow> 'd flash_hw \<Rightarrow> u8 list \<times> 'd" where
  "put_get_target env l h =
     (let (rs, d) = drained env (tx_stream l) h in (rx_data l @ drop (rx_skip l) rs, d))"

definition loop_work :: "put_get \<Rightarrow> 'd flash_hw \<Rightarrow> nat" where
  "loop_work l h = 3 * tx_count l + rx_skip l + rx_count l + engine_work h"

lemma tx_stream_step:
  assumes "tx_count l \<noteq> 0" "tx_enough l" "put_get_send env l h = (l', h')"
  obtains b where "tx_stream l = b # tx_stream l'" "h' = write_dr0 env b h" "tx_enough l'"
    "tx_count l' = tx_count l - 1" "rx_skip l' = rx_skip l" "rx_count l' = rx_count l"
    "rx_data l' = rx_data l"
proof (cases "tx_data l")
  case None
  then show ?thesis using assms that [of 0]
    by (cases "tx_count l") (auto simp: put_get_send_def tx_stream_def tx_enough_def)
next
  case (Some bs)
  then obtain b rest where "bs = b # rest" using assms by (cases bs) (auto simp: tx_enough_def)
  then show ?thesis using assms Some that [of b]
    by (cases "tx_count l") (auto simp: put_get_send_def tx_stream_def tx_enough_def)
qed

lemma write_dr0_rx: "length (rx_fifo h) \<le> length (rx_fifo (write_dr0 env b h))"
  using tick_rx [of h env] by (simp add: write_dr0_def Let_def)

lemma put_get_tick:
  assumes "put_get_inv l h"
  shows "put_get_inv l (tick env h)" "loop_work l (tick env h) \<le> loop_work l h"
    "\<not> inover_low h \<Longrightarrow> put_get_target env l (tick env h) = put_get_target env l h"
proof -
  have fl: "in_flight h < fifo_depth" using assms by (simp add: put_get_inv_def fifo_ok_def)
  show "put_get_inv l (tick env h)"
    using assms tick_flight(1) [OF fl] tick_fifo_ok by (auto simp: put_get_inv_def)
  show "loop_work l (tick env h) \<le> loop_work l h"
    using tick_flight(4) [OF fl] by (simp add: loop_work_def)
  show "put_get_target env l (tick env h) = put_get_target env l h" if "\<not> inover_low h"
    using tick_drained [OF fl that] by (simp add: put_get_target_def)
qed

lemma put_get_send_inv:
  assumes inv: "put_get_inv l h" and "tx_count l \<noteq> 0" "in_flight h + 1 < fifo_depth"
    and send: "put_get_send env l h = (l', h')"
  shows "put_get_inv l' h'" "loop_work l' h' < loop_work l h"
    "length (rx_fifo h) \<le> length (rx_fifo h')" "inover_low h' = inover_low (tick env h)"
    "rx_data l' = rx_data l"
    "\<not> inover_low h \<Longrightarrow> put_get_target env l' h' = put_get_target env l h"
proof -
  have "tx_enough l" using inv by (simp add: put_get_inv_def)
  from tx_stream_step [OF assms(2) this send]
  obtain b where b: "tx_stream l = b # tx_stream l'" "h' = write_dr0 env b h" "tx_enough l'"
    "tx_count l' = tx_count l - 1" "rx_skip l' = rx_skip l" "rx_count l' = rx_count l"
    "rx_data l' = rx_data l" by metis
  note w = write_dr0_flight [OF assms(3), where env = env and b = b, folded b(2)]
  have sent: "tx_count l = Suc (tx_count l')" using b(4) assms(2) by simp
  show "put_get_inv l' h'"
    using inv b(2,3,5,6) w(1-4) assms(3) sent by (simp add: put_get_inv_def fifo_ok_def)
  show "loop_work l' h' < loop_work l h"
    using b w assms(2) by (simp add: loop_work_def)
  show "length (rx_fifo h) \<le> length (rx_fifo h')" using b(2) write_dr0_rx by simp
  show "inover_low h' = inover_low (tick env h)" "rx_data l' = rx_data l" using w b by simp_all
  show "put_get_target env l' h' = put_get_target env l h" if "\<not> inover_low h"
    using w(7) [OF that] b by (simp add: put_get_target_def)
qed

lemma put_get_receive_inv:
  assumes inv: "put_get_inv l h" and ne: "rx_fifo h \<noteq> []"
    and recv: "put_get_receive env rx l h = (l', h')"
  shows "put_get_inv l' h'" "loop_work l' h' < loop_work l h"
    "inover_low h' = inover_low (tick env h)"
    "\<not> rx \<Longrightarrow> rx_data l' = rx_data l"
    "\<not> inover_low h \<Longrightarrow> snd (put_get_target env l' h') = snd (put_get_target env l h)"
    "\<not> inover_low h \<Longrightarrow> rx \<Longrightarrow> put_get_target env l' h' = put_get_target env l h"
proof -
  have fl: "in_flight h < fifo_depth" using inv by (simp add: put_get_inv_def fifo_ok_def)
  from read_dr0_flight [OF fl ne, of env]
  obtain b g where g: "read_dr0 env h = (b, g)" "in_flight h = Suc (in_flight g)"
    "rx_overflow g = rx_overflow h" "engine_work g \<le> engine_work h" "ssienr g = ssienr h"
    "inover_low g = inover_low (tick env h)" "now g = Suc (now h)"
    "\<And>bs. \<not> inover_low h \<Longrightarrow>
       drained env bs h = (b # fst (drained env bs g), snd (drained env bs g))" by metis
  have h': "h' = g" using recv g(1) by (auto simp: put_get_receive_def split: if_splits)
  have l': "l' = (if rx_skip l \<noteq> 0 then l\<lparr>rx_skip := rx_skip l - 1\<rparr>
      else l\<lparr>rx_data := (if rx then rx_data l @ [b] else rx_data l), rx_count := rx_count l - 1\<rparr>)"
    and pos: "0 < rx_skip l + rx_count l"
    using recv g(1,2) inv by (auto simp: put_get_receive_def put_get_inv_def split: if_splits)
  have st: "tx_stream l' = tx_stream l" "tx_enough l' = tx_enough l" "tx_count l' = tx_count l"
    by (simp_all add: l' tx_stream_def tx_enough_def split: option.split)
  have less: "Suc (rx_skip l' + rx_count l') = rx_skip l + rx_count l"
    using pos by (auto simp: l')
  show "put_get_inv l' h'"
    using inv g(2,3,5) less st unfolding put_get_inv_def fifo_ok_def h' by simp
  show "loop_work l' h' < loop_work l h"
    using g(4) less pos st unfolding loop_work_def h' by simp
  show "inover_low h' = inover_low (tick env h)" using g(6) h' by simp
  show "rx_data l' = rx_data l" if "\<not> rx" using that l' by simp
  show "snd (put_get_target env l' h') = snd (put_get_target env l h)" if "\<not> inover_low h"
    using g(8) [OF that] st by (simp add: put_get_target_def h' case_prod_beta)
  show "put_get_target env l' h' = put_get_target env l h" if "\<not> inover_low h" rx
    using g(8) [OF that(1)] st that(2)
    by (cases "rx_skip l") (simp_all add: put_get_target_def h' l' case_prod_beta)
qed

text \<open>
  A state in which an iteration finds nothing to do: the receive FIFO is empty, and all bytes
  are sent or the transmit FIFO is full.
\<close>

definition stalled :: "put_get \<Rightarrow> 'd flash_hw \<Rightarrow> bool" where
  "stalled l h \<longleftrightarrow> rx_fifo h = [] \<and> (tx_count l = 0 \<or> max_in_flight \<le> in_flight h)"

text \<open>
  One iteration. The levels are read transmit first: a byte that moves on between the two
  reads is counted twice rather than not at all, and only the byte in the shift register can
  be missed.
\<close>

lemma put_get_step_inv:
  assumes inv: "put_get_inv l h" and step: "put_get_step env rx l h = (leave, l', h')"
  shows "put_get_inv l' h'"
    and "loop_work l' h' \<le> loop_work l h"
    and "loop_work l' h' < loop_work l h \<or> stalled l h \<and> l' = l \<and>
      h' = tick env (tick env (tick env h)) \<and> leave = inover_low h'"
    and "\<not> rx \<Longrightarrow> rx_data l' = rx_data l"
    and "\<not> inover_low h \<Longrightarrow> \<forall>n. \<not> abort_irq env n \<Longrightarrow>
      \<not> leave \<and> \<not> inover_low h' \<and> snd (put_get_target env l' h') = snd (put_get_target env l h)"
    and "\<not> inover_low h \<Longrightarrow> \<forall>n. \<not> abort_irq env n \<Longrightarrow> rx \<Longrightarrow>
      put_get_target env l' h' = put_get_target env l h"
proof -
  define h1 where "h1 = tick env h"
  define h2 where "h2 = tick env h1"
  define tx_level where "tx_level = length (tx_fifo h1)"
  define rx_level where "rx_level = length (rx_fifo h2)"
  define sends where "sends = (tx_count l \<noteq> 0 \<and> tx_level + rx_level < max_in_flight)"
  obtain l3 h3 where 3: "(if sends then put_get_send env l h2 else (l, h2)) = (l3, h3)"
    by (rule prod.exhaust)
  obtain l4 h4 where 4: "(if rx_level \<noteq> 0 then put_get_receive env rx l3 h3 else (l3, h3)) = (l4, h4)"
    by (rule prod.exhaust)
  have out: "(leave, l', h') = (if sends \<or> rx_level \<noteq> 0 then (False, l4, h4)
      else (inover_low (tick env h4), l4, tick env h4))"
    using step
    unfolding put_get_step_def read_txflr_def read_rxflr_def flash_was_aborted_def Let_def prod.case
      h1_def [symmetric] h2_def [symmetric] tx_level_def [symmetric] rx_level_def [symmetric]
      sends_def [symmetric] 3 4
    by simp
  note t1 = put_get_tick [OF inv, of env, folded h1_def]
  note t2 = put_get_tick [OF t1(1), of env, folded h2_def]
  have fl1: "in_flight h1 < fifo_depth" using t1(1) by (simp add: put_get_inv_def fifo_ok_def)
  have room: "in_flight h2 + 1 < fifo_depth" if sends
  proof -
    have "length (tx_fifo h2) \<le> tx_level"
      using tick_flight(3) [OF fl1, of env] by (simp add: h2_def tx_level_def)
    moreover have "length (shifting h2) \<le> 1" by (simp add: shifting_def split: option.split)
    ultimately have "in_flight h2 \<le> tx_level + 1 + rx_level"
      by (simp add: in_flight_def pending_def rx_level_def)
    then show ?thesis using that by (simp add: sends_def max_in_flight_def fifo_depth_def)
  qed
  have s3: "put_get_inv l3 h3 \<and> loop_work l3 h3 \<le> loop_work l h2 \<and>
      (sends \<longrightarrow> loop_work l3 h3 < loop_work l h2) \<and>
      length (rx_fifo h2) \<le> length (rx_fifo h3) \<and> rx_data l3 = rx_data l"
    and q3: "\<not> inover_low h2 \<Longrightarrow> \<forall>n. \<not> abort_irq env n \<Longrightarrow>
      \<not> inover_low h3 \<and> put_get_target env l3 h3 = put_get_target env l h2"
    using 3 t2(1) put_get_send_inv [OF t2(1) _ room, of env l3 h3]
    by (auto simp: sends_def split: if_splits)
  have ne: "rx_fifo h3 \<noteq> []" if "rx_level \<noteq> 0" using that s3 by (auto simp: rx_level_def)
  have s4: "put_get_inv l4 h4 \<and> loop_work l4 h4 \<le> loop_work l3 h3 \<and>
      (rx_level \<noteq> 0 \<longrightarrow> loop_work l4 h4 < loop_work l3 h3) \<and> (\<not> rx \<longrightarrow> rx_data l4 = rx_data l3)"
    and q4: "\<not> inover_low h3 \<Longrightarrow> \<forall>n. \<not> abort_irq env n \<Longrightarrow>
      \<not> inover_low h4 \<and> snd (put_get_target env l4 h4) = snd (put_get_target env l3 h3) \<and>
      (rx \<longrightarrow> put_get_target env l4 h4 = put_get_target env l3 h3)"
    using 4 s3 put_get_receive_inv [OF _ ne, of l3 env rx l4 h4]
    by (auto split: if_splits)
  note t5 = put_get_tick [of l4 h4 env]
  show "put_get_inv l' h'" using out s4 t5(1) by (auto split: if_splits)
  show "loop_work l' h' \<le> loop_work l h"
    using out s4 s3 t1(2) t2(2) t5(2) by (auto split: if_splits)
  show "loop_work l' h' < loop_work l h \<or> stalled l h \<and> l' = l \<and>
      h' = tick env (tick env (tick env h)) \<and> leave = inover_low h'"
  proof (cases "sends \<or> rx_level \<noteq> 0")
    case True
    then show ?thesis using out s4 s3 t1(2) t2(2) by (auto split: if_splits)
  next
    case False
    have "in_flight h1 = in_flight h"
      using tick_flight(1) [of h env] inv by (simp add: h1_def put_get_inv_def fifo_ok_def)
    moreover have "tx_level \<le> in_flight h1" by (simp add: tx_level_def in_flight_def pending_def)
    moreover have "rx_fifo h = []"
      using False tick_rx [of h env] tick_rx [of h1 env] by (auto simp: rx_level_def h2_def h1_def)
    ultimately have "stalled l h"
      using False by (auto simp: stalled_def sends_def)
    then show ?thesis using False out 3 4 by (simp add: h1_def h2_def)
  qed
  show "rx_data l' = rx_data l" if "\<not> rx" using out s4 s3 that by (auto split: if_splits)
  assume quiet: "\<not> inover_low h" "\<forall>n. \<not> abort_irq env n"
  have n12: "\<not> inover_low h1" "\<not> inover_low h2" using quiet by (simp_all add: h1_def h2_def)
  have t: "put_get_target env l h2 = put_get_target env l h"
    using t1(3) t2(3) quiet n12 by simp
  note q3' = q3 [OF n12(2) quiet(2)] and q4' = q4 [OF _ quiet(2)]
  show "\<not> leave \<and> \<not> inover_low h' \<and> snd (put_get_target env l' h') = snd (put_get_target env l h)"
    using out q3' q4' t s4 t5(3) quiet by (auto split: if_splits)
  show "put_get_target env l' h' = put_get_target env l h" if rx
    using out q3' q4' t s4 t5(3) quiet that by (auto split: if_splits)
qed

subsection \<open>The loop ends\<close>

definition fair :: "'d spi_env \<Rightarrow> bool" where
  "fair env \<longleftrightarrow> (\<forall>n. \<exists>m \<ge> n. 0 < shifts env m)"

definition quiet :: "'d spi_env \<Rightarrow> bool" where
  "quiet env \<longleftrightarrow> (\<forall>n. \<not> abort_irq env n)"

text \<open>Register accesses until the controller moves.\<close>

definition next_shift :: "'d spi_env \<Rightarrow> nat \<Rightarrow> nat" where
  "next_shift env n = (LEAST k. 0 < shifts env (n + k))"

lemma next_shift_less:
  assumes "fair env" "shifts env n = 0"
  shows "next_shift env (Suc n) < next_shift env n"
proof -
  obtain m where "n \<le> m" "0 < shifts env m" using assms(1) by (auto simp: fair_def)
  then have ex: "0 < shifts env (n + (m - n))" by simp
  let ?k = "next_shift env n"
  have k: "0 < shifts env (n + ?k)" unfolding next_shift_def by (rule LeastI) (rule ex)
  then obtain j where j: "?k = Suc j" using assms(2) by (cases ?k) auto
  then have "0 < shifts env (Suc n + j)" using k by simp
  then have "next_shift env (Suc n) \<le> j" unfolding next_shift_def by (rule Least_le)
  then show ?thesis using j by simp
qed

lemma stalled_pending:
  assumes "put_get_inv l h" "put_get_busy l" "stalled l h"
  shows "pending h \<noteq> []"
  using assms
  by (auto simp: put_get_inv_def put_get_busy_def stalled_def in_flight_def max_in_flight_def)

text \<open>In a stalled state, an access at which the controller moves reduces the work left.\<close>

lemma stalled_tick:
  assumes "put_get_inv l h" "put_get_busy l" "stalled l h"
  shows "loop_work l (tick env h) < loop_work l h \<or> shifts env (now h) = 0 \<and> stalled l (tick env h)"
proof (cases "shifts env (now h)")
  case 0
  then have "rx_fifo (tick env h) = rx_fifo h" "in_flight (tick env h) = in_flight h"
    by (simp_all add: tick_def Let_def flight_defs)
  then show ?thesis using 0 assms(3) by (simp add: stalled_def)
next
  case Suc
  then show ?thesis
    using tick_progress [of h env] stalled_pending [OF assms] assms(1)
    by (auto simp: put_get_inv_def fifo_ok_def loop_work_def)
qed

lemma put_get_step_progress:
  assumes inv: "put_get_inv l h" and busy: "put_get_busy l"
    and step: "put_get_step env rx l h = (leave, l', h')"
  shows "loop_work l' h' < loop_work l h \<or>
    loop_work l' h' = loop_work l h \<and> leave = inover_low h' \<and> now h < now h' \<and>
    (inover_low h \<or> abort_irq env (now h) \<longrightarrow> inover_low h') \<and>
    (fair env \<longrightarrow> next_shift env (now h') < next_shift env (now h))"
proof (cases "loop_work l' h' < loop_work l h")
  case False
  then have st: "stalled l h" and l': "l' = l" and h': "h' = tick env (tick env (tick env h))"
    and lv: "leave = inover_low h'"
    using put_get_step_inv(3) [OF inv step] by auto
  let ?h1 = "tick env h" and ?h2 = "tick env (tick env h)"
  note i1 = put_get_tick(1,2) [OF inv, of env]
  note i2 = put_get_tick(1,2) [OF i1(1), of env]
  note i3 = put_get_tick(1,2) [OF i2(1), of env]
  have 1: "shifts env (now h) = 0" "stalled l ?h1"
    using stalled_tick [OF inv busy st, of env] False l' h' i2(2) i3(2) by auto
  have 2: "shifts env (Suc (now h)) = 0" "stalled l ?h2"
    using stalled_tick [OF i1(1) busy 1(2), of env] False l' h' i1(2) i3(2) by auto
  have 3: "shifts env (Suc (Suc (now h))) = 0"
    using stalled_tick [OF i2(1) busy 2(2), of env] False l' h' i1(2) i2(2) by auto
  have "next_shift env (now h') < next_shift env (now h)" if "fair env"
    using next_shift_less [OF that 1(1)] next_shift_less [OF that 2(1)] next_shift_less [OF that 3] h'
    by simp
  then show ?thesis using False put_get_step_inv(2) [OF inv step] l' h' lv by auto
qed simp

text \<open>The passing of time: an abort is seen at any access after it, and is never withdrawn.\<close>

definition elapsed :: "'d spi_env \<Rightarrow> 'd flash_hw \<Rightarrow> 'd flash_hw \<Rightarrow> bool" where
  "elapsed env h h' \<longleftrightarrow> now h \<le> now h' \<and>
     (inover_low h' \<longleftrightarrow> inover_low h \<or> (\<exists>n \<in> {now h..<now h'}. abort_irq env n))"

lemma elapsed_refl [simp, intro]: "elapsed env h h"
  by (simp add: elapsed_def)

lemma elapsed_trans: "elapsed env h1 h2 \<Longrightarrow> elapsed env h2 h3 \<Longrightarrow> elapsed env h1 h3"
  unfolding elapsed_def by (auto intro: order_trans) (meson atLeastLessThan_iff not_le order_trans)+

lemma elapsed_tick: "elapsed env h (tick env h)"
  by (auto simp: elapsed_def less_Suc_eq)

lemma elapsed_same: "elapsed env h h' \<Longrightarrow> now h'' = now h' \<Longrightarrow> inover_low h'' = inover_low h' \<Longrightarrow> elapsed env h h''"
  by (simp add: elapsed_def)

lemma elapsed_write_dr0: "elapsed env h (write_dr0 env b h)"
  by (rule elapsed_same [OF elapsed_tick]) (simp_all add: write_dr0_def Let_def)

lemma elapsed_read_dr0: "read_dr0 env h = (b, h') \<Longrightarrow> elapsed env h h'"
  by (rule elapsed_same [OF elapsed_tick]) (auto simp: read_dr0_def Let_def split: list.splits)

lemma elapsed_send: "put_get_send env l h = (l', h') \<Longrightarrow> elapsed env h h'"
  by (auto simp: put_get_send_def elapsed_write_dr0 split: option.splits)

lemma elapsed_receive: "put_get_receive env rx l h = (l', h') \<Longrightarrow> elapsed env h h'"
  by (auto simp: put_get_receive_def elapsed_read_dr0 split: prod.splits if_splits)

lemma elapsed_step:
  assumes "put_get_step env rx l h = (leave, l', h')"
  shows "elapsed env h h'"
proof -
  let ?h2 = "tick env (tick env h)"
  have 2: "elapsed env h ?h2" using elapsed_tick elapsed_trans by blast
  define sends where "sends = (tx_count l \<noteq> 0 \<and>
      length (tx_fifo (tick env h)) + length (rx_fifo ?h2) < max_in_flight)"
  obtain l3 h3 where 3: "(if sends then put_get_send env l ?h2 else (l, ?h2)) = (l3, h3)"
    by (rule prod.exhaust)
  obtain l4 h4 where 4: "(if length (rx_fifo ?h2) \<noteq> 0 then put_get_receive env rx l3 h3 else (l3, h3)) = (l4, h4)"
    by (rule prod.exhaust)
  have h': "h' = h4 \<or> h' = tick env h4"
    using assms
    unfolding put_get_step_def read_txflr_def read_rxflr_def flash_was_aborted_def Let_def prod.case
      sends_def [symmetric] 3 4
    by (auto split: if_splits)
  have "elapsed env ?h2 h3" using 3 elapsed_send by (auto split: if_splits)
  moreover have "elapsed env h3 h4" using 4 elapsed_receive by (auto split: if_splits)
  ultimately have "elapsed env h h4" using 2 elapsed_trans by blast
  then show ?thesis using h' elapsed_tick elapsed_trans by blast
qed

text \<open>The loop ends if an iteration that finds nothing to do brings \<open>f\<close> down or leaves.\<close>

lemma put_get_loop_ends:
  assumes step: "\<And>l h leave l' h'. put_get_inv l h \<Longrightarrow> put_get_busy l \<Longrightarrow> P h \<Longrightarrow>
      put_get_step env rx l h = (leave, l', h') \<Longrightarrow>
      P h' \<and> (leave \<or> loop_work l' h' < loop_work l h \<or>
        loop_work l' h' = loop_work l h \<and> f h' < (f h :: nat))"
  shows "put_get_inv l h \<Longrightarrow> P h \<Longrightarrow> \<exists>l' h'. put_get_loop env rx l h = Some (l', h') \<and> put_get_inv l' h'"
proof (induction "(loop_work l h, f h)" arbitrary: l h rule: wf_induct_rule [OF wf_lex_prod [OF wf_less_than wf_less_than]])
  case 1
  show ?case
  proof (cases "put_get_busy l")
    case False
    then show ?thesis using 1 by (simp add: put_get_loop.simps)
  next
    case True
    obtain leave l' h' where s: "put_get_step env rx l h = (leave, l', h')" by (metis prod_cases3)
    have inv: "put_get_inv l' h'" using put_get_step_inv(1) [OF "1.prems"(1) s] .
    have "\<exists>l'' h''. put_get_loop env rx l' h' = Some (l'', h'') \<and> put_get_inv l'' h''" if "\<not> leave"
      using "1.hyps" [of l' h'] step [OF "1.prems"(1) True "1.prems"(2) s] that inv by auto
    then show ?thesis using True s inv by (subst put_get_loop.simps) auto
  qed
qed

text \<open>What the loop has done when it ends undisturbed.\<close>

lemma put_get_loop_done:
  assumes "put_get_loop env rx l h = Some (l', h')" "put_get_inv l h" "quiet env" "\<not> inover_low h"
  shows "\<not> put_get_busy l' \<and> put_get_inv l' h' \<and> \<not> inover_low h' \<and>
    snd (put_get_target env l' h') = snd (put_get_target env l h) \<and>
    (if rx then put_get_target env l' h' = put_get_target env l h else rx_data l' = rx_data l)"
proof -
  let ?Q = "\<lambda>(env :: 'a spi_env) rx l h (l', h'). put_get_inv l h \<longrightarrow> quiet env \<longrightarrow> \<not> inover_low h \<longrightarrow>
    \<not> put_get_busy l' \<and> put_get_inv l' h' \<and> \<not> inover_low h' \<and>
    snd (put_get_target env l' h') = snd (put_get_target env l h) \<and>
    (if rx then put_get_target env l' h' = put_get_target env l h else rx_data l' = rx_data l)"
  have "?Q env rx l h (l', h')"
  proof (rule put_get_loop.raw_induct [where P = ?Q, OF _ assms(1)])
    fix f and env :: "'a spi_env" and rx l h r
    assume IH: "\<And>env rx l h r. f env rx l h = Some r \<Longrightarrow> ?Q env rx l h r"
      and eq: "(if put_get_busy l then
          case put_get_step env rx l h of
            (leave, l', h') \<Rightarrow> if leave then Some (l', h') else f env rx l' h'
        else Some (l, h)) = Some r"
    show "?Q env rx l h r"
    proof (cases "put_get_busy l")
      case False
      then show ?thesis using eq by auto
    next
      case True
      obtain leave l1 h1 where s: "put_get_step env rx l h = (leave, l1, h1)" by (metis prod_cases3)
      show ?thesis
      proof (clarify, goal_cases)
        case (1 l' h')
        then have q: "\<forall>n. \<not> abort_irq env n" by (simp add: quiet_def)
        note st = put_get_step_inv [OF 1(2) s]
        have nl: "\<not> leave" "\<not> inover_low h1" using st(5) [OF 1(4) q] by auto
        then have "f env rx l1 h1 = Some (l', h')" using eq True s 1(1) by simp
        from IH [OF this] show ?case
          using st(1) 1(3) nl st(4) st(5) [OF 1(4) q] st(6) [OF 1(4) q] by auto
      qed
    qed
  qed
  then show ?thesis using assms by simp
qed

subsection \<open>The port as a byte exchange\<close>

definition idle :: "'d flash_hw \<Rightarrow> bool" where
  "idle h \<longleftrightarrow> ssienr h \<noteq> 0 \<and> \<not> rx_overflow h \<and> \<not> inover_low h \<and>
     tx_fifo h = [] \<and> shift_reg h = None \<and> rx_fifo h = []"

lemma in_flight_0: "in_flight h = 0 \<longleftrightarrow> tx_fifo h = [] \<and> shift_reg h = None \<and> rx_fifo h = []"
  by (auto simp: flight_defs split: option.splits)

lemma idle_iff: "idle h \<longleftrightarrow> fifo_ok h \<and> \<not> inover_low h \<and> in_flight h = 0"
  by (auto simp: idle_def fifo_ok_def in_flight_0) (simp add: flight_defs)

lemma drained_empty: "in_flight h = 0 \<Longrightarrow> drained env [] h = ([], chip h)"
  by (auto simp: in_flight_0 drained_def pending_def shifting_def)

lemma tick_idle: "idle h \<Longrightarrow> quiet env \<Longrightarrow> idle (tick env h) \<and> chip (tick env h) = chip h"
  using tick_fifo_ok [of h env] tick_flight(1) [of h env] tick_drained [of h env "[]"]
    drained_empty [of h env] drained_empty [of "tick env h" env]
  by (auto simp: idle_iff quiet_def fifo_ok_def)

lemma cs_force_idle:
  "idle h \<Longrightarrow> quiet env \<Longrightarrow> idle (flash_cs_force env over h) \<and>
     chip (flash_cs_force env over h) = chip_select env (chip h) over \<and>
     cs_over (flash_cs_force env over h) = over"
  using tick_idle [of h env] by (auto simp: flash_cs_force_def Let_def idle_def)

definition sent_bytes :: "u8 list option \<Rightarrow> nat \<Rightarrow> u8 list" where
  "sent_bytes tx count = (case tx of None \<Rightarrow> replicate count 0 | Some bs \<Rightarrow> take count bs)"

lemma flash_put_get_ok:
  assumes "fair env" "quiet env" "fifo_ok h" "\<not> inover_low h" "in_flight h = skip"
    and "case tx of None \<Rightarrow> True | Some bs \<Rightarrow> count \<le> length bs"
  shows "\<exists>h'. flash_put_get env tx rx count skip h =
      Some (if rx then drop skip (fst (drained env (sent_bytes tx count) h)) else [], h') \<and>
    chip h' = chip_select env (snd (drained env (sent_bytes tx count) h)) OUTOVER_HIGH \<and> idle h'"
proof -
  let ?l = "\<lparr>tx_data = tx, tx_count = count, rx_count = count, rx_skip = skip, rx_data = []\<rparr>"
  have inv: "put_get_inv ?l h"
    using assms by (auto simp: put_get_inv_def tx_enough_def split: option.splits)
  have target: "put_get_target env ?l h = (drop skip (fst (drained env (sent_bytes tx count) h)),
      snd (drained env (sent_bytes tx count) h))"
    by (cases tx) (simp_all add: put_get_target_def tx_stream_def sent_bytes_def case_prod_beta)
  have step: "\<not> inover_low h' \<and> (leave \<or> loop_work l' h' < loop_work l h \<or>
      loop_work l' h' = loop_work l h \<and> next_shift env (now h') < next_shift env (now h))"
    if "put_get_inv l h" "put_get_busy l" "\<not> inover_low h" "put_get_step env rx l h = (leave, l', h')"
    for l h leave l' h'
    using put_get_step_progress [OF that(1,2,4)] put_get_step_inv(5) [OF that(1,4,3)] assms(1,2)
    by (auto simp: quiet_def)
  have "\<exists>l' h'. put_get_loop env rx ?l h = Some (l', h') \<and> put_get_inv l' h'"
    by (rule put_get_loop_ends [where P = "\<lambda>h. \<not> inover_low h" and f = "\<lambda>h. next_shift env (now h)"])
      (rule step inv assms(4) | assumption)+
  then obtain l' h1 where r: "put_get_loop env rx ?l h = Some (l', h1)" by blast
  from put_get_loop_done [OF r inv assms(2,4)]
  have d: "\<not> put_get_busy l'" "put_get_inv l' h1" "\<not> inover_low h1"
    "snd (put_get_target env l' h1) = snd (put_get_target env ?l h)"
    "if rx then put_get_target env l' h1 = put_get_target env ?l h else rx_data l' = []" by auto
  then have z: "in_flight h1 = 0" "tx_stream l' = []"
    by (auto simp: put_get_busy_def put_get_inv_def tx_stream_def split: option.splits)
  then have t1: "put_get_target env l' h1 = (rx_data l', chip h1)"
    using d(1) drained_empty [of h1 env] by (simp add: put_get_target_def put_get_busy_def)
  have "idle h1" using d z by (simp add: idle_iff put_get_inv_def)
  from cs_force_idle [OF this assms(2), of OUTOVER_HIGH] show ?thesis
    using r d(4,5) t1 target by (auto simp: flash_put_get_def)
qed

text \<open>
  C11. With exactly the bytes to skip in flight, a controller that always moves eventually and
  no abort, \<open>flash_put_get\<close> returns: it has sent the given bytes (zeroes for a null
  pointer) after those in flight, has stored exactly what the chip answered to them, has
  released the chip, and leaves the port empty with no byte lost.
\<close>

theorem flash_put_get_correct:
  assumes "fair env" "quiet env" "fifo_ok h" "\<not> inover_low h" "in_flight h = skip"
    and "case tx of None \<Rightarrow> True | Some bs \<Rightarrow> count \<le> length bs"
  shows "\<exists>h'. flash_put_get env tx rx count skip h =
      Some (if rx then drop skip (fst (drained env (sent_bytes tx count) h)) else [], h') \<and>
    chip h' = chip_select env (snd (drained env (sent_bytes tx count) h)) OUTOVER_HIGH \<and> idle h'"
  using flash_put_get_ok [OF assms] .

text \<open>A chip that answers every byte with its complement, on a controller that moves steadily.\<close>

definition not_env :: "unit spi_env" where
  "not_env = \<lparr>exchange = \<lambda>d b. (NOT b, ()), chip_select = \<lambda>d over. d, shifts = \<lambda>n. 1,
     abort_irq = \<lambda>n. False, stack_bytes = \<lambda>n. 0\<rparr>"

definition idle_hw :: "'d \<Rightarrow> 'd flash_hw" where
  "idle_hw d = \<lparr>ssienr = 1, baudr = 6, ctrlr0 = 0, ser = 1, spi_ctrlr0 = 0, tx_fifo = [],
     shift_reg = None, rx_fifo = [], rx_overflow = False, cs_over = OUTOVER_LOW,
     sd0 = 0, sd1 = 0, sd2 = 0, sd3 = 0, xip_ctrl = 0, xip_flush = 0, inover_low = False, chip = d, now = 0\<rparr>"

lemma not_env_ok: "fair not_env" "quiet not_env"
  by (auto simp: fair_def quiet_def not_env_def)

theorem flash_put_get_correct_witness:
  "\<exists>h'. flash_put_get not_env (Some [1, 2]) True 2 1 ((idle_hw ())\<lparr>tx_fifo := [0x9f]\<rparr>) =
      Some ([0xfe, 0xfd], h') \<and> idle h'"
  using flash_put_get_correct [OF not_env_ok, where h = "(idle_hw ())\<lparr>tx_fifo := [0x9f]\<rparr>"
    and tx = "Some [1, 2]" and count = 2 and skip = 1 and rx = True]
  by (auto simp: fifo_ok_def flight_defs idle_hw_def drained_def sent_bytes_def not_env_def)

text \<open>
  C12. Whatever the controller's pace, and whether or not the transfer is aborted, no iteration
  of the loop lets the receive FIFO overflow: in every state it reaches at most 15 bytes are in
  the two FIFOs and the shift register together.
\<close>

inductive put_get_reach ::
    "'d spi_env \<Rightarrow> bool \<Rightarrow> put_get \<Rightarrow> 'd flash_hw \<Rightarrow> put_get \<Rightarrow> 'd flash_hw \<Rightarrow> bool"
  for env rx l h where
  reach_start: "put_get_reach env rx l h l h"
| reach_step: "put_get_reach env rx l h l1 h1 \<Longrightarrow> put_get_busy l1 \<Longrightarrow>
    put_get_step env rx l1 h1 = (leave, l2, h2) \<Longrightarrow> put_get_reach env rx l h l2 h2"

theorem flash_put_get_no_overflow:
  assumes "put_get_reach env rx \<lparr>tx_data = tx, tx_count = count, rx_count = count, rx_skip = in_flight h,
      rx_data = []\<rparr> h l' h'"
    and "fifo_ok h" and "case tx of None \<Rightarrow> True | Some bs \<Rightarrow> count \<le> length bs"
  shows "\<not> rx_overflow h' \<and> in_flight h' \<le> 15"
proof -
  have "put_get_inv l' h'"
    using assms
  proof (induction rule: put_get_reach.induct)
    case reach_start
    then show ?case by (auto simp: put_get_inv_def tx_enough_def split: option.splits)
  next
    case reach_step
    then show ?case using put_get_step_inv(1) by blast
  qed
  then show ?thesis by (auto simp: put_get_inv_def fifo_ok_def fifo_depth_def)
qed

theorem flash_put_get_no_overflow_witness:
  "\<exists>l' h'. put_get_reach not_env True \<lparr>tx_data = Some [7], tx_count = 1, rx_count = 1,
      rx_skip = in_flight (idle_hw ()), rx_data = []\<rparr> (idle_hw ()) l' h' \<and> l' \<noteq>
      \<lparr>tx_data = Some [7], tx_count = 1, rx_count = 1, rx_skip = in_flight (idle_hw ()), rx_data = []\<rparr> \<and>
      \<not> rx_overflow h' \<and> in_flight h' \<le> 15"
proof -
  let ?l = "\<lparr>tx_data = Some [7], tx_count = 1, rx_count = 1, rx_skip = in_flight (idle_hw ()), rx_data = []\<rparr>"
  obtain leave l' h' where s: "put_get_step not_env True ?l (idle_hw ()) = (leave, l', h')"
    by (metis prod_cases3)
  have "tx_count l' = 0"
    using s
    by (simp add: put_get_step_def read_txflr_def read_rxflr_def tick_def ssi_step_def not_env_def
        idle_hw_def max_in_flight_def put_get_send_def write_dr0_def fifo_depth_def Let_def)
      auto
  moreover have "put_get_reach not_env True ?l (idle_hw ()) l' h'"
    by (rule reach_step [OF reach_start _ s]) (simp add: put_get_busy_def)
  moreover have "fifo_ok (idle_hw ())" by (simp add: fifo_ok_def flight_defs idle_hw_def)
  ultimately show ?thesis
    using flash_put_get_no_overflow [of not_env True "Some [7]" 1 "idle_hw ()" l' h'] by fastforce
qed

text \<open>
  C27. An abort frees a transfer that is stuck: if \<open>flash_abort\<close> has been called, or is called
  at some later access, \<open>flash_put_get\<close> returns even when the controller never moves.
\<close>

theorem flash_put_get_abort_returns:
  assumes "fifo_ok h" "in_flight h = skip" "case tx of None \<Rightarrow> True | Some bs \<Rightarrow> count \<le> length bs"
    and "inover_low h \<or> (\<exists>n \<ge> now h. abort_irq env n)"
  shows "\<exists>r. flash_put_get env tx rx count skip h = Some r"
proof -
  let ?l = "\<lparr>tx_data = tx, tx_count = count, rx_count = count, rx_skip = skip, rx_data = []\<rparr>"
  obtain N where N: "inover_low h \<or> now h \<le> N \<and> abort_irq env N" using assms(4) by blast
  let ?P = "\<lambda>h. inover_low h \<or> now h \<le> N \<and> abort_irq env N"
  have inv: "put_get_inv ?l h"
    using assms by (auto simp: put_get_inv_def tx_enough_def split: option.splits)
  have step: "?P h' \<and> (leave \<or> loop_work l' h' < loop_work l h \<or>
      loop_work l' h' = loop_work l h \<and> Suc N - now h' < Suc N - now h)"
    if st: "put_get_inv l h" "put_get_busy l" "?P h" "put_get_step env rx l h = (leave, l', h')"
    for l h leave l' h'
  proof -
    have "elapsed env h h'" using st(4) by (rule elapsed_step)
    then have P': "?P h'" using st(3) by (fastforce simp: elapsed_def)
    then show ?thesis
      using put_get_step_progress [OF st(1,2,4)] by (auto simp: less_Suc_eq_le)
  qed
  have "\<exists>l' h'. put_get_loop env rx ?l h = Some (l', h') \<and> put_get_inv l' h'"
    by (rule put_get_loop_ends [where P = ?P and f = "\<lambda>h. Suc N - now h"]) (rule step inv N | assumption)+
  then show ?thesis by (auto simp: flash_put_get_def)
qed

theorem flash_put_get_abort_returns_witness:
  "\<exists>r. flash_put_get (not_env\<lparr>shifts := \<lambda>n. 0, abort_irq := \<lambda>n. n = 1000\<rparr>) None False 4 0 (idle_hw ()) = Some r"
  by (rule flash_put_get_abort_returns)
    (auto simp: fifo_ok_def flight_defs idle_hw_def)

end
