(* ===== verification/Flash_Program.thy ===== *)
theory Flash_Program
  imports Flash_Port
begin

section \<open>Flash commands: program, erase, read, size\<close>

text \<open>
  The operations of \<open>bootrom/program_flash_generic.c\<close> above \<open>flash_put_get\<close>. A result of
  \<open>None\<close> is a call that does not return. The abstract contract of the port is a byte exchange
  with the selected chip (\<open>transaction\<close>); the locale \<open>spi_flash\<close> states it and derives what
  the commands do to the chip.
\<close>

abbreviation (input) FLASHCMD_PAGE_PROGRAM :: u8 where "FLASHCMD_PAGE_PROGRAM \<equiv> 0x02"
abbreviation (input) FLASHCMD_READ_DATA :: u8 where "FLASHCMD_READ_DATA \<equiv> 0x03"
abbreviation (input) FLASHCMD_READ_STATUS :: u8 where "FLASHCMD_READ_STATUS \<equiv> 0x05"
abbreviation (input) FLASHCMD_WRITE_ENABLE :: u8 where "FLASHCMD_WRITE_ENABLE \<equiv> 0x06"
abbreviation (input) FLASHCMD_SECTOR_ERASE :: u8 where "FLASHCMD_SECTOR_ERASE \<equiv> 0x20"
abbreviation (input) FLASHCMD_READ_SFDP :: u8 where "FLASHCMD_READ_SFDP \<equiv> 0x5a"
abbreviation (input) FLASHCMD_READ_JEDEC_ID :: u8 where "FLASHCMD_READ_JEDEC_ID \<equiv> 0x9f"

subsection \<open>Commands\<close>

definition flash_do_cmd ::
    "'d spi_env \<Rightarrow> u8 \<Rightarrow> u8 list option \<Rightarrow> bool \<Rightarrow> nat \<Rightarrow> 'd flash_hw \<Rightarrow>
       (u8 list \<times> 'd flash_hw) option" where
  "flash_do_cmd env cmd tx rx count h =
     flash_put_get env tx rx count 1 (write_dr0 env cmd (flash_cs_force env OUTOVER_LOW h))"

text \<open>The loop \<open>for (i = 0; i < 4; ++i)\<close> that sends the top byte and shifts.\<close>

fun put_top_bytes :: "'d spi_env \<Rightarrow> nat \<Rightarrow> u32 \<Rightarrow> 'd flash_hw \<Rightarrow> 'd flash_hw" where
  "put_top_bytes env 0 addr h = h"
| "put_top_bytes env (Suc n) addr h =
     put_top_bytes env n (push_bit 8 addr) (write_dr0 env (ucast (drop_bit 24 addr)) h)"

definition flash_put_cmd_addr :: "'d spi_env \<Rightarrow> u8 \<Rightarrow> u32 \<Rightarrow> 'd flash_hw \<Rightarrow> 'd flash_hw" where
  "flash_put_cmd_addr env cmd addr h =
     put_top_bytes env 4 (addr OR push_bit 24 (ucast cmd)) (flash_cs_force env OUTOVER_LOW h)"

text \<open>
  The status poll. An aborted transfer stores no status byte, so \<open>stat\<close> keeps its old value,
  which before the first poll is whatever the stack holds.
\<close>

partial_function (option) flash_wait_ready_loop ::
    "'d spi_env \<Rightarrow> u8 \<Rightarrow> 'd flash_hw \<Rightarrow> 'd flash_hw option" where
  "flash_wait_ready_loop env stat h =
     (case flash_do_cmd env FLASHCMD_READ_STATUS None True 1 h of
        None \<Rightarrow> None
      | Some (rs, h1) \<Rightarrow>
          (let stat' = (case rs of [] \<Rightarrow> stat | b # _ \<Rightarrow> b)
           in if stat' AND 1 \<noteq> 0 then
                (case flash_was_aborted env h1 of
                   (aborted, h2) \<Rightarrow>
                     if aborted then Some h2 else flash_wait_ready_loop env stat' h2)
              else Some h1))"

definition flash_wait_ready :: "'d spi_env \<Rightarrow> 'd flash_hw \<Rightarrow> 'd flash_hw option" where
  "flash_wait_ready env h = flash_wait_ready_loop env (stack_bytes env 0) h"

definition flash_enable_write :: "'d spi_env \<Rightarrow> 'd flash_hw \<Rightarrow> 'd flash_hw option" where
  "flash_enable_write env h =
     map_option snd (flash_do_cmd env FLASHCMD_WRITE_ENABLE None False 0 h)"

definition flash_page_program ::
    "'d spi_env \<Rightarrow> u32 \<Rightarrow> u8 list \<Rightarrow> 'd flash_hw \<Rightarrow> 'd flash_hw option" where
  "flash_page_program env addr data h =
     do {
       h1 \<leftarrow> flash_enable_write env h;
       (_, h2) \<leftarrow> flash_put_get env (Some data) False 256 4
                  (flash_put_cmd_addr env FLASHCMD_PAGE_PROGRAM addr h1);
       flash_wait_ready env h2
     }"

definition flash_user_erase ::
    "'d spi_env \<Rightarrow> u32 \<Rightarrow> u8 \<Rightarrow> 'd flash_hw \<Rightarrow> 'd flash_hw option" where
  "flash_user_erase env addr cmd h =
     do {
       h1 \<leftarrow> flash_enable_write env h;
       (_, h2) \<leftarrow> flash_put_get env None False 0 4 (flash_put_cmd_addr env cmd addr h1);
       flash_wait_ready env h2
     }"

definition flash_sector_erase :: "'d spi_env \<Rightarrow> u32 \<Rightarrow> 'd flash_hw \<Rightarrow> 'd flash_hw option" where
  "flash_sector_erase env addr h = flash_user_erase env addr FLASHCMD_SECTOR_ERASE h"

definition flash_read_data ::
    "'d spi_env \<Rightarrow> u32 \<Rightarrow> nat \<Rightarrow> 'd flash_hw \<Rightarrow> (u8 list \<times> 'd flash_hw) option" where
  "flash_read_data env addr count h =
     flash_put_get env None True count 4 (flash_put_cmd_addr env FLASHCMD_READ_DATA addr h)"

definition flash_read_sfdp ::
    "'d spi_env \<Rightarrow> u32 \<Rightarrow> nat \<Rightarrow> 'd flash_hw \<Rightarrow> (u8 list \<times> 'd flash_hw) option" where
  "flash_read_sfdp env addr count h =
     flash_put_get env None True count 5
       (write_dr0 env 0 (flash_put_cmd_addr env FLASHCMD_READ_SFDP addr h))"

subsection \<open>Ranges\<close>

partial_function (option) flash_range_program_loop ::
    "'d spi_env \<Rightarrow> u32 \<Rightarrow> u32 \<Rightarrow> u8 list \<Rightarrow> 'd flash_hw \<Rightarrow> 'd flash_hw option" where
  "flash_range_program_loop env addr goal data h =
     (if addr < goal then
        (case flash_was_aborted env h of
           (aborted, h1) \<Rightarrow>
             if aborted then Some h1
             else
               (case flash_page_program env addr data h1 of
                  None \<Rightarrow> None
                | Some h2 \<Rightarrow> flash_range_program_loop env (addr + 256) goal (drop 256 data) h2))
      else Some h)"

definition flash_range_program ::
    "'d spi_env \<Rightarrow> u32 \<Rightarrow> u8 list \<Rightarrow> u32 \<Rightarrow> 'd flash_hw \<Rightarrow> 'd flash_hw option" where
  "flash_range_program env addr data count h =
     flash_range_program_loop env addr (addr + count) data h"

text \<open>What the body of \<open>flash_range_erase\<close> chooses to erase at an address, and how far it moves.\<close>

definition range_erase_choice :: "u32 \<Rightarrow> u8 \<Rightarrow> u32 \<Rightarrow> u32 \<Rightarrow> u8 \<times> u32" where
  "range_erase_choice block_size block_cmd addr goal =
     (if addr AND (block_size - 1) = 0 \<and> block_size \<le> goal - addr then (block_cmd, block_size)
      else (FLASHCMD_SECTOR_ERASE, 0x1000))"

partial_function (option) flash_range_erase_loop ::
    "'d spi_env \<Rightarrow> u32 \<Rightarrow> u8 \<Rightarrow> u32 \<Rightarrow> u32 \<Rightarrow> 'd flash_hw \<Rightarrow> 'd flash_hw option" where
  "flash_range_erase_loop env block_size block_cmd addr goal h =
     (if addr < goal then
        (case flash_was_aborted env h of
           (aborted, h1) \<Rightarrow>
             if aborted then Some h1
             else
               (case range_erase_choice block_size block_cmd addr goal of
                  (cmd, moved) \<Rightarrow>
                    (case flash_user_erase env addr cmd h1 of
                       None \<Rightarrow> None
                     | Some h2 \<Rightarrow>
                         flash_range_erase_loop env block_size block_cmd (addr + moved) goal h2)))
      else Some h)"

definition flash_range_erase ::
    "'d spi_env \<Rightarrow> u32 \<Rightarrow> u32 \<Rightarrow> u32 \<Rightarrow> u8 \<Rightarrow> 'd flash_hw \<Rightarrow> 'd flash_hw option" where
  "flash_range_erase env addr count block_size block_cmd h =
     flash_range_erase_loop env block_size block_cmd addr (addr + count) h"

subsection \<open>The size of the chip\<close>

definition bytes_to_u32le :: "u8 list \<Rightarrow> u32" where
  "bytes_to_u32le b =
     ucast (b ! 0) OR push_bit 8 (ucast (b ! 1)) OR push_bit 16 (ucast (b ! 2)) OR
     push_bit 24 (ucast (b ! 3))"

text \<open>The bytes read replace the front of the local buffer.\<close>

definition buf_store :: "u8 list \<Rightarrow> u8 list \<Rightarrow> u8 list" where
  "buf_store rs buf = rs @ drop (length rs) buf"

text \<open>\<open>while (array_size_word >>= 1) ++ctr\<close>\<close>

function count_shifts :: "u32 \<Rightarrow> u32 \<Rightarrow> u32" where
  "count_shifts w ctr = (if drop_bit 1 w \<noteq> 0 then count_shifts (drop_bit 1 w) (ctr + 1) else ctr)"
  by pat_completeness auto
termination
proof (relation "measure (\<lambda>(w, ctr). unat w)")
  fix w ctr :: u32
  assume "drop_bit 1 w \<noteq> 0"
  then have "unat (drop_bit 1 w) \<noteq> 0" by (simp add: unat_eq_zero)
  then show "((drop_bit 1 w, ctr + 1), (w, ctr)) \<in> measure (\<lambda>(w, ctr). unat w)"
    by (simp add: unat_div_distrib drop_bit_eq_div)
qed simp

declare count_shifts.simps [simp del]

definition sfdp_array_size :: "u32 \<Rightarrow> u32" where
  "sfdp_array_size array_size_word =
     (if array_size_word AND push_bit 31 1 \<noteq> 0 then array_size_word AND NOT (push_bit 31 1)
      else count_shifts (array_size_word + 1) 0)"

definition flash_size_jedec :: "'d spi_env \<Rightarrow> u8 list \<Rightarrow> 'd flash_hw \<Rightarrow> (int \<times> 'd flash_hw) option" where
  "flash_size_jedec env rxbuf h =
     do {
       (rs, h1) \<leftarrow> flash_do_cmd env FLASHCMD_READ_JEDEC_ID None True 3 h;
       let array_size_byte = buf_store rs rxbuf ! 2;
       Some (if array_size_byte < 8 \<or> 34 < array_size_byte then - 1 else uint array_size_byte, h1)
     }"

definition flash_size_log2 :: "'d spi_env \<Rightarrow> 'd flash_hw \<Rightarrow> (int \<times> 'd flash_hw) option" where
  "flash_size_log2 env h =
     do {
       (rs, h1) \<leftarrow> flash_read_sfdp env 0 16 h;
       let rxbuf = buf_store rs (map (stack_bytes env) [0..<16]);
       if bytes_to_u32le rxbuf \<noteq> 0x53 OR push_bit 8 0x46 OR push_bit 16 0x44 OR push_bit 24 0x50
       then flash_size_jedec env rxbuf h1
       else if rxbuf ! 8 \<noteq> 0 then flash_size_jedec env rxbuf h1
       else do {
         let param_table_ptr = bytes_to_u32le (drop 12 rxbuf) AND 0xffffff;
         (rs2, h2) \<leftarrow> flash_read_sfdp env param_table_ptr 8 h1;
         let rxbuf2 = buf_store rs2 rxbuf;
         let array_size_word = sfdp_array_size (bytes_to_u32le (drop 4 rxbuf2));
         if array_size_word < 11 \<or> 37 < array_size_word then flash_size_jedec env rxbuf2 h2
         else Some (uint (array_size_word - 3), h2)
       }
     }"

subsection \<open>Controller set-up\<close>

text \<open>Register fields and values from the headers of the SDK, which is not part of the sources.\<close>

record ssi_consts =
  SSI_CTRLR0_SPI_FRF_VALUE_STD :: u32
  SSI_CTRLR0_SPI_FRF_LSB :: nat
  SSI_CTRLR0_DFS_32_LSB :: nat
  SSI_CTRLR0_TMOD_VALUE_TX_AND_RX :: u32
  SSI_CTRLR0_TMOD_VALUE_EEPROM_READ :: u32
  SSI_CTRLR0_TMOD_LSB :: nat
  SSI_SPI_CTRLR0_XIP_CMD_LSB :: nat
  SSI_SPI_CTRLR0_INST_L_LSB :: nat
  SSI_SPI_CTRLR0_ADDR_L_LSB :: nat
  SSI_SPI_CTRLR0_TRANS_TYPE_VALUE_1C1A :: u32
  SSI_SPI_CTRLR0_TRANS_TYPE_LSB :: nat
  PADS_OD_BITS :: u32
  PADS_PUE_BITS :: u32
  PADS_PDE_BITS :: u32
  PADS_RESET :: u32 \<comment> \<open>reset value of a pad control\<close>
  XIP_CTRL_EN_BITS :: u32

text \<open>Disabling the controller stops it and clears its FIFOs.\<close>

definition write_ssienr :: "'d spi_env \<Rightarrow> u32 \<Rightarrow> 'd flash_hw \<Rightarrow> 'd flash_hw" where
  "write_ssienr env v h =
     (let h' = (tick env h)\<lparr>ssienr := v\<rparr>
      in if v = 0 then h'\<lparr>tx_fifo := [], shift_reg := None, rx_fifo := []\<rparr> else h')"

definition connect_internal_flash :: "ssi_consts \<Rightarrow> 'd spi_env \<Rightarrow> 'd flash_hw \<Rightarrow> 'd flash_hw" where
  "connect_internal_flash c env h =
     (let h' = tick env h
      in h'\<lparr>sd0 := PADS_RESET c, sd1 := PADS_RESET c, sd2 := PADS_RESET c, sd3 := PADS_RESET c,
           cs_over := OUTOVER_NORMAL, chip := chip_select env (chip h') OUTOVER_NORMAL,
           inover_low := False\<rparr>)"

definition flash_init_spi :: "ssi_consts \<Rightarrow> 'd spi_env \<Rightarrow> 'd flash_hw \<Rightarrow> 'd flash_hw" where
  "flash_init_spi c env h =
     (let h1 = write_ssienr env 0 h;
          h2 = (tick env (tick env h1))\<lparr>rx_overflow := False\<rparr>;
          h3 = (tick env h2)\<lparr>baudr := 6\<rparr>;
          h4 = (tick env h3)\<lparr>ctrlr0 :=
            push_bit (SSI_CTRLR0_SPI_FRF_LSB c) (SSI_CTRLR0_SPI_FRF_VALUE_STD c) OR
            push_bit (SSI_CTRLR0_DFS_32_LSB c) 7 OR
            push_bit (SSI_CTRLR0_TMOD_LSB c) (SSI_CTRLR0_TMOD_VALUE_TX_AND_RX c)\<rparr>;
          h5 = (tick env h4)\<lparr>ser := 1\<rparr>
      in write_ssienr env 1 h5)"

definition set_pads :: "'d spi_env \<Rightarrow> u32 \<Rightarrow> u32 \<Rightarrow> u32 \<Rightarrow> u32 \<Rightarrow> 'd flash_hw \<Rightarrow> 'd flash_hw" where
  "set_pads env p0 p1 p2 p3 h =
     (let h1 = (tick env h)\<lparr>sd0 := p0\<rparr>; h2 = (tick env h1)\<lparr>sd1 := p1\<rparr>;
          h3 = (tick env h2)\<lparr>sd2 := p2\<rparr>
      in (tick env h3)\<lparr>sd3 := p3\<rparr>)"

text \<open>One of the two sequences of 32 clocks with the pads forced.\<close>

definition exit_xip_clocks :: "'d spi_env \<Rightarrow> u32 \<Rightarrow> 'd flash_hw \<Rightarrow> 'd flash_hw option" where
  "exit_xip_clocks env padctrl_tmp h =
     do {
       (_, h1) \<leftarrow> flash_put_get env None False 4 0
                  (set_pads env padctrl_tmp padctrl_tmp padctrl_tmp padctrl_tmp h);
       Some (flash_cs_force env OUTOVER_LOW h1)
     }"

definition flash_exit_xip :: "ssi_consts \<Rightarrow> 'd spi_env \<Rightarrow> 'd flash_hw \<Rightarrow> 'd flash_hw option" where
  "flash_exit_xip c env h =
     do {
       let h1 = flash_init_spi c env h;
       let padctrl_save = sd0 h1;
       let tmp0 = (padctrl_save AND NOT (PADS_OD_BITS c OR PADS_PUE_BITS c OR PADS_PDE_BITS c))
                  OR PADS_OD_BITS c OR PADS_PDE_BITS c;
       h2 \<leftarrow> exit_xip_clocks env tmp0 (flash_cs_force env OUTOVER_HIGH (tick env h1));
       let tmp1 = (tmp0 AND NOT (PADS_PDE_BITS c)) OR PADS_PUE_BITS c;
       h3 \<leftarrow> exit_xip_clocks env tmp1 h2;
       let up = (padctrl_save AND NOT (PADS_PDE_BITS c)) OR PADS_PUE_BITS c;
       let h4 = set_pads env padctrl_save padctrl_save up up h3;
       (_, h5) \<leftarrow> flash_put_get env (Some [0xff, 0xff]) False 2 0 (flash_cs_force env OUTOVER_LOW h4);
       Some (flash_cs_force env OUTOVER_NORMAL h5)
     }"

definition flash_flush_cache :: "ssi_consts \<Rightarrow> 'd spi_env \<Rightarrow> 'd flash_hw \<Rightarrow> 'd flash_hw" where
  "flash_flush_cache c env h =
     (let h1 = (tick env h)\<lparr>xip_flush := 1\<rparr>;
          h2 = tick env h1;
          h3 = (tick env h2)\<lparr>xip_ctrl := xip_ctrl h2 OR XIP_CTRL_EN_BITS c\<rparr>
      in flash_cs_force env OUTOVER_NORMAL h3)"

definition flash_enter_cmd_xip :: "ssi_consts \<Rightarrow> 'd spi_env \<Rightarrow> 'd flash_hw \<Rightarrow> 'd flash_hw" where
  "flash_enter_cmd_xip c env h =
     (let h1 = write_ssienr env 0 h;
          h2 = (tick env h1)\<lparr>ctrlr0 :=
            push_bit (SSI_CTRLR0_SPI_FRF_LSB c) (SSI_CTRLR0_SPI_FRF_VALUE_STD c) OR
            push_bit (SSI_CTRLR0_DFS_32_LSB c) 31 OR
            push_bit (SSI_CTRLR0_TMOD_LSB c) (SSI_CTRLR0_TMOD_VALUE_EEPROM_READ c)\<rparr>;
          h3 = (tick env h2)\<lparr>spi_ctrlr0 :=
            push_bit (SSI_SPI_CTRLR0_XIP_CMD_LSB c) (ucast FLASHCMD_READ_DATA) OR
            push_bit (SSI_SPI_CTRLR0_INST_L_LSB c) 2 OR
            push_bit (SSI_SPI_CTRLR0_ADDR_L_LSB c) 6 OR
            push_bit (SSI_SPI_CTRLR0_TRANS_TYPE_LSB c) (SSI_SPI_CTRLR0_TRANS_TYPE_VALUE_1C1A c)\<rparr>
      in write_ssienr env 1 h3)"

subsection \<open>The contract of the port\<close>

text \<open>One transaction with the chip: select it, exchange bytes, release it.\<close>

definition transaction :: "'d spi_env \<Rightarrow> 'd \<Rightarrow> u8 list \<Rightarrow> u8 list \<times> 'd" where
  "transaction env d bs =
     (let (rs, d1) = exchange_all env (chip_select env d OUTOVER_LOW) bs
      in (rs, chip_select env d1 OUTOVER_HIGH))"

definition tx_fits :: "u8 list option \<Rightarrow> nat \<Rightarrow> bool" where
  "tx_fits tx count \<longleftrightarrow> (case tx of None \<Rightarrow> True | Some bs \<Rightarrow> count \<le> length bs)"

text \<open>Polling the status register \<open>n\<close> times, and the number of polls that find the chip busy.\<close>

definition status_of :: "('d \<Rightarrow> u8 list \<Rightarrow> u8 list \<times> 'd) \<Rightarrow> 'd \<Rightarrow> u8" where
  "status_of xact d = fst (xact d [FLASHCMD_READ_STATUS, 0]) ! 1"

fun status_polls :: "('d \<Rightarrow> u8 list \<Rightarrow> u8 list \<times> 'd) \<Rightarrow> nat \<Rightarrow> 'd \<Rightarrow> 'd" where
  "status_polls xact 0 d = d"
| "status_polls xact (Suc n) d = status_polls xact n (snd (xact d [FLASHCMD_READ_STATUS, 0]))"

fun busy_for :: "('d \<Rightarrow> u8 list \<Rightarrow> u8 list \<times> 'd) \<Rightarrow> nat \<Rightarrow> 'd \<Rightarrow> bool" where
  "busy_for xact 0 d \<longleftrightarrow> status_of xact d AND 1 = 0"
| "busy_for xact (Suc n) d \<longleftrightarrow> status_of xact d AND 1 \<noteq> 0 \<and>
     busy_for xact n (snd (xact d [FLASHCMD_READ_STATUS, 0]))"

locale spi_port =
  fixes ready :: "'h \<Rightarrow> bool" and chip_of :: "'h \<Rightarrow> 'd"
    and xact :: "'d \<Rightarrow> u8 list \<Rightarrow> u8 list \<times> 'd"
    and command :: "u8 list \<Rightarrow> u8 list option \<Rightarrow> bool \<Rightarrow> nat \<Rightarrow> 'h \<Rightarrow> (u8 list \<times> 'h) option"
  assumes command_ok: "ready h \<Longrightarrow> length hdr < 16 \<Longrightarrow> tx_fits tx count \<Longrightarrow>
    \<exists>h'. command hdr tx rx count h =
        Some (if rx then drop (length hdr) (fst (xact (chip_of h) (hdr @ sent_bytes tx count))) else [], h') \<and>
      ready h' \<and> chip_of h' = snd (xact (chip_of h) (hdr @ sent_bytes tx count))"
begin

lemma command_rx:
  "ready h \<Longrightarrow> length hdr < 16 \<Longrightarrow>
     \<exists>h'. command hdr None True count h =
         Some (drop (length hdr) (fst (xact (chip_of h) (hdr @ replicate count 0))), h') \<and>
       ready h' \<and> chip_of h' = snd (xact (chip_of h) (hdr @ replicate count 0))"
  using command_ok [of h hdr None count True] by (simp add: tx_fits_def sent_bytes_def)

end

locale spi_flash = spi_port +
  fixes wait :: "'h \<Rightarrow> 'h option"
  assumes wait_ok: "ready h \<Longrightarrow> busy_for xact n (chip_of h) \<Longrightarrow>
    \<exists>h'. wait h = Some h' \<and> ready h' \<and> chip_of h' = status_polls xact (Suc n) (chip_of h)"
begin

text \<open>A write or erase: write enable, the command, and polls until the chip is no longer busy.\<close>

lemma busy_command:
  assumes "ready h" "length hdr < 16" "tx_fits tx count"
    and d: "d = snd (xact (snd (xact (chip_of h) [FLASHCMD_WRITE_ENABLE])) (hdr @ sent_bytes tx count))"
    and "busy_for xact n d"
  shows "\<exists>h'. do {
        h1 \<leftarrow> map_option snd (command [FLASHCMD_WRITE_ENABLE] None False 0 h);
        (_, h2) \<leftarrow> command hdr tx False count h1;
        wait h2
      } = Some h' \<and> ready h' \<and> chip_of h' = status_polls xact (Suc n) d"
proof -
  obtain h1 where 1: "command [FLASHCMD_WRITE_ENABLE] None False 0 h = Some ([], h1)" "ready h1"
      "chip_of h1 = snd (xact (chip_of h) [FLASHCMD_WRITE_ENABLE])"
    using command_ok [of h "[FLASHCMD_WRITE_ENABLE]" None 0 False] assms(1)
    by (auto simp: tx_fits_def sent_bytes_def)
  obtain h2 where 2: "command hdr tx False count h1 = Some ([], h2)" "ready h2" "chip_of h2 = d"
    using command_ok [of h1 hdr tx count False] 1 assms(2,3) d by auto
  then show ?thesis using wait_ok [of h2 n] 1 assms(5) by simp
qed

end

subsection \<open>The port of the model keeps the contract\<close>

definition spi_command ::
    "'d spi_env \<Rightarrow> u8 list \<Rightarrow> u8 list option \<Rightarrow> bool \<Rightarrow> nat \<Rightarrow> 'd flash_hw \<Rightarrow>
       (u8 list \<times> 'd flash_hw) option" where
  "spi_command env hdr tx rx count h =
     flash_put_get env tx rx count (length hdr)
       (fold (write_dr0 env) hdr (flash_cs_force env OUTOVER_LOW h))"

lemma push_header:
  "fifo_ok h \<Longrightarrow> \<not> inover_low h \<Longrightarrow> quiet env \<Longrightarrow> in_flight h + length hdr < fifo_depth \<Longrightarrow>
     (let h' = fold (write_dr0 env) hdr h
      in fifo_ok h' \<and> \<not> inover_low h' \<and> in_flight h' = in_flight h + length hdr \<and>
         drained env bs h' = drained env (hdr @ bs) h)"
proof (induction hdr arbitrary: h)
  case (Cons b hdr)
  have "in_flight h + 1 < fifo_depth" using Cons.prems by simp
  note w = write_dr0_flight [OF this, where env = env and b = b]
  have "fifo_ok (write_dr0 env b h)" "\<not> inover_low (write_dr0 env b h)"
    using w(1,2,4,5) Cons.prems by (auto simp: fifo_ok_def quiet_def)
  from Cons.IH [OF this Cons.prems(3)] show ?case
    using w(1,7) Cons.prems by (simp add: Let_def)
qed simp

lemma spi_command_ok:
  assumes "idle h" "fair env" "quiet env" "length hdr < 16" "tx_fits tx count"
  shows "\<exists>h'. spi_command env hdr tx rx count h =
      Some (if rx then drop (length hdr) (fst (transaction env (chip h) (hdr @ sent_bytes tx count))) else [], h') \<and>
    idle h' \<and> chip h' = snd (transaction env (chip h) (hdr @ sent_bytes tx count))"
proof -
  let ?h1 = "flash_cs_force env OUTOVER_LOW h"
  let ?h2 = "fold (write_dr0 env) hdr ?h1"
  have cs: "idle ?h1" "chip ?h1 = chip_select env (chip h) OUTOVER_LOW"
    using cs_force_idle [OF assms(1,3)] by auto
  then have "fifo_ok ?h1" "\<not> inover_low ?h1" "in_flight ?h1 = 0" by (auto simp: idle_iff)
  moreover from this have "in_flight ?h1 + length hdr < fifo_depth"
    using assms(4) by (simp add: fifo_depth_def)
  ultimately have p: "fifo_ok ?h2" "\<not> inover_low ?h2" "in_flight ?h2 = length hdr"
      "drained env bs ?h2 = drained env (hdr @ bs) ?h1" for bs
    using push_header [of ?h1 env hdr bs] assms(3) by (simp_all add: Let_def)
  have dr: "drained env bs ?h1 = exchange_all env (chip ?h1) bs" for bs
    using cs(1) by (auto simp: drained_def idle_def pending_def shifting_def)
  show ?thesis
    using flash_put_get_ok [OF assms(2,3) p(1,2,3), where tx = tx and count = count and rx = rx] assms(5) p(4) dr cs(2)
    by (auto simp: spi_command_def transaction_def tx_fits_def case_prod_beta)
qed

lemma flash_do_cmd_eq: "flash_do_cmd env cmd tx rx count h = spi_command env [cmd] tx rx count h"
  by (simp add: flash_do_cmd_def spi_command_def)

lemma read_status_ok:
  assumes "idle h" "fair env" "quiet env"
  shows "\<exists>h'. flash_do_cmd env FLASHCMD_READ_STATUS None True 1 h =
      Some ([status_of (transaction env) (chip h)], h') \<and> idle h' \<and>
    chip h' = snd (transaction env (chip h) [FLASHCMD_READ_STATUS, 0])"
proof -
  have "length (fst (transaction env (chip h) [FLASHCMD_READ_STATUS, 0])) = 2"
    by (simp add: transaction_def case_prod_beta)
  then have "drop 1 (fst (transaction env (chip h) [FLASHCMD_READ_STATUS, 0]))
      = [status_of (transaction env) (chip h)]"
    by (auto simp: status_of_def length_Suc_conv eval_nat_numeral)
  then show ?thesis
    using spi_command_ok [OF assms, of "[FLASHCMD_READ_STATUS]" None 1 True]
    by (auto simp: flash_do_cmd_eq tx_fits_def sent_bytes_def)
qed

lemma flash_wait_loop_ok:
  assumes "fair env" "quiet env"
  shows "idle h \<Longrightarrow> busy_for (transaction env) n (chip h) \<Longrightarrow>
    \<exists>h'. flash_wait_ready_loop env stat h = Some h' \<and> idle h' \<and>
      chip h' = status_polls (transaction env) (Suc n) (chip h)"
proof (induction n arbitrary: h stat)
  case 0
  obtain h1 where h1: "flash_do_cmd env FLASHCMD_READ_STATUS None True 1 h =
        Some ([status_of (transaction env) (chip h)], h1)" "idle h1"
      "chip h1 = snd (transaction env (chip h) [FLASHCMD_READ_STATUS, 0])"
    using read_status_ok [OF 0(1) assms] by blast
  then show ?case
    using 0(2) by (subst flash_wait_ready_loop.simps) simp
next
  case (Suc n)
  obtain h1 where h1: "flash_do_cmd env FLASHCMD_READ_STATUS None True 1 h =
        Some ([status_of (transaction env) (chip h)], h1)" "idle h1"
      "chip h1 = snd (transaction env (chip h) [FLASHCMD_READ_STATUS, 0])"
    using read_status_ok [OF Suc(2) assms] by blast
  have t: "idle (tick env h1)" "chip (tick env h1) = chip h1"
    using tick_idle [OF h1(2) assms(2)] by auto
  then have "\<not> inover_low (tick env h1)" by (simp add: idle_def)
  then show ?case
    using Suc.IH [OF t(1), of "status_of (transaction env) (chip h)"] Suc(3) h1(1,3) t(2)
    by (subst flash_wait_ready_loop.simps) (simp add: flash_was_aborted_def)
qed

interpretation spi: spi_flash "\<lambda>h. idle h \<and> fair env \<and> quiet env" chip "transaction env"
    "spi_command env" "flash_wait_ready env" for env
proof unfold_locales
  fix env :: "'a spi_env" and h :: "'a flash_hw" and hdr :: "u8 list" and tx count rx
  assume "idle h \<and> fair env \<and> quiet env" "length hdr < 16" "tx_fits tx count"
  then show "\<exists>h'. spi_command env hdr tx rx count h =
        Some (if rx then drop (length hdr) (fst (transaction env (chip h) (hdr @ sent_bytes tx count))) else [], h') \<and>
      (idle h' \<and> fair env \<and> quiet env) \<and> chip h' = snd (transaction env (chip h) (hdr @ sent_bytes tx count))"
    using spi_command_ok by blast
next
  fix env :: "'a spi_env" and h :: "'a flash_hw" and n
  assume "idle h \<and> fair env \<and> quiet env" "busy_for (transaction env) n (chip h)"
  then show "\<exists>h'. flash_wait_ready env h = Some h' \<and> (idle h' \<and> fair env \<and> quiet env) \<and>
      chip h' = status_polls (transaction env) (Suc n) (chip h)"
    using flash_wait_loop_ok unfolding flash_wait_ready_def by blast
qed

subsection \<open>Programming and erasing\<close>

text \<open>The four bytes that \<open>flash_put_cmd_addr\<close> sends.\<close>

definition cmd_addr :: "u8 \<Rightarrow> u32 \<Rightarrow> u8 list" where
  "cmd_addr cmd addr =
     [cmd OR ucast (drop_bit 24 addr), ucast (drop_bit 16 addr), ucast (drop_bit 8 addr), ucast addr]"

lemma length_cmd_addr [simp]: "length (cmd_addr cmd addr) = 4"
  by (simp add: cmd_addr_def)

lemma cmd_addr_24bit:
  "addr < 0x1000000 \<Longrightarrow> cmd_addr cmd addr = cmd # map (\<lambda>n. ucast (drop_bit n addr)) [16, 8, 0]"
proof -
  assume "addr < 0x1000000"
  then have "unat addr < 2 ^ 24" by (simp add: word_less_nat_alt)
  then have "drop_bit 24 addr = 0"
    by (intro word_unat_eq_iff [THEN iffD2]) (simp add: drop_bit_eq_div unat_div_distrib)
  then show ?thesis by (simp add: cmd_addr_def)
qed

lemma put_cmd_addr_fold:
  "flash_put_cmd_addr env cmd addr h = fold (write_dr0 env) (cmd_addr cmd addr) (flash_cs_force env OUTOVER_LOW h)"
proof -
  let ?w = "addr OR push_bit 24 (ucast cmd)"
  have b: "(ucast (drop_bit 24 ?w) :: u8) = cmd OR ucast (drop_bit 24 addr)"
    "(ucast (drop_bit 24 (push_bit 8 ?w)) :: u8) = ucast (drop_bit 16 addr)"
    "(ucast (drop_bit 24 (push_bit 8 (push_bit 8 ?w))) :: u8) = ucast (drop_bit 8 addr)"
    "(ucast (drop_bit 24 (push_bit 8 (push_bit 8 (push_bit 8 ?w)))) :: u8) = ucast addr"
    by (rule bit_word_eqI; auto simp: bit_simps)+
  have four: "(4 :: nat) = Suc (Suc (Suc (Suc 0)))" by simp
  show ?thesis
    unfolding flash_put_cmd_addr_def cmd_addr_def four put_top_bytes.simps b fold_simps by (rule refl)
qed

lemmas flash_command_eqs =
  flash_do_cmd_eq put_cmd_addr_fold spi_command_def

lemma flash_page_program_spi:
  "flash_page_program env addr data h = do {
     h1 \<leftarrow> map_option snd (spi_command env [FLASHCMD_WRITE_ENABLE] None False 0 h);
     (_, h2) \<leftarrow> spi_command env (cmd_addr FLASHCMD_PAGE_PROGRAM addr) (Some data) False 256 h1;
     flash_wait_ready env h2 }"
  by (simp add: flash_page_program_def flash_enable_write_def flash_do_cmd_eq put_cmd_addr_fold
      spi_command_def [of _ "cmd_addr _ _"])

lemma flash_user_erase_spi:
  "flash_user_erase env addr cmd h = do {
     h1 \<leftarrow> map_option snd (spi_command env [FLASHCMD_WRITE_ENABLE] None False 0 h);
     (_, h2) \<leftarrow> spi_command env (cmd_addr cmd addr) None False 0 h1;
     flash_wait_ready env h2 }"
  by (simp add: flash_user_erase_def flash_enable_write_def flash_do_cmd_eq put_cmd_addr_fold
      spi_command_def [of _ "cmd_addr _ _"])

lemma flash_page_program_ok:
  assumes "idle h" "fair env" "quiet env" "256 \<le> length data"
    and d: "d = snd (transaction env (snd (transaction env (chip h) [FLASHCMD_WRITE_ENABLE]))
      (cmd_addr FLASHCMD_PAGE_PROGRAM addr @ take 256 data))"
    and "busy_for (transaction env) n d"
  shows "\<exists>h'. flash_page_program env addr data h = Some h' \<and> idle h' \<and>
    chip h' = status_polls (transaction env) (Suc n) d"
  unfolding flash_page_program_spi
  using spi.busy_command [of h env "cmd_addr FLASHCMD_PAGE_PROGRAM addr" "Some data" 256 d n] assms
  by (simp add: tx_fits_def sent_bytes_def)

lemma flash_user_erase_ok:
  assumes "idle h" "fair env" "quiet env"
    and d: "d = snd (transaction env (snd (transaction env (chip h) [FLASHCMD_WRITE_ENABLE])) (cmd_addr cmd addr))"
    and "busy_for (transaction env) n d"
  shows "\<exists>h'. flash_user_erase env addr cmd h = Some h' \<and> idle h' \<and>
    chip h' = status_polls (transaction env) (Suc n) d"
  unfolding flash_user_erase_spi
  using spi.busy_command [of h env "cmd_addr cmd addr" None 0 d n] assms
  by (simp add: tx_fits_def sent_bytes_def)

text \<open>
  C29. \<open>flash_page_program\<close> on an idle port and a chip that is busy for \<open>n\<close> polls: the chip has
  seen a write enable, then in one transaction the program command, the address and the first
  256 bytes of the data, then \<open>n + 1\<close> reads of the status register; the call returns and the
  port is idle again.
\<close>

theorem flash_page_program_correct:
  assumes "idle h" "fair env" "quiet env" "256 \<le> length data"
    and d: "d = snd (transaction env (snd (transaction env (chip h) [FLASHCMD_WRITE_ENABLE]))
      (cmd_addr FLASHCMD_PAGE_PROGRAM addr @ take 256 data))"
    and "busy_for (transaction env) n d"
  shows "\<exists>h'. flash_page_program env addr data h = Some h' \<and> idle h' \<and>
    chip h' = status_polls (transaction env) (Suc n) d"
  using assms by (rule flash_page_program_ok)

text \<open>
  C36. \<open>flash_user_erase\<close> on an idle port: the chip has seen a write enable, then the command
  with the address and no data, then status reads until it is no longer busy.
\<close>

theorem flash_user_erase_correct:
  assumes "idle h" "fair env" "quiet env"
    and d: "d = snd (transaction env (snd (transaction env (chip h) [FLASHCMD_WRITE_ENABLE])) (cmd_addr cmd addr))"
    and "busy_for (transaction env) n d"
  shows "\<exists>h'. flash_user_erase env addr cmd h = Some h' \<and> idle h' \<and>
    chip h' = status_polls (transaction env) (Suc n) d"
  using assms by (rule flash_user_erase_ok)

text \<open>
  \<open>flash_read_data\<close> on an idle port stores the \<open>count\<close> bytes that the chip answers to a read
  command followed by \<open>count\<close> zero bytes, for a 24-bit address.
\<close>

theorem flash_read_data_correct:
  assumes "idle h" "fair env" "quiet env" "addr < 0x1000000"
  shows "\<exists>h'. flash_read_data env addr count h =
      Some (drop 4 (fst (transaction env (chip h)
        ([FLASHCMD_READ_DATA, ucast (drop_bit 16 addr), ucast (drop_bit 8 addr), ucast addr] @ replicate count 0))), h') \<and>
    idle h'"
proof -
  have "flash_read_data env addr count h = spi_command env (cmd_addr FLASHCMD_READ_DATA addr) None True count h"
    by (simp add: flash_read_data_def put_cmd_addr_fold spi_command_def)
  then show ?thesis
    using spi.command_rx [of h env "cmd_addr FLASHCMD_READ_DATA addr" count] assms
      cmd_addr_24bit [OF assms(4), of FLASHCMD_READ_DATA] by (auto simp: eval_nat_numeral)
qed

text \<open>
  An address of more than 24 bits changes the command byte: its top byte is ORed into it, so a
  program command at \<open>0x1000000\<close> and above is sent as another command.
\<close>

lemma cmd_addr_high: "hd (cmd_addr FLASHCMD_PAGE_PROGRAM 0x1000000) = FLASHCMD_READ_DATA"
  by (simp add: cmd_addr_def)

subsection \<open>Programming and erasing ranges\<close>

text \<open>A sequence of flash operations, each preceded by the check for an abort.\<close>

fun run_ops :: "'d spi_env \<Rightarrow> ('d flash_hw \<Rightarrow> 'd flash_hw option) list \<Rightarrow> 'd flash_hw \<Rightarrow> 'd flash_hw option" where
  "run_ops env [] h = Some h"
| "run_ops env (f # fs) h =
     (case flash_was_aborted env h of
        (aborted, h1) \<Rightarrow>
          if aborted then Some h1
          else (case f h1 of None \<Rightarrow> None | Some h2 \<Rightarrow> run_ops env fs h2))"

text \<open>
  A range that does not reach the end of the address space is programmed page by page:
  \<open>flash_range_program\<close> is exactly the sequence of \<open>ceiling (count / 256)\<close> page programs,
  the \<open>i\<close>-th at \<open>addr + 256 i\<close> from offset \<open>256 i\<close> of the data.
\<close>

theorem flash_range_program_pages:
  assumes "unat addr + unat count + 255 < 2 ^ 32"
  shows "flash_range_program env addr data count h =
    run_ops env (map (\<lambda>i. flash_page_program env (addr + 256 * word_of_nat i) (drop (256 * i) data))
      [0..<(unat count + 255) div 256]) h"
proof -
  have loop: "flash_range_program_loop env a goal bs h =
    run_ops env (map (\<lambda>i. flash_page_program env (a + 256 * word_of_nat i) (drop (256 * i) bs)) [0..<n]) h"
    if "n = (unat goal + 255 - unat a) div 256" "unat goal + 255 < 2 ^ 32" "unat a \<le> unat goal + 255"
    for n and a goal :: u32 and bs h
    using that
  proof (induction n arbitrary: a bs h)
    case 0
    then have "\<not> a < goal" by (auto simp: word_less_nat_alt)
    then show ?case by (simp add: flash_range_program_loop.simps)
  next
    case (Suc n)
    have less: "a < goal" using Suc.prems by (auto simp: word_less_nat_alt)
    have a': "unat (a + 256) = unat a + 256"
      using Suc.prems less by (subst unat_plus_noof) (auto simp: word_less_nat_alt)
    have IH: "flash_range_program_loop env (a + 256) goal (drop 256 bs) h2 = run_ops env
        (map (\<lambda>i. flash_page_program env (a + 256 + 256 * word_of_nat i) (drop (256 * i) (drop 256 bs))) [0..<n]) h2"
      for h2
      by (rule Suc.IH) (use Suc.prems less a' in \<open>auto simp: word_less_nat_alt\<close>)
    have m: "map f [0..<Suc n] = f 0 # map (\<lambda>i. f (Suc i)) [0..<n]"
      for f :: "nat \<Rightarrow> 'a flash_hw \<Rightarrow> 'a flash_hw option"
      by (simp add: upt_conv_Cons map_Suc_upt [symmetric] del: upt_Suc)
    show ?case
      using less
      by (subst flash_range_program_loop.simps, simp only: m IH if_True list.map run_ops.simps cong: if_cong option.case_cong)
        (simp add: algebra_simps split: prod.split option.split)
  qed
  have goal: "unat (addr + count) = unat addr + unat count"
    using assms by (intro unat_plus_noof) simp
  show ?thesis
    unfolding flash_range_program_def using assms by (intro loop) (simp_all add: goal)
qed

text \<open>
  A list of erase operations (command, address, size) covers a range without gaps: each starts
  where the previous one ends, below the goal, and is either the erase of one 4k sector or the
  erase of an aligned block that lies inside the range.
\<close>

fun erase_tiles :: "nat \<Rightarrow> u8 \<Rightarrow> nat \<Rightarrow> nat \<Rightarrow> (u8 \<times> u32 \<times> nat) list \<Rightarrow> bool" where
  "erase_tiles block_size block_cmd a goal [] \<longleftrightarrow> goal \<le> a"
| "erase_tiles block_size block_cmd a goal ((cmd, x, n) # es) \<longleftrightarrow>
     unat x = a \<and> a < goal \<and>
     (cmd = FLASHCMD_SECTOR_ERASE \<and> n = 4096 \<or>
      cmd = block_cmd \<and> n = block_size \<and> block_size dvd a \<and> a + n \<le> goal) \<and>
     erase_tiles block_size block_cmd (a + n) goal es"

lemma range_erase_plan:
  assumes "12 \<le> k" "k < 32"
  shows "4096 dvd unat a \<Longrightarrow> unat goal + 4095 < 2 ^ 32 \<Longrightarrow> unat a \<le> unat goal + 4095 \<Longrightarrow>
    \<exists>es. (\<forall>h. flash_range_erase_loop env (push_bit k 1) block_cmd a goal h =
      run_ops env (map (\<lambda>(cmd, x, n). flash_user_erase env x cmd) es) h) \<and>
    erase_tiles (2 ^ k) block_cmd (unat a) (unat goal) es \<and>
    (\<Union>(cmd, x, n) \<in> set es. {unat x..<unat x + n}) = {unat a..<(unat goal + 4095) div 4096 * 4096}"
proof (induction "unat goal + 4095 - unat a" arbitrary: a rule: less_induct)
  case less
  have bs: "unat (2 ^ k :: u32) = 2 ^ k"
    using assms(2) by (simp add: unat_pow2)
  have aligned: "x AND (2 ^ k - 1) = 0 \<longleftrightarrow> 2 ^ k dvd unat x" for x :: u32
  proof -
    have "x AND (2 ^ k - 1) = take_bit k x" by (simp add: take_bit_eq_mask mask_eq_exp_minus_1)
    moreover have "take_bit k x = 0 \<longleftrightarrow> take_bit k (unat x) = 0"
      by (metis unsigned_take_bit_eq unat_eq_zero)
    ultimately show ?thesis by (simp add: take_bit_eq_mod dvd_eq_mod_eq_0)
  qed
  have k12: "(4096 :: nat) dvd 2 ^ k" using assms(1) le_imp_power_dvd [of 12 k 2] by simp
  obtain q where q: "unat a = 4096 * q" using less.prems(1) by blast
  show ?case
  proof (cases "a < goal")
    case False
    then have "unat goal \<le> unat a" by (simp add: word_less_nat_alt)
    then have "(unat goal + 4095) div 4096 * 4096 \<le> unat a" using q by simp
    then show ?thesis
      using False by (intro exI [of _ "[]"]) (simp add: flash_range_erase_loop.simps word_less_nat_alt)
  next
    case True
    then have lt: "unat a < unat goal" by (simp add: word_less_nat_alt)
    have gap: "unat (goal - a) = unat goal - unat a" using True by (intro unat_minus_le) simp
    obtain cmd moved where ch: "range_erase_choice (push_bit k 1) block_cmd a goal = (cmd, moved)"
      by (rule prod.exhaust)
    then have c: "cmd = block_cmd \<and> unat moved = 2 ^ k \<and> 2 ^ k dvd unat a \<and> unat a + 2 ^ k \<le> unat goal \<or>
        cmd = FLASHCMD_SECTOR_ERASE \<and> unat moved = 4096"
      using gap lt bs by (auto simp: range_erase_choice_def aligned word_le_nat_alt split: if_splits)
    have m: "4096 dvd unat moved" "0 < unat moved" using c k12 by auto
    have top: "unat a + unat moved \<le> (unat goal + 4095) div 4096 * 4096"
    proof -
      have "unat a + unat moved \<le> unat goal + 4095" using c lt q by auto
      moreover obtain r where "unat a + unat moved = 4096 * r" using m(1) q by (metis dvdE dvd_add dvd_triv_left)
      ultimately show ?thesis by simp
    qed
    have a': "unat (a + moved) = unat a + unat moved"
      using top less.prems(2) by (intro unat_plus_noof) (simp add: order_le_less_trans)
    have "4096 dvd unat (a + moved)" using m(1) q a' by simp
    from less.hyps [OF _ this less.prems(2)] obtain es where
      es: "\<forall>h. flash_range_erase_loop env (push_bit k 1) block_cmd (a + moved) goal h =
        run_ops env (map (\<lambda>(cmd, x, n). flash_user_erase env x cmd) es) h"
      "erase_tiles (2 ^ k) block_cmd (unat a + unat moved) (unat goal) es"
      "(\<Union>(cmd, x, n) \<in> set es. {unat x..<unat x + n}) =
        {unat a + unat moved..<(unat goal + 4095) div 4096 * 4096}"
      using a' m(2) lt top by fastforce
    have "(\<Union>(cmd, x, n) \<in> set ((cmd, a, unat moved) # es). {unat x..<unat x + n}) =
        {unat a..<(unat goal + 4095) div 4096 * 4096}"
      using es(3) top by auto
    moreover have "erase_tiles (2 ^ k) block_cmd (unat a) (unat goal) ((cmd, a, unat moved) # es)"
      using es(2) c lt by auto
    moreover have "flash_range_erase_loop env (push_bit k 1) block_cmd a goal h =
        run_ops env (map (\<lambda>(cmd, x, n). flash_user_erase env x cmd) ((cmd, a, unat moved) # es)) h" for h
      using True by (subst flash_range_erase_loop.simps)
          (simp del: push_bit_of_1 add: ch es(1) split: prod.split option.split)
    ultimately show ?thesis by blast
  qed
qed

text \<open>
  C30. For a sector-aligned range that does not reach the end of the address space and a block
  size \<open>2 ^ k\<close> of at least a sector, \<open>flash_range_erase\<close> is a sequence of erases that tiles
  the range, and its erased sectors are exactly those that meet the range.
\<close>

theorem flash_range_erase_tiles:
  assumes "4096 dvd unat addr" "unat addr + unat count + 4095 < 2 ^ 32" "12 \<le> k" "k < 32"
  shows "\<exists>es. flash_range_erase env addr count (push_bit k 1) block_cmd h =
      run_ops env (map (\<lambda>(cmd, x, n). flash_user_erase env x cmd) es) h \<and>
    erase_tiles (2 ^ k) block_cmd (unat addr) (unat addr + unat count) es \<and>
    (\<Union>(cmd, x, n) \<in> set es. {unat x..<unat x + n}) =
      {unat addr..<(unat addr + unat count + 4095) div 4096 * 4096}"
proof -
  have goal: "unat (addr + count) = unat addr + unat count"
    using assms by (intro unat_plus_noof) simp
  show ?thesis
    using range_erase_plan [OF assms(3,4), of addr "addr + count" env block_cmd] assms
    unfolding flash_range_erase_def goal by auto
qed

subsection \<open>The size of the chip\<close>

lemma count_shifts_log2:
  "w \<noteq> 0 \<Longrightarrow> \<exists>n. count_shifts w ctr = ctr + word_of_nat n \<and> n < 32 \<and> 2 ^ n \<le> unat w \<and> unat w < 2 ^ Suc n"
proof (induction w ctr rule: count_shifts.induct)
  case (1 w ctr)
  have half: "unat (drop_bit 1 w) = unat w div 2" by (simp add: drop_bit_eq_div unat_div_distrib)
  show ?case
  proof (cases "drop_bit 1 w = 0")
    case True
    then have "unat w div 2 = 0" using half by simp
    then have "unat w < 2" by simp
    moreover have "unat w \<noteq> 0" using "1.prems" by (simp add: unat_eq_zero)
    ultimately have "unat w = 1" by simp
    then show ?thesis using True by (intro exI [of _ 0]) (simp add: count_shifts.simps [of w])
  next
    case False
    from "1.IH" [OF False False] obtain n where n: "count_shifts (drop_bit 1 w) (ctr + 1) = ctr + 1 + word_of_nat n"
      "2 ^ n \<le> unat w div 2" "unat w div 2 < 2 ^ Suc n" by (auto simp: half [simplified])
    have b: "2 ^ Suc n \<le> unat w" "unat w < 2 ^ Suc (Suc n)" using n(2,3) by auto
    have "(2::nat) ^ Suc n < 2 ^ 32" by (rule order_le_less_trans [OF b(1)]) simp
    then have "Suc n < 32" by (rule power_less_imp_less_exp [rotated]) simp
    then show ?thesis
      using n(1) b False by (intro exI [of _ "Suc n"]) (simp add: count_shifts.simps [of w] algebra_simps)
  qed
qed
text \<open>
  For a density word whose top bit is clear, \<open>flash_size_log2\<close> computes the floor of the
  base-2 logarithm of the number of bits (the word plus one).
\<close>

theorem sfdp_array_size_log2:
  assumes "\<not> bit w 31"
  shows "2 ^ unat (sfdp_array_size w) \<le> unat w + 1 \<and> unat w + 1 < 2 ^ Suc (unat (sfdp_array_size w))"
proof -
  have msb: "w AND push_bit 31 1 = 0" 
    using assms unfolding push_bit_of_1 and_exp_eq_0_iff_not_bit .
  have "w \<noteq> - 1" using assms by (auto simp: bit_simps)
  then have w: "unat (w + 1) = unat w + 1" by (rule unat_suc)
  then have "w + 1 \<noteq> 0" by (metis add_is_0 one_neq_zero unat_0)
  from count_shifts_log2 [OF this, of 0] obtain n where
    n: "count_shifts (w + 1) 0 = word_of_nat n" "n < 32" "2 ^ n \<le> unat w + 1" "unat w + 1 < 2 ^ Suc n"
    unfolding w by auto
  have "unat (word_of_nat n :: u32) = n" using n(2) by (intro unat_of_nat_small) simp
  then show ?thesis using n by (simp add: sfdp_array_size_def msb [simplified])
qed

theorem sfdp_array_size_log2_witness:
  "2 ^ unat (sfdp_array_size 0xffffff) \<le> unat (0xffffff :: u32) + 1 \<and>
   unat (0xffffff :: u32) + 1 < 2 ^ Suc (unat (sfdp_array_size 0xffffff))"
  by (rule sfdp_array_size_log2) (simp add: bit_simps)

text \<open>What \<open>flash_size_log2\<close> should return, as a function of the answers of the chip.\<close>

definition sfdp_answer :: "'d spi_env \<Rightarrow> 'd \<Rightarrow> u32 \<Rightarrow> nat \<Rightarrow> u8 list \<times> 'd" where
  "sfdp_answer env d addr n =
     (let (rs, d') = transaction env d (cmd_addr FLASHCMD_READ_SFDP addr @ 0 # replicate n 0)
      in (drop 5 rs, d'))"

definition jedec_size :: "'d spi_env \<Rightarrow> 'd \<Rightarrow> int" where
  "jedec_size env d =
     (let b = fst (transaction env d (FLASHCMD_READ_JEDEC_ID # replicate 3 0)) ! 3
      in if 8 \<le> b \<and> b \<le> 34 then uint b else - 1)"

definition chip_size_log2 :: "'d spi_env \<Rightarrow> 'd \<Rightarrow> int" where
  "chip_size_log2 env d =
     (let (r, d1) = sfdp_answer env d 0 16
      in if take 4 r = [0x53, 0x46, 0x44, 0x50] \<and> r ! 8 = 0 then
           (let (p, d2) = sfdp_answer env d1 (bytes_to_u32le (drop 12 r) AND 0xffffff) 8;
                s = sfdp_array_size (bytes_to_u32le (drop 4 p))
            in if 11 \<le> s \<and> s \<le> 37 then uint s - 3 else jedec_size env d2)
         else jedec_size env d1)"

lemma flash_read_sfdp_ok:
  assumes "idle h" "fair env" "quiet env"
  shows "\<exists>h'. flash_read_sfdp env addr n h = Some (fst (sfdp_answer env (chip h) addr n), h') \<and>
    idle h' \<and> chip h' = snd (sfdp_answer env (chip h) addr n)"
proof -
  have "flash_read_sfdp env addr n h = spi_command env (cmd_addr FLASHCMD_READ_SFDP addr @ [0]) None True n h"
    by (simp add: flash_read_sfdp_def put_cmd_addr_fold spi_command_def)
  then show ?thesis
    using spi.command_rx [of h env "cmd_addr FLASHCMD_READ_SFDP addr @ [0]" n] assms
    by (auto simp: sfdp_answer_def case_prod_beta)
qed

lemma length_sfdp_answer [simp]: "length (fst (sfdp_answer env d addr n)) = n"
  by (simp add: sfdp_answer_def transaction_def case_prod_beta)

lemma flash_size_jedec_ok:
  assumes "idle h" "fair env" "quiet env"
  shows "\<exists>h'. flash_size_jedec env buf h = Some (jedec_size env (chip h), h') \<and> idle h'"
proof -
  let ?t = "transaction env (chip h) (FLASHCMD_READ_JEDEC_ID # replicate 3 0)"
  have len: "length (fst ?t) = 4" by (simp add: transaction_def case_prod_beta)
  obtain h' where h': "flash_do_cmd env FLASHCMD_READ_JEDEC_ID None True 3 h = Some (drop 1 (fst ?t), h')" "idle h'"
    using spi.command_rx [of h env "[FLASHCMD_READ_JEDEC_ID]" 3] assms by (auto simp: flash_do_cmd_eq)
  have "buf_store (drop 1 (fst ?t)) buf ! 2 = fst ?t ! 3"
    using len by (simp add: buf_store_def nth_append numeral_3_eq_3)
  then show ?thesis
    using h' by (auto simp: flash_size_jedec_def jedec_size_def Let_def not_less)
qed

lemma le32_bytes_to_u32le:
  assumes "4 \<le> length bs"
  shows "le32 (bytes_to_u32le bs) = take 4 bs"
proof -
  have "take 4 bs = [bs ! 0, bs ! 1, bs ! 2, bs ! 3]"
    using assms by (intro nth_equalityI) (auto simp: less_Suc_eq numeral_eq_Suc)
  then show ?thesis by (simp only: bytes_to_u32le_def le32_bytes)
qed

lemma sfdp_magic:
  assumes "4 \<le> length bs"
  shows "bytes_to_u32le bs = 0x53 OR push_bit 8 0x46 OR push_bit 16 0x44 OR push_bit 24 0x50 \<longleftrightarrow>
    take 4 bs = [0x53, 0x46, 0x44, 0x50]"
proof
  assume "bytes_to_u32le bs = 0x53 OR push_bit 8 0x46 OR push_bit 16 0x44 OR push_bit 24 0x50"
  then have "le32 (bytes_to_u32le bs) = [0x53, 0x46, 0x44, 0x50]" by (simp add: le32_def)
  then show "take 4 bs = [0x53, 0x46, 0x44, 0x50]" using le32_bytes_to_u32le [OF assms] by simp
next
  assume t: "take 4 bs = [0x53, 0x46, 0x44, 0x50]"
  have "bs ! k = take 4 bs ! k" if "k < 4" for k using that by simp
  from this [of 0] this [of 1] this [of 2] this [of 3]
  show "bytes_to_u32le bs = 0x53 OR push_bit 8 0x46 OR push_bit 16 0x44 OR push_bit 24 0x50"
    by (simp add: bytes_to_u32le_def t)
qed


subsection \<open>Leaving XIP mode\<close>

text \<open>The registers that a transfer leaves alone.\<close>

definition hw_config :: "'d flash_hw \<Rightarrow> u32 list" where
  "hw_config h = [sd0 h, sd1 h, sd2 h, sd3 h, ssienr h, baudr h, ctrlr0 h, ser h, spi_ctrlr0 h]"

lemma hw_config_step: "hw_config (ssi_step env h) = hw_config h"
  by (auto simp: hw_config_def ssi_step_def receive_def Let_def split: option.splits list.splits prod.splits)

lemma hw_config_steps: "hw_config (ssi_steps env n h) = hw_config h"
  by (induction n arbitrary: h) (simp_all add: hw_config_step)

lemma hw_config_update [simp]:
  "hw_config (h\<lparr>now := t\<rparr>) = hw_config h" "hw_config (h\<lparr>inover_low := b\<rparr>) = hw_config h"
  "hw_config (h\<lparr>tx_fifo := xs\<rparr>) = hw_config h" "hw_config (h\<lparr>rx_fifo := xs\<rparr>) = hw_config h"
  "hw_config (h\<lparr>cs_over := over, chip := d\<rparr>) = hw_config h"
  by (simp_all add: hw_config_def)

lemma hw_config_tick [simp]: "hw_config (tick env h) = hw_config h"
  by (simp add: tick_def Let_def hw_config_steps)

lemma hw_config_access [simp]:
  "hw_config (write_dr0 env b h) = hw_config h"
  "read_dr0 env h = (r, h') \<Longrightarrow> hw_config h' = hw_config h"
  "hw_config (flash_cs_force env over h) = hw_config h"
  by (auto simp: write_dr0_def read_dr0_def flash_cs_force_def Let_def split: list.splits)

lemma hw_config_send: "put_get_send env l h = (l', h') \<Longrightarrow> hw_config h' = hw_config h"
  by (auto simp: put_get_send_def split: option.splits)

lemma hw_config_receive: "put_get_receive env rx l h = (l', h') \<Longrightarrow> hw_config h' = hw_config h"
  by (auto simp: put_get_receive_def split: prod.splits if_splits)

lemma hw_config_put_get_step:
  assumes "put_get_step env rx l h = (leave, l', h')"
  shows "hw_config h' = hw_config h"
proof -
  have branch: "hw_config (snd (if b then put_get_send env l k else (l, k))) = hw_config k"
    "hw_config (snd (if b then put_get_receive env rx l k else (l, k))) = hw_config k" for b l k
    using hw_config_send [of env l k] hw_config_receive [of env rx l k]
    by (auto, (metis prod.collapse)+)
  show ?thesis
    using assms
    by (auto simp: put_get_step_def read_txflr_def read_rxflr_def flash_was_aborted_def Let_def branch
        split: if_splits prod.splits dest!: hw_config_send hw_config_receive)
qed

lemma hw_config_put_get_loop:
  assumes "put_get_loop env rx l h = Some (l', h')"
  shows "hw_config h' = hw_config h"
proof -
  let ?Q = "\<lambda>(env :: 'a spi_env) (rx :: bool) (l :: put_get) h (l' :: put_get, h'). hw_config h' = hw_config h"
  have "?Q env rx l h (l', h')"
  proof (rule put_get_loop.raw_induct [where P = ?Q, OF _ assms])
    fix f and env :: "'a spi_env" and rx l h r
    assume "\<And>env rx l h r. f env rx l h = Some r \<Longrightarrow> ?Q env rx l h r"
      and "(if put_get_busy l then
          case put_get_step env rx l h of
            (leave, l', h') \<Rightarrow> if leave then Some (l', h') else f env rx l' h'
        else Some (l, h)) = Some r"
    then show "?Q env rx l h r"
      by (auto split: if_splits prod.splits dest!: hw_config_put_get_step)
  qed
  then show ?thesis by simp
qed

lemma put_get_exchange:
  assumes "idle h" "fair env" "quiet env" "tx_fits tx count"
  shows "\<exists>h'. flash_put_get env tx False count 0 h = Some ([], h') \<and> idle h' \<and> hw_config h' = hw_config h \<and>
    chip h' = chip_select env (snd (exchange_all env (chip h) (sent_bytes tx count))) OUTOVER_HIGH"
proof -
  have f: "fifo_ok h" "\<not> inover_low h" "in_flight h = 0" using assms(1) by (auto simp: idle_iff)
  have "drained env bs h = exchange_all env (chip h) bs" for bs
    using assms(1) by (auto simp: drained_def idle_def pending_def shifting_def)
  then obtain h' where h': "flash_put_get env tx False count 0 h = Some ([], h')" "idle h'"
    "chip h' = chip_select env (snd (exchange_all env (chip h) (sent_bytes tx count))) OUTOVER_HIGH"
    using flash_put_get_ok [OF assms(2,3) f, where tx = tx and count = count and rx = False] assms(4) by (auto simp: tx_fits_def)
  then have "hw_config h' = hw_config h"
    by (auto simp: flash_put_get_def dest: hw_config_put_get_loop split: option.splits)
  then show ?thesis using h' by blast
qed

text \<open>A controller with nothing to send does nothing.\<close>

lemma tick_quiet:
  assumes "tx_fifo h = []" "shift_reg h = None" "quiet env"
  shows "tick env h = h\<lparr>now := Suc (now h)\<rparr>"
proof -
  have "ssi_steps env n h = h" for n
    by (induction n) (simp_all add: ssi_step_def assms(1,2))
  then show ?thesis using assms(3) by (simp add: tick_def quiet_def)
qed

lemma flash_init_spi_ok:
  assumes "tx_fifo h = []" "shift_reg h = None" "quiet env" "\<not> inover_low h"
  shows "idle (flash_init_spi c env h) \<and> chip (flash_init_spi c env h) = chip h \<and>
    hw_config (flash_init_spi c env h) = [sd0 h, sd1 h, sd2 h, sd3 h, 1, 6,
      push_bit (SSI_CTRLR0_SPI_FRF_LSB c) (SSI_CTRLR0_SPI_FRF_VALUE_STD c) OR
      push_bit (SSI_CTRLR0_DFS_32_LSB c) 7 OR
      push_bit (SSI_CTRLR0_TMOD_LSB c) (SSI_CTRLR0_TMOD_VALUE_TX_AND_RX c), 1, spi_ctrlr0 h]"
  using assms by (simp add: flash_init_spi_def write_ssienr_def tick_quiet Let_def idle_def hw_config_def)

lemma set_pads_ok:
  assumes "idle h" "quiet env"
  shows "idle (set_pads env p0 p1 p2 p3 h) \<and> chip (set_pads env p0 p1 p2 p3 h) = chip h \<and>
    hw_config (set_pads env p0 p1 p2 p3 h) = [p0, p1, p2, p3] @ drop 4 (hw_config h)"
  using assms by (simp add: set_pads_def tick_quiet idle_def Let_def hw_config_def)

text \<open>What the chip sees of one of the two 32-clock sequences.\<close>

definition exit_clocks_seen :: "'d spi_env \<Rightarrow> 'd \<Rightarrow> 'd" where
  "exit_clocks_seen env d =
     chip_select env (chip_select env (snd (exchange_all env d [0, 0, 0, 0])) OUTOVER_HIGH) OUTOVER_LOW"

lemma exit_xip_clocks_ok:
  assumes "idle h" "fair env" "quiet env"
  shows "\<exists>h'. exit_xip_clocks env pad h = Some h' \<and> idle h' \<and> chip h' = exit_clocks_seen env (chip h) \<and>
    hw_config h' = [pad, pad, pad, pad] @ drop 4 (hw_config h)"
proof -
  have "idle (set_pads env pad pad pad pad h)" using set_pads_ok assms by blast
  moreover have "sent_bytes None 4 = [0, 0, 0, 0]" by (simp add: sent_bytes_def eval_nat_numeral)
  ultimately obtain h1 where "flash_put_get env None False 4 0 (set_pads env pad pad pad pad h) = Some ([], h1)"
    "idle h1" "hw_config h1 = [pad, pad, pad, pad] @ drop 4 (hw_config h)"
    "chip h1 = chip_select env (snd (exchange_all env (chip h) [0, 0, 0, 0])) OUTOVER_HIGH"
    using put_get_exchange [of "set_pads env pad pad pad pad h" env None 4] set_pads_ok [of h env pad pad pad pad]
      assms by (auto simp: tx_fits_def)
  then show ?thesis
    using cs_force_idle [of h1 env OUTOVER_LOW] assms(3) by (simp add: exit_xip_clocks_def exit_clocks_seen_def)
qed

lemma flash_exit_xip_ok:
  assumes "tx_fifo h = []" "shift_reg h = None" "\<not> inover_low h" "fair env" "quiet env"
  shows "\<exists>h'. flash_exit_xip c env h = Some h' \<and> idle h' \<and> cs_over h' = OUTOVER_NORMAL \<and>
    sd0 h' = sd0 h \<and> sd1 h' = sd0 h \<and>
    sd2 h' = (sd0 h AND NOT (PADS_PDE_BITS c)) OR PADS_PUE_BITS c \<and> sd3 h' = sd2 h' \<and>
    ssienr h' = 1 \<and> baudr h' = 6 \<and> ser h' = 1 \<and>
    (let d = exit_clocks_seen env (exit_clocks_seen env (chip_select env (chip h) OUTOVER_HIGH))
     in chip h' = chip_select env (chip_select env
         (snd (exchange_all env (chip_select env d OUTOVER_LOW) [0xff, 0xff])) OUTOVER_HIGH) OUTOVER_NORMAL)"
proof -
  let ?h1 = "flash_init_spi c env h"
  note i = flash_init_spi_ok [OF assms(1,2,5,3), of c]
  have sd: "sd0 ?h1 = sd0 h" using i by (simp add: hw_config_def)
  have t1: "idle (tick env ?h1)" "chip (tick env ?h1) = chip h" using tick_idle [of ?h1 env] i assms(5) by auto
  note c1 = cs_force_idle [OF t1(1) assms(5), of OUTOVER_HIGH]
  obtain h2 where h2: "exit_xip_clocks env ((sd0 ?h1 AND NOT (PADS_OD_BITS c OR PADS_PUE_BITS c OR PADS_PDE_BITS c))
                  OR PADS_OD_BITS c OR PADS_PDE_BITS c) (flash_cs_force env OUTOVER_HIGH (tick env ?h1)) = Some h2"
    "idle h2" "chip h2 = exit_clocks_seen env (chip_select env (chip h) OUTOVER_HIGH)"
    "drop 4 (hw_config h2) = drop 4 (hw_config ?h1)"
    using exit_xip_clocks_ok [OF _ assms(4,5)] c1 t1(2) by fastforce
  obtain pad h3 where h3: "exit_xip_clocks env pad h2 = Some h3" "idle h3" 
    "pad = ((((sd0 ?h1 AND NOT (PADS_OD_BITS c OR PADS_PUE_BITS c OR PADS_PDE_BITS c))
                  OR PADS_OD_BITS c OR PADS_PDE_BITS c) AND NOT (PADS_PDE_BITS c)) OR PADS_PUE_BITS c)"
    "chip h3 = exit_clocks_seen env (chip h2)" "drop 4 (hw_config h3) = drop 4 (hw_config ?h1)"
    using exit_xip_clocks_ok [OF h2(2) assms(4,5)] h2(4) by fastforce
  let ?up = "(sd0 h AND NOT (PADS_PDE_BITS c)) OR PADS_PUE_BITS c"
  let ?h4 = "flash_cs_force env OUTOVER_LOW (set_pads env (sd0 h) (sd0 h) ?up ?up h3)"
  note s = set_pads_ok [OF h3(2) assms(5), of "sd0 h" "sd0 h" ?up ?up]
  note c4 = cs_force_idle [of "set_pads env (sd0 h) (sd0 h) ?up ?up h3" env OUTOVER_LOW]
  obtain h5 where h5: "flash_put_get env (Some [0xff, 0xff]) False 2 0 ?h4 = Some ([], h5)" "idle h5"
    "hw_config h5 = [sd0 h, sd0 h, ?up, ?up] @ drop 4 (hw_config ?h1)"
    "chip h5 = chip_select env (snd (exchange_all env (chip_select env (chip h3) OUTOVER_LOW) [0xff, 0xff])) OUTOVER_HIGH"
    using put_get_exchange [of ?h4 env "Some [0xff, 0xff]" 2] s c4 assms(4,5) h3(5)
    by (auto simp: tx_fits_def sent_bytes_def)
  note c5 = cs_force_idle [OF h5(2) assms(5), of OUTOVER_NORMAL]
  have "hw_config (flash_cs_force env OUTOVER_NORMAL h5) = [sd0 h, sd0 h, ?up, ?up] @ drop 4 (hw_config ?h1)"
    using h5(3) by simp
  then have cfg: "sd0 (flash_cs_force env OUTOVER_NORMAL h5) = sd0 h" "sd1 (flash_cs_force env OUTOVER_NORMAL h5) = sd0 h"
    "sd2 (flash_cs_force env OUTOVER_NORMAL h5) = ?up" "sd3 (flash_cs_force env OUTOVER_NORMAL h5) = ?up"
    "ssienr (flash_cs_force env OUTOVER_NORMAL h5) = 1" "baudr (flash_cs_force env OUTOVER_NORMAL h5) = 6"
    "ser (flash_cs_force env OUTOVER_NORMAL h5) = 1"
    using i by (auto simp: hw_config_def)
  have "flash_exit_xip c env h = Some (flash_cs_force env OUTOVER_NORMAL h5)"
    using h2(1) h3(1,3) h5(1) sd by (simp add: flash_exit_xip_def Let_def)
  then show ?thesis using c5 cfg h5(4) h3(4) h2(3) by (simp add: Let_def)
qed


text \<open>Values of the constants to instantiate the model with.\<close>

definition example_consts :: ssi_consts where
  "example_consts = \<lparr>SSI_CTRLR0_SPI_FRF_VALUE_STD = 0, SSI_CTRLR0_SPI_FRF_LSB = 21,
     SSI_CTRLR0_DFS_32_LSB = 16, SSI_CTRLR0_TMOD_VALUE_TX_AND_RX = 0,
     SSI_CTRLR0_TMOD_VALUE_EEPROM_READ = 3, SSI_CTRLR0_TMOD_LSB = 8,
     SSI_SPI_CTRLR0_XIP_CMD_LSB = 24, SSI_SPI_CTRLR0_INST_L_LSB = 8, SSI_SPI_CTRLR0_ADDR_L_LSB = 2,
     SSI_SPI_CTRLR0_TRANS_TYPE_VALUE_1C1A = 0, SSI_SPI_CTRLR0_TRANS_TYPE_LSB = 0,
     PADS_OD_BITS = 0x80, PADS_PUE_BITS = 8, PADS_PDE_BITS = 4, PADS_RESET = 0x52, XIP_CTRL_EN_BITS = 1\<rparr>"


subsection \<open>Concrete chips\<close>

text \<open>A chip that logs the bytes and select changes it sees and answers every byte with itself.\<close>

definition log_env :: "(u8 + outover) list spi_env" where
  "log_env = \<lparr>exchange = \<lambda>d b. (b, d @ [Inl b]), chip_select = \<lambda>d over. d @ [Inr over], shifts = \<lambda>n. 1,
     abort_irq = \<lambda>n. False, stack_bytes = \<lambda>n. 0\<rparr>"

lemma log_env_ok: "fair log_env" "quiet log_env"
  by (auto simp: fair_def quiet_def log_env_def)

lemma log_exchange: "exchange_all log_env d bs = (bs, d @ map Inl bs)"
  by (induction bs arbitrary: d) (simp_all add: log_env_def)

lemma log_transaction:
  "transaction log_env d bs = (bs, d @ Inr OUTOVER_LOW # map Inl bs @ [Inr OUTOVER_HIGH])"
  by (simp add: transaction_def log_exchange) (simp add: log_env_def)

lemma idle_hw_ok [simp]: "idle (idle_hw d)" "chip (idle_hw d) = d"
  by (simp_all add: idle_def idle_hw_def)

lemma cmd_addr_examples:
  "cmd_addr 2 0x100 = [2, 0, 1, 0]" "cmd_addr 0x20 0x12000 = [0x20, 1, 0x20, 0]"
  by (simp_all add: cmd_addr_def drop_bit_eq_div)

theorem flash_page_program_correct_witness:
  "\<exists>h'. flash_page_program log_env 0x100 (replicate 256 7) (idle_hw []) = Some h' \<and> idle h' \<and>
    chip h' = ([Inr OUTOVER_LOW, Inl 6, Inr OUTOVER_HIGH,
      Inr OUTOVER_LOW, Inl 2, Inl 0, Inl 1, Inl 0] @ replicate 256 (Inl 7) @ [Inr OUTOVER_HIGH,
      Inr OUTOVER_LOW, Inl 5, Inl 0, Inr OUTOVER_HIGH])"
  using flash_page_program_correct [OF idle_hw_ok(1) [of "[]"] log_env_ok, of "replicate 256 7" _ "0x100" 0]
  by (simp add: log_transaction status_of_def cmd_addr_examples)

theorem flash_user_erase_correct_witness:
  "\<exists>h'. flash_user_erase log_env 0x12000 0x20 (idle_hw []) = Some h' \<and> idle h' \<and>
    chip h' = [Inr OUTOVER_LOW, Inl 6, Inr OUTOVER_HIGH,
      Inr OUTOVER_LOW, Inl 0x20, Inl 1, Inl 0x20, Inl 0, Inr OUTOVER_HIGH,
      Inr OUTOVER_LOW, Inl 5, Inl 0, Inr OUTOVER_HIGH]"
  using flash_user_erase_correct [OF idle_hw_ok(1) [of "[]"] log_env_ok, of _ "0x20" "0x12000" 0]
  by (simp add: log_transaction status_of_def cmd_addr_examples)

theorem flash_read_data_correct_witness:
  "\<exists>h'. flash_read_data log_env 0x100 2 (idle_hw []) = Some (replicate 2 0, h') \<and> idle h'"
  using flash_read_data_correct [OF idle_hw_ok(1) [of "[]"] log_env_ok, of "0x100" 2]
  by (simp add: log_transaction)

theorem flash_range_program_pages_witness:
  "flash_range_program log_env 0x1000 (replicate 512 1) 257 (idle_hw []) =
    run_ops log_env [flash_page_program log_env 0x1000 (replicate 512 1),
      flash_page_program log_env 0x1100 (replicate 256 1)] (idle_hw [])"
  using flash_range_program_pages [of "0x1000" 257 log_env "replicate 512 1" "idle_hw []"]
  by (simp add: upt_rec)

theorem flash_range_erase_tiles_witness:
  "\<exists>es. flash_range_erase log_env 0x1000 0x20000 (push_bit 16 1) 0xd8 (idle_hw []) =
      run_ops log_env (map (\<lambda>(cmd, x, n). flash_user_erase log_env x cmd) es) (idle_hw []) \<and>
    erase_tiles (2 ^ 16) 0xd8 (unat (0x1000 :: u32)) (unat (0x1000 :: u32) + unat (0x20000 :: u32)) es \<and>
    (\<Union>(cmd, x, n) \<in> set es. {unat x..<unat x + n}) =
      {unat (0x1000 :: u32)..<(unat (0x1000 :: u32) + unat (0x20000 :: u32) + 4095) div 4096 * 4096}"
  by (rule flash_range_erase_tiles) simp_all

text \<open>A chip that answers every byte with \<open>0x15\<close>: no SFDP table, and 2 MB by its JEDEC ID.\<close>

definition const_env :: "unit spi_env" where
  "const_env = not_env\<lparr>exchange := \<lambda>d b. (0x15, ())\<rparr>"

lemma const_transaction: "transaction const_env d bs = (replicate (length bs) 0x15, ())"
proof -
  have "exchange_all const_env d bs = (replicate (length bs) 0x15, ())" for d
    by (induction bs arbitrary: d) (simp_all add: const_env_def)
  then show ?thesis by (simp add: transaction_def)
qed

lemma const_env_ok: "fair const_env" "quiet const_env"
  by (auto simp: const_env_def fair_def quiet_def not_env_def)


text \<open>
  Whatever the chip answers, and whether or not the reads are aborted, a size that
  \<open>flash_size_log2\<close> returns is -1 or lies between 8 and 34.
\<close>

theorem flash_size_log2_range:
  assumes "flash_size_log2 env h = Some (r, h')"
  shows "r = - 1 \<or> 8 \<le> r \<and> r \<le> 34"
proof -
  have jedec: "r = - 1 \<or> 8 \<le> r \<and> r \<le> 34" if "flash_size_jedec env buf h1 = Some (r, h')" for buf h1
    using that by (auto simp: flash_size_jedec_def Let_def word_less_def split: bind_splits if_splits)
  have sfdp: "8 \<le> uint (s - 3) \<and> uint (s - 3) \<le> 34" if "\<not> s < 11" "\<not> 37 < s" for s :: u32
  proof -
    have "uint (s - 3) = uint s - 3" using that uint_minus_le [of 3 s] by (simp add: word_le_def word_less_def)
    then show ?thesis using that by (simp add: word_less_def)
  qed
  show ?thesis
    using assms jedec sfdp
    by (auto simp: flash_size_log2_def Let_def split: bind_splits if_splits)
qed

theorem flash_size_log2_range_witness:
  "\<exists>r h'. flash_size_log2 const_env (idle_hw ()) = Some (r, h') \<and> (r = - 1 \<or> 8 \<le> r \<and> r \<le> 34)"
proof -
  obtain h1 where h1: "flash_read_sfdp const_env 0 16 (idle_hw ()) = Some (replicate 16 0x15, h1)" "idle h1"
    using flash_read_sfdp_ok [OF idle_hw_ok(1) const_env_ok, of 0 16]
    by (auto simp: sfdp_answer_def const_transaction)
  obtain r h' where "flash_size_log2 const_env (idle_hw ()) = Some (r, h')"
    using h1(1) flash_size_jedec_ok [OF h1(2) const_env_ok, of "replicate 16 0x15"]
    by (auto simp: flash_size_log2_def buf_store_def bytes_to_u32le_def Let_def)
  then show ?thesis using flash_size_log2_range [of const_env "idle_hw ()" r h'] by blast
qed

end
