(* ===== verification/Async_Task.thy ===== *)
theory Async_Task
  imports Runtime Flash_Program
begin

section \<open>Asynchronous tasks\<close>

text \<open>
  \<open>bootrom/async_task.c\<close>: tasks that interrupt handlers queue and the worker of the boot
  thread executes. The state \<open>async_state\<close> extends the registers of \<open>Runtime\<close> with the byte
  memory, the flash port of \<open>Flash_Port\<close>, the pointer to the table of flash functions (the
  table itself is in memory, so that it can be redirected), the source of the last mutation
  and the two queues. Code the user supplies (an executed address or a redirected flash
  function) is a parameter, as are the completion callbacks and \<open>msc_eject\<close>, which the
  theories above provide. A result of \<open>None\<close> is a call that does not return.
\<close>

subsection \<open>Tasks and queues\<close>

datatype task_callback = No_Callback | Write_uf2_page_complete | Atc_ack | Atc_chunk_task_done

abbreviation (input) AT_EXIT_XIP :: u8 where "AT_EXIT_XIP \<equiv> 0x01"
abbreviation (input) AT_FLASH_ERASE :: u8 where "AT_FLASH_ERASE \<equiv> 0x02"
abbreviation (input) AT_READ :: u8 where "AT_READ \<equiv> 0x04"
abbreviation (input) AT_WRITE :: u8 where "AT_WRITE \<equiv> 0x08"
abbreviation (input) AT_EXCLUSIVE :: u8 where "AT_EXCLUSIVE \<equiv> 0x10"
abbreviation (input) AT_ENTER_CMD_XIP :: u8 where "AT_ENTER_CMD_XIP \<equiv> 0x20"
abbreviation (input) AT_EXEC :: u8 where "AT_EXEC \<equiv> 0x40"
abbreviation (input) AT_VECTORIZE_FLASH :: u8 where "AT_VECTORIZE_FLASH \<equiv> 0x80"

abbreviation (input) FLASH_PAGE_SIZE :: u32 where "FLASH_PAGE_SIZE \<equiv> 256"
abbreviation (input) FLASH_SECTOR_ERASE_SIZE :: u32 where "FLASH_SECTOR_ERASE_SIZE \<equiv> 4096"
abbreviation (input) TASK_SOURCE_VIRTUAL_DISK :: u8 where "TASK_SOURCE_VIRTUAL_DISK \<equiv> 1"
abbreviation (input) TASK_SOURCE_PICOBOOT :: u8 where "TASK_SOURCE_PICOBOOT \<equiv> 2"

record async_task =
  task_token :: u32
  task_result :: u32
  callback :: task_callback
  transfer_addr :: u32
  erase_addr :: u32
  erase_size :: u32
  task_data :: u32 \<comment> \<open>the address of the data buffer\<close>
  data_length :: u32
  picoboot_user_token :: u32
  task_type :: u8
  exclusive_param :: u8
  task_source :: u8
  check_last_mutation_source :: bool

record async_task_queue =
  queued_task :: async_task
  full :: bool
  disable :: bool

datatype queue_id = Virtual_Disk_Queue | Picoboot_Queue

record 'd async_state = runtime_hw +
  mem :: memory
  flash :: "'d flash_hw"
  flash_funcs :: u32
  last_mutation_source :: u8
  virtual_disk_queue :: async_task_queue
  picoboot_queue :: async_task_queue
  worker_task :: async_task

text \<open>What the operations are given: the SDK constants, the flash, the addresses of the linker.\<close>

record 'd boot_env =
  plat :: platform
  ssi :: ssi_consts
  rt :: runtime_consts
  spi :: "'d spi_env"
  default_flash_funcs :: u32 \<comment> \<open>the address of the table in the ROM\<close>
  rom_fn :: "nat \<Rightarrow> u32" \<comment> \<open>the address of the function that the table has in slot \<open>n\<close>\<close>

definition zero_task :: async_task where
  "zero_task = \<lparr>task_token = 0, task_result = 0, callback = No_Callback, transfer_addr = 0,
     erase_addr = 0, erase_size = 0, task_data = 0, data_length = 0, picoboot_user_token = 0,
     task_type = 0, exclusive_param = 0, task_source = 0, check_last_mutation_source = False\<rparr>"

definition reset_task :: "async_task \<Rightarrow> async_task" where
  "reset_task t = zero_task"

definition get_queue :: "queue_id \<Rightarrow> ('d, 'z) async_state_scheme \<Rightarrow> async_task_queue" where
  "get_queue q s = (case q of Virtual_Disk_Queue \<Rightarrow> virtual_disk_queue s | Picoboot_Queue \<Rightarrow> picoboot_queue s)"

definition set_queue ::
    "queue_id \<Rightarrow> async_task_queue \<Rightarrow> ('d, 'z) async_state_scheme \<Rightarrow> ('d, 'z) async_state_scheme" where
  "set_queue q v s =
     (case q of Virtual_Disk_Queue \<Rightarrow> s\<lparr>virtual_disk_queue := v\<rparr> | Picoboot_Queue \<Rightarrow> s\<lparr>picoboot_queue := v\<rparr>)"

definition async_disable_queue ::
    "queue_id \<Rightarrow> bool \<Rightarrow> ('d, 'z) async_state_scheme \<Rightarrow> ('d, 'z) async_state_scheme" where
  "async_disable_queue q b s = set_queue q ((get_queue q s)\<lparr>disable := b\<rparr>) s"

definition reset_queue :: "queue_id \<Rightarrow> ('d, 'z) async_state_scheme \<Rightarrow> ('d, 'z) async_state_scheme" where
  "reset_queue q s = async_disable_queue q False (set_queue q ((get_queue q s)\<lparr>full := False\<rparr>) s)"

definition queue_task ::
    "queue_id \<Rightarrow> async_task \<Rightarrow> task_callback \<Rightarrow> ('d, 'z) async_state_scheme \<Rightarrow>
       async_task \<times> ('d, 'z) async_state_scheme" where
  "queue_task q t cb s =
     (let t' = t\<lparr>callback := cb\<rparr>
      in (t', set_queue q ((get_queue q s)\<lparr>queued_task := t', full := True\<rparr>) s))"

definition dequeue_task ::
    "queue_id \<Rightarrow> ('d, 'z) async_state_scheme \<Rightarrow> async_task option \<times> ('d, 'z) async_state_scheme" where
  "dequeue_task q s =
     (if full (get_queue q s) then
        (Some (queued_task (get_queue q s)), set_queue q ((get_queue q s)\<lparr>full := False\<rparr>) s)
      else (None, s))"

subsection \<open>The flash functions\<close>

text \<open>Slots of the table: word \<open>n\<close> of the structure; word 0 is its size.\<close>

abbreviation (input) "slot_enter_cmd_xip \<equiv> 1 :: nat"
abbreviation (input) "slot_exit_xip \<equiv> 2 :: nat"
abbreviation (input) "slot_erase_sector \<equiv> 3 :: nat"
abbreviation (input) "slot_erase_range \<equiv> 4 :: nat"
abbreviation (input) "slot_page_program \<equiv> 5 :: nat"
abbreviation (input) "slot_page_read \<equiv> 6 :: nat"

definition sizeof_flash_funcs :: u32 where
  "sizeof_flash_funcs = 28"

type_synonym ('d, 'z) user_code =
  "u32 \<Rightarrow> u32 list \<Rightarrow> ('d, 'z) async_state_scheme \<Rightarrow> (u32 \<times> ('d, 'z) async_state_scheme) option"

definition do_flash_enter_cmd_xip ::
    "'d boot_env \<Rightarrow> ('d, 'z) async_state_scheme \<Rightarrow> (u32 \<times> ('d, 'z) async_state_scheme) option" where
  "do_flash_enter_cmd_xip env s = Some (0, s\<lparr>flash := flash_enter_cmd_xip (ssi env) (spi env) (flash s)\<rparr>)"

definition do_flash_exit_xip ::
    "'d boot_env \<Rightarrow> ('d, 'z) async_state_scheme \<Rightarrow> (u32 \<times> ('d, 'z) async_state_scheme) option" where
  "do_flash_exit_xip env s =
     (case flash_exit_xip (ssi env) (spi env) (connect_internal_flash (ssi env) (spi env) (flash s)) of
        None \<Rightarrow> None
      | Some h \<Rightarrow> Some (0, gpio_setup (rt env) (s\<lparr>flash := h\<rparr>)))"

definition do_flash_erase_sector ::
    "'d boot_env \<Rightarrow> u32 \<Rightarrow> ('d, 'z) async_state_scheme \<Rightarrow> (u32 \<times> ('d, 'z) async_state_scheme) option" where
  "do_flash_erase_sector env addr s =
     (case flash_sector_erase (spi env) (addr - XIP_MAIN_BASE (plat env)) (flash s) of
        None \<Rightarrow> None
      | Some h \<Rightarrow> Some (0, s\<lparr>flash := h\<rparr>))"

definition do_flash_page_program ::
    "'d boot_env \<Rightarrow> u32 \<Rightarrow> u32 \<Rightarrow> ('d, 'z) async_state_scheme \<Rightarrow>
       (u32 \<times> ('d, 'z) async_state_scheme) option" where
  "do_flash_page_program env addr dat s =
     (case flash_page_program (spi env) (addr - XIP_MAIN_BASE (plat env)) (mem_read (mem s) dat 256) (flash s) of
        None \<Rightarrow> None
      | Some h \<Rightarrow> Some (0, s\<lparr>flash := h\<rparr>))"

definition do_flash_page_read ::
    "'d boot_env \<Rightarrow> u32 \<Rightarrow> u32 \<Rightarrow> ('d, 'z) async_state_scheme \<Rightarrow>
       (u32 \<times> ('d, 'z) async_state_scheme) option" where
  "do_flash_page_read env addr dat s =
     (case flash_read_data (spi env) (addr - XIP_MAIN_BASE (plat env)) 256 (flash s) of
        None \<Rightarrow> None
      | Some (bs, h) \<Rightarrow> Some (0, s\<lparr>flash := h, mem := mem_write (mem s) dat bs\<rparr>))"

text \<open>
  A call through the table: the ROM's own function if the slot holds its address, else code of
  the user at the address in the slot.
\<close>

definition via_table ::
    "'d boot_env \<Rightarrow> ('d, 'z) user_code \<Rightarrow> nat \<Rightarrow> u32 list \<Rightarrow>
       (('d, 'z) async_state_scheme \<Rightarrow> (u32 \<times> ('d, 'z) async_state_scheme) option) \<Rightarrow>
       ('d, 'z) async_state_scheme \<Rightarrow> (u32 \<times> ('d, 'z) async_state_scheme) option" where
  "via_table env user slot args f s =
     (let p = rd32 (mem s) (flash_funcs s + 4 * word_of_nat slot)
      in if p = rom_fn env slot then f s else user p args s)"

partial_function (option) erase_range_loop ::
    "'d boot_env \<Rightarrow> ('d, 'z) user_code \<Rightarrow> u32 \<Rightarrow> u32 \<Rightarrow> u32 \<Rightarrow> ('d, 'z) async_state_scheme \<Rightarrow>
       (u32 \<times> ('d, 'z) async_state_scheme) option" where
  "erase_range_loop env user addr goal ret s =
     (if addr < goal \<and> ret = 0 then
        (case via_table env user slot_erase_sector [addr] (do_flash_erase_sector env addr) s of
           None \<Rightarrow> None
         | Some (ret', s') \<Rightarrow> erase_range_loop env user (addr + FLASH_SECTOR_ERASE_SIZE) goal ret' s')
      else Some (ret, s))"

definition do_flash_erase_range ::
    "'d boot_env \<Rightarrow> ('d, 'z) user_code \<Rightarrow> u32 \<Rightarrow> u32 \<Rightarrow> ('d, 'z) async_state_scheme \<Rightarrow>
       (u32 \<times> ('d, 'z) async_state_scheme) option" where
  "do_flash_erase_range env user addr len s =
     erase_range_loop env user addr (addr + len) (PICOBOOT_OK (plat env)) s"

text \<open>The bytes of the table in the ROM.\<close>

definition default_table :: "'d boot_env \<Rightarrow> u8 list" where
  "default_table env = le32 sizeof_flash_funcs @ concat (map (\<lambda>n. le32 (rom_fn env n)) [1..<7])"

subsection \<open>Execution of a task\<close>

definition flash_bitmaps_size :: "platform \<Rightarrow> u32" where
  "flash_bitmaps_size p = XIP_SRAM_END p - XIP_SRAM_BASE p"

definition is_address_safe_for_vectoring :: "platform \<Rightarrow> u32 \<Rightarrow> bool" where
  "is_address_safe_for_vectoring p addr \<longleftrightarrow>
     is_address_ram p addr \<and> (addr < XIP_SRAM_BASE p \<or> XIP_SRAM_BASE p + flash_bitmaps_size p < addr)"

text \<open>
  A part of the function: \<open>Some (Some code, s)\<close> is an early return with a code,
  \<open>Some (None, s)\<close> goes on, \<open>None\<close> does not return.
\<close>

type_synonym 's phase = "'s \<Rightarrow> (u32 option \<times> 's) option"

definition and_then :: "'s phase \<Rightarrow> 's phase \<Rightarrow> 's phase" where
  "and_then f g s =
     (case f s of
        None \<Rightarrow> None
      | Some (Some code, s') \<Rightarrow> Some (Some code, s')
      | Some (None, s') \<Rightarrow> g s')"

definition check_ret :: "(u32 \<times> 's) option \<Rightarrow> (u32 option \<times> 's) option" where
  "check_ret r = map_option (\<lambda>(ret, s). (if ret \<noteq> 0 then Some ret else None, s)) r"

definition vectorize_phase :: "'d boot_env \<Rightarrow> async_task \<Rightarrow> ('d, 'z) async_state_scheme phase" where
  "vectorize_phase env t s =
     (if task_type t AND AT_VECTORIZE_FLASH \<noteq> 0 then
        if transfer_addr t AND 1 \<noteq> 0 then Some (Some (PICOBOOT_BAD_ALIGNMENT (plat env)), s)
        else if is_address_safe_for_vectoring (plat env) (transfer_addr t) \<and>
                is_address_safe_for_vectoring (plat env) (transfer_addr t + sizeof_flash_funcs) then
          Some (None, s\<lparr>mem := mem_write (mem s) (transfer_addr t) (default_table env),
                        flash_funcs := transfer_addr t\<rparr>)
        else Some (Some (PICOBOOT_INVALID_ADDRESS (plat env)), s)
      else Some (None, s))"

definition exclusive_phase ::
    "'d boot_env \<Rightarrow> (('d, 'z) async_state_scheme \<Rightarrow> ('d, 'z) async_state_scheme) \<Rightarrow> async_task \<Rightarrow>
       ('d, 'z) async_state_scheme phase" where
  "exclusive_phase env msc_eject t s =
     (if task_type t AND AT_EXCLUSIVE \<noteq> 0 then
        (let s' = async_disable_queue Virtual_Disk_Queue (exclusive_param t \<noteq> 0) s
         in Some (None, if exclusive_param t = EXCLUSIVE_AND_EJECT (plat env) then msc_eject s' else s'))
      else Some (None, s))"

definition exit_xip_phase ::
    "'d boot_env \<Rightarrow> ('d, 'z) user_code \<Rightarrow> async_task \<Rightarrow> ('d, 'z) async_state_scheme phase" where
  "exit_xip_phase env user t s =
     (if task_type t AND AT_EXIT_XIP \<noteq> 0 then
        check_ret (via_table env user slot_exit_xip [] (do_flash_exit_xip env) s)
      else Some (None, s))"

definition exec_phase :: "('d, 'z) user_code \<Rightarrow> async_task \<Rightarrow> ('d, 'z) async_state_scheme phase" where
  "exec_phase user t s =
     (if task_type t AND AT_EXEC \<noteq> 0 then
        map_option (\<lambda>(_, s'). (None, s')) (user (transfer_addr t OR 1) [] s)
      else Some (None, s))"

definition mutation_phase :: "'d boot_env \<Rightarrow> async_task \<Rightarrow> ('d, 'z) async_state_scheme phase" where
  "mutation_phase env t s =
     (if task_type t AND (AT_WRITE OR AT_FLASH_ERASE) \<noteq> 0 then
        if check_last_mutation_source t \<and> last_mutation_source s \<noteq> task_source t then
          Some (Some (PICOBOOT_INTERLEAVED_WRITE (plat env)), s)
        else Some (None, s\<lparr>last_mutation_source := task_source t\<rparr>)
      else Some (None, s))"

definition erase_phase ::
    "'d boot_env \<Rightarrow> ('d, 'z) user_code \<Rightarrow> async_task \<Rightarrow> ('d, 'z) async_state_scheme phase" where
  "erase_phase env user t s =
     (if task_type t AND AT_FLASH_ERASE \<noteq> 0 then
        if erase_addr t AND (FLASH_SECTOR_ERASE_SIZE - 1) \<noteq> 0 then
          Some (Some (PICOBOOT_BAD_ALIGNMENT (plat env)), s)
        else if erase_size t AND (FLASH_SECTOR_ERASE_SIZE - 1) \<noteq> 0 then
          Some (Some (PICOBOOT_BAD_ALIGNMENT (plat env)), s)
        else if \<not> (is_address_flash (plat env) (erase_addr t) \<and>
                   is_address_flash (plat env) (erase_addr t + erase_size t)) then
          Some (Some (PICOBOOT_INVALID_ADDRESS (plat env)), s)
        else
          check_ret (via_table env user slot_erase_range [erase_addr t, erase_size t]
            (do_flash_erase_range env user (erase_addr t) (erase_size t)) s)
      else Some (None, s))"

text \<open>\<open>Some direct_access\<close> if the addresses are accepted.\<close>

definition access_check :: "'d boot_env \<Rightarrow> async_task \<Rightarrow> u32 + bool" where
  "access_check env t =
     (let a = transfer_addr t; e = transfer_addr t + data_length t
      in if is_address_ram (plat env) a \<and> is_address_ram (plat env) e \<or>
            task_type t AND AT_WRITE = 0 \<and> is_address_rom a \<and> is_address_rom e then Inr True
         else if is_address_flash (plat env) a \<and> is_address_flash (plat env) e then
           if a AND (FLASH_PAGE_SIZE - 1) \<noteq> 0 then Inl (PICOBOOT_BAD_ALIGNMENT (plat env)) else Inr False
         else Inl (PICOBOOT_INVALID_ADDRESS (plat env)))"

definition write_phase ::
    "'d boot_env \<Rightarrow> ('d, 'z) user_code \<Rightarrow> bool \<Rightarrow> async_task \<Rightarrow> ('d, 'z) async_state_scheme phase" where
  "write_phase env user direct t s =
     (if task_type t AND AT_WRITE \<noteq> 0 then
        if direct then
          (let ff = flash_funcs s;
               s1 = (if max ff (transfer_addr t) < min (ff + sizeof_flash_funcs) (transfer_addr t + data_length t)
                     then s\<lparr>flash_funcs := default_flash_funcs env\<rparr> else s)
           in Some (None, s1\<lparr>mem := mem_write (mem s1) (transfer_addr t)
                               (mem_read (mem s1) (task_data t) (unat (data_length t)))\<rparr>))
        else
          check_ret (via_table env user slot_page_program [transfer_addr t, task_data t]
            (do_flash_page_program env (transfer_addr t) (task_data t)) s)
      else Some (None, s))"

definition read_phase ::
    "'d boot_env \<Rightarrow> ('d, 'z) user_code \<Rightarrow> bool \<Rightarrow> async_task \<Rightarrow> ('d, 'z) async_state_scheme phase" where
  "read_phase env user direct t s =
     (if task_type t AND AT_READ \<noteq> 0 then
        if direct then
          Some (None, s\<lparr>mem := mem_write (mem s) (task_data t)
                           (mem_read (mem s) (transfer_addr t) (unat (data_length t)))\<rparr>)
        else
          check_ret (via_table env user slot_page_read [transfer_addr t, task_data t]
            (do_flash_page_read env (transfer_addr t) (task_data t)) s)
      else Some (None, s))"

definition enter_xip_phase ::
    "'d boot_env \<Rightarrow> ('d, 'z) user_code \<Rightarrow> async_task \<Rightarrow> ('d, 'z) async_state_scheme phase" where
  "enter_xip_phase env user t s =
     (if task_type t AND AT_ENTER_CMD_XIP \<noteq> 0 then
        check_ret (via_table env user slot_enter_cmd_xip [] (do_flash_enter_cmd_xip env) s)
      else Some (None, s))"

definition transfer_phase ::
    "'d boot_env \<Rightarrow> ('d, 'z) user_code \<Rightarrow> async_task \<Rightarrow> ('d, 'z) async_state_scheme phase" where
  "transfer_phase env user t s =
     (if task_type t AND (AT_WRITE OR AT_READ) \<noteq> 0 then
        (case access_check env t of
           Inl code \<Rightarrow> Some (Some code, s)
         | Inr direct \<Rightarrow>
             and_then (write_phase env user direct t)
               (and_then (read_phase env user direct t) (enter_xip_phase env user t)) s)
      else Some (None, s))"

definition execute_task_body ::
    "'d boot_env \<Rightarrow> ('d, 'z) user_code \<Rightarrow> (('d, 'z) async_state_scheme \<Rightarrow> ('d, 'z) async_state_scheme) \<Rightarrow>
       async_task \<Rightarrow> ('d, 'z) async_state_scheme \<Rightarrow> (u32 \<times> ('d, 'z) async_state_scheme) option" where
  "execute_task_body env user msc_eject t s =
     (if watchdog_rebooting s then Some (PICOBOOT_REBOOTING (plat env), s)
      else
        map_option (\<lambda>(code, s'). (case code of None \<Rightarrow> PICOBOOT_OK (plat env) | Some c \<Rightarrow> c, s'))
          (and_then (vectorize_phase env t) (and_then (exclusive_phase env msc_eject t)
            (and_then (exit_xip_phase env user t) (and_then (exec_phase user t)
              (and_then (mutation_phase env t) (and_then (erase_phase env user t)
                (transfer_phase env user t)))))) s))"

definition execute_task ::
    "'d boot_env \<Rightarrow> ('d, 'z) user_code \<Rightarrow> (('d, 'z) async_state_scheme \<Rightarrow> ('d, 'z) async_state_scheme) \<Rightarrow>
       (async_task \<Rightarrow> ('d, 'z) async_state_scheme \<Rightarrow> ('d, 'z) async_state_scheme option) \<Rightarrow>
       queue_id \<Rightarrow> async_task \<Rightarrow> ('d, 'z) async_state_scheme \<Rightarrow> ('d, 'z) async_state_scheme option" where
  "execute_task env user msc_eject call_task_complete q t s =
     (if disable (get_queue q s) then
        (let t' = t\<lparr>task_result := 1\<rparr> in call_task_complete t' (s\<lparr>worker_task := t'\<rparr>))
      else
        (case execute_task_body env user msc_eject t s of
           None \<Rightarrow> None
         | Some (code, s') \<Rightarrow>
             let t' = t\<lparr>task_result := code\<rparr> in call_task_complete t' (s'\<lparr>worker_task := t'\<rparr>)))"

text \<open>One round of \<open>async_task_worker\<close>; the boolean says that a task was found.\<close>

definition worker_round ::
    "'d boot_env \<Rightarrow> ('d, 'z) user_code \<Rightarrow> (('d, 'z) async_state_scheme \<Rightarrow> ('d, 'z) async_state_scheme) \<Rightarrow>
       (async_task \<Rightarrow> ('d, 'z) async_state_scheme \<Rightarrow> ('d, 'z) async_state_scheme option) \<Rightarrow>
       ('d, 'z) async_state_scheme \<Rightarrow> (bool \<times> ('d, 'z) async_state_scheme) option" where
  "worker_round env user msc_eject call_task_complete s =
     (case dequeue_task Virtual_Disk_Queue s of
        (Some t, s1) \<Rightarrow>
          map_option (\<lambda>s2. (True, s2))
            (execute_task env user msc_eject call_task_complete Virtual_Disk_Queue t (s1\<lparr>worker_task := t\<rparr>))
      | (None, s1) \<Rightarrow>
          (case dequeue_task Picoboot_Queue s1 of
             (Some t, s2) \<Rightarrow>
               map_option (\<lambda>s3. (True, s3))
                 (execute_task env user msc_eject call_task_complete Picoboot_Queue t (s2\<lparr>worker_task := t\<rparr>))
           | (None, s2) \<Rightarrow> Some (False, s2)))"

definition worker_start :: "'d boot_env \<Rightarrow> ('d, 'z) async_state_scheme \<Rightarrow> ('d, 'z) async_state_scheme" where
  "worker_start env s = s\<lparr>flash_funcs := default_flash_funcs env\<rparr>"

subsection \<open>Queues\<close>

lemma get_set_queue [simp]:
  "get_queue q (set_queue q v s) = v" "q \<noteq> q' \<Longrightarrow> get_queue q (set_queue q' v s) = get_queue q s"
  by (cases q; simp add: get_queue_def set_queue_def)
    (cases q; cases q'; simp add: get_queue_def set_queue_def)

text \<open>
  A queue holds one task: what \<open>queue_task\<close> puts in, \<open>dequeue_task\<close> takes out, with the
  callback it was queued with, replacing a task that was still waiting; the queue is then
  empty, and neither the other queue nor the disable flag is touched.
\<close>

lemma queue_dequeue:
  "(let (t', s1) = queue_task q t cb s; (r, s2) = dequeue_task q s1
    in t' = t\<lparr>callback := cb\<rparr> \<and> r = Some t' \<and> fst (dequeue_task q s2) = None \<and>
       disable (get_queue q s2) = disable (get_queue q s) \<and>
       (\<forall>q'. q' \<noteq> q \<longrightarrow> get_queue q' s2 = get_queue q' s))"
  by (auto simp: queue_task_def dequeue_task_def Let_def)

text \<open>
  A task of a disabled queue is completed with result 1 and nothing else happens.
\<close>

lemma execute_task_disabled:
  assumes "disable (get_queue q s)"
  shows "execute_task env user msc_eject call_task_complete q t s =
    call_task_complete (t\<lparr>task_result := 1\<rparr>) (s\<lparr>worker_task := t\<lparr>task_result := 1\<rparr>\<rparr>)"
  using assms by (simp add: execute_task_def Let_def)

subsection \<open>Phases\<close>

named_theorems phases \<open>definitions of the phases\<close>

lemmas [phases] = vectorize_phase_def exclusive_phase_def exit_xip_phase_def exec_phase_def
  mutation_phase_def erase_phase_def transfer_phase_def

lemma and_then_continue [simp]: "f s = Some (None, s') \<Longrightarrow> and_then f g s = g s'"
  by (simp add: and_then_def)

lemma and_then_return [simp]: "f s = Some (Some code, s') \<Longrightarrow> and_then f g s = Some (Some code, s')"
  by (simp add: and_then_def)

lemma and_then_cases:
  assumes "and_then f g s = Some (r, s')"
  obtains (return) code where "f s = Some (Some code, s')" "r = Some code"
  | (continue) s1 where "f s = Some (None, s1)" "g s1 = Some (r, s')"
  using assms by (auto simp: and_then_def split: option.splits prod.splits)

text \<open>A task with a bit clear skips its phase.\<close>

lemma phase_skip:
  "task_type t AND 0x80 = 0 \<Longrightarrow> vectorize_phase env t s = Some (None, s)"
  "task_type t AND 0x10 = 0 \<Longrightarrow> exclusive_phase env msc_eject t s = Some (None, s)"
  "task_type t AND 0x01 = 0 \<Longrightarrow> exit_xip_phase env user t s = Some (None, s)"
  "task_type t AND 0x40 = 0 \<Longrightarrow> exec_phase user t s = Some (None, s)"
  "task_type t AND 0x0a = 0 \<Longrightarrow> mutation_phase env t s = Some (None, s)"
  "task_type t AND 0x02 = 0 \<Longrightarrow> erase_phase env user t s = Some (None, s)"
  "task_type t AND 0x0c = 0 \<Longrightarrow> transfer_phase env user t s = Some (None, s)"
  by (simp_all add: phases)

lemma and_then_skip: "(\<And>s. f s = Some (None, s)) \<Longrightarrow> and_then f g = g"
  by (rule ext) simp

text \<open>
  C35. A write or erase that must not be interleaved, coming from another source than the last
  one, is refused without any effect.
\<close>

theorem interleaved_write_refused:
  assumes "\<not> watchdog_rebooting s" "task_type t AND 0xd1 = 0" "task_type t AND (AT_WRITE OR AT_FLASH_ERASE) \<noteq> 0"
    and "check_last_mutation_source t" "last_mutation_source s \<noteq> task_source t"
  shows "execute_task_body env user msc_eject t s = Some (PICOBOOT_INTERLEAVED_WRITE (plat env), s)"
proof -
  have "x AND 0xd1 = 0 \<Longrightarrow> x AND 0x80 = 0 \<and> x AND 0x10 = 0 \<and> x AND 0x01 = 0 \<and> x AND 0x40 = 0" for x :: u8
    by (intro conjI; erule and_zero_sub; simp)
  then show ?thesis
    using assms by (simp add: execute_task_body_def phase_skip mutation_phase_def)
qed

text \<open>
  The command that picoboot maps to \<open>AT_ENTER_CMD_XIP\<close> alone has no effect: the phase
  that enters XIP mode is only reached by a task that also reads or writes.
\<close>

theorem enter_cmd_xip_task_no_effect:
  assumes "task_type t = AT_ENTER_CMD_XIP" "\<not> watchdog_rebooting s"
  shows "execute_task_body env user msc_eject t s = Some (PICOBOOT_OK (plat env), s)"
  using assms by (simp add: execute_task_body_def phase_skip)

subsection \<open>Writes stay inside the transfer range\<close>

text \<open>The table is the ROM's own.\<close>

definition uses_rom_table :: "'d boot_env \<Rightarrow> ('d, 'z) async_state_scheme \<Rightarrow> bool" where
  "uses_rom_table env s \<longleftrightarrow>
     (\<forall>slot \<in> {1..6}. rd32 (mem s) (flash_funcs s + 4 * word_of_nat slot) = rom_fn env slot)"

lemma via_rom_table:
  "uses_rom_table env s \<Longrightarrow> 1 \<le> slot \<Longrightarrow> slot \<le> 6 \<Longrightarrow> via_table env user slot args f s = f s"
  by (simp add: uses_rom_table_def via_table_def)

text \<open>A phase that keeps the memory and the table pointer.\<close>

definition keeps_mem :: "('d, 'z) async_state_scheme \<Rightarrow> ('d, 'z) async_state_scheme \<Rightarrow> bool" where
  "keeps_mem s s' \<longleftrightarrow> mem s' = mem s \<and> flash_funcs s' = flash_funcs s"

lemma keeps_mem_trans: "keeps_mem s1 s2 \<Longrightarrow> keeps_mem s2 s3 \<Longrightarrow> keeps_mem s1 s3"
  by (simp add: keeps_mem_def)

lemma keeps_mem_table: "keeps_mem s s' \<Longrightarrow> uses_rom_table env s' = uses_rom_table env s"
  by (simp add: keeps_mem_def uses_rom_table_def)

lemma gpio_setup_keeps [simp]:
  "mem (gpio_setup c s) = mem s" "flash_funcs (gpio_setup c s) = flash_funcs s"
  "flash (gpio_setup c s) = flash s"
  for s :: "('d, 'z) async_state_scheme"
  by (simp_all add: gpio_setup_def gpio_funcsel_def)

lemma exit_xip_keeps_mem:
  assumes "exit_xip_phase env user t s = Some (r, s')" "uses_rom_table env s"
  shows "keeps_mem s s' \<and> r = None"
  using assms by (auto simp: exit_xip_phase_def via_rom_table do_flash_exit_xip_def check_ret_def keeps_mem_def
      split: if_splits option.splits)

lemma erase_range_loop_keeps_mem:
  assumes "erase_range_loop env user addr goal ret s = Some (r, s')" "uses_rom_table env s"
  shows "keeps_mem s s' \<and> (ret = 0 \<longrightarrow> r = 0)"
proof -
  let ?Q = "\<lambda>env (user :: ('d, 'e) user_code) (addr :: u32) (goal :: u32) ret s (r, s').
    uses_rom_table env s \<longrightarrow> keeps_mem s s' \<and> (ret = 0 \<longrightarrow> r = 0)"
  have "?Q env user addr goal ret s (r, s')"
  proof (rule erase_range_loop.raw_induct [where P = ?Q, OF _ assms(1)])
    fix f :: "'d boot_env \<Rightarrow> ('d, 'e) user_code \<Rightarrow> u32 \<Rightarrow> u32 \<Rightarrow> u32 \<Rightarrow> ('d, 'e) async_state_scheme \<Rightarrow>
       (u32 \<times> ('d, 'e) async_state_scheme) option"
      and env and user :: "('d, 'e) user_code" and addr goal ret s z
    assume IH: "\<And>env user addr goal ret s z. f env user addr goal ret s = Some z \<Longrightarrow> ?Q env user addr goal ret s z"
      and eq: "(if addr < goal \<and> ret = 0 then
        (case via_table env user slot_erase_sector [addr] (do_flash_erase_sector env addr) s of
           None \<Rightarrow> None
         | Some (ret', s') \<Rightarrow> f env user (addr + FLASH_SECTOR_ERASE_SIZE) goal ret' s')
      else Some (ret, s)) = Some z"
    show "?Q env user addr goal ret s z"
    proof (cases "addr < goal \<and> ret = 0")
      case False
      then show ?thesis using eq by (auto simp: keeps_mem_def)
    next
      case True
      show ?thesis
      proof (clarify, goal_cases)
        case (1 r s')
        then obtain h where h: "flash_sector_erase (spi env) (addr - XIP_MAIN_BASE (plat env)) (flash s) = Some h"
          "f env user (addr + 0x1000) goal 0 (s\<lparr>flash := h\<rparr>) = Some (r, s')"
          using eq True 1 by (auto simp: via_rom_table do_flash_erase_sector_def split: option.splits)
        have "uses_rom_table env (s\<lparr>flash := h\<rparr>)" using 1 by (simp add: uses_rom_table_def)
        then show ?case using IH [OF h(2)] True by (auto simp: keeps_mem_def)
      qed
    qed
  qed
  then show ?thesis using assms(2) by simp
qed

lemma erase_phase_keeps_mem:
  assumes "erase_phase env user t s = Some (r, s')" "uses_rom_table env s"
  shows "keeps_mem s s'"
  using assms
  by (auto simp: erase_phase_def via_rom_table do_flash_erase_range_def check_ret_def
      dest: erase_range_loop_keeps_mem split: if_splits) (auto simp: keeps_mem_def)

lemma mutation_phase_keeps_mem:
  "mutation_phase env t s = Some (r, s') \<Longrightarrow> keeps_mem s s'"
  by (auto simp: mutation_phase_def keeps_mem_def split: if_splits)

text \<open>What a task that only writes changes in memory.\<close>

lemma transfer_phase_write:
  assumes "transfer_phase env user t s = Some (r, s')" "uses_rom_table env s"
    and "task_type t AND AT_READ = 0" "task_type t AND AT_ENTER_CMD_XIP = 0"
  shows "mem s' = mem s \<or>
    is_address_ram (plat env) (transfer_addr t) \<and> is_address_ram (plat env) (transfer_addr t + data_length t) \<and>
    r = None \<and> mem s' = mem_write (mem s) (transfer_addr t) (mem_read (mem s) (task_data t) (unat (data_length t)))"
proof -
  have noread: "read_phase env user direct t k = Some (None, k)" "enter_xip_phase env user t k = Some (None, k)"
    for direct and k :: "('a, 'b) async_state_scheme"
    using assms(3,4) by (simp_all add: read_phase_def enter_xip_phase_def)
  show ?thesis
    using assms(1,2)
    by (auto simp: transfer_phase_def write_phase_def access_check_def via_rom_table do_flash_page_program_def
        check_ret_def Let_def and_then_def noread split: if_splits sum.splits option.splits)
qed

text \<open>
  C25. With the ROM's flash functions, a task that writes (after an XIP exit or an erase, if it
  asks for them) changes memory only inside its transfer range, and only if both ends of the
  range are RAM addresses and it then reports success.
\<close>

theorem write_task_memory:
  assumes "uses_rom_table env s" "task_type t AND 0xf4 = 0"
    and "execute_task_body env user msc_eject t s = Some (code, s')" "mem s' x \<noteq> mem s x"
  shows "unat (x - transfer_addr t) < unat (data_length t) \<and> code = PICOBOOT_OK (plat env) \<and>
    is_address_ram (plat env) (transfer_addr t) \<and> is_address_ram (plat env) (transfer_addr t + data_length t)"
proof -
  have bits: "task_type t AND 0x80 = 0" "task_type t AND 0x10 = 0" "task_type t AND 0x40 = 0"
    "task_type t AND 0x04 = 0" "task_type t AND 0x20 = 0"
    by (rule and_zero_sub [OF assms(2)]; simp)+
  have "\<not> watchdog_rebooting s" using assms(3,4) by (auto simp: execute_task_body_def)
  then obtain r where r: "code = (case r of None \<Rightarrow> PICOBOOT_OK (plat env) | Some c \<Rightarrow> c)"
    "and_then (exit_xip_phase env user t) (and_then (mutation_phase env t)
       (and_then (erase_phase env user t) (transfer_phase env user t))) s = Some (r, s')"
    using assms(3) bits by (auto simp: execute_task_body_def and_then_skip [OF phase_skip(1)]
        and_then_skip [OF phase_skip(2)] and_then_skip [OF phase_skip(4)])
  from r(2) obtain s1 where 1: "keeps_mem s s1"
    "s' = s1 \<or> and_then (mutation_phase env t) (and_then (erase_phase env user t) (transfer_phase env user t)) s1 = Some (r, s')"
    by (cases rule: and_then_cases) (use exit_xip_keeps_mem [OF _ assms(1)] in blast)+
  have nk: "\<not> keeps_mem s s'" using assms(4) by (auto simp: keeps_mem_def)
  then have "s' \<noteq> s1" using 1(1) by blast
  then obtain s2 where 2: "keeps_mem s s2" "and_then (erase_phase env user t) (transfer_phase env user t) s2 = Some (r, s')"
    using 1 nk mutation_phase_keeps_mem keeps_mem_trans by (blast elim: and_then_cases)
  then obtain s3 where 3: "keeps_mem s s3" "transfer_phase env user t s3 = Some (r, s')"
    using nk erase_phase_keeps_mem keeps_mem_table [OF 2(1), of env] assms(1) keeps_mem_trans
    by (blast elim: and_then_cases)
  have "uses_rom_table env s3" using keeps_mem_table [OF 3(1)] assms(1) by blast
  note w = transfer_phase_write [OF 3(2) this bits(4,5)]
  have "\<not> unat (x - transfer_addr t) < unat (data_length t) \<longrightarrow>
      mem_write (mem s3) (transfer_addr t) (mem_read (mem s3) (task_data t) (unat (data_length t))) x = mem s3 x"
    by (intro impI mem_write_other) simp_all
  then show ?thesis using w 3(1) assms(4) r(1) by (auto simp: keeps_mem_def)
qed

text \<open>
  A write of at most a page to RAM never leaves the flash functions pointing at a table it
  has overwritten: afterwards they are the ROM's, or the table in use has the bytes it had.
\<close>

theorem ram_write_keeps_table:
  assumes "rp2040_map (plat env)" "unat (data_length t) \<le> 256" "unat (flash_funcs s) + 28 < 2 ^ 32"
    and "is_address_ram (plat env) (transfer_addr t)"
    and "write_phase env user True t s = Some (r, s')"
  shows "flash_funcs s' = default_flash_funcs env \<or>
    flash_funcs s' = flash_funcs s \<and> mem_read (mem s') (flash_funcs s') 28 = mem_read (mem s) (flash_funcs s) 28"
proof (cases "task_type t AND AT_WRITE = 0 \<or> data_length t = 0")
  case True
  then show ?thesis using assms(5) by (auto simp: write_phase_def Let_def split: if_splits)
next
  case False
  let ?ff = "flash_funcs s" and ?ta = "transfer_addr t" and ?len = "data_length t"
  let ?bs = "mem_read (mem s) (task_data t) (unat ?len)"
  have ta: "unat ?ta \<le> 0x20042000"
    using assms(1,4) by (auto simp: rp2040_map_def is_address_ram_def word_le_nat_alt)
  then have e: "unat (?ta + ?len) = unat ?ta + unat ?len" using assms(2) by (intro unat_plus_noof) simp
  have f: "unat (?ff + 28) = unat ?ff + 28" using assms(3) by (subst unat_plus_noof) simp_all
  have len: "0 < unat ?len" using False by (metis gr0I unat_eq_zero)
  show ?thesis
  proof (cases "max ?ff ?ta < min (?ff + 28) (?ta + ?len)")
    case True
    then show ?thesis using assms(5) False by (auto simp: write_phase_def sizeof_flash_funcs_def Let_def)
  next
    case ov: False
    then have out: "unat ?ff + 28 \<le> unat ?ta \<or> unat ?ta + unat ?len \<le> unat ?ff"
      using e f len by (auto simp: word_less_nat_alt max_def min_def word_le_nat_alt split: if_splits)
    have "mem_read (mem_write (mem s) ?ta ?bs) ?ff 28 = mem_read (mem s) ?ff 28"
    proof (rule mem_read_write_other)
      have "unat (?ff - ?ta) = (if unat ?ta \<le> unat ?ff then unat ?ff - unat ?ta else 2 ^ 32 + unat ?ff - unat ?ta)"
        using unat_sub_if' [of ?ff ?ta] by auto
      then show "length ?bs \<le> unat (?ff - ?ta)" "unat (?ff - ?ta) + 28 \<le> 2 ^ 32"
        using out ta assms(2,3) by (auto split: if_splits)
    qed (use assms(2) in simp)
    then show ?thesis using assms(5) False ov by (auto simp: write_phase_def sizeof_flash_funcs_def Let_def)
  qed
qed

subsection \<open>The table of flash functions\<close>

lemma default_table_unfold:
  "default_table env = le32 28 @ le32 (rom_fn env 1) @ le32 (rom_fn env 2) @ le32 (rom_fn env 3) @
     le32 (rom_fn env 4) @ le32 (rom_fn env 5) @ le32 (rom_fn env 6)"
  by (simp add: default_table_def sizeof_flash_funcs_def upt_rec numeral_eq_Suc)

lemma mem_read_table: "mem_read m a 28 = mem_read m a 4 @ mem_read m (a + 4) 4 @ mem_read m (a + 8) 4 @
  mem_read m (a + 12) 4 @ mem_read m (a + 16) 4 @ mem_read m (a + 20) 4 @ mem_read m (a + 24) 4"
  using mem_read_append [of m a 4 24] mem_read_append [of m "a + 4" 4 20] mem_read_append [of m "a + 8" 4 16]
    mem_read_append [of m "a + 12" 4 12] mem_read_append [of m "a + 16" 4 8] mem_read_append [of m "a + 20" 4 4]
  by (simp add: ac_simps)

lemma table_in_memory:
  assumes "mem_read (mem s) (flash_funcs s) 28 = default_table env"
  shows "uses_rom_table env s"
proof -
  let ?r = "\<lambda>n. mem_read (mem s) (flash_funcs s + n) 4"
  have eq: "?r 4 = le32 (rom_fn env 1)" "?r 8 = le32 (rom_fn env 2)" "?r 12 = le32 (rom_fn env 3)"
    "?r 16 = le32 (rom_fn env 4)" "?r 20 = le32 (rom_fn env 5)" "?r 24 = le32 (rom_fn env 6)"
    using assms unfolding mem_read_table default_table_unfold by simp_all
  have "{1..6} = {1, 2, 3, 4, 5, 6 :: nat}" by auto
  then show ?thesis
    using eq [THEN rd32_le32] by (simp add: uses_rom_table_def)
qed

text \<open>
  A task that vectorises the flash functions is accepted exactly for an even address with
  the whole table in RAM outside the flash bitmaps; the table is then in RAM and still calls
  the ROM's functions.
\<close>

theorem vectorize_installs_rom_table:
  assumes "task_type t = AT_VECTORIZE_FLASH" "\<not> watchdog_rebooting s" "rp2040_map (plat env)"
    and "execute_task_body env user msc_eject t s = Some (code, s')"
  shows "(code = PICOBOOT_OK (plat env) \<longleftrightarrow>
      transfer_addr t AND 1 = 0 \<and> is_address_safe_for_vectoring (plat env) (transfer_addr t) \<and>
      is_address_safe_for_vectoring (plat env) (transfer_addr t + 28)) \<and>
    (code = PICOBOOT_OK (plat env) \<longrightarrow> flash_funcs s' = transfer_addr t \<and> uses_rom_table env s') \<and>
    (code \<noteq> PICOBOOT_OK (plat env) \<longrightarrow> s' = s)"
proof -
  have "uses_rom_table env (s\<lparr>mem := mem_write (mem s) (transfer_addr t) (default_table env),
      flash_funcs := transfer_addr t\<rparr>)"
    by (rule table_in_memory) (simp add: mem_read_write_same default_table_unfold)
  then show ?thesis
    using assms
    by (auto simp: execute_task_body_def phase_skip vectorize_phase_def and_then_def sizeof_flash_funcs_def
        rp2040_map_def split: if_splits)
qed

subsection \<open>Erasing a range\<close>

fun run_seq :: "('s \<Rightarrow> 's option) list \<Rightarrow> 's \<Rightarrow> 's option" where
  "run_seq [] s = Some s"
| "run_seq (f # fs) s = (case f s of None \<Rightarrow> None | Some s' \<Rightarrow> run_seq fs s')"

lemma erase_range_loop_seq:
  assumes "uses_rom_table env s" "unat addr + 4096 * n < 2 ^ 32"
  shows "erase_range_loop env user addr (addr + word_of_nat (4096 * n)) 0 s =
    map_option (\<lambda>h. (0, s\<lparr>flash := h\<rparr>))
      (run_seq (map (\<lambda>i. flash_sector_erase (spi env) (addr - XIP_MAIN_BASE (plat env) + word_of_nat (4096 * i)))
         [0..<n]) (flash s))"
  using assms
proof (induction n arbitrary: addr s)
  case 0
  then show ?case by (simp add: erase_range_loop.simps)
next
  case (Suc n)
  have n: "unat (word_of_nat (4096 * Suc n) :: u32) = 4096 * Suc n"
    using Suc.prems(2) by (intro unat_of_nat_small) simp
  have lt: "addr < addr + word_of_nat (4096 * Suc n)"
    using Suc.prems(2) n by (simp add: word_less_nat_alt unat_plus_noof)
  have a: "unat (addr + 4096) = unat addr + 4096" using Suc.prems(2) by (subst unat_plus_noof) simp_all
  have goal: "addr + word_of_nat (4096 * Suc n) = addr + 4096 + word_of_nat (4096 * n)" by simp
  have m: "map f [0..<Suc n] = f 0 # map (\<lambda>i. f (Suc i)) [0..<n]" for f :: "nat \<Rightarrow> 'a flash_hw \<Rightarrow> 'a flash_hw option"
    by (simp add: upt_conv_Cons map_Suc_upt [symmetric] del: upt_Suc)
  have table: "uses_rom_table env (s\<lparr>flash := h\<rparr>)" for h
    using Suc.prems(1) by (simp add: uses_rom_table_def)
  have IH: "erase_range_loop env user (addr + 4096) (addr + 4096 + word_of_nat (4096 * n)) 0 (s\<lparr>flash := h\<rparr>) =
      map_option (\<lambda>h. (0, s\<lparr>flash := h\<rparr>))
        (run_seq (map (\<lambda>i. flash_sector_erase (spi env) (addr + 4096 - XIP_MAIN_BASE (plat env) + word_of_nat (4096 * i)))
           [0..<n]) h)" for h
    using Suc.IH [OF table, of "addr + 4096" h] Suc.prems(2) a by simp
  have shift: "addr + 4096 - XIP_MAIN_BASE (plat env) + word_of_nat (4096 * i) =
      addr - XIP_MAIN_BASE (plat env) + word_of_nat (4096 * Suc i)" for i by simp
  note IH' = IH [unfolded shift, simplified]
  show ?case
    using lt
    by (subst erase_range_loop.simps)
      (simp only: goal via_rom_table [OF Suc.prems(1)] do_flash_erase_sector_def m run_seq.simps if_True
        simp_thms; simp add: IH' split: option.split)
qed

lemma erase_task_ok:
  assumes "task_type t = AT_FLASH_ERASE" "\<not> watchdog_rebooting s" "\<not> check_last_mutation_source t"
    and "rp2040_map (plat env)" "uses_rom_table env s" "unat (erase_addr t) + unat (erase_size t) < 2 ^ 32"
  shows "execute_task_body env user msc_eject t s =
    (let s1 = s\<lparr>last_mutation_source := task_source t\<rparr>
     in if erase_addr t AND 0xfff \<noteq> 0 \<or> erase_size t AND 0xfff \<noteq> 0 then Some (PICOBOOT_BAD_ALIGNMENT (plat env), s1)
        else if \<not> (is_address_flash (plat env) (erase_addr t) \<and>
                   is_address_flash (plat env) (erase_addr t + erase_size t))
        then Some (PICOBOOT_INVALID_ADDRESS (plat env), s1)
        else map_option (\<lambda>h. (PICOBOOT_OK (plat env), s1\<lparr>flash := h\<rparr>))
          (run_seq (map (\<lambda>i. flash_sector_erase (spi env)
              (erase_addr t - XIP_MAIN_BASE (plat env) + word_of_nat (4096 * i)))
            [0..<unat (erase_size t) div 4096]) (flash s)))"
proof -
  let ?s1 = "s\<lparr>last_mutation_source := task_source t\<rparr>"
  have table: "uses_rom_table env ?s1" using assms(5) by (simp add: uses_rom_table_def)
  have ok: "PICOBOOT_OK (plat env) = 0" "PICOBOOT_BAD_ALIGNMENT (plat env) \<noteq> 0" "PICOBOOT_INVALID_ADDRESS (plat env) \<noteq> 0"
    using assms(4) by (auto simp: rp2040_map_def)
  have loop: "do_flash_erase_range env user (erase_addr t) (erase_size t) ?s1 =
    map_option (\<lambda>h. (0, ?s1\<lparr>flash := h\<rparr>))
      (run_seq (map (\<lambda>i. flash_sector_erase (spi env) (erase_addr t - XIP_MAIN_BASE (plat env) + word_of_nat (4096 * i)))
         [0..<unat (erase_size t) div 4096]) (flash s))" if "erase_size t AND 0xfff = 0"
  proof -
    have "take_bit 12 (erase_size t) = 0" using that by (simp add: take_bit_eq_mask mask_eq_exp_minus_1)
    then have "take_bit 12 (unat (erase_size t)) = 0" by (metis unsigned_take_bit_eq unat_eq_zero)
    then have "4096 * (unat (erase_size t) div 4096) = unat (erase_size t)" by (auto simp: take_bit_eq_mod)
    note size = this
    then have "word_of_nat (4096 * (unat (erase_size t) div 4096)) = erase_size t" by simp
    moreover have "unat (erase_addr t) + 4096 * (unat (erase_size t) div 4096) < 2 ^ 32" using assms(6) size by simp
    ultimately show ?thesis
      using erase_range_loop_seq [OF table, of "erase_addr t" "unat (erase_size t) div 4096" user] ok(1)
      by (simp add: do_flash_erase_range_def)
  qed
  show ?thesis
    using assms(1,2,3) ok loop table
    by (auto simp: execute_task_body_def phase_skip mutation_phase_def erase_phase_def via_rom_table
        check_ret_def and_then_def Let_def split: option.splits)
qed


subsection \<open>Concrete states\<close>

definition example_env :: "unit boot_env" where
  "example_env = \<lparr>plat = rp2040, ssi = example_consts, rt = example_runtime, spi = not_env,
     default_flash_funcs = 0x1000, rom_fn = \<lambda>n. 0x2001 + word_of_nat (16 * n)\<rparr>"

definition example_state :: "unit async_state" where
  "example_state = \<lparr>rebooting = False, nvic_enabled = 0, nvic_pending = 0, psm_wdsel = 0, wd_ctrl = 0,
     wd_scratch = \<lambda>_. 0, wd_load = 0, wd_tick = 0, clk_ref_ctrl = 0, usb_activity_gpio_pin_mask = 0,
     io_bank0_in_reset = True, gpio_out = 0, gpio_oe = 0, pad_ctrl = \<lambda>_. 0, gpio_ctrl = \<lambda>_. 0,
     mem = mem_write (\<lambda>_. 0) 0x1000 (default_table example_env), flash = idle_hw (),
     flash_funcs = 0x1000, last_mutation_source = TASK_SOURCE_VIRTUAL_DISK,
     virtual_disk_queue = \<lparr>queued_task = zero_task, full = False, disable = False\<rparr>,
     picoboot_queue = \<lparr>queued_task = zero_task, full = False, disable = False\<rparr>, worker_task = zero_task\<rparr>"

definition no_user_code :: "(unit, unit) user_code" where
  "no_user_code p args s = None"

lemma example_state_table: "uses_rom_table example_env example_state"
  by (rule table_in_memory) (simp add: example_state_def mem_read_write_same default_table_unfold)

lemma example_state_simps [simp]:
  "\<not> watchdog_rebooting example_state" "plat example_env = rp2040" "flash_funcs example_state = 0x1000"
  "last_mutation_source example_state = 1" "rebooting example_state = False"
  by (simp_all add: example_state_def example_env_def watchdog_rebooting_def)

theorem interleaved_write_refused_witness:
  "execute_task_body example_env no_user_code id (zero_task\<lparr>task_type := AT_WRITE,
     task_source := TASK_SOURCE_PICOBOOT, check_last_mutation_source := True\<rparr>) example_state =
   Some (PICOBOOT_INTERLEAVED_WRITE rp2040, example_state)"
  by (subst interleaved_write_refused) simp_all

theorem enter_cmd_xip_task_no_effect_witness:
  "execute_task_body example_env no_user_code id (zero_task\<lparr>task_type := AT_ENTER_CMD_XIP\<rparr>) example_state =
   Some (PICOBOOT_OK rp2040, example_state)"
  by (subst enter_cmd_xip_task_no_effect) simp_all

definition example_write :: async_task where
  "example_write = zero_task\<lparr>task_type := AT_WRITE, transfer_addr := 0x20000000, task_data := 0x1000,
     data_length := 4, task_source := TASK_SOURCE_PICOBOOT\<rparr>"

lemma example_write_runs:
  "\<exists>s'. execute_task_body example_env no_user_code id example_write example_state = Some (0, s') \<and>
     mem s' 0x20000000 = 28"
proof -
  have r: "is_address_ram rp2040 0x20000000" "is_address_ram rp2040 0x20000004"
    by (simp_all add: is_address_ram_def rp2040_def)
  have "mem_write (mem example_state) 0x20000000 (mem_read (mem example_state) 0x1000 4) 0x20000000 = 28"
    using mem_write_at [of 0 "mem_read (mem example_state) 0x1000 4" "mem example_state" "0x20000000"]
    by (simp add: mem_read_conv_map example_state_def default_table_unfold le32_def)
  then show ?thesis
    by (auto simp: execute_task_body_def phase_skip example_write_def zero_task_def mutation_phase_def transfer_phase_def
        access_check_def write_phase_def read_phase_def enter_xip_phase_def and_then_def r Let_def)
      (auto simp: rp2040_def)
qed

theorem write_task_memory_witness:
  "\<exists>s'. execute_task_body example_env no_user_code id example_write example_state = Some (0, s') \<and>
     mem s' 0x20000000 \<noteq> mem example_state 0x20000000 \<and>
     unat ((0x20000000 :: u32) - transfer_addr example_write) < unat (data_length example_write) \<and>
     is_address_ram rp2040 (transfer_addr example_write)"
proof -
  obtain s' where s': "execute_task_body example_env no_user_code id example_write example_state = Some (0, s')"
    "mem s' 0x20000000 = 28" using example_write_runs by blast
  have "mem example_state 0x20000000 = 0"
    by (simp add: example_state_def mem_write_other default_table_unfold)
  then have ne: "mem s' 0x20000000 \<noteq> mem example_state 0x20000000" using s'(2) by simp
  have bits: "task_type example_write AND 0xf4 = 0" by (simp add: example_write_def)
  show ?thesis using write_task_memory [OF example_state_table bits s'(1) ne] s'(1) ne by auto
qed

theorem ram_write_keeps_table_witness:
  "\<exists>r s'. write_phase example_env no_user_code True example_write example_state = Some (r, s') \<and>
    (flash_funcs s' = 0x1000 \<or> flash_funcs s' = flash_funcs example_state \<and>
      mem_read (mem s') (flash_funcs s') 28 = mem_read (mem example_state) (flash_funcs example_state) 28)"
proof -
  obtain r s' where w: "write_phase example_env no_user_code True example_write example_state = Some (r, s')"
    by (auto simp: write_phase_def example_write_def Let_def)
  have "is_address_ram (plat example_env) (transfer_addr example_write)"
    by (simp add: is_address_ram_def example_write_def rp2040_def)
  from ram_write_keeps_table [OF _ _ _ this w] w show ?thesis
    by (auto simp: rp2040_map_rp2040 example_write_def) (auto simp: example_env_def)
qed

theorem vectorize_installs_rom_table_witness:
  "\<exists>s'. execute_task_body example_env no_user_code id
      (zero_task\<lparr>task_type := AT_VECTORIZE_FLASH, transfer_addr := 0x20001000\<rparr>) example_state = Some (0, s') \<and>
    flash_funcs s' = 0x20001000 \<and> uses_rom_table example_env s'"
proof -
  let ?t = "zero_task\<lparr>task_type := AT_VECTORIZE_FLASH, transfer_addr := 0x20001000\<rparr>"
  have ok: "is_address_safe_for_vectoring rp2040 0x20001000" "is_address_safe_for_vectoring rp2040 0x2000101c"
    by (simp_all add: is_address_safe_for_vectoring_def is_address_ram_def flash_bitmaps_size_def rp2040_def)
  obtain code s' where e: "execute_task_body example_env no_user_code id ?t example_state = Some (code, s')"
    using ok by (auto simp: execute_task_body_def phase_skip vectorize_phase_def sizeof_flash_funcs_def)
  from vectorize_installs_rom_table [OF _ _ _ e] e ok show ?thesis
    by (auto simp: rp2040_map_rp2040) (auto simp: rp2040_def)
qed


end
