(* ===== verification/Virtual_Disk.thy ===== *)
theory Virtual_Disk
  imports Async_Task Rom_Routines
begin

section \<open>The virtual disk\<close>

text \<open>
  \<open>bootrom/virtual_disk.c\<close>: the FAT16 volume that is computed sector by sector when the host
  reads it, and the UF2 download that is driven by what the host writes. The state extends
  \<open>async_state\<close> with \<open>_uf2_info\<close> and the volume serial number. The bitmaps of a download are
  words in the byte memory, as in the code: in a static array for a RAM download, in the XIP
  cache for a flash download. The generated texts and the addresses of the linker are parameters. \<open>vd_async_complete\<close> belongs to the theory of the
  mass storage class and is passed in.
\<close>

record uf2_info =
  valid_blocks :: u32 \<comment> \<open>address of the bitmap of received blocks\<close>
  max_valid_blocks :: u32
  cleared_pages :: u32 \<comment> \<open>address of the bitmap of erased sectors\<close>
  max_cleared_pages :: u32
  num_blocks :: u32
  uf2_token :: u32
  valid_block_count :: u32
  lowest_addr :: u32
  block_no :: u32
  next_task :: async_task
  uf2_ram :: bool

record 'd vd_state = "'d async_state" +
  the_uf2_info :: uf2_info
  serial_number32 :: u32
  serial_number_valid :: bool
  timerawl :: u32
  serial_number_string :: "u8 list" \<comment> \<open>without the terminating zero\<close>

record 'd vd_env = "'d boot_env" +
  uf2_valid_ram_blocks :: u32 \<comment> \<open>address of the static array\<close>
  welcome_html_z :: "u8 list"
  welcome_html_len :: nat
  welcome_html_version_offset_1 :: nat
  welcome_html_version_offset_2 :: nat
  info_uf2_txt :: "u8 list"

definition zero_uf2_info :: uf2_info where
  "zero_uf2_info = \<lparr>valid_blocks = 0, max_valid_blocks = 0, cleared_pages = 0, max_cleared_pages = 0,
     num_blocks = 0, uf2_token = 0, valid_block_count = 0, lowest_addr = 0, block_no = 0,
     next_task = zero_task, uf2_ram = False\<rparr>"

subsection \<open>Reading sectors\<close>

abbreviation (input) SECTOR_SIZE :: nat where "SECTOR_SIZE \<equiv> 512"

definition VOLUME_SIZE :: nat where "VOLUME_SIZE = 128 * 1024 * 1024"
definition SECTOR_COUNT :: nat where "SECTOR_COUNT = VOLUME_SIZE div SECTOR_SIZE"
definition CLUSTER_SIZE :: nat where "CLUSTER_SIZE = 4096"
definition CLUSTER_SHIFT :: nat where "CLUSTER_SHIFT = 3"
definition CLUSTER_COUNT :: nat where "CLUSTER_COUNT = VOLUME_SIZE div CLUSTER_SIZE"
definition VOLUME_SECTOR_COUNT :: nat where "VOLUME_SECTOR_COUNT = SECTOR_COUNT - 1"
definition FAT_COUNT :: nat where "FAT_COUNT = 2"
definition MAX_ROOT_DIRECTORY_ENTRIES :: nat where "MAX_ROOT_DIRECTORY_ENTRIES = 512"
definition ROOT_DIRECTORY_SECTORS :: nat where
  "ROOT_DIRECTORY_SECTORS = MAX_ROOT_DIRECTORY_ENTRIES * 32 div SECTOR_SIZE"
definition SECTORS_PER_FAT :: nat where
  "SECTORS_PER_FAT = 2 * (CLUSTER_COUNT + SECTOR_SIZE - 1) div SECTOR_SIZE"
definition MEDIA_TYPE :: u8 where "MEDIA_TYPE = 0xf8"

definition lsb_hword :: "nat \<Rightarrow> u8 list" where
  "lsb_hword x = le16 (word_of_nat x)"

definition lsb_word :: "nat \<Rightarrow> u8 list" where
  "lsb_word x = le32 (word_of_nat x)"

text \<open>The bytes of a text literal.\<close>

definition ascii :: "string \<Rightarrow> u8 list" where
  "ascii = map (\<lambda>c. word_of_nat (of_char c))"

definition boot_sector :: "u8 list" where
  "boot_sector =
     [0xeb, 0x3c, 0x90] @ ascii ''MSWIN4.1'' @ lsb_hword 512 @
     [word_of_nat (CLUSTER_SIZE div SECTOR_SIZE)] @ lsb_hword 1 @ [word_of_nat FAT_COUNT] @
     lsb_hword MAX_ROOT_DIRECTORY_ENTRIES @
     (if VOLUME_SECTOR_COUNT < 65536 then lsb_hword VOLUME_SECTOR_COUNT else lsb_hword 0) @
     [MEDIA_TYPE] @ lsb_hword SECTORS_PER_FAT @ lsb_hword 1 @ lsb_hword 1 @
     lsb_word (SECTOR_COUNT - VOLUME_SECTOR_COUNT) @
     (if VOLUME_SECTOR_COUNT \<ge> 65536 then lsb_word VOLUME_SECTOR_COUNT else lsb_word 0) @
     [0, 0, 0x29] @ [0, 0, 0, 0] @ ascii ''RPI-RP2    '' @ ascii ''FAT16   '' @ [0xeb, 0xfe]"

abbreviation (input) BOOT_OFFSET_SERIAL_NUMBER :: nat where "BOOT_OFFSET_SERIAL_NUMBER \<equiv> 0x27"
abbreviation (input) BOOT_OFFSET_LABEL :: nat where "BOOT_OFFSET_LABEL \<equiv> 0x2b"
abbreviation (input) MBR_OFFSET_SERIAL_NUMBER :: nat where "MBR_OFFSET_SERIAL_NUMBER \<equiv> 0x1b8"
abbreviation (input) PT_FAT16_LBA :: u8 where "PT_FAT16_LBA \<equiv> 0xe"

text \<open>Copy bytes into a buffer at an offset.\<close>

definition put_at :: "nat \<Rightarrow> u8 list \<Rightarrow> u8 list \<Rightarrow> u8 list" where
  "put_at off bs buf = take off buf @ bs @ drop (off + length bs) buf"

definition RASPBERRY_PI_TIME_FRAC :: u8 where "RASPBERRY_PI_TIME_FRAC = 100"
definition RASPBERRY_PI_TIME :: u16 where
  "RASPBERRY_PI_TIME = push_bit 11 16 OR push_bit 5 20 OR drop_bit 1 51"
definition RASPBERRY_PI_DATE :: u16 where
  "RASPBERRY_PI_DATE = push_bit 9 28 OR push_bit 5 9 OR 5"

record dir_entry =
  de_name :: "u8 list"
  de_attr :: u8
  de_creation_time_frac :: u8
  de_creation_time :: u16
  de_creation_date :: u16
  de_last_modified_time :: u16
  de_last_modified_date :: u16
  de_cluster_lo :: u16
  de_size :: u32

definition zero_dir_entry :: dir_entry where
  "zero_dir_entry = \<lparr>de_name = replicate 11 0, de_attr = 0, de_creation_time_frac = 0, de_creation_time = 0,
     de_creation_date = 0, de_last_modified_time = 0, de_last_modified_date = 0, de_cluster_lo = 0, de_size = 0\<rparr>"

definition init_dir_entry :: "u8 list \<Rightarrow> nat \<Rightarrow> nat \<Rightarrow> dir_entry \<Rightarrow> dir_entry" where
  "init_dir_entry fn cluster len e =
     e\<lparr>de_creation_time_frac := RASPBERRY_PI_TIME_FRAC, de_creation_time := RASPBERRY_PI_TIME,
       de_creation_date := RASPBERRY_PI_DATE, de_last_modified_time := RASPBERRY_PI_TIME,
       de_last_modified_date := RASPBERRY_PI_DATE, de_name := take 11 fn, de_attr := 0x01 OR 0x20,
       de_cluster_lo := word_of_nat cluster, de_size := word_of_nat len\<rparr>"

text \<open>The 32 bytes of the structure; the members that are never set are zero.\<close>

definition dir_entry_bytes :: "dir_entry \<Rightarrow> u8 list" where
  "dir_entry_bytes e =
     de_name e @ [de_attr e, 0, de_creation_time_frac e] @ le16 (de_creation_time e) @ le16 (de_creation_date e) @
     le16 0 @ le16 0 @ le16 (de_last_modified_time e) @ le16 (de_last_modified_date e) @
     le16 (de_cluster_lo e) @ le32 (de_size e)"

definition ptable_data4 :: "u8 list" where
  "ptable_data4 = [PT_FAT16_LBA, 0, 0, 0] @ lsb_word 1 @ take 3 (lsb_word (SECTOR_COUNT - 1))"

definition mbr_sector :: "u32 \<Rightarrow> u8 list \<Rightarrow> u8 list" where
  "mbr_sector sn buf =
     (let ptable = SECTOR_SIZE - 2 - 64
      in put_at MBR_OFFSET_SERIAL_NUMBER (le32 sn)
           (put_at (ptable + 64) [0x55, 0xaa] (put_at (ptable + 4) ptable_data4 buf)))"

definition volume_boot_sector :: "u32 \<Rightarrow> u8 list \<Rightarrow> u8 list" where
  "volume_boot_sector sn buf = put_at BOOT_OFFSET_SERIAL_NUMBER (le32 sn) (put_at 0 boot_sector buf)"

function fat_mirror :: "nat \<Rightarrow> nat" where
  "fat_mirror lba = (if SECTORS_PER_FAT \<le> lba then fat_mirror (lba - SECTORS_PER_FAT) else lba)"
  by pat_completeness auto
termination
  by (relation "measure id") (auto simp: SECTORS_PER_FAT_def CLUSTER_COUNT_def VOLUME_SIZE_def CLUSTER_SIZE_def)

declare fat_mirror.simps [simp del]

definition fat_sector :: "nat \<Rightarrow> u8 list \<Rightarrow> u8 list" where
  "fat_sector lba buf =
     (if fat_mirror lba = 0
      then put_at 0 (le16 (0xff00 OR ucast MEDIA_TYPE) @ le16 0xffff @ le16 0xffff @ le16 0xffff) buf
      else buf)"

definition root_directory_sector :: "('d, 'e) vd_env_scheme \<Rightarrow> nat \<Rightarrow> u8 list \<Rightarrow> u8 list" where
  "root_directory_sector env lba buf =
     (if lba = 0 then
        (let label = zero_dir_entry\<lparr>de_name := take 11 (drop BOOT_OFFSET_LABEL boot_sector), de_attr := 0x08 OR 0x20\<rparr>;
             index = init_dir_entry (ascii ''INDEX   HTM'') 2 (welcome_html_len env) zero_dir_entry;
             info = init_dir_entry (ascii ''INFO_UF2TXT'') 3 (length (info_uf2_txt env)) zero_dir_entry
         in put_at 0 (dir_entry_bytes label @ dir_entry_bytes index @ dir_entry_bytes info) buf)
      else buf)"

definition data_sector :: "('d, 'e) vd_env_scheme \<Rightarrow> u8 list \<Rightarrow> nat \<Rightarrow> u8 list \<Rightarrow> u8 list" where
  "data_sector env serial lba buf =
     (let cluster = lba div 2 ^ CLUSTER_SHIFT; cluster_offset = lba - cluster * 2 ^ CLUSTER_SHIFT
      in if cluster_offset = 0 then
           if cluster = 0 then
             put_at (welcome_html_version_offset_2 env) (take 12 serial)
               (put_at (welcome_html_version_offset_1 env) (take 12 serial)
                 (put_at 0 (poor_mans_text_decompress (welcome_html_z env)) buf))
           else if cluster = 1 then put_at 0 (info_uf2_txt env) buf
           else buf
         else buf)"

definition msc_get_serial_number32 :: "('d, 'z) vd_state_scheme \<Rightarrow> u32 \<times> ('d, 'z) vd_state_scheme" where
  "msc_get_serial_number32 s =
     (let s' = (if serial_number_valid s then s
                else s\<lparr>serial_number32 := timerawl s, serial_number_valid := True\<rparr>)
      in (serial_number32 s', s'))"

text \<open>The 512 bytes of a sector that is neither the MBR nor the boot sector.\<close>

definition plain_sector :: "('d, 'e) vd_env_scheme \<Rightarrow> u8 list \<Rightarrow> nat \<Rightarrow> u8 list \<Rightarrow> u8 list" where
  "plain_sector env serial lba buf =
     (if lba < SECTORS_PER_FAT * FAT_COUNT then fat_sector lba buf
      else
        (let lba' = lba - SECTORS_PER_FAT * FAT_COUNT
         in if lba' < ROOT_DIRECTORY_SECTORS then root_directory_sector env lba' buf
            else data_sector env serial (lba' - ROOT_DIRECTORY_SECTORS) buf))"

definition vd_read_block ::
    "('d, 'e) vd_env_scheme \<Rightarrow> u32 \<Rightarrow> u32 \<Rightarrow> u32 \<Rightarrow> ('d, 'z) vd_state_scheme \<Rightarrow> bool \<times> ('d, 'z) vd_state_scheme" where
  "vd_read_block env token lba buf s =
     (let zero = replicate SECTOR_SIZE 0
      in if lba = 0 then
           (let (sn, s') = msc_get_serial_number32 s
            in (False, s'\<lparr>mem := mem_write (mem s') buf (mbr_sector sn zero)\<rparr>))
         else if lba - 1 = 0 then
           (let (sn, s') = msc_get_serial_number32 s
            in (False, s'\<lparr>mem := mem_write (mem s') buf (volume_boot_sector sn zero)\<rparr>))
         else (False, s\<lparr>mem := mem_write (mem s) buf (plain_sector env (serial_number_string s) (unat (lba - 1 - 1)) zero)\<rparr>))"

subsection \<open>The bitmaps of a download\<close>

definition bit_word_addr :: "u32 \<Rightarrow> u32 \<Rightarrow> u32" where
  "bit_word_addr base n = base + 4 * (n div 32)"

definition bitset_test :: "memory \<Rightarrow> u32 \<Rightarrow> u32 \<Rightarrow> bool" where
  "bitset_test m base n \<longleftrightarrow> rd32 m (bit_word_addr base n) AND push_bit (unat (n AND 31)) 1 \<noteq> 0"

definition bitset_set :: "memory \<Rightarrow> u32 \<Rightarrow> u32 \<Rightarrow> memory" where
  "bitset_set m base n =
     (let a = bit_word_addr base n in wr32 m a (rd32 m a OR push_bit (unat (n AND 31)) 1))"

definition clear_bitset :: "u32 \<Rightarrow> u32 \<Rightarrow> memory \<Rightarrow> memory" where
  "clear_bitset addr count m = mem_write m addr (replicate (unat count div 8) 0)"

definition MAX_RAM_UF2_BLOCKS :: nat where
  "MAX_RAM_UF2_BLOCKS = 1280"

definition FLASH_VALID_BLOCKS_BASE :: "platform \<Rightarrow> u32" where
  "FLASH_VALID_BLOCKS_BASE p = XIP_SRAM_BASE p"

definition FLASH_MAX_VALID_BLOCKS :: "platform \<Rightarrow> u32" where
  "FLASH_MAX_VALID_BLOCKS p = word_of_nat (unat (flash_bitmaps_size p) * 8 * 4096 div (256 + 4096)) AND NOT 31"

definition FLASH_CLEARED_PAGES_BASE :: "platform \<Rightarrow> u32" where
  "FLASH_CLEARED_PAGES_BASE p = FLASH_VALID_BLOCKS_BASE p + FLASH_MAX_VALID_BLOCKS p div 8"

definition FLASH_MAX_CLEARED_PAGES :: "platform \<Rightarrow> u32" where
  "FLASH_MAX_CLEARED_PAGES p = word_of_nat (unat (FLASH_MAX_VALID_BLOCKS p) * 256 div 4096)"

subsection \<open>UF2 downloads\<close>

definition safe_reboot ::
    "'d boot_env \<Rightarrow> u32 \<Rightarrow> u32 \<Rightarrow> u32 \<Rightarrow> 'z runtime_hw_scheme \<Rightarrow> 'z runtime_hw_scheme option" where
  "safe_reboot env addr sp delay_ms s = watchdog_reboot (rt env) addr sp delay_ms s"

definition write_uf2_page_complete ::
    "('d, 'e) vd_env_scheme \<Rightarrow> (u32 \<Rightarrow> u32 \<Rightarrow> ('d, 'z) vd_state_scheme \<Rightarrow> ('d, 'z) vd_state_scheme option) \<Rightarrow>
       async_task \<Rightarrow> ('d, 'z) vd_state_scheme \<Rightarrow> ('d, 'z) vd_state_scheme option" where
  "write_uf2_page_complete env vd_async_complete t s =
     do {
       let u = the_uf2_info s;
       s1 \<leftarrow> (if task_token t = uf2_token u \<and> task_result t = 0 \<and> valid_block_count u = num_blocks u
              then safe_reboot (boot_env.truncate env) (if uf2_ram u then lowest_addr u else 0)
                     (SRAM_END (plat env)) 1000 s
              else Some s);
       vd_async_complete (task_token t) (task_result t) s1
     }"

text \<open>Which of two addresses the download is started at: RAM is preferred to the XIP cache.\<close>

definition update_lowest :: "platform \<Rightarrow> u32 \<Rightarrow> u32 \<Rightarrow> u32" where
  "update_lowest p next_addr lowest =
     (let xip_cache_next = (next_addr < SRAM_BASE p); xip_cache_lowest = (lowest < SRAM_BASE p)
      in if next_addr < lowest \<and> xip_cache_next = xip_cache_lowest \<or> xip_cache_lowest \<and> \<not> xip_cache_next
         then next_addr else lowest)"

text \<open>Marks the sector of a flash page as erased and asks the task to erase it, the first time.\<close>

definition erase_on_first_write :: "('d, 'z) vd_state_scheme \<Rightarrow> ('d, 'z) vd_state_scheme" where
  "erase_on_first_write s =
     (let u = the_uf2_info s; page_no = block_no u * 256 div FLASH_SECTOR_ERASE_SIZE
      in if bitset_test (mem s) (cleared_pages u) page_no then s
         else
           s\<lparr>mem := bitset_set (mem s) (cleared_pages u) page_no,
             the_uf2_info := u\<lparr>next_task := (next_task u)\<lparr>
               erase_addr := transfer_addr (next_task u) AND NOT (FLASH_SECTOR_ERASE_SIZE - 1),
               erase_size := FLASH_SECTOR_ERASE_SIZE,
               task_type := task_type (next_task u) OR AT_FLASH_ERASE\<rparr>\<rparr>\<rparr>)"

definition write_uf2_page ::
    "('d, 'e) vd_env_scheme \<Rightarrow> ('d, 'z) vd_state_scheme \<Rightarrow> bool \<times> ('d, 'z) vd_state_scheme" where
  "write_uf2_page env s =
     (let u = the_uf2_info s
      in if \<not> bitset_test (mem s) (valid_blocks u) (block_no u) then
           (let s1 = s\<lparr>the_uf2_info := u\<lparr>lowest_addr :=
                        update_lowest (plat env) (transfer_addr (next_task u)) (lowest_addr u)\<rparr>\<rparr>;
                s2 = (if uf2_ram u then s1 else erase_on_first_write s1);
                u2 = the_uf2_info s2;
                s3 = s2\<lparr>the_uf2_info := u2\<lparr>valid_block_count := valid_block_count u2 + 1\<rparr>,
                        mem := bitset_set (mem s2) (valid_blocks u2) (block_no u2)\<rparr>;
                (t, s4) = queue_task Virtual_Disk_Queue (next_task (the_uf2_info s3)) Write_uf2_page_complete s3;
                u4 = the_uf2_info s4
            in (True, s4\<lparr>the_uf2_info := u4\<lparr>next_task := t\<lparr>check_last_mutation_source := True\<rparr>\<rparr>\<rparr>))
         else (False, s))"

definition vd_reset :: "('d, 'z) vd_state_scheme \<Rightarrow> ('d, 'z) vd_state_scheme" where
  "vd_reset s = s\<lparr>the_uf2_info := (the_uf2_info s)\<lparr>num_blocks := 0\<rparr>\<rparr>"

text \<open>A block of a download of another size starts a new one; false if it does not fit.\<close>

definition start_uf2_transfer ::
    "('d, 'e) vd_env_scheme \<Rightarrow> bool \<Rightarrow> bool \<Rightarrow> uf2_block \<Rightarrow> ('d, 'z) vd_state_scheme \<Rightarrow>
       bool \<times> ('d, 'z) vd_state_scheme" where
  "start_uf2_transfer env ram flash_addr b s =
     (let p = plat env;
          u = zero_uf2_info\<lparr>uf2_ram := ram,
            valid_blocks := (if ram then uf2_valid_ram_blocks env else FLASH_VALID_BLOCKS_BASE p),
            max_valid_blocks :=
              (if ram then word_of_nat ((MAX_RAM_UF2_BLOCKS + 31) div 32 * 32) else FLASH_MAX_VALID_BLOCKS p)\<rparr>;
          m = clear_bitset (valid_blocks u) (max_valid_blocks u) (mem s);
          (u1, m1) =
            (if flash_addr then
               (u\<lparr>cleared_pages := FLASH_CLEARED_PAGES_BASE p, max_cleared_pages := FLASH_MAX_CLEARED_PAGES p\<rparr>,
                clear_bitset (FLASH_CLEARED_PAGES_BASE p) (FLASH_MAX_CLEARED_PAGES p) m)
             else (u, m));
          s1 = s\<lparr>mem := m1, the_uf2_info := u1\<rparr>
      in if max_valid_blocks u1 < uf2_num_blocks b then (False, s1)
         else (True, s1\<lparr>the_uf2_info := u1\<lparr>num_blocks := uf2_num_blocks b, valid_block_count := 0,
                                             lowest_addr := 0xffffffff\<rparr>\<rparr>))"

definition prepare_next_task ::
    "('d, 'e) vd_env_scheme \<Rightarrow> u32 \<Rightarrow> uf2_block \<Rightarrow> u8 \<Rightarrow> u32 \<Rightarrow> uf2_info \<Rightarrow> uf2_info" where
  "prepare_next_task env buf b typ token u =
     u\<lparr>block_no := uf2_block_no b, uf2_token := token,
       next_task := (reset_task (next_task u))\<lparr>task_token := token, transfer_addr := target_addr b,
         task_type := typ, task_data := buf + offsetof_uf2_data (plat env),
         callback := Write_uf2_page_complete, data_length := FLASH_PAGE_SIZE,
         task_source := TASK_SOURCE_VIRTUAL_DISK\<rparr>\<rparr>"

definition uf2_addr_ram :: "platform \<Rightarrow> uf2_block \<Rightarrow> bool" where
  "uf2_addr_ram p b \<longleftrightarrow> is_address_ram p (target_addr b) \<and> is_address_ram p (target_addr b + 255)"

definition uf2_addr_flash :: "platform \<Rightarrow> uf2_block \<Rightarrow> bool" where
  "uf2_addr_flash p b \<longleftrightarrow> is_address_flash p (target_addr b) \<and> is_address_flash p (target_addr b + 255)"

definition update_current_uf2_info ::
    "('d, 'e) vd_env_scheme \<Rightarrow> u32 \<Rightarrow> uf2_block \<Rightarrow> u32 \<Rightarrow> ('d, 'z) vd_state_scheme \<Rightarrow>
       bool \<times> ('d, 'z) vd_state_scheme" where
  "update_current_uf2_info env buf b token s =
     (let ram = uf2_addr_ram (plat env) b;
          flash_addr = uf2_addr_flash (plat env) b;
          invalid = (\<lambda>s. (False, vd_reset s))
      in if \<not> (uf2_num_blocks b \<noteq> 0 \<and> (ram \<or> flash_addr)) \<or> flash_addr \<and> target_addr b AND 255 \<noteq> 0 then invalid s
         else if \<not> disable (virtual_disk_queue s) then
           (let renew = (num_blocks (the_uf2_info s) \<noteq> uf2_num_blocks b);
                (fits, s1) = (if renew then start_uf2_transfer env ram flash_addr b s else (True, s));
                typ = (if renew \<and> flash_addr then AT_WRITE OR AT_EXIT_XIP else AT_WRITE)
            in if \<not> fits then (False, s1)
               else if ram \<noteq> uf2_ram (the_uf2_info s1) then invalid s1
               else if uf2_block_no b < uf2_num_blocks b then
                 (True, s1\<lparr>the_uf2_info := prepare_next_task env buf b typ token (the_uf2_info s1)\<rparr>)
               else invalid s1)
         else invalid s)"

definition uf2_accepted :: "platform \<Rightarrow> uf2_block \<Rightarrow> bool" where
  "uf2_accepted p b \<longleftrightarrow>
     magic_start0 b = UF2_MAGIC_START0 p \<and> magic_start1 b = UF2_MAGIC_START1 p \<and> magic_end b = UF2_MAGIC_END p \<and>
     uf2_flags b AND UF2_FLAG_FAMILY_ID_PRESENT p \<noteq> 0 \<and> file_size b = RP2040_FAMILY_ID p \<and>
     uf2_flags b AND UF2_FLAG_NOT_MAIN_FLASH p = 0 \<and> payload_size b = 256"

definition vd_write_block ::
    "('d, 'e) vd_env_scheme \<Rightarrow> u32 \<Rightarrow> u32 \<Rightarrow> u32 \<Rightarrow> ('d, 'z) vd_state_scheme \<Rightarrow> bool \<times> ('d, 'z) vd_state_scheme" where
  "vd_write_block env token lba buf s =
     (let b = uf2_block_at (plat env) (mem s) buf
      in if uf2_accepted (plat env) b then
           (case update_current_uf2_info env buf b token s of
              (True, s1) \<Rightarrow> write_uf2_page env s1
            | (False, s1) \<Rightarrow> (False, s1))
         else (False, s))"

subsection \<open>Bitmaps as sets\<close>

text \<open>What the download relies on: marking a number marks it and no other.\<close>

locale bitset =
  fixes marked :: "'m \<Rightarrow> u32 \<Rightarrow> bool" and mark :: "'m \<Rightarrow> u32 \<Rightarrow> 'm"
  assumes marked_mark: "marked (mark m n) k \<longleftrightarrow> k = n \<or> marked m k"
begin

lemma marked_below:
  "n < N \<Longrightarrow> {k. k < N \<and> marked (mark m n) k} = insert n {k. k < N \<and> marked m k}"
  by (auto simp: marked_mark)

lemma card_mark:
  "n < N \<Longrightarrow> \<not> marked m n \<Longrightarrow> card {k. k < N \<and> marked (mark m n) k} = Suc (card {k. k < N \<and> marked m k})"
  by (simp add: marked_below)

lemma card_marked_le: "card {k. k < N \<and> marked m k} \<le> unat N"
proof -
  have "card {k. k < N \<and> marked m k} \<le> card {k. k < N}" by (intro card_mono) auto
  also have "{k. k < N} = word_of_nat ` {0..<unat N}"
  proof (intro set_eqI iffI)
    fix k assume "k \<in> {k. k < N}"
    then show "k \<in> word_of_nat ` {0..<unat N}"
      by (intro image_eqI [of _ _ "unat k"]) (auto simp: word_less_nat_alt)
  next
    fix k :: u32 assume "k \<in> word_of_nat ` {0..<unat N}"
    then obtain j where j: "k = word_of_nat j" "j < unat N" by auto
    have "unat k = j" unfolding j(1) by (rule unat_of_nat_below [OF j(2)])
    then show "k \<in> {k. k < N}" using j by (simp add: word_less_nat_alt)
  qed
  also have "card (word_of_nat ` {0..<unat N} :: u32 set) \<le> unat N"
    using card_image_le [of "{0..<unat N}" "word_of_nat :: nat \<Rightarrow> u32"] by simp
  finally show ?thesis .
qed

lemma all_marked: "card {k. k < N \<and> marked m k} = unat N \<longleftrightarrow> (\<forall>k < N. marked m k)"
proof
  assume all: "\<forall>k < N. marked m k"
  have inj: "inj_on (word_of_nat :: nat \<Rightarrow> u32) {0..<unat N}"
    by (rule inj_onI) (metis atLeastLessThan_iff unat_of_nat_below)
  have "word_of_nat ` {0..<unat N} \<subseteq> {k. k < N \<and> marked m k}"
  proof (clarify, goal_cases)
    case (1 _ j)
    then have "unat (word_of_nat j :: u32) = j" by (intro unat_of_nat_below) simp
    then show ?case using 1 all by (auto simp: word_less_nat_alt)
  qed
  then have "card (word_of_nat ` {0..<unat N} :: u32 set) \<le> card {k. k < N \<and> marked m k}"
    by (intro card_mono) auto
  then show "card {k. k < N \<and> marked m k} = unat N" using card_marked_le [of N m] inj by (simp add: card_image)
next
  assume c: "card {k. k < N \<and> marked m k} = unat N"
  show "\<forall>k < N. marked m k"
  proof (rule ccontr)
    assume "\<not> (\<forall>k < N. marked m k)"
    then obtain k where k: "k < N" "\<not> marked m k" by blast
    have "card {j. j < N \<and> marked (mark m k) j} = Suc (unat N)" using card_mark [OF k] c by simp
    then show False using card_marked_le [of N "mark m k"] by simp
  qed
qed

end

lemma unat_bit_word: "unat (4 * (n div 32) :: u32) = 4 * (unat n div 32)" "unat n div 32 < 2 ^ 27"
proof -
  show s: "unat n div 32 < 2 ^ 27" using unat_u32_less [of n] by (simp add: less_mult_imp_div_less)
  show "unat (4 * (n div 32) :: u32) = 4 * (unat n div 32)"
    using s by (simp add: unat_word_ariths unat_div_distrib)
qed

lemma bit_word_addr_apart:
  assumes "n div 32 \<noteq> k div 32"
  shows "4 \<le> unat (bit_word_addr base k - bit_word_addr base n) \<and>
    unat (bit_word_addr base k - bit_word_addr base n) + 4 \<le> 2 ^ 32"
proof -
  obtain a b where ab: "unat n div 32 = a" "unat k div 32 = b" by blast
  have ne: "a \<noteq> b" using assms ab by (simp add: word_unat_eq_iff unat_div_distrib)
  have ws: "unat (4 * (n div 32)) = 4 * a" "a < 2 ^ 27" "unat (4 * (k div 32)) = 4 * b" "b < 2 ^ 27"
    using unat_bit_word [of n] unat_bit_word [of k] ab by simp_all
  have "bit_word_addr base k - bit_word_addr base n = 4 * (k div 32) - 4 * (n div 32)"
    by (simp add: bit_word_addr_def)
  then have "unat (bit_word_addr base k - bit_word_addr base n) = (if a \<le> b then 4 * b - 4 * a else 4 * b + 2 ^ 32 - 4 * a)"
    using unat_sub_if' [of "4 * (k div 32)" "4 * (n div 32)"] ws by (simp add: word_le_nat_alt)
  then show ?thesis using ne ws(2,4) by auto
qed

lemma and_31: "n AND 31 = take_bit 5 (n :: u32)"
  by (simp add: take_bit_eq_mask mask_eq_exp_minus_1)

lemma unat_and_31: "unat (n AND 31 :: u32) = unat n mod 32"
  unfolding and_31 unsigned_take_bit_eq by (simp add: take_bit_eq_mod)

lemma bitset_test_bit: "bitset_test m base n \<longleftrightarrow> bit (rd32 m (bit_word_addr base n)) (unat n mod 32)"
  by (simp add: bitset_test_def unat_and_31 push_bit_of_1 and_exp_eq_0_iff_not_bit)

lemma bitset_test_set: "bitset_test (bitset_set m base n) base k \<longleftrightarrow> k = n \<or> bitset_test m base k"
proof (cases "k div 32 = n div 32")
  case True
  then have a: "bit_word_addr base k = bit_word_addr base n" by (simp add: bit_word_addr_def)
  have q: "unat k div 32 = unat n div 32" using True by (simp add: word_unat_eq_iff unat_div_distrib)
  have "k = n \<longleftrightarrow> unat k mod 32 = unat n mod 32"
    using q by (metis div_mult_mod_eq word_unat_eq_iff)
  then show ?thesis
    by (auto simp: bitset_test_bit a bitset_set_def Let_def rd32_wr32_same unat_and_31 bit_simps)
next
  case False
  then have "k \<noteq> n" by auto
  then show ?thesis
    using bit_word_addr_apart [of n k base] False
    by (simp add: bitset_test_bit bitset_set_def Let_def rd32_wr32_other)
qed

interpretation blocks: bitset "\<lambda>m n. bitset_test m base n" "\<lambda>m n. bitset_set m base n" for base
  by unfold_locales (rule bitset_test_set)

text \<open>Clearing a region never sets a byte, and a cleared region has no bit set.\<close>

lemma mem_write_zeros: "k < 2 ^ 32 \<Longrightarrow> mem_write m a (replicate k 0) x = (if unat (x - a) < k then 0 else m x)"
proof -
  assume k: "k < 2 ^ 32"
  show ?thesis
  proof (cases "unat (x - a) < k")
    case True
    then show ?thesis
      using mem_write_at [of "unat (x - a)" "replicate k 0" m a] k by simp
  next
    case False
    then show ?thesis using mem_write_other [of "replicate k 0" x a m] k by simp
  qed
qed

lemma bitset_test_zero:
  assumes "\<And>j. j < 4 \<Longrightarrow> m (bit_word_addr base n + word_of_nat j) = 0"
  shows "\<not> bitset_test m base n"
proof -
  have "mem_read m (bit_word_addr base n) 4 = le32 0"
    using assms [of 0] assms [of 1] assms [of 2] assms [of 3] by (simp add: mem_read_4 le32_def)
  then have "rd32 m (bit_word_addr base n) = 0" by (rule rd32_le32)
  then show ?thesis by (simp add: bitset_test_bit)
qed

lemma clear_bitset_zero:
  assumes "32 dvd unat count" "unat n < unat count" "j < 4"
  shows "clear_bitset base count m (bit_word_addr base n + word_of_nat j) = 0"
proof -
  have j: "unat (word_of_nat j :: u32) = j" using assms(3) by (intro unat_of_nat_small) simp
  obtain c where c: "unat count = 32 * c" using assms(1) by blast
  have n: "unat n div 32 < c" using assms(2) c by (simp add: less_mult_imp_div_less mult.commute)
  have "bit_word_addr base n + word_of_nat j - base = 4 * (n div 32) + word_of_nat j"
    by (simp add: bit_word_addr_def)
  moreover have "unat (4 * (n div 32) + word_of_nat j :: u32) = 4 * (unat n div 32) + j"
    using unat_bit_word [of n] j assms(3) by (subst unat_plus_noof) simp_all
  ultimately have o: "unat (bit_word_addr base n + word_of_nat j - base) = 4 * (unat n div 32) + j"
    by (simp only:)
  have l: "unat count div 8 < 2 ^ 32" by (rule order_le_less_trans [OF div_le_dividend]) simp
  show ?thesis unfolding clear_bitset_def mem_write_zeros [OF l] o using n c assms(3) by simp
qed

lemma clear_bitset_mono: "m x = 0 \<Longrightarrow> clear_bitset base count m x = 0"
proof -
  have "unat count div 8 < 2 ^ 32" by (rule order_le_less_trans [OF div_le_dividend]) simp
  then show "m x = 0 \<Longrightarrow> ?thesis" by (simp add: clear_bitset_def mem_write_zeros)
qed

subsection \<open>The count of received blocks\<close>

text \<open>The blocks of the current download that have been queued.\<close>

definition received :: "('d, 'z) vd_state_scheme \<Rightarrow> u32 set" where
  "received s = {n. n < num_blocks (the_uf2_info s) \<and> bitset_test (mem s) (valid_blocks (the_uf2_info s)) n}"

definition uf2_inv :: "('d, 'e) vd_env_scheme \<Rightarrow> ('d, 'z) vd_state_scheme \<Rightarrow> bool" where
  "uf2_inv env s \<longleftrightarrow>
     (let u = the_uf2_info s
      in num_blocks u \<noteq> 0 \<longrightarrow>
           num_blocks u \<le> max_valid_blocks u \<and>
           (if uf2_ram u then valid_blocks u = uf2_valid_ram_blocks env \<and> max_valid_blocks u = 1280
            else valid_blocks u = FLASH_VALID_BLOCKS_BASE (plat env) \<and>
                 max_valid_blocks u = FLASH_MAX_VALID_BLOCKS (plat env) \<and>
                 cleared_pages u = FLASH_CLEARED_PAGES_BASE (plat env)) \<and>
           unat (valid_block_count u) = card (received s))"

lemma flash_bitmap_sizes:
  assumes "rp2040_map p"
  shows "FLASH_VALID_BLOCKS_BASE p = 0x15000000" "FLASH_MAX_VALID_BLOCKS p = 123360"
    "FLASH_CLEARED_PAGES_BASE p = 0x15003c3c" "FLASH_MAX_CLEARED_PAGES p = 7710"
proof -
  show "FLASH_VALID_BLOCKS_BASE p = 0x15000000"
    using assms by (simp add: FLASH_VALID_BLOCKS_BASE_def rp2040_map_def)
  show m: "FLASH_MAX_VALID_BLOCKS p = 123360"
    using assms by (simp add: FLASH_MAX_VALID_BLOCKS_def flash_bitmaps_size_def rp2040_map_def)
  show "FLASH_CLEARED_PAGES_BASE p = 0x15003c3c"
    using assms m by (simp add: FLASH_CLEARED_PAGES_BASE_def FLASH_VALID_BLOCKS_BASE_def rp2040_map_def)
  show "FLASH_MAX_CLEARED_PAGES p = 7710"
    using m by (simp add: FLASH_MAX_CLEARED_PAGES_def)
qed

lemma uf2_inv_reset: "uf2_inv env (vd_reset s)"
  by (simp add: uf2_inv_def vd_reset_def)

lemma start_uf2_transfer_inv:
  assumes "start_uf2_transfer env ram fa b s = (fits, s1)" "rp2040_map (plat env)" "ram \<or> fa"
  shows "uf2_inv env s1 \<and> (fits \<longrightarrow> num_blocks (the_uf2_info s1) = uf2_num_blocks b \<and> received s1 = {})"
proof -
  let ?base = "if ram then uf2_valid_ram_blocks env else FLASH_VALID_BLOCKS_BASE (plat env)"
  let ?max = "if ram then 1280 else FLASH_MAX_VALID_BLOCKS (plat env)"
  let ?m = "clear_bitset ?base ?max (mem s)"
  let ?m1 = "if fa then clear_bitset (FLASH_CLEARED_PAGES_BASE (plat env)) (FLASH_MAX_CLEARED_PAGES (plat env)) ?m else ?m"
  have max: "32 dvd unat ?max" using flash_bitmap_sizes [OF assms(2)] by simp
  have clear: "\<not> bitset_test ?m1 ?base n" if "n < ?max" for n
  proof (rule bitset_test_zero)
    fix j :: nat assume "j < 4"
    then have "?m (bit_word_addr ?base n + word_of_nat j) = 0"
      using clear_bitset_zero [OF max, of n j ?base "mem s"] that by (simp add: word_less_nat_alt)
    then show "?m1 (bit_word_addr ?base n + word_of_nat j) = 0" by (simp add: clear_bitset_mono)
  qed
  show ?thesis
  proof (cases fits)
    case False
    then show ?thesis
      using assms(1) by (auto simp: start_uf2_transfer_def Let_def uf2_inv_def zero_uf2_info_def split: if_splits)
  next
    case True
    then have s1: "s1 = s\<lparr>mem := ?m1, the_uf2_info := the_uf2_info s1\<rparr>" "num_blocks (the_uf2_info s1) = uf2_num_blocks b"
      "uf2_num_blocks b \<le> ?max" "valid_blocks (the_uf2_info s1) = ?base" "max_valid_blocks (the_uf2_info s1) = ?max"
      "uf2_ram (the_uf2_info s1) = ram" "valid_block_count (the_uf2_info s1) = 0"
      "\<not> ram \<longrightarrow> cleared_pages (the_uf2_info s1) = FLASH_CLEARED_PAGES_BASE (plat env)"
      using assms(1,3)
      by (auto simp: start_uf2_transfer_def Let_def zero_uf2_info_def MAX_RAM_UF2_BLOCKS_def split: if_splits)
    have "mem s1 = ?m1" by (subst s1(1)) simp
    then have "received s1 = {}" using clear s1(2,3,4) by (auto simp: received_def)
    then show ?thesis using s1 by (auto simp: uf2_inv_def Let_def)
  qed
qed

lemma update_current_uf2_info_inv:
  assumes "update_current_uf2_info env buf b token s = (ok, s1)" "uf2_inv env s" "rp2040_map (plat env)"
  shows "uf2_inv env s1 \<and> (ok \<longrightarrow> block_no (the_uf2_info s1) < num_blocks (the_uf2_info s1))"
proof -
  have prep: "uf2_inv env (k\<lparr>the_uf2_info := prepare_next_task env buf b ty token (the_uf2_info k)\<rparr>) = uf2_inv env k" for k ty
    by (simp add: uf2_inv_def received_def prepare_next_task_def Let_def)
  let ?ram = "uf2_addr_ram (plat env) b" and ?fa = "uf2_addr_flash (plat env) b"
  let ?renew = "num_blocks (the_uf2_info s) \<noteq> uf2_num_blocks b"
  obtain fits k where k: "(if ?renew then start_uf2_transfer env ?ram ?fa b s else (True, s)) = (fits, k)"
    by (rule prod.exhaust)
  have inv: "uf2_inv env k" "fits \<longrightarrow> num_blocks (the_uf2_info k) = uf2_num_blocks b" if "?ram \<or> ?fa"
    using k start_uf2_transfer_inv [OF _ assms(3) that, of b s fits k] assms(2) by (auto split: if_splits)
  show ?thesis
    using assms(1) inv uf2_inv_reset [of env]
    unfolding update_current_uf2_info_def Let_def k
    by (auto simp: prep split: if_splits) (auto simp: prepare_next_task_def)
qed

text \<open>Marking an erased sector does not touch the bitmap of received blocks.\<close>

lemma bitset_test_other_base:
  assumes "unat base + 4 * (unat n div 32) + 4 \<le> unat base'" "unat base' + 4 * (unat k div 32) + 4 \<le> 2 ^ 32"
  shows "bitset_test (bitset_set m base' k) base n = bitset_test m base n"
proof -
  obtain a b where ab: "unat n div 32 = a" "unat k div 32 = b" by blast
  let ?x = "bit_word_addr base n" and ?y = "bit_word_addr base' k"
  note le = assms [unfolded ab]
  have x: "unat ?x = unat base + 4 * a"
    unfolding bit_word_addr_def using le unat_bit_word(1) [of n] ab by (subst unat_plus_noof) simp_all
  have y: "unat ?y = unat base' + 4 * b"
    unfolding bit_word_addr_def using le unat_bit_word(1) [of k] ab by (subst unat_plus_noof) simp_all
  have "\<not> unat ?y \<le> unat ?x" using x y le by linarith
  then have "unat (?x - ?y) = unat ?x + 2 ^ 32 - unat ?y" using unat_sub_if' [of ?x ?y] by simp
  then have "4 \<le> unat (?x - ?y)" "unat (?x - ?y) + 4 \<le> 2 ^ 32" using x y le by linarith+
  then show ?thesis by (simp add: bitset_test_bit bitset_set_def Let_def rd32_wr32_other)
qed

lemma erase_on_first_write_simps [simp]:
  "valid_blocks (the_uf2_info (erase_on_first_write s)) = valid_blocks (the_uf2_info s)"
  "max_valid_blocks (the_uf2_info (erase_on_first_write s)) = max_valid_blocks (the_uf2_info s)"
  "cleared_pages (the_uf2_info (erase_on_first_write s)) = cleared_pages (the_uf2_info s)"
  "num_blocks (the_uf2_info (erase_on_first_write s)) = num_blocks (the_uf2_info s)"
  "valid_block_count (the_uf2_info (erase_on_first_write s)) = valid_block_count (the_uf2_info s)"
  "block_no (the_uf2_info (erase_on_first_write s)) = block_no (the_uf2_info s)"
  "uf2_ram (the_uf2_info (erase_on_first_write s)) = uf2_ram (the_uf2_info s)"
  by (simp_all add: erase_on_first_write_def Let_def)

lemma erase_on_first_write_valid_bits:
  assumes "unat (valid_blocks (the_uf2_info s)) + 4 * (unat n div 32) + 4 \<le> unat (cleared_pages (the_uf2_info s))"
    "unat (cleared_pages (the_uf2_info s)) + 4 * (unat (block_no (the_uf2_info s) * 256 div FLASH_SECTOR_ERASE_SIZE) div 32) + 4
       \<le> 2 ^ 32"
  shows "bitset_test (mem (erase_on_first_write s)) (valid_blocks (the_uf2_info s)) n =
    bitset_test (mem s) (valid_blocks (the_uf2_info s)) n"
  using bitset_test_other_base [OF assms] by (simp add: erase_on_first_write_def Let_def)


text \<open>The two bitmaps of a flash download do not overlap, for the blocks a download can have.\<close>

lemma flash_bitmaps_apart:
  assumes "rp2040_map (plat env)" "uf2_inv env s" "\<not> uf2_ram (the_uf2_info s)"
    "n < num_blocks (the_uf2_info s)" "block_no (the_uf2_info s) < num_blocks (the_uf2_info s)"
  shows "bitset_test (mem (erase_on_first_write s)) (valid_blocks (the_uf2_info s)) n =
    bitset_test (mem s) (valid_blocks (the_uf2_info s)) n"
proof (rule erase_on_first_write_valid_bits)
  let ?u = "the_uf2_info s"
  have nb: "num_blocks ?u \<noteq> 0" using assms(4) by auto
  then have u: "valid_blocks ?u = 0x15000000" "cleared_pages ?u = 0x15003c3c" "num_blocks ?u \<le> 123360"
    using assms(2,3) flash_bitmap_sizes [OF assms(1)] by (auto simp: uf2_inv_def Let_def)
  have "unat (num_blocks ?u) \<le> 123360" using u(3) by (simp add: word_le_nat_alt)
  then have n: "unat n < 123360" and b: "unat (block_no ?u) < 123360"
    using assms(4,5) by (simp_all add: word_less_nat_alt)
  have "unat n div 32 \<le> 3854" using n by linarith
  then show "unat (valid_blocks ?u) + 4 * (unat n div 32) + 4 \<le> unat (cleared_pages ?u)" using u by simp
  have "unat (block_no ?u * 256) = unat (block_no ?u) * 256" using b by (simp add: unat_word_ariths)
  then have "unat (block_no ?u * 256 div 4096) = unat (block_no ?u) * 256 div 4096" by (simp add: unat_div_distrib)
  moreover have "unat (block_no ?u) * 256 div 4096 div 32 \<le> 123360" using b by linarith
  ultimately show "unat (cleared_pages ?u) + 4 * (unat (block_no ?u * 256 div FLASH_SECTOR_ERASE_SIZE) div 32) + 4 \<le> 2 ^ 32"
    using u by simp
qed

lemma write_uf2_page_inv:
  assumes "write_uf2_page env s = (q, s1)" "uf2_inv env s" "rp2040_map (plat env)"
    "block_no (the_uf2_info s) < num_blocks (the_uf2_info s)"
  shows "uf2_inv env s1"
proof -
  let ?u = "the_uf2_info s"
  let ?l = "update_lowest (plat env) (transfer_addr (next_task ?u)) (lowest_addr ?u)"
  define k where "k = s\<lparr>the_uf2_info := ?u\<lparr>lowest_addr := ?l\<rparr>\<rparr>"
  define e where "e = (if uf2_ram ?u then k else erase_on_first_write k)"
  have kinv: "uf2_inv env k" using assms(2) by (simp add: k_def uf2_inv_def received_def Let_def)
  have e: "valid_blocks (the_uf2_info e) = valid_blocks ?u" "max_valid_blocks (the_uf2_info e) = max_valid_blocks ?u"
    "cleared_pages (the_uf2_info e) = cleared_pages ?u" "num_blocks (the_uf2_info e) = num_blocks ?u"
    "valid_block_count (the_uf2_info e) = valid_block_count ?u" "block_no (the_uf2_info e) = block_no ?u"
    "uf2_ram (the_uf2_info e) = uf2_ram ?u"
    by (simp_all add: e_def k_def)
  have bits: "bitset_test (mem e) (valid_blocks ?u) n = bitset_test (mem s) (valid_blocks ?u) n" if "n < num_blocks ?u" for n
    using flash_bitmaps_apart [OF assms(3) kinv, of n] that assms(4) by (simp add: e_def k_def)
  show ?thesis
  proof (cases "bitset_test (mem s) (valid_blocks ?u) (block_no ?u)")
    case True
    then show ?thesis using assms(1,2) by (simp add: write_uf2_page_def Let_def)
  next
    case False
    have s1: "mem s1 = bitset_set (mem e) (valid_blocks ?u) (block_no ?u)"
      "the_uf2_info s1 = (the_uf2_info e)\<lparr>valid_block_count := valid_block_count ?u + 1, next_task := next_task (the_uf2_info s1)\<rparr>"
      using assms(1) False e
      by (auto simp: write_uf2_page_def Let_def k_def [symmetric] e_def [symmetric] queue_task_def set_queue_def)
    have "received s1 = {n. n < num_blocks ?u \<and> bitset_test (bitset_set (mem e) (valid_blocks ?u) (block_no ?u)) (valid_blocks ?u) n}"
      by (subst received_def, subst s1, subst s1, subst s1) (simp add: e)
    also have "card \<dots> = Suc (card {n. n < num_blocks ?u \<and> bitset_test (mem e) (valid_blocks ?u) n})"
      using False bits [OF assms(4)] assms(4) by (intro blocks.card_mark) simp_all
    also have "{n. n < num_blocks ?u \<and> bitset_test (mem e) (valid_blocks ?u) n} = received s"
      using bits by (auto simp: received_def)
    finally have card: "card (received s1) = Suc (card (received s))" .
    have u1: "num_blocks (the_uf2_info s1) = num_blocks ?u" "valid_block_count (the_uf2_info s1) = valid_block_count ?u + 1"
      "valid_blocks (the_uf2_info s1) = valid_blocks ?u" "max_valid_blocks (the_uf2_info s1) = max_valid_blocks ?u"
      "uf2_ram (the_uf2_info s1) = uf2_ram ?u" "cleared_pages (the_uf2_info s1) = cleared_pages ?u"
      by (subst s1(2), simp add: e)+
    have "num_blocks ?u \<noteq> 0" using assms(4) by auto
    then have inv: "num_blocks ?u \<le> max_valid_blocks ?u \<and>
           (if uf2_ram ?u then valid_blocks ?u = uf2_valid_ram_blocks env \<and> max_valid_blocks ?u = 1280
            else valid_blocks ?u = FLASH_VALID_BLOCKS_BASE (plat env) \<and>
                 max_valid_blocks ?u = FLASH_MAX_VALID_BLOCKS (plat env) \<and>
                 cleared_pages ?u = FLASH_CLEARED_PAGES_BASE (plat env)) \<and>
           unat (valid_block_count ?u) = card (received s)"
      using assms(2) by (simp add: uf2_inv_def Let_def)
    have "card (received s1) \<le> unat (num_blocks ?u)"
      using blocks.card_marked_le [of "num_blocks ?u" "mem s1" "valid_blocks ?u"] by (simp add: received_def u1)
    then have "unat (valid_block_count ?u) + unat (1 :: u32) < 2 ^ LENGTH(32)"
      using card inv unat_u32_less [of "num_blocks ?u"] by (simp del: unat_u32_less)
    then have "unat (valid_block_count ?u + 1) = card (received s1)"
      using card inv by (subst unat_plus_noof) simp_all
    then show ?thesis using inv by (simp add: uf2_inv_def Let_def u1)
  qed
qed

lemma vd_write_block_inv:
  assumes "vd_write_block env token lba buf s = (q, s1)" "uf2_inv env s" "rp2040_map (plat env)"
  shows "uf2_inv env s1"
proof -
  let ?b = "uf2_block_at (plat env) (mem s) buf"
  obtain ok k where k: "update_current_uf2_info env buf ?b token s = (ok, k)" by (rule prod.exhaust)
  have inv: "uf2_inv env k" "ok \<Longrightarrow> block_no (the_uf2_info k) < num_blocks (the_uf2_info k)"
    using update_current_uf2_info_inv [OF k assms(2,3)] by auto
  show ?thesis
    using assms(1,2) inv write_uf2_page_inv [of env k q s1] assms(3)
    by (auto simp: vd_write_block_def Let_def k split: if_splits bool.splits)
qed

text \<open>The number of blocks queued is the announced number only when every block has been queued.\<close>

lemma count_complete:
  assumes "uf2_inv env s" "num_blocks (the_uf2_info s) \<noteq> 0"
  shows "valid_block_count (the_uf2_info s) = num_blocks (the_uf2_info s) \<longleftrightarrow>
    (\<forall>n < num_blocks (the_uf2_info s). bitset_test (mem s) (valid_blocks (the_uf2_info s)) n)"
  using assms blocks.all_marked [of "num_blocks (the_uf2_info s)" "mem s" "valid_blocks (the_uf2_info s)"]
  by (simp add: uf2_inv_def Let_def received_def word_unat_eq_iff)


subsection \<open>What a block write queues\<close>

text \<open>The task of a block, before the bits for the erase are added.\<close>

definition block_task :: "('d, 'e) vd_env_scheme \<Rightarrow> u32 \<Rightarrow> uf2_block \<Rightarrow> u32 \<Rightarrow> async_task" where
  "block_task env buf b token =
     zero_task\<lparr>task_token := token, transfer_addr := target_addr b, task_data := buf + offsetof_uf2_data (plat env),
       callback := Write_uf2_page_complete, data_length := 256, task_source := TASK_SOURCE_VIRTUAL_DISK\<rparr>"

lemma start_uf2_transfer_keeps:
  "start_uf2_transfer env ram fa b s = (fits, j) \<Longrightarrow> virtual_disk_queue j = virtual_disk_queue s \<and>
    (fits \<longrightarrow> num_blocks (the_uf2_info j) = uf2_num_blocks b)"
  by (auto simp: start_uf2_transfer_def Let_def split: if_splits)

lemma update_current_uf2_info_cases:
  assumes "update_current_uf2_info env buf b token s = (True, k)"
  obtains ty j where "k = j\<lparr>the_uf2_info := prepare_next_task env buf b ty token (the_uf2_info j)\<rparr>"
    "ty = AT_WRITE \<or> ty = AT_WRITE OR AT_EXIT_XIP" "uf2_block_no b < uf2_num_blocks b"
    "uf2_ram (the_uf2_info j) = uf2_addr_ram (plat env) b" "uf2_addr_ram (plat env) b \<or> uf2_addr_flash (plat env) b"
    "virtual_disk_queue j = virtual_disk_queue s" "num_blocks (the_uf2_info j) = uf2_num_blocks b"
    "\<not> disable (virtual_disk_queue s)"
proof -
  let ?ram = "uf2_addr_ram (plat env) b" and ?fa = "uf2_addr_flash (plat env) b"
  obtain fits j where j: "(if num_blocks (the_uf2_info s) \<noteq> uf2_num_blocks b
      then start_uf2_transfer env ?ram ?fa b s else (True, s)) = (fits, j)" by (rule prod.exhaust)
  have keep: "virtual_disk_queue j = virtual_disk_queue s" "fits \<Longrightarrow> num_blocks (the_uf2_info j) = uf2_num_blocks b"
    using j start_uf2_transfer_keeps [of env ?ram ?fa b s fits j] by (auto split: if_splits)
  have "\<not> disable (virtual_disk_queue s) \<and> fits \<and> (?ram \<or> ?fa) \<and> ?ram = uf2_ram (the_uf2_info j) \<and>
      uf2_block_no b < uf2_num_blocks b \<and>
      k = j\<lparr>the_uf2_info := prepare_next_task env buf b
        (if num_blocks (the_uf2_info s) \<noteq> uf2_num_blocks b \<and> ?fa then AT_WRITE OR AT_EXIT_XIP else AT_WRITE)
        token (the_uf2_info j)\<rparr>"
    using assms unfolding update_current_uf2_info_def Let_def j by (simp split: if_split_asm) blast
  with keep show thesis by (intro that) (auto split: if_splits)
qed

lemma update_current_uf2_info_ok:
  assumes "update_current_uf2_info env buf b token s = (True, k)"
  shows "(\<exists>ty \<in> {AT_WRITE, AT_WRITE OR AT_EXIT_XIP}. next_task (the_uf2_info k) = block_task env buf b token\<lparr>task_type := ty\<rparr>) \<and>
    block_no (the_uf2_info k) = uf2_block_no b \<and> num_blocks (the_uf2_info k) = uf2_num_blocks b \<and>
    uf2_block_no b < uf2_num_blocks b \<and>
    uf2_ram (the_uf2_info k) = uf2_addr_ram (plat env) b \<and> (uf2_addr_ram (plat env) b \<or> uf2_addr_flash (plat env) b) \<and>
    \<not> disable (virtual_disk_queue k) \<and> virtual_disk_queue k = virtual_disk_queue s"
proof -
  obtain ty j where k: "k = j\<lparr>the_uf2_info := prepare_next_task env buf b ty token (the_uf2_info j)\<rparr>"
    and j: "ty = AT_WRITE \<or> ty = AT_WRITE OR AT_EXIT_XIP" "uf2_block_no b < uf2_num_blocks b"
    "uf2_ram (the_uf2_info j) = uf2_addr_ram (plat env) b" "uf2_addr_ram (plat env) b \<or> uf2_addr_flash (plat env) b"
    "virtual_disk_queue j = virtual_disk_queue s" "num_blocks (the_uf2_info j) = uf2_num_blocks b"
    "\<not> disable (virtual_disk_queue s)"
    by (rule update_current_uf2_info_cases [OF assms]) blast
  have "next_task (the_uf2_info k) = block_task env buf b token\<lparr>task_type := ty\<rparr>"
    by (simp add: k prepare_next_task_def reset_task_def block_task_def zero_task_def)
  then show ?thesis using j by (auto simp: k prepare_next_task_def)
qed

lemma update_current_uf2_info_queue:
  "update_current_uf2_info env buf b token s = (ok, k) \<Longrightarrow> virtual_disk_queue k = virtual_disk_queue s"
  by (auto simp: update_current_uf2_info_def Let_def vd_reset_def start_uf2_transfer_def split: if_splits)

lemma write_uf2_page_queue:
  assumes "write_uf2_page env k = (q, s1)"
  shows "if q then
      \<exists>t. queued_task (virtual_disk_queue s1) = t \<and> full (virtual_disk_queue s1) \<and> 
        (t = (next_task (the_uf2_info k))\<lparr>callback := Write_uf2_page_complete\<rparr> \<or>
         \<not> uf2_ram (the_uf2_info k) \<and>
         t = (next_task (the_uf2_info k))\<lparr>callback := Write_uf2_page_complete,
           erase_addr := transfer_addr (next_task (the_uf2_info k)) AND NOT (4096 - 1), erase_size := 4096,
           task_type := task_type (next_task (the_uf2_info k)) OR AT_FLASH_ERASE\<rparr>)
    else s1 = k"
  using assms
  by (auto simp: write_uf2_page_def Let_def queue_task_def set_queue_def get_queue_def erase_on_first_write_def
      split: if_splits)

lemma vd_write_block_queued:
  assumes "vd_write_block env token lba buf s = (True, s1)"
  shows "\<exists>b t. b = uf2_block_at (plat env) (mem s) buf \<and> t = queued_task (virtual_disk_queue s1) \<and>
    uf2_accepted (plat env) b \<and> full (virtual_disk_queue s1) \<and> uf2_block_no b < uf2_num_blocks b \<and>
    task_token t = token \<and> transfer_addr t = target_addr b \<and> task_data t = buf + offsetof_uf2_data (plat env) \<and>
    data_length t = 256 \<and> callback t = Write_uf2_page_complete \<and> task_source t = TASK_SOURCE_VIRTUAL_DISK \<and>
    \<not> check_last_mutation_source t \<and>
    (task_type t AND NOT (AT_EXIT_XIP OR AT_FLASH_ERASE) = AT_WRITE) \<and>
    (task_type t AND AT_FLASH_ERASE \<noteq> 0 \<longrightarrow>
       uf2_addr_flash (plat env) b \<and> erase_addr t = target_addr b AND NOT 4095 \<and> erase_size t = 4096)"
proof -
  let ?b = "uf2_block_at (plat env) (mem s) buf"
  obtain k where k: "uf2_accepted (plat env) ?b" "update_current_uf2_info env buf ?b token s = (True, k)"
    "write_uf2_page env k = (True, s1)"
    using assms by (auto simp: vd_write_block_def Let_def split: if_splits prod.splits bool.splits)
  note ok = update_current_uf2_info_ok [OF k(2)]
  obtain ty where ty: "ty = AT_WRITE \<or> ty = AT_WRITE OR AT_EXIT_XIP"
    "next_task (the_uf2_info k) = block_task env buf ?b token\<lparr>task_type := ty\<rparr>" using ok by blast
  have "full (virtual_disk_queue s1)" and t: "queued_task (virtual_disk_queue s1) = block_task env buf ?b token\<lparr>task_type := ty\<rparr> \<or>
      \<not> uf2_addr_ram (plat env) ?b \<and> queued_task (virtual_disk_queue s1) = block_task env buf ?b token\<lparr>task_type := ty OR AT_FLASH_ERASE,
         erase_addr := target_addr ?b AND NOT (4096 - 1), erase_size := 4096\<rparr>"
    using write_uf2_page_queue [OF k(3)] conjunct2 [OF ok] unfolding ty(2)
    by (simp_all add: block_task_def zero_task_def)
  moreover have "task_type t AND NOT (AT_EXIT_XIP OR AT_FLASH_ERASE) = AT_WRITE \<and> (task_type t AND AT_FLASH_ERASE \<noteq> 0 \<longrightarrow>
      uf2_addr_flash (plat env) ?b \<and> erase_addr t = target_addr ?b AND NOT 4095 \<and> erase_size t = 4096)"
    if "t = queued_task (virtual_disk_queue s1)" for t
    using t ty(1) conjunct2 [OF ok] that by (elim disjE conjE) (simp_all add: block_task_def zero_task_def)
  ultimately show ?thesis
    using k(1) conjunct2 [OF ok] by (elim disjE) (simp_all add: block_task_def zero_task_def)
qed

lemma vd_write_block_not_queued:
  "vd_write_block env token lba buf s = (False, s1) \<Longrightarrow> virtual_disk_queue s1 = virtual_disk_queue s"
  using write_uf2_page_queue [of env _ False s1] update_current_uf2_info_queue [of env buf _ token s]
  by (fastforce simp: vd_write_block_def Let_def split: if_splits prod.splits bool.splits)

text \<open>A block that is queued was not received before, and is received afterwards.\<close>

lemma write_uf2_page_new:
  assumes "write_uf2_page env k = (True, s1)" "uf2_inv env k" "rp2040_map (plat env)"
    "block_no (the_uf2_info k) < num_blocks (the_uf2_info k)"
  shows "block_no (the_uf2_info k) \<notin> received k \<and> received s1 = insert (block_no (the_uf2_info k)) (received k)"
proof -
  let ?u = "the_uf2_info k"
  define j where "j = k\<lparr>the_uf2_info := ?u\<lparr>lowest_addr :=
    update_lowest (plat env) (transfer_addr (next_task ?u)) (lowest_addr ?u)\<rparr>\<rparr>"
  define e where "e = (if uf2_ram ?u then j else erase_on_first_write j)"
  have new: "\<not> bitset_test (mem k) (valid_blocks ?u) (block_no ?u)"
    using assms(1) by (auto simp: write_uf2_page_def Let_def split: if_splits)
  have "uf2_inv env j" using assms(2) by (simp add: j_def uf2_inv_def received_def Let_def)
  then have bits: "bitset_test (mem e) (valid_blocks ?u) n = bitset_test (mem k) (valid_blocks ?u) n"
    if "n < num_blocks ?u" for n
    using flash_bitmaps_apart [OF assms(3), of j n] that assms(4) by (simp add: e_def j_def)
  have e: "valid_blocks (the_uf2_info e) = valid_blocks ?u" "num_blocks (the_uf2_info e) = num_blocks ?u"
    "block_no (the_uf2_info e) = block_no ?u" by (simp_all add: e_def j_def)
  have "mem s1 = bitset_set (mem e) (valid_blocks ?u) (block_no ?u) \<and>
      valid_blocks (the_uf2_info s1) = valid_blocks ?u \<and> num_blocks (the_uf2_info s1) = num_blocks ?u"
    using assms(1) new e
    by (auto simp: write_uf2_page_def Let_def j_def [symmetric] e_def [symmetric] queue_task_def set_queue_def)
  then show ?thesis
    using new bits assms(4) by (auto simp: received_def bitset_test_set)
qed

lemma block_queued_once:
  assumes "vd_write_block env token lba buf s = (True, s1)" "uf2_inv env s" "rp2040_map (plat env)"
  shows "let b = uf2_block_at (plat env) (mem s) buf;
             old = (if num_blocks (the_uf2_info s) = uf2_num_blocks b then received s else {})
         in uf2_block_no b \<notin> old \<and> received s1 = insert (uf2_block_no b) old"
proof -
  let ?b = "uf2_block_at (plat env) (mem s) buf"
  obtain k where k: "update_current_uf2_info env buf ?b token s = (True, k)" "write_uf2_page env k = (True, s1)"
    using assms(1) by (auto simp: vd_write_block_def Let_def split: if_splits prod.splits bool.splits)
  note inv = update_current_uf2_info_inv [OF k(1) assms(2,3)]
  have "received k = (if num_blocks (the_uf2_info s) = uf2_num_blocks ?b then received s else {})"
  proof -
    let ?ram = "uf2_addr_ram (plat env) ?b" and ?fa = "uf2_addr_flash (plat env) ?b"
    obtain fits j where j: "(if num_blocks (the_uf2_info s) \<noteq> uf2_num_blocks ?b
        then start_uf2_transfer env ?ram ?fa ?b s else (True, s)) = (fits, j)" by (rule prod.exhaust)
    have "fits \<and> (\<exists>ty. k = j\<lparr>the_uf2_info := prepare_next_task env buf ?b ty token (the_uf2_info j)\<rparr>) \<and> (?ram \<or> ?fa)"
      using k(1) unfolding update_current_uf2_info_def Let_def j by (auto split: if_splits)
    then show ?thesis
      using start_uf2_transfer_inv [of env ?ram ?fa ?b s fits j] assms(3) j
      by (auto simp: received_def prepare_next_task_def split: if_splits)
  qed
  then show ?thesis
    using write_uf2_page_new [OF k(2)] inv update_current_uf2_info_ok [OF k(1)] assms(3) by simp
qed

subsection \<open>Runs of a download\<close>

text \<open>
  The states that block writes, resets and the arrival of data in buffers outside the bitmap lead to.
\<close>

inductive vd_run :: "('d, 'e) vd_env_scheme \<Rightarrow> ('d, 'z) vd_state_scheme \<Rightarrow> bool" for env where
  fresh: "num_blocks (the_uf2_info s) = 0 \<Longrightarrow> vd_run env s"
| written: "vd_run env s \<Longrightarrow> vd_run env (snd (vd_write_block env token lba buf s))"
| reset: "vd_run env s \<Longrightarrow> vd_run env (vd_reset s)"
| arrive: "vd_run env s \<Longrightarrow>
    \<forall>n < num_blocks (the_uf2_info s). bitset_test m (valid_blocks (the_uf2_info s)) n =
      bitset_test (mem s) (valid_blocks (the_uf2_info s)) n \<Longrightarrow> vd_run env (s\<lparr>mem := m\<rparr>)"

lemma uf2_inv_run:
  assumes "vd_run env s" "rp2040_map (plat env)"
  shows "uf2_inv env s"
  using assms(1)
proof induction
  case (written s token lba buf)
  then show ?case using vd_write_block_inv [OF _ written.IH assms(2)] by (metis prod.collapse)
next
  case (arrive s m)
  then have "received (s\<lparr>mem := m\<rparr>) = received s" by (auto simp: received_def)
  then show ?case using arrive.IH by (simp add: uf2_inv_def Let_def)
qed (simp_all add: uf2_inv_reset, simp add: uf2_inv_def)


text \<open>A block of a new download that fits is queued.\<close>

lemma new_download_queued:
  assumes "b = uf2_block_at (plat env) (mem s) buf" "uf2_accepted (plat env) b" "rp2040_map (plat env)"
    "num_blocks (the_uf2_info s) \<noteq> uf2_num_blocks b" "\<not> disable (virtual_disk_queue s)"
    "uf2_block_no b < uf2_num_blocks b"
    "uf2_addr_ram (plat env) b \<or> uf2_addr_flash (plat env) b"
    "uf2_num_blocks b \<le> (if uf2_addr_ram (plat env) b then 1280 else 123360)"
    "uf2_addr_flash (plat env) b \<longrightarrow> target_addr b AND 255 = 0"
  shows "fst (vd_write_block env token lba buf s)"
proof -
  let ?ram = "uf2_addr_ram (plat env) b" and ?fa = "uf2_addr_flash (plat env) b"
  obtain fits j where j: "start_uf2_transfer env ?ram ?fa b s = (fits, j)" by (rule prod.exhaust)
  have f: "fits" "uf2_ram (the_uf2_info j) = ?ram"
    using j assms(8) flash_bitmap_sizes [OF assms(3)]
    by (auto simp: start_uf2_transfer_def Let_def zero_uf2_info_def MAX_RAM_UF2_BLOCKS_def split: if_splits)
  have j2: "received j = {}" "num_blocks (the_uf2_info j) = uf2_num_blocks b"
    using start_uf2_transfer_inv [OF j assms(3)] f assms(7) by auto
  have nz: "uf2_num_blocks b \<noteq> 0" using assms(6) by auto
  define k where "k = j\<lparr>the_uf2_info := prepare_next_task env buf b
    (if ?fa then AT_WRITE OR AT_EXIT_XIP else AT_WRITE) token (the_uf2_info j)\<rparr>"
  have ok: "\<not> (\<not> (uf2_num_blocks b \<noteq> 0 \<and> (?ram \<or> ?fa)) \<or> ?fa \<and> target_addr b AND 255 \<noteq> 0)"
    "\<not> ?ram \<noteq> uf2_ram (the_uf2_info j)" using nz f(2) assms(7,9) by auto
  have "update_current_uf2_info env buf b token s = (True, k)"
    unfolding update_current_uf2_info_def Let_def if_not_P [OF ok(1)]
    using j f(1) ok(2) assms(4-6) by (simp add: k_def)
  moreover have "received k = {}" using j2(1) by (simp add: k_def received_def prepare_next_task_def)
  ultimately have k: "update_current_uf2_info env buf b token s = (True, k)" "received k = {}" by blast+
  have "\<not> bitset_test (mem k) (valid_blocks (the_uf2_info k)) (block_no (the_uf2_info k))"
    using k(2) update_current_uf2_info_ok [OF k(1)] by (auto simp: received_def)
  then have "fst (write_uf2_page env k)" by (auto simp: write_uf2_page_def Let_def split: prod.split)
  then show ?thesis using k(1) assms(1,2) by (simp add: vd_write_block_def Let_def)
qed


subsection \<open>Properties of downloads\<close>



text \<open>
  C24. A sector write that starts an asynchronous operation was a valid UF2 block for this chip,
  and the task it queues writes its 256 data bytes to its target address; the task erases
  nothing but the 4 KiB sector of a flash target. The last mutation source is never checked
  for these writes. A sector write that starts none leaves the queue alone.
\<close>

theorem uf2_block_task:
  assumes "vd_write_block env token lba buf s = (async, s1)"
  shows "if async then
      \<exists>b t. b = uf2_block_at (plat env) (mem s) buf \<and> t = queued_task (virtual_disk_queue s1) \<and>
        uf2_accepted (plat env) b \<and> full (virtual_disk_queue s1) \<and> uf2_block_no b < uf2_num_blocks b \<and>
        task_token t = token \<and> transfer_addr t = target_addr b \<and> task_data t = buf + offsetof_uf2_data (plat env) \<and>
        data_length t = 256 \<and> callback t = Write_uf2_page_complete \<and> task_source t = TASK_SOURCE_VIRTUAL_DISK \<and>
        \<not> check_last_mutation_source t \<and>
        (task_type t AND NOT (AT_EXIT_XIP OR AT_FLASH_ERASE) = AT_WRITE) \<and>
        (task_type t AND AT_FLASH_ERASE \<noteq> 0 \<longrightarrow>
           uf2_addr_flash (plat env) b \<and> erase_addr t = target_addr b AND NOT 4095 \<and> erase_size t = 4096)
    else virtual_disk_queue s1 = virtual_disk_queue s"
  using vd_write_block_queued [of env token lba buf s s1] vd_write_block_not_queued [of env token lba buf s s1] assms
  by (cases async) simp_all


text \<open>
  A new download is taken up by any of its blocks that is valid, whose target is RAM or page
  aligned flash, and whose size fits the bitmap.
\<close>

theorem uf2_new_download_accepted:
  assumes "b = uf2_block_at (plat env) (mem s) buf" "uf2_accepted (plat env) b" "rp2040_map (plat env)"
    "num_blocks (the_uf2_info s) \<noteq> uf2_num_blocks b" "\<not> disable (virtual_disk_queue s)"
    "uf2_block_no b < uf2_num_blocks b"
    "uf2_addr_ram (plat env) b \<or> uf2_addr_flash (plat env) b"
    "uf2_num_blocks b \<le> (if uf2_addr_ram (plat env) b then 1280 else 123360)"
    "uf2_addr_flash (plat env) b \<longrightarrow> target_addr b AND 255 = 0"
  shows "fst (vd_write_block env token lba buf s)"
  using assms by (rule new_download_queued)


subsection \<open>The volume as a host sees it\<close>

text \<open>The fields a host reads from the boot sector to find its way in a FAT16 volume.\<close>

definition bpb16 :: "u8 list \<Rightarrow> nat \<Rightarrow> nat" where
  "bpb16 bs off = unat (bs ! off) + 256 * unat (bs ! (off + 1))"

definition fat16_root_lba :: "u8 list \<Rightarrow> nat" where
  "fat16_root_lba bs = bpb16 bs 14 + unat (bs ! 16) * bpb16 bs 22"

definition fat16_cluster_lba :: "u8 list \<Rightarrow> nat \<Rightarrow> nat" where
  "fat16_cluster_lba bs n = fat16_root_lba bs + bpb16 bs 17 * 32 div bpb16 bs 11 + (n - 2) * unat (bs ! 13)"

definition read_sector :: "('d, 'e) vd_env_scheme \<Rightarrow> ('d, 'z) vd_state_scheme \<Rightarrow> u32 \<Rightarrow> nat \<Rightarrow> u8 list" where
  "read_sector env s buf lba = mem_read (mem (snd (vd_read_block env 0 (word_of_nat lba) buf s))) buf 512"

lemma boot_sector_bytes:
  "boot_sector =
    [235, 60, 144, 77, 83, 87, 73, 78, 52, 46, 49, 0, 2, 8, 1, 0, 2, 0, 2, 0,
     0, 248, 129, 0, 1, 0, 1, 0, 1, 0, 0, 0, 255, 255, 3, 0, 0, 0, 41, 0, 0, 0,
     0, 82, 80, 73, 45, 82, 80, 50, 32, 32, 32, 32, 70, 65, 84, 49, 54, 32, 32,
     32, 235, 254]"
  by (simp add: boot_sector_def lsb_hword_def lsb_word_def le16_def le32_def ascii_def
    CLUSTER_SIZE_def FAT_COUNT_def MAX_ROOT_DIRECTORY_ENTRIES_def VOLUME_SECTOR_COUNT_def SECTOR_COUNT_def VOLUME_SIZE_def
    MEDIA_TYPE_def SECTORS_PER_FAT_def CLUSTER_COUNT_def)

lemma volume_sizes:
  "SECTORS_PER_FAT = 129" "FAT_COUNT = 2" "ROOT_DIRECTORY_SECTORS = 32" "CLUSTER_SHIFT = 3"
  by (simp_all add: SECTORS_PER_FAT_def CLUSTER_COUNT_def VOLUME_SIZE_def CLUSTER_SIZE_def FAT_COUNT_def
      ROOT_DIRECTORY_SECTORS_def MAX_ROOT_DIRECTORY_ENTRIES_def CLUSTER_SHIFT_def)

lemma length_put_at [simp]: "off + length bs \<le> length buf \<Longrightarrow> length (put_at off bs buf) = length buf"
  by (simp add: put_at_def)

lemma read_boot_sector:
  "read_sector env s buf 1 = volume_boot_sector (fst (msc_get_serial_number32 s)) (replicate 512 0)"
proof -
  have l: "length (volume_boot_sector sn (replicate 512 0)) = 512" for sn
    by (simp add: volume_boot_sector_def boot_sector_bytes)
  show ?thesis
    by (simp add: read_sector_def vd_read_block_def Let_def mem_read_write_same [OF l] split: prod.split)
qed

lemma boot_sector_fields:
  assumes "bs = volume_boot_sector sn (replicate 512 0)"
  shows "bpb16 bs 11 = 512" "unat (bs ! 13) = 8" "bpb16 bs 14 = 1" "unat (bs ! 16) = 2" "bpb16 bs 17 = 512"
    "bpb16 bs 22 = 129"
  by (simp_all add: assms volume_boot_sector_def put_at_def boot_sector_bytes bpb16_def le32_def)

lemma read_plain_sector:
  assumes "length (plain_sector env (serial_number_string s) (lba - 2) (replicate 512 0)) = 512" "2 \<le> lba" "lba < 2 ^ 32"
  shows "read_sector env s buf lba = plain_sector env (serial_number_string s) (lba - 2) (replicate 512 0)"
proof -
  have u: "unat (word_of_nat lba :: u32) = lba" using assms(3) by (intro unat_of_nat_small) simp
  have one: "(1 :: u32) \<le> word_of_nat lba" "(2 :: u32) \<le> word_of_nat lba" using u assms(2) by (simp_all add: word_le_nat_alt)
  have "unat (word_of_nat lba - 1 :: u32) = lba - 1" "unat (word_of_nat lba - 2 :: u32) = lba - 2"
    using unat_minus_le [OF one(1)] unat_minus_le [OF one(2)] u by simp_all
  moreover from this have ne: "word_of_nat lba \<noteq> (0 :: u32)" "word_of_nat lba - 1 \<noteq> (0 :: u32)"
    using u assms(2) by (auto simp: word_unat_eq_iff)
  ultimately have "unat (word_of_nat lba - 1 - 1 :: u32) = lba - 2" by simp
  then show ?thesis
    using ne by (simp add: read_sector_def vd_read_block_def mem_read_write_same [OF assms(1)])
qed

lemma fat_mirror_first: "k < 129 \<Longrightarrow> fat_mirror k = k"
  by (simp add: fat_mirror.simps [of k] volume_sizes)

lemma fat_mirror_second: "k < 129 \<Longrightarrow> fat_mirror (k + 129) = k"
  by (simp add: fat_mirror.simps [of "k + 129"] volume_sizes fat_mirror_first)

lemma length_fat_sector: "length (fat_sector k (replicate 512 0)) = 512"
  by (simp add: fat_sector_def)

lemma fats_are_copies:
  assumes "k < 129"
  shows "read_sector env s buf (2 + k) = fat_sector k (replicate 512 0)"
    "read_sector env s buf (2 + 129 + k) = fat_sector k (replicate 512 0)"
proof -
  have second: "fat_sector (k + 129) z = fat_sector k z" for z
    using assms by (simp add: fat_sector_def fat_mirror_first fat_mirror_second)
  show "read_sector env s buf (2 + k) = fat_sector k (replicate 512 0)"
    using assms by (subst read_plain_sector) (simp_all add: plain_sector_def volume_sizes length_fat_sector)
  show "read_sector env s buf (2 + 129 + k) = fat_sector k (replicate 512 0)"
    using assms second [of "replicate 512 0"]
    by (subst read_plain_sector) (simp_all add: plain_sector_def volume_sizes length_fat_sector add.commute)
qed

lemma length_dir_entry_bytes: "length (de_name e) = 11 \<Longrightarrow> length (dir_entry_bytes e) = 32"
  by (simp add: dir_entry_bytes_def)

lemma read_root_directory:
  "read_sector env s buf 260 = root_directory_sector env 0 (replicate 512 0) \<and>
   take 64 (drop 32 (read_sector env s buf 260)) =
     dir_entry_bytes (init_dir_entry (ascii ''INDEX   HTM'') 2 (welcome_html_len env) zero_dir_entry) @
     dir_entry_bytes (init_dir_entry (ascii ''INFO_UF2TXT'') 3 (length (info_uf2_txt env)) zero_dir_entry)"
proof -
  define a where "a = dir_entry_bytes (zero_dir_entry\<lparr>de_name := take 11 (drop BOOT_OFFSET_LABEL boot_sector), de_attr := 0x08 OR 0x20\<rparr>)"
  define b where "b = dir_entry_bytes (init_dir_entry (ascii ''INDEX   HTM'') 2 (welcome_html_len env) zero_dir_entry)"
  define c where "c = dir_entry_bytes (init_dir_entry (ascii ''INFO_UF2TXT'') 3 (length (info_uf2_txt env)) zero_dir_entry)"
  have len: "length a = 32" "length b = 32" "length c = 32"
    by (simp_all add: a_def b_def c_def dir_entry_bytes_def init_dir_entry_def zero_dir_entry_def boot_sector_bytes ascii_def)
  have root: "root_directory_sector env 0 z = put_at 0 (a @ b @ c) z" for z
    by (simp add: root_directory_sector_def Let_def a_def b_def c_def)
  then have "read_sector env s buf 260 = root_directory_sector env 0 (replicate 512 0)"
    by (subst read_plain_sector) (simp_all add: plain_sector_def volume_sizes len)
  then show ?thesis unfolding b_def [symmetric] c_def [symmetric] using len by (simp add: root put_at_def)
qed

lemma read_info_uf2:
  assumes "length (info_uf2_txt env) \<le> 512"
  shows "take (length (info_uf2_txt env)) (read_sector env s buf 300) = info_uf2_txt env"
  using assms
  by (subst read_plain_sector) (simp_all add: plain_sector_def volume_sizes data_sector_def Let_def put_at_def)



subsection \<open>Concrete downloads\<close>

definition example_vd_env :: "unit vd_env" where
  "example_vd_env = boot_env.extend example_env
     \<lparr>uf2_valid_ram_blocks = 0x50100000, welcome_html_z = [], welcome_html_len = 200, welcome_html_version_offset_1 = 10,
      welcome_html_version_offset_2 = 30, info_uf2_txt = ascii ''UF2 Bootloader v1.0''\<rparr>"

text \<open>A sector buffer at 0x3000 with a block of a download of one block to RAM.\<close>

definition example_uf2_memory :: memory where
  "example_uf2_memory =
     wr32 (wr32 (wr32 (wr32 (wr32 (wr32 (wr32 (wr32 (wr32 (\<lambda>_. 0) 0x3000 0x0A324655) 0x3004 0x9E5D5157) 0x3008 0x2000)
       0x300c 0x20000000) 0x3010 256) 0x3014 0) 0x3018 1) 0x301c 0xe48bff56) 0x31fc 0x0AB16F30"

definition example_vd_state :: "unit vd_state" where
  "example_vd_state = async_state.extend (example_state\<lparr>mem := example_uf2_memory\<rparr>)
     \<lparr>the_uf2_info = zero_uf2_info, serial_number32 = 0, serial_number_valid = False, timerawl = 77,
      serial_number_string = replicate 12 48\<rparr>"

lemma example_vd_simps [simp]:
  "plat example_vd_env = rp2040" "mem example_vd_state = example_uf2_memory" "rt example_vd_env = example_runtime"
  "the_uf2_info example_vd_state = zero_uf2_info" "\<not> disable (virtual_disk_queue example_vd_state)"
  "info_uf2_txt example_vd_env = ascii ''UF2 Bootloader v1.0''"
  by (simp_all add: example_vd_env_def example_vd_state_def example_env_def example_state_def boot_env.extend_def
      async_state.extend_def)

lemma example_block:
  "uf2_block_at rp2040 example_uf2_memory 0x3000 =
    \<lparr>magic_start0 = 0x0A324655, magic_start1 = 0x9E5D5157, uf2_flags = 0x2000, target_addr = 0x20000000,
     payload_size = 256, uf2_block_no = 0, uf2_num_blocks = 1, file_size = 0xe48bff56, magic_end = 0x0AB16F30\<rparr>"
  by (simp add: rp2040_def example_uf2_memory_def memsimps)

lemma example_block_ok:
  "uf2_accepted rp2040 (uf2_block_at rp2040 example_uf2_memory 0x3000)"
  "uf2_addr_ram rp2040 (uf2_block_at rp2040 example_uf2_memory 0x3000)"
  "\<not> uf2_addr_flash rp2040 (uf2_block_at rp2040 example_uf2_memory 0x3000)"
  unfolding example_block
  by (simp_all add: uf2_accepted_def uf2_addr_ram_def uf2_addr_flash_def is_address_ram_def is_address_flash_def rp2040_def)

lemma example_fresh: "vd_run example_vd_env example_vd_state"
  by (rule vd_run.fresh) (simp add: zero_uf2_info_def)

lemma example_download_queued: "fst (vd_write_block example_vd_env 9 100 0x3000 example_vd_state)"
  by (rule new_download_queued [OF refl])
    (simp_all add: example_block_ok rp2040_map_rp2040, simp_all add: example_block zero_uf2_info_def)

definition example_after :: "unit vd_state" where
  "example_after = snd (vd_write_block example_vd_env 9 100 0x3000 example_vd_state)"

lemma example_step: "vd_write_block example_vd_env 9 100 0x3000 example_vd_state = (True, example_after)"
  using example_download_queued by (simp add: example_after_def prod_eq_iff)

lemma example_after_run: "vd_run example_vd_env example_after"
  unfolding example_after_def by (rule vd_run.written [OF example_fresh])

lemma write_uf2_page_info:
  assumes "write_uf2_page env k = (True, s1)"
  shows "num_blocks (the_uf2_info s1) = num_blocks (the_uf2_info k) \<and> uf2_ram (the_uf2_info s1) = uf2_ram (the_uf2_info k) \<and>
    uf2_token (the_uf2_info s1) = uf2_token (the_uf2_info k) \<and>
    lowest_addr (the_uf2_info s1) =
      update_lowest (plat env) (transfer_addr (next_task (the_uf2_info k))) (lowest_addr (the_uf2_info k))"
  using assms
  by (auto simp: write_uf2_page_def Let_def queue_task_def set_queue_def erase_on_first_write_def split: if_splits)

lemma example_after_info:
  "num_blocks (the_uf2_info example_after) = 1 \<and> uf2_ram (the_uf2_info example_after) \<and>
   uf2_token (the_uf2_info example_after) = 9 \<and> lowest_addr (the_uf2_info example_after) = 0x20000000"
proof -
  let ?b = "uf2_block_at rp2040 example_uf2_memory 0x3000"
  obtain k where k: "update_current_uf2_info example_vd_env 0x3000 ?b 9 example_vd_state = (True, k)"
    "write_uf2_page example_vd_env k = (True, example_after)"
    using example_step by (auto simp: vd_write_block_def Let_def split: if_splits prod.splits bool.splits)
  have u: "num_blocks (the_uf2_info k) = 1 \<and> uf2_ram (the_uf2_info k) \<and> uf2_token (the_uf2_info k) = 9 \<and>
      lowest_addr (the_uf2_info k) = 0xffffffff \<and> transfer_addr (next_task (the_uf2_info k)) = 0x20000000"
  proof -
    have b: "uf2_num_blocks ?b = 1" "uf2_block_no ?b = 0" "target_addr ?b = 0x20000000" by (simp_all add: example_block)
    show ?thesis
      using k(1) by (auto simp: update_current_uf2_info_def start_uf2_transfer_def Let_def example_block_ok b
          zero_uf2_info_def MAX_RAM_UF2_BLOCKS_def prepare_next_task_def reset_task_def)
  qed
  show ?thesis using write_uf2_page_info [OF k(2)] u by (simp add: update_lowest_def rp2040_def Let_def)
qed

theorem uf2_new_download_accepted_witness:
  "fst (vd_write_block example_vd_env 7 100 0x3000 example_vd_state)"
  by (rule uf2_new_download_accepted [OF refl])
    (simp_all add: example_block_ok rp2040_map_rp2040, simp_all add: example_block zero_uf2_info_def)

theorem uf2_block_task_witness:
  "transfer_addr (queued_task (virtual_disk_queue example_after)) = 0x20000000 \<and>
   task_data (queued_task (virtual_disk_queue example_after)) = 0x3020"
proof -
  have "offsetof_uf2_data rp2040 = 32" by (simp add: rp2040_def)
  then show ?thesis using uf2_block_task [OF example_step] by (simp add: example_block)
qed





end
