(* ===== verification/Usb_Device.thy ===== *)
theory Usb_Device
  imports Virtual_Disk
begin

section \<open>The USB device library: endpoints, buffers and transfers\<close>

text \<open>
  The part of \<open>usb_device_tiny/usb_device.c\<close> below the control requests: giving packet buffers
  to the controller and taking them back, transfers, halting and resetting endpoints. The state
  \<open>usb_state\<close> extends \<open>vd_state\<close> (the records of all theories form one chain); packet data is in
  the byte memory at the address of the dual-port RAM. Pointers to the static endpoint and
  transfer objects are the identifiers \<open>ep_id\<close> and \<open>transfer_id\<close>, function pointers are
  constructors, and calls through them go to the record \<open>usb_callbacks\<close>, since the functions
  called are defined in the theories above and call back into this one. A result of \<open>None\<close> is a
  call that does not return (or that follows a null pointer).
\<close>

subsection \<open>Data\<close>

datatype ep_id = Control_In | Control_Out | Msc_In | Msc_Out | Picoboot_Out | Picoboot_In

datatype transfer_id = Control_In_Transfer | Control_Out_Transfer | Msc_Cmd_Transfer | Msc_Cmd_Response_Transfer
  | Msc_Sector_Transfer | Picoboot_Cmd_Transfer | Picoboot_Stream_Transfer | Picoboot_Ack_Transfer

text \<open>The transfer types, named by their \<open>on_packet\<close> functions.\<close>

datatype transfer_type = No_Type | Current_Packet_Only | Usb_Stream_Packet_Handler | Msc_Cmd_Packet | Picoboot_Cmd_Packet

datatype completed_func = No_Complete | Tf_send_control_in_ack | Tf_send_control_out_ack | Tf_set_address
  | Tf_wait_command | Tf_data_phase_complete | Tf_picoboot_wait_command | Tf_ack

datatype stall_func = No_Stall_Change | Msc_in_on_stall_change

datatype usb_halt_state = HS_NONE | HS_NON_HALT_STALL | HS_HALTED | HS_HALTED_ON_CONDITION

fun halt_code :: "usb_halt_state \<Rightarrow> nat" where
  "halt_code HS_NONE = 0"
| "halt_code HS_NON_HALT_STALL = 1"
| "halt_code HS_HALTED = 2"
| "halt_code HS_HALTED_ON_CONDITION = 3"

lemma halt_code_inject: "halt_code a = halt_code b \<longleftrightarrow> a = b"
  by (cases a; cases b; simp)

instantiation usb_halt_state :: linorder
begin

definition less_eq_usb_halt_state :: "usb_halt_state \<Rightarrow> usb_halt_state \<Rightarrow> bool" where
  "less_eq_usb_halt_state a b \<longleftrightarrow> halt_code a \<le> halt_code b"

definition less_usb_halt_state :: "usb_halt_state \<Rightarrow> usb_halt_state \<Rightarrow> bool" where
  "less_usb_halt_state a b \<longleftrightarrow> halt_code a < halt_code b"

instance
  by standard (auto simp: less_eq_usb_halt_state_def less_usb_halt_state_def halt_code_inject [symmetric])

end

record usb_buffer =
  buf_data :: u32 \<comment> \<open>address\<close>
  buf_data_len :: u8
  buf_data_max :: u8
  buf_valid :: bool

record usb_transfer =
  tr_type :: transfer_type
  on_complete :: completed_func
  remaining_packets_to_submit :: u32
  remaining_packets_to_handle :: u32
  outstanding_packet :: bool
  packet_queued :: bool
  started :: bool
  completed :: bool

record usb_endpoint_descriptor =
  bEndpointAddress :: u8
  bmAttributes :: u8
  wMaxPacketSize :: u16

record usb_endpoint =
  ep_descriptor :: "usb_endpoint_descriptor option"
  default_transfer :: "transfer_id option"
  current_transfer :: "transfer_id option"
  chain_transfer :: "transfer_id option"
  on_stall_change :: stall_func
  dpram_buffer_offset :: u16
  buffer_size :: u16
  current_hw_buffer :: usb_buffer
  ep_num :: u8
  next_pid :: u8
  buffer_bit_index :: u8
  owned_buffer_count :: u8
  current_give_buffer :: u8
  current_take_buffer :: u8
  halt_state :: usb_halt_state
  first_buffer_after_reset :: bool
  double_buffered :: bool
  ep_in :: bool

record usb_device =
  current_address :: u8
  current_config_num :: u8
  pending_address :: u8
  next_buffer_offset :: u16
  device_descriptor :: "u8 list"
  config_descriptor :: "u8 list" \<comment> \<open>the bytes from the configuration descriptor on\<close>
  first_interface :: nat \<comment> \<open>where \<open>config.interfaces\<close> points in the array of interfaces\<close>

text \<open>
  The registers: \<open>buf_ctrl num in which\<close> is one of the two buffer control half words of an
  endpoint, \<open>ep_ctrl num in\<close> the control word of a non-zero endpoint.
\<close>

record 'd usb_state = "'d vd_state" +
  endpoints :: "ep_id \<Rightarrow> usb_endpoint"
  transfers :: "transfer_id \<Rightarrow> usb_transfer"
  endpoint_table :: "nat \<Rightarrow> ep_id option" \<comment> \<open>\<open>_endpoints\<close>\<close>
  device :: usb_device
  buf_ctrl :: "nat \<Rightarrow> bool \<Rightarrow> nat \<Rightarrow> u16"
  ep_ctrl :: "nat \<Rightarrow> bool \<Rightarrow> u32"
  ep_stall_arm :: u32
  usb_abort :: u32
  abort_polls :: nat \<comment> \<open>reads of \<open>abort_done\<close> so far\<close>
  dev_addr_ctrl :: u32
  buf_status :: u32
  buf_cpu_should_handle :: u32
  sie_status :: u32
  usb_regs :: "string \<Rightarrow> u32" \<comment> \<open>the registers that are only set up\<close>

record usb_consts =
  USBCTRL_DPRAM_BASE :: u32
  USB_BUF_CTRL_FULL :: u16
  USB_BUF_CTRL_DATA1_PID :: u16
  USB_BUF_CTRL_DATA0_PID :: u16
  USB_BUF_CTRL_SEL :: u16
  USB_BUF_CTRL_STALL :: u16
  USB_BUF_CTRL_AVAIL :: u16
  USB_BUF_CTRL_LEN_MASK :: u16
  USB_EP_STALL_ARM_EP0_IN_BITS :: u32
  USB_EP_STALL_ARM_EP0_OUT_BITS :: u32
  EP_CTRL_ENABLE_BITS :: u32
  EP_CTRL_INTERRUPT_PER_BUFFER :: u32
  EP_CTRL_DOUBLE_BUFFERED_BITS :: u32
  EP_CTRL_BUFFER_TYPE_LSB :: nat
  USB_USB_MUXING_VALUE :: u32 \<comment> \<open>\<open>TO_PHY | SOFTCON\<close>\<close>
  USB_USB_PWR_VALUE :: u32 \<comment> \<open>\<open>VBUS_DETECT | VBUS_DETECT_OVERRIDE_EN\<close>\<close>
  USB_MAIN_CTRL_CONTROLLER_EN_BITS :: u32
  USB_SIE_CTRL_VALUE :: u32 \<comment> \<open>\<open>PULLUP_EN | EP0_INT_1BUF\<close>\<close>
  USB_INTS_SETUP_REQ_BITS :: u32
  USB_INTS_BUFF_STATUS_BITS :: u32
  USB_INTS_BUS_RESET_BITS :: u32
  USB_INTS_ERROR_BITS :: u32
  USB_SIE_STATUS_SETUP_REC_BITS :: u32
  USB_SIE_STATUS_BUS_RESET_BITS :: u32
  USB_SIE_STATUS_DATA_SEQ_ERROR_BITS :: u32
  USBCTRL_IRQ :: nat
  abort_done_at :: "nat \<Rightarrow> u32" \<comment> \<open>what the \<open>n\<close>th read of \<open>abort_done\<close> returns\<close>

record usb_setup_packet =
  bmRequestType :: u8
  bRequest :: u8
  wValue :: u16
  wIndex :: u16
  wLength :: u16

text \<open>The functions that this library calls through pointers.\<close>

record 's usb_callbacks =
  cb_on_packet :: "transfer_type \<Rightarrow> ep_id \<Rightarrow> 's \<Rightarrow> 's option"
  cb_on_complete :: "completed_func \<Rightarrow> ep_id \<Rightarrow> transfer_id \<Rightarrow> 's \<Rightarrow> 's option"
  cb_on_stall_change :: "stall_func \<Rightarrow> ep_id \<Rightarrow> 's \<Rightarrow> 's option"
  cb_on_configure :: "bool \<Rightarrow> 's \<Rightarrow> 's option"
  cb_setup_request :: "nat \<Rightarrow> usb_setup_packet \<Rightarrow> 's \<Rightarrow> (bool \<times> 's) option" \<comment> \<open>by interface index\<close>
  cb_descriptor_string :: "nat \<Rightarrow> 's \<Rightarrow> u8 list"

abbreviation (input) USB_MAX_ENDPOINTS :: nat where "USB_MAX_ENDPOINTS \<equiv> 5"
abbreviation (input) USB_DIR_IN :: u8 where "USB_DIR_IN \<equiv> 0x80"

text \<open>Assignments through a pointer to an endpoint or a transfer.\<close>

definition upd_ep :: "ep_id \<Rightarrow> (usb_endpoint \<Rightarrow> usb_endpoint) \<Rightarrow> ('d, 'z) usb_state_scheme \<Rightarrow> ('d, 'z) usb_state_scheme" where
  "upd_ep e f s = s\<lparr>endpoints := (endpoints s)(e := f (endpoints s e))\<rparr>"

definition upd_tr ::
    "transfer_id \<Rightarrow> (usb_transfer \<Rightarrow> usb_transfer) \<Rightarrow> ('d, 'z) usb_state_scheme \<Rightarrow> ('d, 'z) usb_state_scheme" where
  "upd_tr t f s = s\<lparr>transfers := (transfers s)(t := f (transfers s t))\<rparr>"

subsection \<open>Buffers\<close>

definition write_buf_ctrl ::
    "ep_id \<Rightarrow> nat \<Rightarrow> u16 \<Rightarrow> ('d, 'z) usb_state_scheme \<Rightarrow> ('d, 'z) usb_state_scheme" where
  "write_buf_ctrl e which v s =
     (let n = unat (ep_num (endpoints s e)); i = ep_in (endpoints s e)
      in s\<lparr>buf_ctrl := (buf_ctrl s)(n := (buf_ctrl s n)(i := (buf_ctrl s n i)(which := v)))\<rparr>)"

definition read_buf_ctrl :: "ep_id \<Rightarrow> nat \<Rightarrow> ('d, 'z) usb_state_scheme \<Rightarrow> u16" where
  "read_buf_ctrl e which s = buf_ctrl s (unat (ep_num (endpoints s e))) (ep_in (endpoints s e)) which"

definition ep_buffer_count :: "usb_endpoint \<Rightarrow> u8" where
  "ep_buffer_count ep = (if double_buffered ep then 2 else 1)"

text \<open>The wait for the end of an abort: the number of reads of \<open>abort_done\<close> made in the end.\<close>

fun abort_wait :: "(nat \<Rightarrow> u32) \<Rightarrow> u32 \<Rightarrow> nat \<Rightarrow> nat \<Rightarrow> nat" where
  "abort_wait done msk polls 0 = polls"
| "abort_wait done msk polls (Suc count) =
     (if done polls AND msk = 0 \<and> count \<noteq> 0 then abort_wait done msk (polls + 1) count else polls + 1)"

definition usb_reset_buffers :: "usb_consts \<Rightarrow> ep_id \<Rightarrow> ('d, 'z) usb_state_scheme \<Rightarrow> ('d, 'z) usb_state_scheme" where
  "usb_reset_buffers c e s =
     (let ep = endpoints s e;
          msk = push_bit (unat (buffer_bit_index ep)) 1;
          s1 = (if USB_BUF_CTRL_AVAIL c AND read_buf_ctrl e 0 s \<noteq> 0 \<or> USB_BUF_CTRL_AVAIL c AND read_buf_ctrl e 1 s \<noteq> 0 then
                  (if \<not> double_buffered ep \<or> owned_buffer_count ep = 1
                   then upd_ep e (\<lambda>ep. ep\<lparr>next_pid := next_pid ep XOR 1\<rparr>) s else s)
                  \<lparr>usb_abort := usb_abort s OR msk,
                   abort_polls := abort_wait (abort_done_at c) msk (abort_polls s) (2 ^ 16)\<rparr>
                else s);
          s2 = write_buf_ctrl e 1 0 (write_buf_ctrl e 0 0 s1)
      in upd_ep e (\<lambda>ep. ep\<lparr>owned_buffer_count := ep_buffer_count ep, current_give_buffer := 0,
                           current_take_buffer := 0, first_buffer_after_reset := True\<rparr>)
           (s2\<lparr>usb_abort := usb_abort s2 AND NOT msk\<rparr>))"

definition usb_stall_endpoint ::
    "('d, 'z) usb_state_scheme usb_callbacks \<Rightarrow> usb_consts \<Rightarrow> ep_id \<Rightarrow> usb_halt_state \<Rightarrow>
       ('d, 'z) usb_state_scheme \<Rightarrow> ('d, 'z) usb_state_scheme option" where
  "usb_stall_endpoint cb c e hs s =
     (let ep = endpoints s e
      in if halt_state ep = HS_NONE then
           (let s1 = (if ep_num ep = 0 then
                        s\<lparr>ep_stall_arm := ep_stall_arm s OR
                            (if ep_in ep then USB_EP_STALL_ARM_EP0_IN_BITS c else USB_EP_STALL_ARM_EP0_OUT_BITS c)\<rparr>
                      else s);
                s2 = write_buf_ctrl e 0 (read_buf_ctrl e 0 s1 OR USB_BUF_CTRL_STALL c) s1;
                s3 = upd_ep e (\<lambda>ep. ep\<lparr>halt_state := hs\<rparr>) s2
            in if on_stall_change ep \<noteq> No_Stall_Change then cb_on_stall_change cb (on_stall_change ep) e s3 else Some s3)
         else Some (if hs > halt_state ep then upd_ep e (\<lambda>ep. ep\<lparr>halt_state := hs\<rparr>) s else s))"

definition usb_halt_endpoint where
  "usb_halt_endpoint cb c e s = usb_stall_endpoint cb c e HS_HALTED s"

definition usb_halt_endpoint_on_condition where
  "usb_halt_endpoint_on_condition cb c e s = usb_stall_endpoint cb c e HS_HALTED_ON_CONDITION s"

definition usb_clear_halt_condition :: "ep_id \<Rightarrow> ('d, 'z) usb_state_scheme \<Rightarrow> ('d, 'z) usb_state_scheme" where
  "usb_clear_halt_condition e s =
     (if halt_state (endpoints s e) = HS_HALTED_ON_CONDITION
      then upd_ep e (\<lambda>ep. ep\<lparr>halt_state := HS_HALTED\<rparr>) s else s)"

text \<open>The current packet of an endpoint, set up from the hardware when there is none.\<close>

definition usb_current_packet_buffer ::
    "usb_consts \<Rightarrow> ep_id \<Rightarrow> ('d, 'z) usb_state_scheme \<Rightarrow> usb_buffer \<times> ('d, 'z) usb_state_scheme" where
  "usb_current_packet_buffer c e s =
     (let ep = endpoints s e
      in if buf_valid (current_hw_buffer ep) then (current_hw_buffer ep, s)
         else
           (let which = (if ep_in ep then current_give_buffer ep else current_take_buffer ep);
                b = \<lparr>buf_data = USBCTRL_DPRAM_BASE c + ucast (dpram_buffer_offset ep) + (if which \<noteq> 0 then 64 else 0),
                     buf_data_len = (if ep_in ep then 0
                       else ucast (USB_BUF_CTRL_LEN_MASK c AND read_buf_ctrl e (unat which) s)),
                     buf_data_max = ucast (buffer_size ep), buf_valid = True\<rparr>
            in (b, upd_ep e (\<lambda>ep. ep\<lparr>current_hw_buffer := b\<rparr>) s)))"

definition set_buffer_len :: "ep_id \<Rightarrow> u8 \<Rightarrow> ('d, 'z) usb_state_scheme \<Rightarrow> ('d, 'z) usb_state_scheme" where
  "set_buffer_len e n s =
     upd_ep e (\<lambda>ep. ep\<lparr>current_hw_buffer := (current_hw_buffer ep)\<lparr>buf_data_len := n\<rparr>\<rparr>) s"

text \<open>The buffer control half word that hands a buffer to the controller.\<close>

definition give_buffer_val :: "usb_consts \<Rightarrow> usb_endpoint \<Rightarrow> u32 \<Rightarrow> u16" where
  "give_buffer_val c ep len =
     (let v = ucast len OR USB_BUF_CTRL_AVAIL c;
          v = (if first_buffer_after_reset ep then v OR USB_BUF_CTRL_SEL c else v);
          v = (if ep_in ep then v OR USB_BUF_CTRL_FULL c else v)
      in v OR (if next_pid ep \<noteq> 0 then USB_BUF_CTRL_DATA1_PID c else USB_BUF_CTRL_DATA0_PID c))"

definition usb_give_buffer ::
    "usb_consts \<Rightarrow> ep_id \<Rightarrow> u32 \<Rightarrow> ('d, 'z) usb_state_scheme \<Rightarrow> ('d, 'z) usb_state_scheme option" where
  "usb_give_buffer c e len s =
     (let ep = endpoints s e
      in case current_transfer ep of
           None \<Rightarrow> None
         | Some t \<Rightarrow>
             Some (upd_tr t (\<lambda>t. t\<lparr>remaining_packets_to_submit := remaining_packets_to_submit t - 1\<rparr>)
               (upd_ep e (\<lambda>ep. ep\<lparr>halt_state := HS_NONE, first_buffer_after_reset := False, next_pid := next_pid ep XOR 1,
                   current_hw_buffer := (current_hw_buffer ep)\<lparr>buf_valid := False\<rparr>,
                   owned_buffer_count := owned_buffer_count ep - 1,
                   current_give_buffer :=
                     (if double_buffered ep then current_give_buffer ep XOR 1 else current_give_buffer ep)\<rparr>)
                 (write_buf_ctrl e (unat (current_give_buffer ep)) (give_buffer_val c ep len) s))))"


subsection \<open>Transfers\<close>

definition usb_call_on_packet ::
    "('d, 'z) usb_state_scheme usb_callbacks \<Rightarrow> ep_id \<Rightarrow> ('d, 'z) usb_state_scheme \<Rightarrow> ('d, 'z) usb_state_scheme option" where
  "usb_call_on_packet cb e s =
     (case current_transfer (endpoints s e) of
        None \<Rightarrow> None
      | Some t \<Rightarrow>
          (let s1 = upd_tr t (\<lambda>t. t\<lparr>outstanding_packet := True\<rparr>) s
           in cb_on_packet cb (tr_type (transfers s1 t)) e s1))"

definition may_give :: "ep_id \<Rightarrow> ('d, 'z) usb_state_scheme \<Rightarrow> bool" where
  "may_give e s =
     (case current_transfer (endpoints s e) of
        None \<Rightarrow> False
      | Some t \<Rightarrow> remaining_packets_to_submit (transfers s t) \<noteq> 0 \<and> owned_buffer_count (endpoints s e) \<noteq> 0 \<and>
                  halt_state (endpoints s e) = HS_NONE)"

partial_function (option) usb_give_as_many_buffers_as_possible ::
    "('d, 'z) usb_state_scheme usb_callbacks \<Rightarrow> usb_consts \<Rightarrow> ep_id \<Rightarrow>
       ('d, 'z) usb_state_scheme \<Rightarrow> ('d, 'z) usb_state_scheme option" where
  "usb_give_as_many_buffers_as_possible cb c e s =
     (if may_give e s then
        (if ep_in (endpoints s e) then
           Option.bind (usb_call_on_packet cb e s) (\<lambda>s1.
             if owned_buffer_count (endpoints s e) = owned_buffer_count (endpoints s1 e) then Some s1
             else usb_give_as_many_buffers_as_possible cb c e s1)
         else
           Option.bind (usb_give_buffer c e (ucast (buffer_size (endpoints s e))) s)
             (usb_give_as_many_buffers_as_possible cb c e))
      else Some s)"

definition usb_start_transfer ::
    "('d, 'z) usb_state_scheme usb_callbacks \<Rightarrow> usb_consts \<Rightarrow> ep_id \<Rightarrow> transfer_id \<Rightarrow>
       ('d, 'z) usb_state_scheme \<Rightarrow> ('d, 'z) usb_state_scheme option" where
  "usb_start_transfer cb c e t s =
     usb_give_as_many_buffers_as_possible cb c e
       (upd_tr t (\<lambda>t. t\<lparr>started := True\<rparr>)
         (upd_ep e (\<lambda>ep. ep\<lparr>current_transfer := Some t, chain_transfer := None\<rparr>) s))"

definition usb_check_for_transfer_completion ::
    "('d, 'z) usb_state_scheme usb_callbacks \<Rightarrow> usb_consts \<Rightarrow> ep_id \<Rightarrow>
       ('d, 'z) usb_state_scheme \<Rightarrow> ('d, 'z) usb_state_scheme option" where
  "usb_check_for_transfer_completion cb c e s =
     (case current_transfer (endpoints s e) of
        None \<Rightarrow> None
      | Some t \<Rightarrow>
          (let tr = transfers s t
           in if halt_state (endpoints s e) \<noteq> HS_NONE \<or> \<not> (remaining_packets_to_handle tr \<noteq> 0 \<or> outstanding_packet tr) then
                (let s1 = upd_ep e (\<lambda>ep. ep\<lparr>current_transfer := None\<rparr>) (upd_tr t (\<lambda>t. t\<lparr>completed := True\<rparr>) s)
                 in if halt_state (endpoints s1 e) \<noteq> HS_NONE then
                      Some (upd_tr t (\<lambda>t. t\<lparr>remaining_packets_to_submit := 0, remaining_packets_to_handle := 0\<rparr>) s1)
                    else if on_complete tr \<noteq> No_Complete then cb_on_complete cb (on_complete tr) e t s1
                    else (case chain_transfer (endpoints s1 e) of
                            Some t' \<Rightarrow> usb_start_transfer cb c e t' s1
                          | None \<Rightarrow> Some s1))
              else Some s))"

definition find_ep :: "nat \<Rightarrow> bool \<Rightarrow> ('d, 'z) usb_state_scheme \<Rightarrow> ep_id option" where
  "find_ep num is_in s =
     (if num \<noteq> 0 then endpoint_table s num else Some (if is_in then Control_In else Control_Out))"

definition usb_handle_transfer ::
    "('d, 'z) usb_state_scheme usb_callbacks \<Rightarrow> usb_consts \<Rightarrow> nat \<Rightarrow> bool \<Rightarrow> u8 \<Rightarrow>
       ('d, 'z) usb_state_scheme \<Rightarrow> ('d, 'z) usb_state_scheme option" where
  "usb_handle_transfer cb c num is_in which s =
     do {
       e \<leftarrow> find_ep num is_in s;
       let s1 = upd_ep e (\<lambda>ep. ep\<lparr>owned_buffer_count := owned_buffer_count ep + 1\<rparr>) s;
       (case current_transfer (endpoints s1 e) of
          None \<Rightarrow> usb_halt_endpoint cb c e s1
        | Some t \<Rightarrow>
            if outstanding_packet (transfers s1 t) then
              Some (upd_tr t (\<lambda>t. t\<lparr>packet_queued := True\<rparr>) s1)
            else do {
              let s2 = upd_ep e (\<lambda>ep. ep\<lparr>current_take_buffer := which\<rparr>) s1;
              s3 \<leftarrow> (if \<not> ep_in (endpoints s2 e) \<or> remaining_packets_to_submit (transfers s2 t) \<noteq> 0
                      then usb_call_on_packet cb e s2 else Some s2);
              if completed (transfers s3 t) then Some s3
              else usb_check_for_transfer_completion cb c e
                     (upd_tr t (\<lambda>t. t\<lparr>remaining_packets_to_handle := remaining_packets_to_handle t - 1\<rparr>) s3)
            })
     }"

definition usb_packet_done ::
    "('d, 'z) usb_state_scheme usb_callbacks \<Rightarrow> usb_consts \<Rightarrow> ep_id \<Rightarrow>
       ('d, 'z) usb_state_scheme \<Rightarrow> ('d, 'z) usb_state_scheme option" where
  "usb_packet_done cb c e s =
     do {
       t \<leftarrow> current_transfer (endpoints s e);
       s1 \<leftarrow> usb_check_for_transfer_completion cb c e (upd_tr t (\<lambda>t. t\<lparr>outstanding_packet := False\<rparr>) s);
       if completed (transfers s1 t) then Some s1
       else do {
         s2 \<leftarrow> (if ep_in (endpoints s1 e)
                 then usb_give_buffer c e (ucast (buf_data_len (current_hw_buffer (endpoints s1 e)))) s1 else Some s1);
         let s3 = upd_ep e (\<lambda>ep. ep\<lparr>current_hw_buffer := (current_hw_buffer ep)\<lparr>buf_valid := False\<rparr>\<rparr>) s2;
         if packet_queued (transfers s3 t) then
           (let s4 = upd_ep e (\<lambda>ep. ep\<lparr>owned_buffer_count := owned_buffer_count ep - 1\<rparr>)
                       (upd_tr t (\<lambda>t. t\<lparr>packet_queued := False\<rparr>) s3)
            in usb_handle_transfer cb c (unat (ep_num (endpoints s4 e))) (ep_in (endpoints s4 e))
                 (current_take_buffer (endpoints s4 e) XOR 1) s4)
         else usb_give_as_many_buffers_as_possible cb c e s3
       }
     }"

definition usb_transfer_current_packet_only where
  "usb_transfer_current_packet_only cb c e s = usb_packet_done cb c e s"

definition usb_set_default_transfer :: "ep_id \<Rightarrow> transfer_id \<Rightarrow> ('d, 'z) usb_state_scheme \<Rightarrow> ('d, 'z) usb_state_scheme" where
  "usb_set_default_transfer e t s = upd_ep e (\<lambda>ep. ep\<lparr>default_transfer := Some t\<rparr>) s"

definition usb_chain_transfer :: "ep_id \<Rightarrow> transfer_id \<Rightarrow> ('d, 'z) usb_state_scheme \<Rightarrow> ('d, 'z) usb_state_scheme" where
  "usb_chain_transfer e t s = upd_ep e (\<lambda>ep. ep\<lparr>chain_transfer := Some t\<rparr>) s"

text \<open>\<open>initial_packet_count\<close> of the transfer types.\<close>

fun initial_packet_count :: "transfer_type \<Rightarrow> u32" where
  "initial_packet_count Current_Packet_Only = 1"
| "initial_packet_count Msc_Cmd_Packet = 1"
| "initial_packet_count Picoboot_Cmd_Packet = 1"
| "initial_packet_count Usb_Stream_Packet_Handler = 0"
| "initial_packet_count No_Type = 0"

definition usb_reset_transfer ::
    "transfer_id \<Rightarrow> transfer_type \<Rightarrow> completed_func \<Rightarrow> ('d, 'z) usb_state_scheme \<Rightarrow> ('d, 'z) usb_state_scheme" where
  "usb_reset_transfer t ty f s =
     upd_tr t (\<lambda>_. \<lparr>tr_type = ty, on_complete = f, remaining_packets_to_submit = initial_packet_count ty,
       remaining_packets_to_handle = initial_packet_count ty, outstanding_packet = False, packet_queued = False,
       started = False, completed = False\<rparr>) s"

definition usb_grow_transfer :: "transfer_id \<Rightarrow> u32 \<Rightarrow> ('d, 'z) usb_state_scheme \<Rightarrow> ('d, 'z) usb_state_scheme" where
  "usb_grow_transfer t n s =
     upd_tr t (\<lambda>t. t\<lparr>remaining_packets_to_submit := remaining_packets_to_submit t + n,
       remaining_packets_to_handle := remaining_packets_to_handle t + n\<rparr>) s"

definition usb_reset_and_start_transfer ::
    "('d, 'z) usb_state_scheme usb_callbacks \<Rightarrow> usb_consts \<Rightarrow> ep_id \<Rightarrow> transfer_id \<Rightarrow> transfer_type \<Rightarrow> completed_func \<Rightarrow>
       ('d, 'z) usb_state_scheme \<Rightarrow> ('d, 'z) usb_state_scheme option" where
  "usb_reset_and_start_transfer cb c e t ty f s = usb_start_transfer cb c e t (usb_reset_transfer t ty f s)"

definition start_default_transfer where
  "start_default_transfer cb c e s =
     (case default_transfer (endpoints s e) of
        None \<Rightarrow> None
      | Some t \<Rightarrow> usb_reset_and_start_transfer cb c e t (tr_type (transfers s t)) No_Complete s)"

definition usb_start_default_transfer_if_not_already_running_or_halted ::
    "('d, 'z) usb_state_scheme usb_callbacks \<Rightarrow> usb_consts \<Rightarrow> ep_id \<Rightarrow>
       ('d, 'z) usb_state_scheme \<Rightarrow> ('d, 'z) usb_state_scheme option" where
  "usb_start_default_transfer_if_not_already_running_or_halted cb c e s =
     (if halt_state (endpoints s e) = HS_NONE \<and> current_transfer (endpoints s e) \<noteq> default_transfer (endpoints s e)
      then start_default_transfer cb c e s else Some s)"

definition usb_start_empty_transfer ::
    "('d, 'z) usb_state_scheme usb_callbacks \<Rightarrow> usb_consts \<Rightarrow> ep_id \<Rightarrow> transfer_id \<Rightarrow> completed_func \<Rightarrow>
       ('d, 'z) usb_state_scheme \<Rightarrow> ('d, 'z) usb_state_scheme option" where
  "usb_start_empty_transfer cb c e t f s =
     usb_reset_and_start_transfer cb c e t Current_Packet_Only f
       (if ep_in (endpoints s e) then set_buffer_len e 0 (snd (usb_current_packet_buffer c e s)) else s)"

definition usb_reset_endpoint ::
    "('d, 'z) usb_state_scheme usb_callbacks \<Rightarrow> usb_consts \<Rightarrow> ep_id \<Rightarrow> bool \<Rightarrow>
       ('d, 'z) usb_state_scheme \<Rightarrow> ('d, 'z) usb_state_scheme option" where
  "usb_reset_endpoint cb c e hard s =
     do {
       let s1 = usb_reset_buffers c e (upd_ep e (\<lambda>ep. ep\<lparr>current_transfer := None\<rparr>) s);
       let s2 = (if hard then upd_ep e (\<lambda>ep. ep\<lparr>next_pid := 0\<rparr>) s1 else s1);
       let s3 = upd_ep e (\<lambda>ep. ep\<lparr>current_hw_buffer := (current_hw_buffer ep)\<lparr>buf_valid := False\<rparr>\<rparr>) s2;
       s4 \<leftarrow> (if halt_state (endpoints s3 e) \<noteq> HS_NONE then
                (let s' = upd_ep e (\<lambda>ep. ep\<lparr>halt_state := HS_NONE\<rparr>) s3
                 in if on_stall_change (endpoints s' e) \<noteq> No_Stall_Change
                    then cb_on_stall_change cb (on_stall_change (endpoints s' e)) e s' else Some s')
              else Some s3);
       if current_config_num (device s4) \<noteq> 0 \<and> default_transfer (endpoints s4 e) \<noteq> None \<and>
          current_transfer (endpoints s4 e) = None
       then start_default_transfer cb c e s4 else Some s4
     }"

definition usb_soft_reset_endpoint where
  "usb_soft_reset_endpoint cb c e s = usb_reset_endpoint cb c e False s"

definition usb_hard_reset_endpoint where
  "usb_hard_reset_endpoint cb c e s = usb_reset_endpoint cb c e True s"

subsection \<open>Endpoint updates\<close>

named_theorems usbsimps \<open>endpoints, transfers and control words after updates\<close>

lemma endpoints_upd_ep [usbsimps]: "endpoints (upd_ep e f s) x = (if x = e then f (endpoints s x) else endpoints s x)"
  by (simp add: upd_ep_def)

lemma upd_ep_other [usbsimps]:
  "transfers (upd_ep e f s) = transfers s" "buf_ctrl (upd_ep e f s) = buf_ctrl s" "mem (upd_ep e f s) = mem s"
  "usb_abort (upd_ep e f s) = usb_abort s" "abort_polls (upd_ep e f s) = abort_polls s" "device (upd_ep e f s) = device s"
  "endpoint_table (upd_ep e f s) = endpoint_table s" "dev_addr_ctrl (upd_ep e f s) = dev_addr_ctrl s"
  by (simp_all add: upd_ep_def)

lemma transfers_upd_tr [usbsimps]: "transfers (upd_tr t f s) x = (if x = t then f (transfers s x) else transfers s x)"
  by (simp add: upd_tr_def)

lemma upd_tr_other [usbsimps]:
  "endpoints (upd_tr t f s) = endpoints s" "buf_ctrl (upd_tr t f s) = buf_ctrl s" "mem (upd_tr t f s) = mem s"
  "device (upd_tr t f s) = device s" "endpoint_table (upd_tr t f s) = endpoint_table s"
  "dev_addr_ctrl (upd_tr t f s) = dev_addr_ctrl s"
  by (simp_all add: upd_tr_def)

lemma write_buf_ctrl_other [usbsimps]:
  "endpoints (write_buf_ctrl e w v s) = endpoints s" "transfers (write_buf_ctrl e w v s) = transfers s"
  "mem (write_buf_ctrl e w v s) = mem s" "usb_abort (write_buf_ctrl e w v s) = usb_abort s"
  "abort_polls (write_buf_ctrl e w v s) = abort_polls s" "device (write_buf_ctrl e w v s) = device s"
  "endpoint_table (write_buf_ctrl e w v s) = endpoint_table s" "dev_addr_ctrl (write_buf_ctrl e w v s) = dev_addr_ctrl s"
  by (simp_all add: write_buf_ctrl_def Let_def)

lemma read_write_buf_ctrl_same [usbsimps]:
  "read_buf_ctrl e w (write_buf_ctrl e w' v s) = (if w = w' then v else read_buf_ctrl e w s)"
  by (simp add: read_buf_ctrl_def write_buf_ctrl_def Let_def)

lemma read_buf_ctrl_upd_tr [usbsimps]: "read_buf_ctrl e w (upd_tr t f s) = read_buf_ctrl e w s"
  by (simp add: read_buf_ctrl_def usbsimps)

lemma read_buf_ctrl_upd_ep [usbsimps]:
  "(\<And>ep. ep_num (f ep) = ep_num ep \<and> ep_in (f ep) = ep_in ep) \<Longrightarrow> read_buf_ctrl e w (upd_ep e' f s) = read_buf_ctrl e w s"
  by (simp add: read_buf_ctrl_def usbsimps)

subsection \<open>Taking all buffers back\<close>

lemma abort_wait_bounds: "polls \<le> abort_wait done msk polls n \<and> abort_wait done msk polls n \<le> polls + n"
proof (induction n arbitrary: polls)
  case (Suc n)
  show ?case using Suc [of "polls + 1"] by auto
qed simp

lemma usb_reset_buffers_ok:
  "let s' = usb_reset_buffers c e s; ep' = endpoints s' e
   in owned_buffer_count ep' = ep_buffer_count ep' \<and> current_give_buffer ep' = 0 \<and> current_take_buffer ep' = 0 \<and>
      first_buffer_after_reset ep' \<and> read_buf_ctrl e 0 s' = 0 \<and> read_buf_ctrl e 1 s' = 0 \<and>
      usb_abort s' AND push_bit (unat (buffer_bit_index ep')) 1 = 0 \<and>
      abort_polls s' \<le> abort_polls s + 65536 \<and>
      (\<forall>e'. e' \<noteq> e \<longrightarrow> endpoints s' e' = endpoints s e') \<and>
      next_pid ep' = (if (USB_BUF_CTRL_AVAIL c AND read_buf_ctrl e 0 s \<noteq> 0 \<or> USB_BUF_CTRL_AVAIL c AND read_buf_ctrl e 1 s \<noteq> 0) \<and>
                         (\<not> double_buffered (endpoints s e) \<or> owned_buffer_count (endpoints s e) = 1)
                      then next_pid (endpoints s e) XOR 1 else next_pid (endpoints s e))"
proof -
  have p: "abort_wait (abort_done_at c) (push_bit (unat (buffer_bit_index (endpoints s e))) 1) (abort_polls s) (2 ^ 16)
      \<le> abort_polls s + 65536"
    using abort_wait_bounds [of "abort_polls s" "abort_done_at c" _ "2 ^ 16"] by simp
  have z: "(x AND NOT m) AND m = (0 :: u32)" for x m by (rule bit_word_eqI) (auto simp: bit_simps)
  show ?thesis
    using p by (simp add: usb_reset_buffers_def Let_def usbsimps z ep_buffer_count_def read_buf_ctrl_def write_buf_ctrl_def)
qed

end
