(* ===== verification/Usb_Control.thy ===== *)
theory Usb_Control
  imports Usb_Device
begin

section \<open>The USB device library: control requests, interrupts and initialisation\<close>

text \<open>
  The rest of \<open>usb_device_tiny/usb_device.c\<close>: standard control requests and their stalls, the
  device address and configuration, the interrupt handler, and the initialisation of endpoints
  from the descriptors. Descriptors are byte lists, as they are in memory.
\<close>

abbreviation (input) USB_REQ_TYPE_TYPE_MASK :: u8 where "USB_REQ_TYPE_TYPE_MASK \<equiv> 0x60"
abbreviation (input) USB_REQ_TYPE_TYPE_CLASS :: u8 where "USB_REQ_TYPE_TYPE_CLASS \<equiv> 0x20"
abbreviation (input) USB_REQ_TYPE_TYPE_VENDOR :: u8 where "USB_REQ_TYPE_TYPE_VENDOR \<equiv> 0x40"
abbreviation (input) USB_REQ_TYPE_RECIPIENT_MASK :: u8 where "USB_REQ_TYPE_RECIPIENT_MASK \<equiv> 0x1f"
abbreviation (input) USB_REQUEST_GET_STATUS :: u8 where "USB_REQUEST_GET_STATUS \<equiv> 0"
abbreviation (input) USB_REQUEST_CLEAR_FEATURE :: u8 where "USB_REQUEST_CLEAR_FEATURE \<equiv> 1"
abbreviation (input) USB_REQUEST_SET_FEATURE :: u8 where "USB_REQUEST_SET_FEATURE \<equiv> 3"
abbreviation (input) USB_REQUEST_SET_ADDRESS :: u8 where "USB_REQUEST_SET_ADDRESS \<equiv> 5"
abbreviation (input) USB_REQUEST_GET_DESCRIPTOR :: u8 where "USB_REQUEST_GET_DESCRIPTOR \<equiv> 6"
abbreviation (input) USB_REQUEST_GET_CONFIGURATION :: u8 where "USB_REQUEST_GET_CONFIGURATION \<equiv> 8"
abbreviation (input) USB_REQUEST_SET_CONFIGURATION :: u8 where "USB_REQUEST_SET_CONFIGURATION \<equiv> 9"
abbreviation (input) USB_FEAT_ENDPOINT_HALT :: u16 where "USB_FEAT_ENDPOINT_HALT \<equiv> 0"
abbreviation (input) USB_DESCRIPTOR_TYPE_ENDPOINT :: u8 where "USB_DESCRIPTOR_TYPE_ENDPOINT \<equiv> 5"
abbreviation (input) USB_FIXED_INTERFACE_COUNT :: nat where "USB_FIXED_INTERFACE_COUNT \<equiv> 2"

subsection \<open>Control transfers\<close>

definition usb_stall_control_pipe ::
    "('d, 'z) usb_state_scheme usb_callbacks \<Rightarrow> usb_consts \<Rightarrow> ('d, 'z) usb_state_scheme \<Rightarrow> ('d, 'z) usb_state_scheme option" where
  "usb_stall_control_pipe cb c s =
     Option.bind (usb_stall_endpoint cb c Control_In HS_NON_HALT_STALL
                   (usb_reset_buffers c Control_Out (usb_reset_buffers c Control_In s)))
       (usb_stall_endpoint cb c Control_Out HS_NON_HALT_STALL)"

definition tf_send_control_in_ack where
  "tf_send_control_in_ack cb c s = usb_start_empty_transfer cb c Control_Out Control_Out_Transfer No_Complete s"

definition tf_send_control_out_ack where
  "tf_send_control_out_ack cb c s = usb_start_empty_transfer cb c Control_In Control_In_Transfer No_Complete s"

definition usb_handle_set_address :: "u8 \<Rightarrow> ('d, 'z) usb_state_scheme \<Rightarrow> ('d, 'z) usb_state_scheme" where
  "usb_handle_set_address addr s =
     s\<lparr>device := (device s)\<lparr>current_address := addr\<rparr>, dev_addr_ctrl := ucast addr\<rparr>"

definition tf_set_address :: "('d, 'z) usb_state_scheme \<Rightarrow> ('d, 'z) usb_state_scheme" where
  "tf_set_address s = usb_handle_set_address (pending_address (device s)) s"

definition usb_start_single_buffer_control_in_transfer where
  "usb_start_single_buffer_control_in_transfer cb c s =
     usb_reset_and_start_transfer cb c Control_In Control_In_Transfer Current_Packet_Only Tf_send_control_in_ack s"

definition usb_start_tiny_control_in_transfer ::
    "('d, 'z) usb_state_scheme usb_callbacks \<Rightarrow> usb_consts \<Rightarrow> u32 \<Rightarrow> u8 \<Rightarrow>
       ('d, 'z) usb_state_scheme \<Rightarrow> ('d, 'z) usb_state_scheme option" where
  "usb_start_tiny_control_in_transfer cb c v len s =
     (let (b, s1) = usb_current_packet_buffer c Control_In s;
          s2 = s1\<lparr>mem := wr32 (mem s1) (buf_data b) v\<rparr>
      in usb_start_single_buffer_control_in_transfer cb c (set_buffer_len Control_In len s2))"

definition usb_start_control_out_transfer where
  "usb_start_control_out_transfer cb c ty s =
     usb_reset_and_start_transfer cb c Control_Out Control_Out_Transfer ty Tf_send_control_out_ack s"

definition usb_start_empty_control_in_transfer where
  "usb_start_empty_control_in_transfer cb c f s = usb_start_empty_transfer cb c Control_In Control_In_Transfer f s"

definition usb_start_empty_control_in_transfer_null_completion where
  "usb_start_empty_control_in_transfer_null_completion cb c s = usb_start_empty_control_in_transfer cb c No_Complete s"

text \<open>A zeroed response of \<open>len\<close> bytes in the current packet; the result is its address.\<close>

definition usb_get_single_packet_response_buffer ::
    "usb_consts \<Rightarrow> ep_id \<Rightarrow> nat \<Rightarrow> ('d, 'z) usb_state_scheme \<Rightarrow> u32 \<times> ('d, 'z) usb_state_scheme" where
  "usb_get_single_packet_response_buffer c e len s =
     (let (b, s1) = usb_current_packet_buffer c e s;
          s2 = set_buffer_len e (word_of_nat len) (s1\<lparr>mem := mem_write (mem s1) (buf_data b) (replicate len 0)\<rparr>)
      in (buf_data b, s2))"

subsection \<open>Configuration and address\<close>

fun for_endpoints :: "(ep_id \<Rightarrow> 's \<Rightarrow> 's option) \<Rightarrow> ep_id list \<Rightarrow> 's \<Rightarrow> 's option" where
  "for_endpoints f [] s = Some s"
| "for_endpoints f (e # es) s = Option.bind (f e s) (for_endpoints f es)"

definition enumerated_endpoints :: "bool \<Rightarrow> ('d, 'z) usb_state_scheme \<Rightarrow> ep_id list" where
  "enumerated_endpoints include_control s =
     (if include_control then [Control_In, Control_Out] else []) @
     List.map_filter (endpoint_table s) [1..<USB_MAX_ENDPOINTS]"

definition usb_for_each_endpoint where
  "usb_for_each_endpoint f include_control s = for_endpoints f (enumerated_endpoints include_control s) s"

definition usb_handle_set_config ::
    "('d, 'z) usb_state_scheme usb_callbacks \<Rightarrow> usb_consts \<Rightarrow> u8 \<Rightarrow> ('d, 'z) usb_state_scheme \<Rightarrow> ('d, 'z) usb_state_scheme option" where
  "usb_handle_set_config cb c config_num s =
     do {
       s1 \<leftarrow> usb_for_each_endpoint (usb_hard_reset_endpoint cb c) False
               (s\<lparr>device := (device s)\<lparr>current_config_num := config_num\<rparr>\<rparr>);
       cb_on_configure cb (config_num \<noteq> 0) s1
     }"

definition usb_handle_bus_reset ::
    "('d, 'z) usb_state_scheme usb_callbacks \<Rightarrow> usb_consts \<Rightarrow> ('d, 'z) usb_state_scheme \<Rightarrow> ('d, 'z) usb_state_scheme option" where
  "usb_handle_bus_reset cb c s =
     do {
       s1 \<leftarrow> usb_handle_set_config cb c 0 s;
       let s2 = usb_handle_set_address 0 s1;
       Some (s2\<lparr>buf_status := 0, sie_status := 0\<rparr>)
     }"

subsection \<open>Standard requests\<close>

definition wTotalLength :: "u8 list \<Rightarrow> nat" where
  "wTotalLength d = unat (d ! 2) + 256 * unat (d ! 3)"

definition bConfigurationValue :: "u8 list \<Rightarrow> u8" where
  "bConfigurationValue d = d ! 5"

definition lang_descriptor :: "u8 list" where
  "lang_descriptor = [4, 3, 9, 4]"

text \<open>The bytes of a string descriptor: its length, its type and the characters as half words.\<close>

definition usb_prepare_string_descriptor :: "u8 list \<Rightarrow> u8 list" where
  "usb_prepare_string_descriptor str =
     [word_of_nat (2 + 2 * length str), 3] @ concat (map (\<lambda>ch. [ch, 0]) str)"

text \<open>The descriptor that a request asks for.\<close>

definition usb_handle_get_descriptor ::
    "('d, 'z) usb_state_scheme usb_callbacks \<Rightarrow> usb_setup_packet \<Rightarrow> ('d, 'z) usb_state_scheme \<Rightarrow> u8 list option" where
  "usb_handle_get_descriptor cb setup s =
     (let ty = drop_bit 8 (wValue setup); index = (ucast (wValue setup) :: u8)
      in if ty = 1 then Some (take 18 (device_descriptor (device s)))
         else if ty = 2 then
           (if index = 0 then Some (take (wTotalLength (config_descriptor (device s))) (config_descriptor (device s)))
            else None)
         else if ty = 3 then
           (if index = 0 then Some lang_descriptor
            else Some (usb_prepare_string_descriptor (cb_descriptor_string cb (unat index) s)))
         else None)"

text \<open>Fill the packet of the control endpoint with a response, truncated to the length asked for.\<close>

definition control_in_response where
  "control_in_response cb c (setup :: usb_setup_packet) bytes s =
     (let (b, s1) = usb_current_packet_buffer c Control_In s;
          s2 = s1\<lparr>mem := mem_write (mem s1) (buf_data b) bytes\<rparr>
      in usb_start_single_buffer_control_in_transfer cb c
           (set_buffer_len Control_In (word_of_nat (min (length bytes) (unat (wLength setup)))) s2))"

definition device_in_request ::
    "('d, 'z) usb_state_scheme usb_callbacks \<Rightarrow> usb_setup_packet \<Rightarrow> ('d, 'z) usb_state_scheme \<Rightarrow> u8 list option" where
  "device_in_request cb setup s =
     (if bRequest setup = USB_REQUEST_GET_STATUS then Some [0, 0]
      else if bRequest setup = USB_REQUEST_GET_DESCRIPTOR then usb_handle_get_descriptor cb setup s
      else if bRequest setup = USB_REQUEST_GET_CONFIGURATION then Some [current_config_num (device s)]
      else None)"

definition usb_default_handle_device_setup_request ::
    "('d, 'z) usb_state_scheme usb_callbacks \<Rightarrow> usb_consts \<Rightarrow> usb_setup_packet \<Rightarrow>
       ('d, 'z) usb_state_scheme \<Rightarrow> ('d, 'z) usb_state_scheme option" where
  "usb_default_handle_device_setup_request cb c setup s =
     (if bmRequestType setup AND USB_REQ_TYPE_TYPE_MASK = 0 then
        (if bmRequestType setup AND USB_DIR_IN \<noteq> 0 then
           (let s0 = snd (usb_current_packet_buffer c Control_In s)
            in case device_in_request cb setup s0 of
                 Some bytes \<Rightarrow> control_in_response cb c setup bytes s0
               | None \<Rightarrow> usb_stall_control_pipe cb c s0)
         else if bRequest setup = USB_REQUEST_SET_ADDRESS then
           (let addr = (ucast (wValue setup) :: u8)
            in if addr \<noteq> 0 \<and> addr \<le> 127 then
                 usb_start_empty_control_in_transfer cb c Tf_set_address
                   (s\<lparr>device := (device s)\<lparr>pending_address := addr\<rparr>\<rparr>)
               else usb_stall_control_pipe cb c s)
         else if bRequest setup = USB_REQUEST_SET_CONFIGURATION then
           (let config_num = (ucast (wValue setup) :: u8)
            in if config_num = 0 \<or> bConfigurationValue (config_descriptor (device s)) = config_num then
                 Option.bind (usb_handle_set_config cb c config_num s)
                   (usb_start_empty_control_in_transfer_null_completion cb c)
               else usb_stall_control_pipe cb c s)
         else usb_stall_control_pipe cb c s)
      else usb_stall_control_pipe cb c s)"


definition usb_default_handle_interface_setup_request ::
    "('d, 'z) usb_state_scheme usb_callbacks \<Rightarrow> usb_consts \<Rightarrow> usb_setup_packet \<Rightarrow>
       ('d, 'z) usb_state_scheme \<Rightarrow> ('d, 'z) usb_state_scheme option" where
  "usb_default_handle_interface_setup_request cb c setup s =
     (if bmRequestType setup AND USB_REQ_TYPE_TYPE_MASK = 0 \<and> drop_bit 8 (wIndex setup) = 0 \<and>
         bmRequestType setup AND USB_DIR_IN \<noteq> 0 \<and> bRequest setup = USB_REQUEST_GET_STATUS
      then usb_start_tiny_control_in_transfer cb c 0 2 s
      else usb_stall_control_pipe cb c s)"

definition usb_clear_endpoint_halt where
  "usb_clear_endpoint_halt cb c e s =
     (if halt_state (endpoints s e) < HS_HALTED_ON_CONDITION then usb_hard_reset_endpoint cb c e s
      else Some (upd_ep e (\<lambda>ep. ep\<lparr>next_pid := 0\<rparr>) s))"

definition usb_default_handle_endpoint_setup_request ::
    "('d, 'z) usb_state_scheme usb_callbacks \<Rightarrow> usb_consts \<Rightarrow> usb_setup_packet \<Rightarrow> ep_id \<Rightarrow>
       ('d, 'z) usb_state_scheme \<Rightarrow> ('d, 'z) usb_state_scheme option" where
  "usb_default_handle_endpoint_setup_request cb c setup e s =
     (if bmRequestType setup AND USB_REQ_TYPE_TYPE_MASK = 0 then
        (if bmRequestType setup AND USB_DIR_IN \<noteq> 0 then
           (if bRequest setup = USB_REQUEST_GET_STATUS \<and> wValue setup = 0 \<and> wLength setup = 2
            then usb_start_tiny_control_in_transfer cb c (if halt_state (endpoints s e) > HS_NON_HALT_STALL then 1 else 0) 2 s
            else usb_stall_control_pipe cb c s)
         else if bRequest setup = USB_REQUEST_CLEAR_FEATURE \<and> wValue setup = USB_FEAT_ENDPOINT_HALT then
           Option.bind (usb_clear_endpoint_halt cb c e s) (usb_start_empty_control_in_transfer_null_completion cb c)
         else if bRequest setup = USB_REQUEST_SET_FEATURE \<and> wValue setup = USB_FEAT_ENDPOINT_HALT then
           Option.bind (usb_stall_endpoint cb c e HS_HALTED s) (usb_start_empty_control_in_transfer_null_completion cb c)
         else usb_stall_control_pipe cb c s)
      else usb_stall_control_pipe cb c s)"

text \<open>The index of an interface in the array of interfaces, if the device is configured.\<close>

definition usb_find_interface :: "nat \<Rightarrow> ('d, 'z) usb_state_scheme \<Rightarrow> nat option" where
  "usb_find_interface num s =
     (if current_config_num (device s) \<noteq> 0 \<and> num < USB_FIXED_INTERFACE_COUNT
      then Some (first_interface (device s) + num) else None)"

text \<open>
  The search of the endpoint table: a null entry is followed without a check, which is the outer
  \<open>None\<close>; the inner one is that no endpoint has the address.
\<close>

fun search_endpoints :: "(nat \<Rightarrow> ep_id option) \<Rightarrow> (ep_id \<Rightarrow> usb_endpoint) \<Rightarrow> u16 \<Rightarrow> nat list \<Rightarrow> ep_id option option" where
  "search_endpoints tab eps num [] = Some None"
| "search_endpoints tab eps num (i # is) =
     (case tab i of
        None \<Rightarrow> None
      | Some e \<Rightarrow>
          (case ep_descriptor (eps e) of
             None \<Rightarrow> None
           | Some d \<Rightarrow> if ucast (bEndpointAddress d) = num then Some (Some e) else search_endpoints tab eps num is))"

definition usb_find_endpoint :: "u16 \<Rightarrow> ('d, 'z) usb_state_scheme \<Rightarrow> ep_id option option" where
  "usb_find_endpoint num s =
     (if num = 0 then Some (Some Control_Out)
      else if num = 0x80 then Some (Some Control_In)
      else if current_config_num (device s) \<noteq> 0
           then search_endpoints (endpoint_table s) (endpoints s) num [1..<USB_MAX_ENDPOINTS]
      else Some None)"

definition usb_handle_setup_packet ::
    "('d, 'z) usb_state_scheme usb_callbacks \<Rightarrow> usb_consts \<Rightarrow> usb_setup_packet \<Rightarrow>
       ('d, 'z) usb_state_scheme \<Rightarrow> ('d, 'z) usb_state_scheme option" where
  "usb_handle_setup_packet cb c setup s =
     do {
       s1 \<leftarrow> usb_soft_reset_endpoint cb c Control_In s;
       s2 \<leftarrow> usb_soft_reset_endpoint cb c Control_Out s1;
       let s3 = upd_ep Control_In (\<lambda>ep. ep\<lparr>next_pid := 1\<rparr>) (upd_ep Control_Out (\<lambda>ep. ep\<lparr>next_pid := 1\<rparr>) s2);
       let recipient = bmRequestType setup AND USB_REQ_TYPE_RECIPIENT_MASK;
       (if recipient = 0 then usb_default_handle_device_setup_request cb c setup s3
        else if recipient = 1 then
          (case usb_find_interface (unat (wIndex setup AND 0xff)) s3 of
             None \<Rightarrow> usb_stall_control_pipe cb c s3
           | Some i \<Rightarrow>
               do {
                 (handled, s4) \<leftarrow> cb_setup_request cb i setup s3;
                 if handled then Some s4 else usb_default_handle_interface_setup_request cb c setup s4
               })
        else if recipient = 2 then
          (case usb_find_endpoint (wIndex setup) s3 of
             None \<Rightarrow> None
           | Some None \<Rightarrow> usb_stall_control_pipe cb c s3
           | Some (Some e) \<Rightarrow> usb_default_handle_endpoint_setup_request cb c setup e s3)
        else usb_stall_control_pipe cb c s3)
     }"

subsection \<open>Interrupts\<close>

text \<open>One pass over the status bits that were set when the handler started, bit by bit.\<close>

fun handle_buffer_bits ::
    "('d, 'z) usb_state_scheme usb_callbacks \<Rightarrow> usb_consts \<Rightarrow> nat list \<Rightarrow> u32 \<Rightarrow>
       ('d, 'z) usb_state_scheme \<Rightarrow> (u32 \<times> ('d, 'z) usb_state_scheme) option" where
  "handle_buffer_bits cb c [] remaining s = Some (remaining, s)"
| "handle_buffer_bits cb c (i # is) remaining s =
     (if remaining = 0 then Some (remaining, s)
      else if remaining AND 2 ^ i \<noteq> 0 then
        Option.bind
          (usb_handle_transfer cb c (i div 2) (even i) (if buf_cpu_should_handle s AND 2 ^ i \<noteq> 0 then 1 else 0)
             (s\<lparr>buf_status := buf_status s AND NOT (2 ^ i)\<rparr>))
          (handle_buffer_bits cb c is (remaining AND NOT (2 ^ i)))
      else handle_buffer_bits cb c is remaining s)"

definition usb_handle_buffer ::
    "('d, 'z) usb_state_scheme usb_callbacks \<Rightarrow> usb_consts \<Rightarrow> ('d, 'z) usb_state_scheme \<Rightarrow> ('d, 'z) usb_state_scheme option" where
  "usb_handle_buffer cb c s =
     do {
       (remaining, s1) \<leftarrow> handle_buffer_bits cb c [0..<USB_MAX_ENDPOINTS * 2] (buf_status s) s;
       Some (if remaining \<noteq> 0 then s1\<lparr>buf_status := buf_status s1 AND NOT remaining\<rparr> else s1)
     }"

text \<open>The setup packet at the start of the dual-port RAM.\<close>

definition setup_packet_at :: "memory \<Rightarrow> u32 \<Rightarrow> usb_setup_packet" where
  "setup_packet_at m a =
     \<lparr>bmRequestType = m a, bRequest = m (a + 1), wValue = rd16 m (a + 2), wIndex = rd16 m (a + 4), wLength = rd16 m (a + 6)\<rparr>"

definition isr_usbctrl ::
    "('d, 'z) usb_state_scheme usb_callbacks \<Rightarrow> usb_consts \<Rightarrow> u32 \<Rightarrow> ('d, 'z) usb_state_scheme \<Rightarrow> ('d, 'z) usb_state_scheme option" where
  "isr_usbctrl cb c status s =
     do {
       s1 \<leftarrow> (if status AND USB_INTS_SETUP_REQ_BITS c \<noteq> 0 then
                do {
                  s' \<leftarrow> usb_handle_setup_packet cb c (setup_packet_at (mem s) (USBCTRL_DPRAM_BASE c)) s;
                  Some (s'\<lparr>sie_status := sie_status s' AND NOT (USB_SIE_STATUS_SETUP_REC_BITS c)\<rparr>)
                }
              else Some s);
       s2 \<leftarrow> (if status AND USB_INTS_BUFF_STATUS_BITS c \<noteq> 0 then usb_handle_buffer cb c s1 else Some s1);
       s3 \<leftarrow> (if status AND USB_INTS_BUS_RESET_BITS c \<noteq> 0 then
                do {
                  s' \<leftarrow> usb_handle_bus_reset cb c s2;
                  Some (s'\<lparr>sie_status := sie_status s' AND NOT (USB_SIE_STATUS_BUS_RESET_BITS c)\<rparr>)
                }
              else Some s2);
       if status AND USB_INTS_ERROR_BITS c \<noteq> 0 then
         (if sie_status s3 AND USB_SIE_STATUS_DATA_SEQ_ERROR_BITS c \<noteq> 0
          then Some (s3\<lparr>sie_status := sie_status s3 AND NOT (USB_SIE_STATUS_DATA_SEQ_ERROR_BITS c)\<rparr>)
          else usb_handle_bus_reset cb c s3)
       else Some s3
     }"


subsection \<open>Initialisation\<close>

definition usb_endpoint_init_internal ::
    "ep_id \<Rightarrow> u8 \<Rightarrow> bool \<Rightarrow> u16 \<Rightarrow> bool \<Rightarrow> ('d, 'z) usb_state_scheme \<Rightarrow> ('d, 'z) usb_state_scheme" where
  "usb_endpoint_init_internal e num is_in max_buffer_size double s =
     upd_ep e (\<lambda>ep. ep\<lparr>ep_num := num, ep_in := is_in, buffer_size := max_buffer_size, double_buffered := double,
       buffer_bit_index := num * 2 + (if is_in then 0 else 1)\<rparr>) s"

definition usb_endpoint_number :: "usb_endpoint \<Rightarrow> nat" where
  "usb_endpoint_number ep =
     (case ep_descriptor ep of None \<Rightarrow> 0 | Some d \<Rightarrow> unat (bEndpointAddress d AND 0xf))"

text \<open>The control word of a bulk endpoint: the flags in the top bits, the buffer offset below.\<close>

definition ep_ctrl_reg :: "usb_consts \<Rightarrow> usb_endpoint \<Rightarrow> u16 \<Rightarrow> u32" where
  "ep_ctrl_reg c ep off =
     (let reg = drop_bit 25 (EP_CTRL_ENABLE_BITS c OR EP_CTRL_INTERRUPT_PER_BUFFER c OR push_bit (EP_CTRL_BUFFER_TYPE_LSB c) 2);
          reg = (if double_buffered ep then reg + drop_bit 25 (EP_CTRL_DOUBLE_BUFFERED_BITS c) else reg)
      in push_bit 25 reg + ucast off)"

definition usb_endpoint_hw_init :: "usb_consts \<Rightarrow> ep_id \<Rightarrow> ('d, 'z) usb_state_scheme \<Rightarrow> ('d, 'z) usb_state_scheme" where
  "usb_endpoint_hw_init c e s =
     (let n = usb_endpoint_number (endpoints s e);
          off = next_buffer_offset (device s);
          s1 = s\<lparr>buf_ctrl := (buf_ctrl s)(n := (\<lambda>_ _. 0))\<rparr>;
          s2 = upd_ep e (\<lambda>ep. ep\<lparr>dpram_buffer_offset := off\<rparr>) s1;
          stride = (if double_buffered (endpoints s e) then 128 else 64);
          s3 = s2\<lparr>device := (device s2)\<lparr>next_buffer_offset := off + stride\<rparr>\<rparr>
      in if n \<noteq> 0 then
           (let reg = ep_ctrl_reg c (endpoints s e) off; i = ep_in (endpoints s e)
            in s3\<lparr>ep_ctrl := (ep_ctrl s3)(n := (\<lambda>d. if d = i then reg else 0))\<rparr>)
         else s3)"

text \<open>
  The next descriptor of a type after offset \<open>p\<close> of the bytes; the walk does not end when a
  descriptor has length zero.
\<close>

partial_function (option) usb_next_descriptor :: "u8 list \<Rightarrow> nat \<Rightarrow> u8 \<Rightarrow> nat option" where
  "usb_next_descriptor bytes p ty =
     (let q = p + unat (bytes ! p)
      in if bytes ! (q + 1) \<noteq> ty then usb_next_descriptor bytes q ty else Some q)"

definition usb_endpoint_descriptor_at :: "u8 list \<Rightarrow> nat \<Rightarrow> usb_endpoint_descriptor" where
  "usb_endpoint_descriptor_at bytes p =
     \<lparr>bEndpointAddress = bytes ! (p + 2), bmAttributes = bytes ! (p + 3),
      wMaxPacketSize = ucast (bytes ! (p + 4)) OR push_bit 8 (ucast (bytes ! (p + 5)))\<rparr>"

fun init_interface_endpoints ::
    "u8 list \<Rightarrow> nat \<Rightarrow> bool \<Rightarrow> ep_id list \<Rightarrow> ('d, 'z) usb_state_scheme \<Rightarrow> ('d, 'z) usb_state_scheme option" where
  "init_interface_endpoints bytes p double [] s = Some s"
| "init_interface_endpoints bytes p double (e # es) s =
     do {
       q \<leftarrow> usb_next_descriptor bytes p USB_DESCRIPTOR_TYPE_ENDPOINT;
       let d = usb_endpoint_descriptor_at bytes q;
       let num = bEndpointAddress d AND 0xf;
       let s1 = usb_endpoint_init_internal e num (bEndpointAddress d AND USB_DIR_IN \<noteq> 0) (wMaxPacketSize d) double s;
       let s2 = upd_ep e (\<lambda>ep. ep\<lparr>ep_descriptor := Some d\<rparr>) s1;
       init_interface_endpoints bytes q double es
         (s2\<lparr>endpoint_table := (endpoint_table s2)(unat num := Some e)\<rparr>)
     }"

definition usb_interface_init ::
    "u8 list \<Rightarrow> nat \<Rightarrow> ep_id list \<Rightarrow> bool \<Rightarrow> ('d, 'z) usb_state_scheme \<Rightarrow> ('d, 'z) usb_state_scheme option" where
  "usb_interface_init bytes desc es double s = init_interface_endpoints bytes desc double es s"

definition set_next_buffer_offset :: "u16 \<Rightarrow> ('d, 'z) usb_state_scheme \<Rightarrow> ('d, 'z) usb_state_scheme" where
  "set_next_buffer_offset off s = s\<lparr>device := (device s)\<lparr>next_buffer_offset := off\<rparr>\<rparr>"

definition usb_device_init ::
    "usb_consts \<Rightarrow> u8 list \<Rightarrow> u8 list \<Rightarrow> nat \<Rightarrow> ('d, 'z) usb_state_scheme \<Rightarrow> ('d, 'z) usb_state_scheme" where
  "usb_device_init c desc config_desc interfaces s =
     (let s1 = s\<lparr>device := (device s)\<lparr>device_descriptor := desc, config_descriptor := config_desc,
                                       first_interface := interfaces\<rparr>\<rparr>;
          s2 = usb_endpoint_init_internal Control_In 0 True 64 False s1;
          s3 = usb_endpoint_init_internal Control_Out 0 False 64 False s2;
          s4 = usb_endpoint_hw_init c Control_In (set_next_buffer_offset 0x100 s3);
          s5 = usb_endpoint_hw_init c Control_Out (set_next_buffer_offset 0x100 s4);
          s6 = set_next_buffer_offset 0x180 s5
      in fold (usb_endpoint_hw_init c) (enumerated_endpoints False s6) s6)"

definition usb_device_start ::
    "('d, 'z) usb_state_scheme usb_callbacks \<Rightarrow> usb_consts \<Rightarrow> ('d, 'z) usb_state_scheme \<Rightarrow> ('d, 'z) usb_state_scheme option" where
  "usb_device_start cb c s =
     do {
       let s1 = s\<lparr>dev_addr_ctrl := 0, ep_stall_arm := 0, usb_abort := 0, usb_regs := (\<lambda>_. 0)\<rparr>;
       let s2 = s1\<lparr>usb_regs := (usb_regs s1)(''muxing'' := USB_USB_MUXING_VALUE c, ''pwr'' := USB_USB_PWR_VALUE c,
                     ''main_ctrl'' := USB_MAIN_CTRL_CONTROLLER_EN_BITS c)\<rparr>;
       s3 \<leftarrow> usb_handle_bus_reset cb c s2;
       let s4 = s3\<lparr>usb_regs := (usb_regs s3)(''sie_ctrl'' := USB_SIE_CTRL_VALUE c,
                     ''inte'' := USB_INTS_BUFF_STATUS_BITS c OR USB_INTS_BUS_RESET_BITS c OR
                                 USB_INTS_SETUP_REQ_BITS c OR USB_INTS_ERROR_BITS c)\<rparr>;
       Some (interrupt_enable (USBCTRL_IRQ c) True s4)
     }"

end
