(* ===== verification/Usb_Stream.thy ===== *)
theory Usb_Stream
  imports Usb_Control
begin

section \<open>Stream transfers\<close>

text \<open>
  \<open>usb_device_tiny/usb_stream_helper.c\<close>: a transfer of many packets through a buffer of one
  chunk (a sector for the mass storage class, a flash page for PICOBOOT). A stream is named by
  the transfer it contains; \<open>on_chunk\<close> and \<open>on_packet_complete\<close> are called through
  \<open>stream_callbacks\<close>.
\<close>

datatype stream_funcs = No_Funcs | Msc_Sector_Funcs | Picoboot_Stream_Funcs

record usb_stream =
  stream_offset :: u32
  transfer_length :: u32
  chunk_size :: u32
  chunk_buffer :: u32 \<comment> \<open>address\<close>
  stream_ep :: ep_id
  stream_functions :: stream_funcs

record 'd stream_state = "'d usb_state" +
  streams :: "transfer_id \<Rightarrow> usb_stream"

record 's stream_callbacks =
  sc_on_chunk :: "stream_funcs \<Rightarrow> u32 \<Rightarrow> 's \<Rightarrow> (bool \<times> 's) option"
  sc_on_packet_complete :: "stream_funcs \<Rightarrow> 's \<Rightarrow> 's"

definition upd_stream ::
    "transfer_id \<Rightarrow> (usb_stream \<Rightarrow> usb_stream) \<Rightarrow> ('d, 'z) stream_state_scheme \<Rightarrow> ('d, 'z) stream_state_scheme" where
  "upd_stream t f s = s\<lparr>streams := (streams s)(t := f (streams s t))\<rparr>"

subsection \<open>Operations\<close>

definition usb_stream_chunk_offset :: "usb_stream \<Rightarrow> u32" where
  "usb_stream_chunk_offset st = stream_offset st AND (chunk_size st - 1)"

text \<open>The length of the next IN packet.\<close>

definition stream_data_len :: "usb_stream \<Rightarrow> u32" where
  "stream_data_len st =
     (if stream_offset st + 64 > transfer_length st then transfer_length st - stream_offset st else 64)"

definition stream_fill_in_packet ::
    "usb_consts \<Rightarrow> transfer_id \<Rightarrow> ('d, 'z) stream_state_scheme \<Rightarrow> ('d, 'z) stream_state_scheme" where
  "stream_fill_in_packet c t s =
     (let st = streams s t;
          (b, s1) = usb_current_packet_buffer c (stream_ep st) s;
          n = stream_data_len st;
          s2 = set_buffer_len (stream_ep st) (ucast n) s1
      in s2\<lparr>mem := mem_write (mem s2) (buf_data b)
              (mem_read (mem s2) (chunk_buffer st + usb_stream_chunk_offset st) (unat n))\<rparr>)"

definition usb_stream_packet_handler_complete ::
    "('d, 'z) stream_state_scheme usb_callbacks \<Rightarrow> ('d, 'z) stream_state_scheme stream_callbacks \<Rightarrow> usb_consts \<Rightarrow>
       transfer_id \<Rightarrow> ('d, 'z) stream_state_scheme \<Rightarrow> ('d, 'z) stream_state_scheme option" where
  "usb_stream_packet_handler_complete cb sc c t s =
     (let e = stream_ep (streams s t);
          s1 = (if ep_in (endpoints s e) then stream_fill_in_packet c t s else snd (usb_current_packet_buffer c e s));
          n = buf_data_len (current_hw_buffer (endpoints s1 e));
          s2 = upd_stream t (\<lambda>st. st\<lparr>stream_offset := stream_offset st + ucast n\<rparr>) s1;
          s3 = sc_on_packet_complete sc (stream_functions (streams s2 t)) s2;
          s4 = gpio_clr_mask (usb_activity_gpio_pin_mask s3) s3
      in usb_packet_done cb c e s4)"

definition usb_stream_chunk_done where
  "usb_stream_chunk_done cb sc c t s = usb_stream_packet_handler_complete cb sc c t s"

text \<open>The length of the chunk that a packet begins (IN) or ends (OUT), or zero.\<close>

definition in_chunk_len :: "usb_stream \<Rightarrow> u32" where
  "in_chunk_len st =
     (if usb_stream_chunk_offset st = 0 then
        (if stream_offset st + chunk_size st > transfer_length st then transfer_length st - stream_offset st
         else chunk_size st)
      else 0)"

definition out_chunk_len :: "usb_stream \<Rightarrow> u32" where
  "out_chunk_len st =
     (if stream_offset st + 64 \<ge> transfer_length st then
        (let n = transfer_length st AND (chunk_size st - 1) in if n \<noteq> 0 then n else chunk_size st)
      else if usb_stream_chunk_offset st + 64 \<ge> chunk_size st then chunk_size st
      else 0)"

definition stream_store_out_packet ::
    "usb_consts \<Rightarrow> transfer_id \<Rightarrow> ep_id \<Rightarrow> ('d, 'z) stream_state_scheme \<Rightarrow> ('d, 'z) stream_state_scheme" where
  "stream_store_out_packet c t e s =
     (let st = streams s t;
          (b, s1) = usb_current_packet_buffer c e s;
          m = (if usb_stream_chunk_offset st = 0
               then mem_write (mem s1) (chunk_buffer st) (replicate (unat (chunk_size st)) 0) else mem s1)
      in s1\<lparr>mem := mem_write m (chunk_buffer st + usb_stream_chunk_offset st)
              (mem_read m (buf_data b) (unat (buf_data_len b)))\<rparr>)"

definition usb_stream_packet_packet_handler ::
    "('d, 'z) stream_state_scheme usb_callbacks \<Rightarrow> ('d, 'z) stream_state_scheme stream_callbacks \<Rightarrow> usb_consts \<Rightarrow>
       ep_id \<Rightarrow> ('d, 'z) stream_state_scheme \<Rightarrow> ('d, 'z) stream_state_scheme option" where
  "usb_stream_packet_packet_handler cb sc c e s =
     do {
       let s0 = gpio_set_mask (usb_activity_gpio_pin_mask s) s;
       t \<leftarrow> current_transfer (endpoints s0 e);
       let st = streams s0 t;
       let is_in = ep_in (endpoints s0 e);
       let chunk_len = (if is_in then in_chunk_len st else out_chunk_len st);
       let s1 = (if is_in then s0 else stream_store_out_packet c t e s0);
       (async, s2) \<leftarrow> (if chunk_len \<noteq> 0 then sc_on_chunk sc (stream_functions st) chunk_len s1 else Some (False, s1));
       if async then Some s2 else usb_stream_packet_handler_complete cb sc c t s2
     }"

definition usb_stream_setup_transfer ::
    "transfer_id \<Rightarrow> stream_funcs \<Rightarrow> u32 \<Rightarrow> u32 \<Rightarrow> u32 \<Rightarrow> completed_func \<Rightarrow>
       ('d, 'z) stream_state_scheme \<Rightarrow> ('d, 'z) stream_state_scheme" where
  "usb_stream_setup_transfer t funcs buf n len f s =
     usb_grow_transfer t ((len + 63) div 64)
       (usb_reset_transfer t Usb_Stream_Packet_Handler f
         (upd_stream t (\<lambda>st. st\<lparr>stream_functions := funcs, chunk_buffer := buf, chunk_size := n, stream_offset := 0,
                                transfer_length := len\<rparr>) s))"

end
