(* ===== verification/Usb_Msc.thy ===== *)
theory Usb_Msc
  imports Usb_Stream
begin

section \<open>The mass storage class\<close>

text \<open>
  \<open>usb_device_tiny/usb_msc.c\<close>: the bulk-only transport (command block wrappers in, command
  status wrappers out, stalls in between) and the SCSI commands of the virtual disk. The command
  block is read from the packet once, when the packet is handled; the packet buffers of the two
  endpoints are apart, so later reads of it see the same bytes.
\<close>

subsection \<open>Data\<close>

record scsi_cbw =
  cbw_sig :: u32
  cbw_tag :: u32
  data_transfer_length :: u32
  cbw_flags :: u8
  cbw_lun :: u8
  cb_length :: u8
  cbw_cb :: "nat \<Rightarrow> u8"

definition scsi_cbw_at :: "memory \<Rightarrow> u32 \<Rightarrow> scsi_cbw" where
  "scsi_cbw_at m a =
     \<lparr>cbw_sig = rd32 m a, cbw_tag = rd32 m (a + 4), data_transfer_length = rd32 m (a + 8), cbw_flags = m (a + 12),
      cbw_lun = m (a + 13), cb_length = m (a + 14), cbw_cb = (\<lambda>i. m (a + 15 + word_of_nat i))\<rparr>"

record scsi_csw =
  csw_sig :: u32
  csw_tag :: u32
  residue :: u32
  csw_status :: u8

record scsi_request_sense_response =
  rs_code :: u8
  rs_key :: u8
  rs_additional_sense_len :: u8
  rs_asc :: u8
  rs_ascq :: u8

datatype scsi_direction = SCSI_DIR_NONE | SCSI_DIR_IN | SCSI_DIR_OUT

record 'd msc_state = "'d stream_state" +
  csw :: scsi_csw
  request_sense :: scsi_request_sense_response
  data_phase_length :: u32
  stall_direction_before_csw :: scsi_direction
  send_csw_on_unstall :: bool
  ejected :: bool
  msc_async_token :: u32
  msc_sector_lba :: u32
  msc_one_time :: bool

record 'd msc_env = "'d vd_env" +
  usbc :: usb_consts
  sector_buf :: u32 \<comment> \<open>address\<close>
  scsi_ir_z :: "u8 list"

text \<open>The bytes of the two responses (13 and 18, packed).\<close>

definition csw_bytes :: "scsi_csw \<Rightarrow> u8 list" where
  "csw_bytes w = le32 (csw_sig w) @ le32 (csw_tag w) @ le32 (residue w) @ [csw_status w]"

definition request_sense_bytes :: "scsi_request_sense_response \<Rightarrow> u8 list" where
  "request_sense_bytes r =
     [rs_code r, 0, rs_key r] @ le32 0 @ [rs_additional_sense_len r] @ le32 0 @ [rs_asc r, rs_ascq r, 0, 0, 0, 0]"

abbreviation (input) CBW_SIG :: u32 where "CBW_SIG \<equiv> 0x43425355"
abbreviation (input) CSW_SIG :: u32 where "CSW_SIG \<equiv> 0x53425355"
abbreviation (input) CSW_STATUS_COMMAND_PASSED :: u8 where "CSW_STATUS_COMMAND_PASSED \<equiv> 0"
abbreviation (input) CSW_STATUS_COMMAND_FAILED :: u8 where "CSW_STATUS_COMMAND_FAILED \<equiv> 1"
abbreviation (input) CSW_STATUS_PHASE_ERROR :: u8 where "CSW_STATUS_PHASE_ERROR \<equiv> 2"
abbreviation (input) SK_OK :: u8 where "SK_OK \<equiv> 0"
abbreviation (input) SK_NOT_READY :: u8 where "SK_NOT_READY \<equiv> 2"
abbreviation (input) SK_ILLEGAL_REQUEST :: u8 where "SK_ILLEGAL_REQUEST \<equiv> 5"
abbreviation (input) SK_DATA_PROTECT :: u8 where "SK_DATA_PROTECT \<equiv> 7"
abbreviation (input) ASC_INVALID_COMMAND_OPERATION_CODE :: u8 where "ASC_INVALID_COMMAND_OPERATION_CODE \<equiv> 0x20"
abbreviation (input) ASC_ACCESS_DENIED :: u8 where "ASC_ACCESS_DENIED \<equiv> 0x20"
abbreviation (input) ASC_MEDIUM_NOT_PRESENT :: u8 where "ASC_MEDIUM_NOT_PRESENT \<equiv> 0x3a"

subsection \<open>The status phase\<close>

type_synonym ('d, 'z) msc_step = "('d, 'z) msc_state_scheme \<Rightarrow> ('d, 'z) msc_state_scheme option"

definition msc_reset_and_start_cmd_response_transfer ::
    "('d, 'z) msc_state_scheme usb_callbacks \<Rightarrow> usb_consts \<Rightarrow> completed_func \<Rightarrow> ('d, 'z) msc_step" where
  "msc_reset_and_start_cmd_response_transfer cb c f s =
     usb_reset_and_start_transfer cb c Msc_In Msc_Cmd_Response_Transfer Current_Packet_Only f s"

definition msc_send_csw :: "('d, 'z) msc_state_scheme usb_callbacks \<Rightarrow> usb_consts \<Rightarrow> ('d, 'z) msc_step" where
  "msc_send_csw cb c s =
     (let (b, s1) = usb_get_single_packet_response_buffer c Msc_In 13 (s\<lparr>send_csw_on_unstall := False\<rparr>)
      in msc_reset_and_start_cmd_response_transfer cb c Tf_wait_command
           (s1\<lparr>mem := mem_write (mem s1) b (csw_bytes (csw s1))\<rparr>))"

definition msc_set_csw_failed :: "u8 \<Rightarrow> u8 \<Rightarrow> u8 \<Rightarrow> ('d, 'z) msc_state_scheme \<Rightarrow> ('d, 'z) msc_state_scheme" where
  "msc_set_csw_failed sk asc ascq s =
     s\<lparr>csw := (csw s)\<lparr>csw_status := CSW_STATUS_COMMAND_FAILED\<rparr>,
       request_sense := (request_sense s)\<lparr>rs_key := sk, rs_asc := asc, rs_ascq := ascq\<rparr>\<rparr>"

definition msc_data_phase_complete :: "('d, 'z) msc_state_scheme usb_callbacks \<Rightarrow> usb_consts \<Rightarrow> ('d, 'z) msc_step" where
  "msc_data_phase_complete cb c s =
     (if stall_direction_before_csw s = SCSI_DIR_IN then
        usb_halt_endpoint cb c Msc_In (s\<lparr>stall_direction_before_csw := SCSI_DIR_NONE, send_csw_on_unstall := True\<rparr>)
      else
        do {
          s1 \<leftarrow> (if stall_direction_before_csw s = SCSI_DIR_OUT
                  then usb_halt_endpoint cb c Msc_Out (s\<lparr>stall_direction_before_csw := SCSI_DIR_NONE\<rparr>)
                  else Some s);
          msc_send_csw cb c s1
        })"

definition scsi_dir :: "scsi_cbw \<Rightarrow> scsi_direction" where
  "scsi_dir cbw = (if cbw_flags cbw AND USB_DIR_IN \<noteq> 0 then SCSI_DIR_IN else SCSI_DIR_OUT)"

definition msc_init_for_dn :: "('d, 'z) msc_state_scheme usb_callbacks \<Rightarrow> usb_consts \<Rightarrow> scsi_cbw \<Rightarrow> ('d, 'z) msc_step" where
  "msc_init_for_dn cb c cbw s =
     msc_data_phase_complete cb c
       (s\<lparr>stall_direction_before_csw := (if data_transfer_length cbw \<noteq> 0 then scsi_dir cbw else SCSI_DIR_NONE)\<rparr>)"

text \<open>
  What the data phase will be, before it is started: how the host's and the device's lengths and
  directions compare decides the stall, the status and the number of bytes.
\<close>

definition di_or_do_plan ::
    "scsi_cbw \<Rightarrow> u32 \<Rightarrow> scsi_direction \<Rightarrow> ('d, 'z) msc_state_scheme \<Rightarrow> ('d, 'z) msc_state_scheme" where
  "di_or_do_plan cbw expected_length dir s =
     (if scsi_dir cbw \<noteq> dir then
        s\<lparr>stall_direction_before_csw := scsi_dir cbw, data_phase_length := 0,
          csw := (csw s)\<lparr>csw_status := CSW_STATUS_PHASE_ERROR\<rparr>\<rparr>
      else
        (let s1 = s\<lparr>stall_direction_before_csw :=
                      (if expected_length \<noteq> data_transfer_length cbw then dir else SCSI_DIR_NONE)\<rparr>;
             s2 = (if expected_length > data_transfer_length cbw
                   then s1\<lparr>csw := (csw s1)\<lparr>csw_status := CSW_STATUS_PHASE_ERROR\<rparr>\<rparr> else s1)
         in s2\<lparr>data_phase_length := min expected_length (data_transfer_length cbw)\<rparr>))"

definition msc_init_for_di_or_do ::
    "('d, 'z) msc_state_scheme usb_callbacks \<Rightarrow> usb_consts \<Rightarrow> scsi_cbw \<Rightarrow> u32 \<Rightarrow> scsi_direction \<Rightarrow>
       ('d, 'z) msc_state_scheme \<Rightarrow> (bool \<times> ('d, 'z) msc_state_scheme) option" where
  "msc_init_for_di_or_do cb c cbw expected_length dir s =
     (let s1 = di_or_do_plan cbw expected_length dir s
      in if data_phase_length s1 = 0 then map_option (Pair False) (msc_data_phase_complete cb c s1)
         else Some (True, s1))"

definition scsi_fail_cmd ::
    "('d, 'z) msc_state_scheme usb_callbacks \<Rightarrow> usb_consts \<Rightarrow> scsi_cbw \<Rightarrow> u8 \<Rightarrow> u8 \<Rightarrow> u8 \<Rightarrow> ('d, 'z) msc_step" where
  "scsi_fail_cmd cb c cbw sk asc ascq s = msc_init_for_dn cb c cbw (msc_set_csw_failed sk asc ascq s)"

definition scsi_standard_response ::
    "('d, 'z) msc_state_scheme usb_callbacks \<Rightarrow> usb_consts \<Rightarrow> scsi_cbw \<Rightarrow> ('d, 'z) msc_step" where
  "scsi_standard_response cb c cbw s =
     do {
       let (b, s0) = usb_current_packet_buffer c Msc_In s;
       (go, s1) \<leftarrow> msc_init_for_di_or_do cb c cbw (min (ucast (buf_data_len b)) (data_transfer_length cbw)) SCSI_DIR_IN s0;
       if go then
         (let n = (ucast (data_phase_length s1) :: u8);
              s2 = set_buffer_len Msc_In n s1
          in msc_reset_and_start_cmd_response_transfer cb c Tf_data_phase_complete
               (s2\<lparr>csw := (csw s2)\<lparr>residue := residue (csw s2) - ucast n\<rparr>\<rparr>))
       else Some s1
     }"


subsection \<open>Reading and writing sectors\<close>

text \<open>
  A chunk of the sector stream is one sector: it is given to the virtual disk with a new token.
  Packets count down the residue.
\<close>

definition msc_on_sector_stream_packet_complete :: "('d, 'z) msc_state_scheme \<Rightarrow> ('d, 'z) msc_state_scheme" where
  "msc_on_sector_stream_packet_complete s = s\<lparr>csw := (csw s)\<lparr>residue := residue (csw s) - 64\<rparr>\<rparr>"

definition msc_on_sector_stream_chunk ::
    "('d, 'e) msc_env_scheme \<Rightarrow> ('d, 'z) msc_state_scheme \<Rightarrow> bool \<times> ('d, 'z) msc_state_scheme" where
  "msc_on_sector_stream_chunk env s =
     (let token = msc_async_token s + 1;
          lba = msc_sector_lba s;
          s1 = s\<lparr>msc_async_token := token, msc_sector_lba := lba + 1\<rparr>
      in if ep_in (endpoints s1 (stream_ep (streams s1 Msc_Sector_Transfer)))
         then vd_read_block env token lba (sector_buf env) s1
         else vd_write_block env token lba (sector_buf env) s1)"

definition vd_async_complete ::
    "('d, 'z) msc_state_scheme usb_callbacks \<Rightarrow> ('d, 'z) msc_state_scheme stream_callbacks \<Rightarrow> usb_consts \<Rightarrow> u32 \<Rightarrow> u32 \<Rightarrow>
       ('d, 'z) msc_step" where
  "vd_async_complete cb sc c token result s =
     (if token = msc_async_token s then
        do {
          s1 \<leftarrow> (if result \<noteq> 0
                  then msc_data_phase_complete cb c
                         ((msc_set_csw_failed SK_DATA_PROTECT ASC_ACCESS_DENIED 2 s)\<lparr>stall_direction_before_csw := SCSI_DIR_OUT\<rparr>)
                  else Some s);
          usb_stream_chunk_done cb sc c Msc_Sector_Transfer s1
        }
      else Some s)"

definition scsi_read_or_write_blocks ::
    "('d, 'z) msc_state_scheme usb_callbacks \<Rightarrow> ('d, 'e) msc_env_scheme \<Rightarrow> scsi_cbw \<Rightarrow> u32 \<Rightarrow> u32 \<Rightarrow> scsi_direction \<Rightarrow>
       ('d, 'z) msc_step" where
  "scsi_read_or_write_blocks cb env cbw lba blocks dir s =
     do {
       let s0 = (upd_stream Msc_Sector_Transfer
                   (\<lambda>st. st\<lparr>stream_ep := (if dir = SCSI_DIR_IN then Msc_In else Msc_Out)\<rparr>) s)\<lparr>msc_sector_lba := lba\<rparr>;
       (go, s1) \<leftarrow> msc_init_for_di_or_do cb (usbc env) cbw (blocks * 512) dir s0;
       if go then
         (let packets = data_phase_length s1 div 64
          in if packets \<noteq> 0 then
               (let s2 = usb_stream_setup_transfer Msc_Sector_Transfer Msc_Sector_Funcs (sector_buf env) 512 (packets * 64)
                           Tf_data_phase_complete (s1\<lparr>msc_async_token := msc_async_token s1 + 1\<rparr>)
                in if dir = SCSI_DIR_IN then usb_start_transfer cb (usbc env) Msc_In Msc_Sector_Transfer s2
                   else Some (usb_chain_transfer Msc_Out Msc_Sector_Transfer s2))
             else msc_data_phase_complete cb (usbc env) s1)
       else Some s1
     }"

subsection \<open>SCSI commands\<close>

definition scsi_handle_test_unit_ready where
  "scsi_handle_test_unit_ready cb c cbw s =
     (if ejected s then scsi_fail_cmd cb c cbw SK_NOT_READY ASC_MEDIUM_NOT_PRESENT 0 s else msc_init_for_dn cb c cbw s)"

definition msc_eject :: "('d, 'z) msc_state_scheme \<Rightarrow> ('d, 'z) msc_state_scheme" where
  "msc_eject s = s\<lparr>ejected := True\<rparr>"

definition scsi_handle_start_stop_unit where
  "scsi_handle_start_stop_unit cb c cbw s =
     msc_init_for_dn cb c cbw (if cbw_cb cbw 4 AND 3 = 2 then msc_eject s else s)"

text \<open>The big-endian fields of READ(10) and WRITE(10).\<close>

definition cb_lba :: "scsi_cbw \<Rightarrow> u32" where
  "cb_lba cbw = push_bit 24 (ucast (cbw_cb cbw 2)) OR push_bit 16 (ucast (cbw_cb cbw 3)) OR
     push_bit 8 (ucast (cbw_cb cbw 4)) OR ucast (cbw_cb cbw 5)"

definition cb_blocks :: "scsi_cbw \<Rightarrow> u32" where
  "cb_blocks cbw = push_bit 8 (ucast (cbw_cb cbw 7)) OR ucast (cbw_cb cbw 8)"

definition scsi_handle_read_or_write_command where
  "scsi_handle_read_or_write_command cb env cbw dir s =
     scsi_read_or_write_blocks cb env cbw (cb_lba cbw) (cb_blocks cbw) dir s"

definition scsi_memcpy_response ::
    "('d, 'z) msc_state_scheme usb_callbacks \<Rightarrow> usb_consts \<Rightarrow> scsi_cbw \<Rightarrow> u8 list \<Rightarrow> ('d, 'z) msc_step" where
  "scsi_memcpy_response cb c cbw bytes s =
     (let (b, s1) = usb_get_single_packet_response_buffer c Msc_In (length bytes) s
      in scsi_standard_response cb c cbw (s1\<lparr>mem := mem_write (mem s1) b bytes\<rparr>))"

definition scsi_handle_inquiry_response ::
    "('d, 'z) msc_state_scheme usb_callbacks \<Rightarrow> ('d, 'e) msc_env_scheme \<Rightarrow> scsi_cbw \<Rightarrow> ('d, 'z) msc_step" where
  "scsi_handle_inquiry_response cb env cbw s =
     (let (b, s1) = usb_get_single_packet_response_buffer (usbc env) Msc_In 36 s;
          m = mem_write (mem s1) b (poor_mans_text_decompress (scsi_ir_z env))
      in scsi_standard_response cb (usbc env) cbw (s1\<lparr>mem := m(b + 1 := 0x80)\<rparr>))"

text \<open>Big-endian words, as the byte swaps of the code lay them out.\<close>

definition be32 :: "nat \<Rightarrow> u8 list" where
  "be32 n = rev (le32 (word_of_nat n))"

definition read_capacity_bytes :: "u8 list" where
  "read_capacity_bytes = be32 (SECTOR_COUNT - 1) @ be32 512"

definition scsi_handle_read_capacity where
  "scsi_handle_read_capacity cb c cbw s = scsi_memcpy_response cb c cbw read_capacity_bytes s"

definition read_format_capacities_bytes :: "u8 list" where
  "read_format_capacities_bytes = [0, 0, 0, 0] @ be32 (SECTOR_COUNT - 1) @ le32 (2 OR 0x00020000)"

definition scsi_handle_read_format_capacities where
  "scsi_handle_read_format_capacities cb c cbw s = scsi_memcpy_response cb c cbw read_format_capacities_bytes s"

definition scsi_handle_request_sense ::
    "('d, 'z) msc_state_scheme usb_callbacks \<Rightarrow> usb_consts \<Rightarrow> scsi_cbw \<Rightarrow> ('d, 'z) msc_step" where
  "scsi_handle_request_sense cb c cbw s =
     (let (b, s1) = usb_get_single_packet_response_buffer c Msc_In 18 s;
          s2 = s1\<lparr>mem := mem_write (mem s1) b (request_sense_bytes (request_sense s1)),
                  request_sense := (request_sense s1)\<lparr>rs_key := SK_OK, rs_asc := 0, rs_ascq := 0\<rparr>\<rparr>
      in scsi_standard_response cb c cbw s2)"

definition scsi_handle_mode_sense ::
    "('d, 'z) msc_state_scheme usb_callbacks \<Rightarrow> usb_consts \<Rightarrow> scsi_cbw \<Rightarrow> ('d, 'z) msc_step" where
  "scsi_handle_mode_sense cb c cbw s =
     (let (b, s1) = usb_get_single_packet_response_buffer c Msc_In 4 s
      in scsi_standard_response cb c cbw (s1\<lparr>mem := wr32 (mem s1) b 3\<rparr>))"

definition msc_in_on_stall_change where
  "msc_in_on_stall_change cb c e s =
     (if halt_state (endpoints s e) = HS_NONE \<and> e = Msc_In \<and> send_csw_on_unstall s then msc_send_csw cb c s else Some s)"

definition msc_reset ::
    "('d, 'z) msc_state_scheme usb_callbacks \<Rightarrow> usb_consts \<Rightarrow> ('d, 'z) msc_step" where
  "msc_reset cb c s =
     do {
       let s1 = (if msc_one_time s then s
                 else (upd_ep Msc_In (\<lambda>ep. ep\<lparr>on_stall_change := Msc_in_on_stall_change\<rparr>)
                        (usb_set_default_transfer Msc_Out Msc_Cmd_Transfer
                          (upd_tr Msc_Cmd_Transfer (\<lambda>t. t\<lparr>tr_type := Msc_Cmd_Packet\<rparr>) s)))\<lparr>msc_one_time := True\<rparr>);
       let s2 = s1\<lparr>csw := \<lparr>csw_sig = 0, csw_tag = 0, residue = 0, csw_status = 0\<rparr>,
                   request_sense := \<lparr>rs_code = 0x70, rs_key = 0, rs_additional_sense_len = 0xa, rs_asc = 0, rs_ascq = 0\<rparr>,
                   data_phase_length := 0, stall_direction_before_csw := SCSI_DIR_NONE, send_csw_on_unstall := False,
                   ejected := False\<rparr>;
       s3 \<leftarrow> usb_soft_reset_endpoint cb c Msc_In (vd_reset s2);
       usb_soft_reset_endpoint cb c Msc_Out s3
     }"

definition msc_cmd_halt where
  "msc_cmd_halt cb c s =
     Option.bind (usb_halt_endpoint_on_condition cb c Msc_In s) (usb_halt_endpoint_on_condition cb c Msc_Out)"

definition scsi_command ::
    "('d, 'z) msc_state_scheme usb_callbacks \<Rightarrow> ('d, 'e) msc_env_scheme \<Rightarrow> scsi_cbw \<Rightarrow> ('d, 'z) msc_step" where
  "scsi_command cb env cbw s =
     (let c = usbc env; cmd = cbw_cb cbw 0
      in if cmd = 0x12 then scsi_handle_inquiry_response cb env cbw s
         else if cmd = 0x1a then scsi_handle_mode_sense cb c cbw s
         else if cmd = 0x1e then msc_init_for_dn cb c cbw s
         else if cmd = 0x28 then scsi_handle_read_or_write_command cb env cbw SCSI_DIR_IN s
         else if cmd = 0x2a then scsi_handle_read_or_write_command cb env cbw SCSI_DIR_OUT s
         else if cmd = 0x23 then scsi_handle_read_format_capacities cb c cbw s
         else if cmd = 0x25 then scsi_handle_read_capacity cb c cbw s
         else if cmd = 0x03 then scsi_handle_request_sense cb c cbw s
         else if cmd = 0x00 then scsi_handle_test_unit_ready cb c cbw s
         else if cmd = 0x1b then scsi_handle_start_stop_unit cb c cbw s
         else if cmd = 0x35 then msc_init_for_dn cb c cbw s
         else if cmd = 0x2f then msc_init_for_dn cb c cbw s
         else scsi_fail_cmd cb c cbw SK_ILLEGAL_REQUEST ASC_INVALID_COMMAND_OPERATION_CODE 0 s)"

definition cbw_valid :: "u8 \<Rightarrow> scsi_cbw \<Rightarrow> bool" where
  "cbw_valid len cbw \<longleftrightarrow>
     len = 31 \<and> cbw_sig cbw = CBW_SIG \<and> cbw_lun cbw = 0 \<and> cbw_flags cbw AND 0x7f = 0 \<and> cb_length cbw \<noteq> 0 \<and> cb_length cbw \<le> 16"

definition msc_cmd_packet_internal ::
    "('d, 'z) msc_state_scheme usb_callbacks \<Rightarrow> ('d, 'e) msc_env_scheme \<Rightarrow> ep_id \<Rightarrow> ('d, 'z) msc_step" where
  "msc_cmd_packet_internal cb env e s =
     (let (b, s1) = usb_current_packet_buffer (usbc env) e s;
          cbw = scsi_cbw_at (mem s1) (buf_data b)
      in if cbw_valid (buf_data_len b) cbw then
           scsi_command cb env cbw
             (s1\<lparr>csw := \<lparr>csw_sig = CSW_SIG, csw_tag = cbw_tag cbw, residue = data_transfer_length cbw,
                          csw_status = CSW_STATUS_COMMAND_PASSED\<rparr>,
                 request_sense := (if cbw_cb cbw 0 \<noteq> 0x03
                   then (request_sense s1)\<lparr>rs_key := SK_OK, rs_asc := 0, rs_ascq := 0\<rparr> else request_sense s1)\<rparr>)
         else msc_cmd_halt cb (usbc env) s1)"

definition msc_cmd_packet ::
    "('d, 'z) msc_state_scheme usb_callbacks \<Rightarrow> ('d, 'e) msc_env_scheme \<Rightarrow> ep_id \<Rightarrow> ('d, 'z) msc_step" where
  "msc_cmd_packet cb env e s =
     Option.bind (msc_cmd_packet_internal cb env e s) (usb_packet_done cb (usbc env) e)"

definition tf_wait_command where
  "tf_wait_command cb c s = usb_start_default_transfer_if_not_already_running_or_halted cb c Msc_Out s"

definition msc_setup_request_handler ::
    "('d, 'z) msc_state_scheme usb_callbacks \<Rightarrow> usb_consts \<Rightarrow> usb_setup_packet \<Rightarrow>
       ('d, 'z) msc_state_scheme \<Rightarrow> (bool \<times> ('d, 'z) msc_state_scheme) option" where
  "msc_setup_request_handler cb c setup s =
     (if bmRequestType setup AND USB_REQ_TYPE_TYPE_MASK = USB_REQ_TYPE_TYPE_CLASS then
        (if bmRequestType setup AND USB_DIR_IN \<noteq> 0 then
           (if bRequest setup = 0xfe \<and> wValue setup = 0 \<and> wLength setup \<noteq> 0 then
              (let (b, s1) = usb_current_packet_buffer c Control_In s;
                   s2 = s1\<lparr>mem := (mem s1)(buf_data b := 0)\<rparr>
               in map_option (Pair True) (usb_start_single_buffer_control_in_transfer cb c (set_buffer_len Control_In 1 s2)))
            else Some (False, s))
         else if bRequest setup = 0xff \<and> wValue setup = 0 \<and> wLength setup = 0 then
           do {
             s1 \<leftarrow> msc_reset cb c (usb_clear_halt_condition Msc_Out (usb_clear_halt_condition Msc_In s));
             s2 \<leftarrow> usb_start_empty_control_in_transfer_null_completion cb c s1;
             Some (True, s2)
           }
         else Some (False, s))
      else Some (False, s))"

definition msc_on_configure where
  "msc_on_configure cb c configured s = (if configured then msc_reset cb c s else Some s)"

end
