(* ===== verification/Picoboot.thy ===== *)
theory Picoboot
  imports Usb_Msc
begin

section \<open>The boot device: PICOBOOT interface and descriptors\<close>

text \<open>
  \<open>bootrom/usb_boot_device.c\<close>: the commands of the PICOBOOT interface and the tasks and streams
  they start, the status that is kept of the last command, the descriptors of the device and its
  initialisation. The layout and the numbers of the commands are those of a header of the SDK;
  they are the parameters \<open>picoboot_consts\<close>, with the documented values as an instance.
\<close>

subsection \<open>Data\<close>

record picoboot_cmd =
  dMagic :: u32
  dToken :: u32
  bCmdId :: u8
  bCmdSize :: u8
  dTransferLength :: u32
  range_dAddr :: u32
  range_dSize :: u32
  reboot_dPC :: u32
  reboot_dSP :: u32
  reboot_dDelayMS :: u32
  bExclusive :: u8

record picoboot_cmd_status =
  st_dToken :: u32
  dStatusCode :: u32
  st_bCmdId :: u8
  bInProgress :: bool

record picoboot_consts =
  PICOBOOT_MAGIC :: u32
  PC_REBOOT :: u8
  PICOBOOT_IF_RESET :: u8
  PICOBOOT_IF_CMD_STATUS :: u8
  sizeof_picoboot_cmd :: u8
  sizeof_exclusive_cmd :: u8
  sizeof_reboot_cmd :: u8
  sizeof_range_cmd :: u8
  sizeof_address_only_cmd :: u8
  picoboot_cmd_at :: "memory \<Rightarrow> u32 \<Rightarrow> picoboot_cmd" \<comment> \<open>the structure laid out at an address\<close>

record 'd picoboot_state = "'d msc_state" +
  current_cmd_status :: picoboot_cmd_status
  stream_task :: async_task
  real_token :: u32
  msd_handler_set :: bool \<comment> \<open>\<open>msd_interface.setup_request_handler\<close> is not null\<close>
  picoboot_handler_set :: bool

record 'd picoboot_env = "'d msc_env" +
  pico :: picoboot_consts
  picoboot_buffer :: u32 \<comment> \<open>address\<close>
  sysinfo_gitref :: u32
  software_git_revision :: u32

definition zero_cmd_status :: picoboot_cmd_status where
  "zero_cmd_status = \<lparr>st_dToken = 0, dStatusCode = 0, st_bCmdId = 0, bInProgress = False\<rparr>"

text \<open>The 16 bytes of the status.\<close>

definition cmd_status_bytes :: "picoboot_cmd_status \<Rightarrow> u8 list" where
  "cmd_status_bytes st =
     le32 (st_dToken st) @ le32 (dStatusCode st) @ [st_bCmdId st, if bInProgress st then 1 else 0] @ replicate 6 0"

type_synonym ('d, 'z) pb_step = "('d, 'z) picoboot_state_scheme \<Rightarrow> ('d, 'z) picoboot_state_scheme option"

definition set_status :: "(picoboot_cmd_status \<Rightarrow> picoboot_cmd_status) \<Rightarrow> ('d, 'z) picoboot_state_scheme \<Rightarrow> ('d, 'z) picoboot_state_scheme" where
  "set_status f s = s\<lparr>current_cmd_status := f (current_cmd_status s)\<rparr>"

definition set_cmd_status :: "u32 \<Rightarrow> ('d, 'z) picoboot_state_scheme \<Rightarrow> ('d, 'z) picoboot_state_scheme" where
  "set_cmd_status st s = set_status (\<lambda>r. r\<lparr>dStatusCode := st\<rparr>) s"

subsection \<open>Commands\<close>

definition picoboot_reset :: "('d, 'z) picoboot_state_scheme usb_callbacks \<Rightarrow> usb_consts \<Rightarrow> ('d, 'z) pb_step" where
  "picoboot_reset cb c s =
     do {
       s1 \<leftarrow> usb_soft_reset_endpoint cb c Picoboot_Out s;
       s2 \<leftarrow> usb_soft_reset_endpoint cb c Picoboot_In s1;
       let s3 = (if bInProgress (current_cmd_status s2) then s2\<lparr>flash := flash_abort (flash s2)\<rparr> else s2);
       Some (reset_queue Picoboot_Queue (reset_queue Virtual_Disk_Queue (s3\<lparr>current_cmd_status := zero_cmd_status\<rparr>)))
     }"

definition tf_picoboot_wait_command where
  "tf_picoboot_wait_command cb c s = usb_start_default_transfer_if_not_already_running_or_halted cb c Picoboot_Out s"

definition picoboot_ack :: "('d, 'z) picoboot_state_scheme usb_callbacks \<Rightarrow> usb_consts \<Rightarrow> ('d, 'z) pb_step" where
  "picoboot_ack cb c s =
     usb_start_empty_transfer cb c (if st_bCmdId (current_cmd_status s) AND 0x80 \<noteq> 0 then Picoboot_Out else Picoboot_In)
       Picoboot_Ack_Transfer Tf_picoboot_wait_command (set_status (\<lambda>r. r\<lparr>bInProgress := False\<rparr>) s)"

definition picoboot_setup_request_handler ::
    "('d, 'z) picoboot_state_scheme usb_callbacks \<Rightarrow> usb_consts \<Rightarrow> picoboot_consts \<Rightarrow> usb_setup_packet \<Rightarrow>
       ('d, 'z) picoboot_state_scheme \<Rightarrow> (bool \<times> ('d, 'z) picoboot_state_scheme) option" where
  "picoboot_setup_request_handler cb c p setup s =
     (if bmRequestType setup AND USB_REQ_TYPE_TYPE_MASK = USB_REQ_TYPE_TYPE_VENDOR then
        (if bmRequestType setup AND USB_DIR_IN \<noteq> 0 then
           (if bRequest setup = PICOBOOT_IF_CMD_STATUS p \<and> wLength setup = 16 then
              (let (b, s1) = usb_get_single_packet_response_buffer c Control_In 16 s;
                   s2 = s1\<lparr>mem := mem_write (mem s1) b (cmd_status_bytes (current_cmd_status s1))\<rparr>
               in map_option (Pair True) (usb_start_single_buffer_control_in_transfer cb c s2))
            else Some (False, s))
         else if bRequest setup = PICOBOOT_IF_RESET p then
           do {
             s1 \<leftarrow> picoboot_reset cb c s;
             s2 \<leftarrow> usb_start_empty_control_in_transfer_null_completion cb c s1;
             Some (True, s2)
           }
         else Some (False, s))
      else Some (False, s))"

text \<open>Completion of tasks: one whose token is not that of the current command is ignored.\<close>

definition atc_ack ::
    "('d, 'z) picoboot_state_scheme usb_callbacks \<Rightarrow> usb_consts \<Rightarrow> async_task \<Rightarrow> ('d, 'z) pb_step" where
  "atc_ack cb c t s =
     (if picoboot_user_token t = picoboot_user_token (stream_task s) then picoboot_ack cb c s else Some s)"

definition atc_chunk_task_done ::
    "('d, 'z) picoboot_state_scheme usb_callbacks \<Rightarrow> ('d, 'z) picoboot_state_scheme stream_callbacks \<Rightarrow> usb_consts \<Rightarrow>
       async_task \<Rightarrow> ('d, 'z) pb_step" where
  "atc_chunk_task_done cb sc c t s =
     (if picoboot_user_token t = picoboot_user_token (stream_task s) then
        do {
          let s1 = set_cmd_status (task_result t) s;
          s2 \<leftarrow> (if task_result t \<noteq> 0 then
                   map_option (set_status (\<lambda>r. r\<lparr>bInProgress := False\<rparr>))
                     (usb_halt_endpoint cb c (stream_ep (streams s1 Picoboot_Stream_Transfer)) s1)
                 else Some s1);
          usb_stream_chunk_done cb sc c Picoboot_Stream_Transfer
            (s2\<lparr>stream_task := (stream_task s2)\<lparr>transfer_addr := transfer_addr (stream_task s2) + data_length t\<rparr>\<rparr>)
        }
      else Some s)"

definition picoboot_on_stream_chunk ::
    "u32 \<Rightarrow> ('d, 'z) picoboot_state_scheme \<Rightarrow> bool \<times> ('d, 'z) picoboot_state_scheme" where
  "picoboot_on_stream_chunk chunk_len s =
     (let (t, s1) = queue_task Picoboot_Queue ((stream_task s)\<lparr>data_length := chunk_len\<rparr>) Atc_chunk_task_done s
      in (True, s1\<lparr>stream_task := t\<lparr>check_last_mutation_source := True\<rparr>\<rparr>))"

text \<open>Command size, transfer length (or its flag 0x80: the size of the range) and task bits by command number.\<close>

definition cmd_mapping :: "picoboot_consts \<Rightarrow> (u8 \<times> u8 \<times> u8) list" where
  "cmd_mapping p =
     [(0, 0, 0),
      (sizeof_exclusive_cmd p, 0x00, AT_EXCLUSIVE),
      (sizeof_reboot_cmd p, 0x00, 0),
      (sizeof_range_cmd p, 0x00, AT_FLASH_ERASE),
      (sizeof_range_cmd p, 0x80, AT_READ),
      (sizeof_range_cmd p, 0x80, AT_WRITE),
      (0, 0x00, AT_EXIT_XIP),
      (0, 0x00, AT_ENTER_CMD_XIP),
      (sizeof_address_only_cmd p, 0x00, AT_EXEC),
      (sizeof_address_only_cmd p, 0x00, AT_VECTORIZE_FLASH)]"

definition picoboot_init_task :: "picoboot_cmd \<Rightarrow> platform \<Rightarrow> ('d, 'z) picoboot_state_scheme \<Rightarrow> ('d, 'z) picoboot_state_scheme" where
  "picoboot_init_task cmd p s =
     (let tok = real_token s - 1
      in s\<lparr>real_token := tok,
           stream_task := (reset_task (stream_task s))\<lparr>task_token := tok, picoboot_user_token := dToken cmd,
             transfer_addr := range_dAddr cmd, erase_addr := range_dAddr cmd, erase_size := range_dSize cmd,
             exclusive_param := bExclusive cmd\<rparr>,
           current_cmd_status := (current_cmd_status s)\<lparr>st_bCmdId := bCmdId cmd, st_dToken := dToken cmd,
             bInProgress := False, dStatusCode := PICOBOOT_UNKNOWN_CMD p\<rparr>\<rparr>)"

text \<open>Start the work of an accepted command: a stream of chunks, or a single task.\<close>

definition picoboot_start_cmd ::
    "('d, 'z) picoboot_state_scheme usb_callbacks \<Rightarrow> ('d, 'e) picoboot_env_scheme \<Rightarrow> u8 \<Rightarrow> picoboot_cmd \<Rightarrow> ('d, 'z) pb_step" where
  "picoboot_start_cmd cb env ty cmd s =
     (let s1 = set_status (\<lambda>r. r\<lparr>bInProgress := True\<rparr>)
                 (s\<lparr>stream_task := (stream_task s)\<lparr>task_type := ty, task_source := TASK_SOURCE_PICOBOOT\<rparr>\<rparr>)
      in if dTransferLength cmd \<noteq> 0 then
           (let s2 = usb_stream_setup_transfer Picoboot_Stream_Transfer Picoboot_Stream_Funcs (picoboot_buffer env)
                       FLASH_PAGE_SIZE (dTransferLength cmd) Tf_ack
                       (s1\<lparr>stream_task := (stream_task s1)\<lparr>task_data := picoboot_buffer env\<rparr>\<rparr>);
                e = (if ty AND AT_WRITE \<noteq> 0 then Picoboot_Out else Picoboot_In);
                s3 = upd_stream Picoboot_Stream_Transfer (\<lambda>st. st\<lparr>stream_ep := e\<rparr>) s2
            in if ty AND AT_WRITE \<noteq> 0 then Some (usb_chain_transfer Picoboot_Out Picoboot_Stream_Transfer s3)
               else usb_start_transfer cb (usbc env) Picoboot_In Picoboot_Stream_Transfer s3)
         else
           (let (t, s2) = queue_task Picoboot_Queue (stream_task s1) Atc_ack s1 in Some (s2\<lparr>stream_task := t\<rparr>)))"

definition picoboot_halt_both where
  "picoboot_halt_both cb c s =
     Option.bind (usb_halt_endpoint cb c Picoboot_In s) (usb_halt_endpoint cb c Picoboot_Out)"

definition picoboot_execute_cmd ::
    "('d, 'z) picoboot_state_scheme usb_callbacks \<Rightarrow> ('d, 'e) picoboot_env_scheme \<Rightarrow> picoboot_cmd \<Rightarrow> ('d, 'z) pb_step" where
  "picoboot_execute_cmd cb env cmd s =
     (let s1 = picoboot_init_task cmd (plat env) s;
          id = unat (bCmdId cmd AND 0x7f)
      in if id \<noteq> 0 \<and> id < length (cmd_mapping (pico env)) then
           (let (size, l, ty) = cmd_mapping (pico env) ! id
            in if bCmdSize cmd = size then
                 (let s2 = set_cmd_status (PICOBOOT_OK (plat env)) s1;
                      len = (if l AND 0x80 \<noteq> 0 then range_dSize cmd else ucast l);
                      ty' = (if len = dTransferLength cmd then ty else 0)
                  in if bCmdId cmd = PC_REBOOT (pico env) then
                       Option.bind (safe_reboot (boot_env.truncate env) (reboot_dPC cmd) (reboot_dSP cmd) (reboot_dDelayMS cmd) s2)
                         (picoboot_ack cb (usbc env))
                     else if ty' \<noteq> 0 then picoboot_start_cmd cb env ty' cmd s2
                     else picoboot_halt_both cb (usbc env)
                            (set_cmd_status (PICOBOOT_INVALID_TRANSFER_LENGTH (plat env)) s2))
               else picoboot_halt_both cb (usbc env) (set_cmd_status (PICOBOOT_INVALID_CMD_LENGTH (plat env)) s1))
         else picoboot_halt_both cb (usbc env) s1)"

definition picoboot_cmd_packet_internal ::
    "('d, 'z) picoboot_state_scheme usb_callbacks \<Rightarrow> ('d, 'e) picoboot_env_scheme \<Rightarrow> ep_id \<Rightarrow> ('d, 'z) pb_step" where
  "picoboot_cmd_packet_internal cb env e s =
     (let (b, s1) = usb_current_packet_buffer (usbc env) e s;
          cmd = picoboot_cmd_at (pico env) (mem s1) (buf_data b)
      in if buf_data_len b = sizeof_picoboot_cmd (pico env) \<and> dMagic cmd = PICOBOOT_MAGIC (pico env)
         then picoboot_execute_cmd cb env cmd s1
         else picoboot_halt_both cb (usbc env) s1)"

definition picoboot_cmd_packet ::
    "('d, 'z) picoboot_state_scheme usb_callbacks \<Rightarrow> ('d, 'e) picoboot_env_scheme \<Rightarrow> ep_id \<Rightarrow> ('d, 'z) pb_step" where
  "picoboot_cmd_packet cb env e s =
     Option.bind (picoboot_cmd_packet_internal cb env e s) (usb_packet_done cb (usbc env) e)"

definition usb_boot_on_configure ::
    "('d, 'z) picoboot_state_scheme usb_callbacks \<Rightarrow> usb_consts \<Rightarrow> bool \<Rightarrow> ('d, 'z) pb_step" where
  "usb_boot_on_configure cb c configured s =
     do {
       s1 \<leftarrow> msc_on_configure cb c configured (s\<lparr>flash := flash_abort (flash s)\<rparr>);
       if configured then picoboot_reset cb c s1 else Some s1
     }"


subsection \<open>Descriptors\<close>

record usb_interface_descriptor =
  bInterfaceNumber :: u8
  bInterfaceClass :: u8
  bInterfaceSubClass :: u8
  bInterfaceProtocol :: u8

definition interface_descriptor_bytes :: "usb_interface_descriptor \<Rightarrow> u8 list" where
  "interface_descriptor_bytes d =
     [9, 4, bInterfaceNumber d, 0, 2, bInterfaceClass d, bInterfaceSubClass d, bInterfaceProtocol d, 0]"

definition endpoint_descriptor_bytes :: "u8 \<Rightarrow> u8 list" where
  "endpoint_descriptor_bytes addr = [7, 5, addr, 2] @ le16 0x40 @ [0]"

text \<open>\<open>struct usb_simple_interface_descriptor\<close>: an interface and its two endpoints, 23 bytes.\<close>

definition msc_interface_bytes :: "u8 list" where
  "msc_interface_bytes =
     interface_descriptor_bytes \<lparr>bInterfaceNumber = 0, bInterfaceClass = 0x08, bInterfaceSubClass = 0x06, bInterfaceProtocol = 0x50\<rparr> @
     endpoint_descriptor_bytes 0x81 @ endpoint_descriptor_bytes 0x02"

definition picoboot_interface_bytes :: "u8 \<Rightarrow> u8 list" where
  "picoboot_interface_bytes num =
     interface_descriptor_bytes \<lparr>bInterfaceNumber = num, bInterfaceClass = 0xff, bInterfaceSubClass = 0, bInterfaceProtocol = 0\<rparr> @
     endpoint_descriptor_bytes 0x03 @ endpoint_descriptor_bytes 0x84"

definition config_descriptor_bytes :: "nat \<Rightarrow> u8 \<Rightarrow> u8 list" where
  "config_descriptor_bytes len n = [9, 2] @ le16 (word_of_nat len) @ [n, 1, 0, 0x80, 0xfa]"

definition boot_device_config :: "u8 list" where
  "boot_device_config = config_descriptor_bytes 55 2 @ msc_interface_bytes @ picoboot_interface_bytes 1"

text \<open>The configuration when a mask disables an interface.\<close>

definition single_interface_config :: "u32 \<Rightarrow> u8 list" where
  "single_interface_config msk =
     config_descriptor_bytes 32 1 @
     (if msk AND 1 \<noteq> 0 then picoboot_interface_bytes 0 else msc_interface_bytes)"

abbreviation (input) VENDOR_ID :: u16 where "VENDOR_ID \<equiv> 0x2e8a"
abbreviation (input) PRODUCT_ID :: u16 where "PRODUCT_ID \<equiv> 0x0003"

definition boot_device_descriptor :: "u8 list" where
  "boot_device_descriptor =
     [18, 1] @ le16 0x0110 @ [0, 0, 0, 0x40] @ le16 VENDOR_ID @ le16 PRODUCT_ID @ le16 0x0100 @ [1, 2, 3, 1]"

definition get_descriptor_string :: "nat \<Rightarrow> ('d, 'z) picoboot_state_scheme \<Rightarrow> u8 list" where
  "get_descriptor_string index s =
     (let strings = [[], ascii ''Raspberry Pi'', ascii ''RP2 Boot'', serial_number_string s]
      in strings ! (if index \<ge> length strings then 0 else index))"

definition to_hex_digit :: "nat \<Rightarrow> u8" where
  "to_hex_digit x = (if x < 10 then 48 + word_of_nat x else 65 + word_of_nat x - 10)"

fun write_hex_chars :: "nat \<Rightarrow> u32 \<Rightarrow> u8 list" where
  "write_hex_chars 0 val = []"
| "write_hex_chars (Suc n) val = to_hex_digit (unat (drop_bit 28 val)) # write_hex_chars n (push_bit 4 val)"

definition write_six_msb_hex_chars :: "u32 \<Rightarrow> u8 list" where
  "write_six_msb_hex_chars val = write_hex_chars 6 val"

subsection \<open>Initialisation\<close>

definition init_msc_interface ::
    "u8 list \<Rightarrow> ('d, 'z) pb_step" where
  "init_msc_interface config s =
     map_option (\<lambda>s. s\<lparr>msd_handler_set := True\<rparr>) (usb_interface_init config 9 [Msc_In, Msc_Out] True s)"

definition init_picoboot_interface ::
    "u8 list \<Rightarrow> nat \<Rightarrow> ('d, 'z) pb_step" where
  "init_picoboot_interface config interface_num s =
     map_option
       (\<lambda>s. (usb_set_default_transfer Picoboot_Out Picoboot_Cmd_Transfer
               (upd_tr Picoboot_Cmd_Transfer (\<lambda>t. t\<lparr>tr_type := Picoboot_Cmd_Packet\<rparr>) s))\<lparr>picoboot_handler_set := True\<rparr>)
       (usb_interface_init config (9 + 23 * interface_num) [Picoboot_Out, Picoboot_In] True s)"

text \<open>
  Everything up to starting the device. A configuration whose bytes end before an interface that
  is initialised is read past its end: what the walk over the descriptors finds there is open.
\<close>

definition usb_boot_device_setup ::
    "('d, 'e) picoboot_env_scheme \<Rightarrow> u32 \<Rightarrow> ('d, 'z) pb_step" where
  "usb_boot_device_setup env disable_mask s =
     do {
       let msk = (if disable_mask AND 3 = 3 then 0 else disable_mask);
       let s1 = (gpio_setup (rt env) s)\<lparr>serial_number_string :=
                   write_six_msb_hex_chars (sysinfo_gitref env) @ write_six_msb_hex_chars (software_git_revision env)\<rparr>;
       let config = (if msk \<noteq> 0 then single_interface_config msk else boot_device_config);
       let picoboot_interface_num = (if msk AND 1 \<noteq> 0 then 0 else 1);
       s2 \<leftarrow> (if msk AND 1 = 0 then init_msc_interface config s1 else Some s1);
       s3 \<leftarrow> (if msk AND 2 = 0 then init_picoboot_interface config picoboot_interface_num s2 else Some s2);
       Some (usb_device_init (usbc env) boot_device_descriptor config (if msk = 1 then 1 else 0) s3)
     }"

definition usb_boot_device_init ::
    "('d, 'z) picoboot_state_scheme usb_callbacks \<Rightarrow> ('d, 'e) picoboot_env_scheme \<Rightarrow> u32 \<Rightarrow> ('d, 'z) pb_step" where
  "usb_boot_device_init cb env disable_mask s =
     Option.bind (usb_boot_device_setup env disable_mask s) (usb_device_start cb (usbc env))"

end
