(* ===== verification/Usb_System.thy ===== *)
theory Usb_System
  imports Picoboot
begin

section \<open>The USB system\<close>

text \<open>
  The functions of the USB theories call each other through pointers, in both directions. Here
  the knot is tied: \<open>callbacks n\<close> are the callbacks whose nesting is at most \<open>n\<close> deep, so that a
  call that nests deeper has no result. Tasks that complete call back in the same way. With it the whole device is
  a function of the interrupts and of the worker.
\<close>

text \<open>Callbacks that are never reached.\<close>

definition no_callbacks :: "'s usb_callbacks" where
  "no_callbacks = \<lparr>cb_on_packet = \<lambda>_ _ _. None, cb_on_complete = \<lambda>_ _ _ _. None, cb_on_stall_change = \<lambda>_ _ _. None,
     cb_on_configure = \<lambda>_ _. None, cb_setup_request = \<lambda>_ _ _. None, cb_descriptor_string = \<lambda>_ _. []\<rparr>"

definition stream_calls :: "('d, 'e) picoboot_env_scheme \<Rightarrow> ('d, 'z) picoboot_state_scheme stream_callbacks" where
  "stream_calls env =
     \<lparr>sc_on_chunk = (\<lambda>f n s. case f of
          Msc_Sector_Funcs \<Rightarrow> Some (msc_on_sector_stream_chunk env s)
        | Picoboot_Stream_Funcs \<Rightarrow> Some (picoboot_on_stream_chunk n s)
        | No_Funcs \<Rightarrow> None),
      sc_on_packet_complete = (\<lambda>f s. case f of
          Msc_Sector_Funcs \<Rightarrow> msc_on_sector_stream_packet_complete s | _ \<Rightarrow> s)\<rparr>"

text \<open>The targets of the function pointers, given the callbacks one level down.\<close>

fun dispatch_on_packet ::
    "('d, 'z) picoboot_state_scheme usb_callbacks \<Rightarrow> ('d, 'e) picoboot_env_scheme \<Rightarrow> transfer_type \<Rightarrow> ep_id \<Rightarrow> ('d, 'z) pb_step" where
  "dispatch_on_packet cb env No_Type e s = None"
| "dispatch_on_packet cb env Current_Packet_Only e s = usb_transfer_current_packet_only cb (usbc env) e s"
| "dispatch_on_packet cb env Usb_Stream_Packet_Handler e s =
     usb_stream_packet_packet_handler cb (stream_calls env) (usbc env) e s"
| "dispatch_on_packet cb env Msc_Cmd_Packet e s = msc_cmd_packet cb env e s"
| "dispatch_on_packet cb env Picoboot_Cmd_Packet e s = picoboot_cmd_packet cb env e s"

fun dispatch_on_complete ::
    "('d, 'z) picoboot_state_scheme usb_callbacks \<Rightarrow> ('d, 'e) picoboot_env_scheme \<Rightarrow> completed_func \<Rightarrow> ep_id \<Rightarrow>
       transfer_id \<Rightarrow> ('d, 'z) pb_step" where
  "dispatch_on_complete cb env No_Complete e t s = None"
| "dispatch_on_complete cb env Tf_send_control_in_ack e t s = tf_send_control_in_ack cb (usbc env) s"
| "dispatch_on_complete cb env Tf_send_control_out_ack e t s = tf_send_control_out_ack cb (usbc env) s"
| "dispatch_on_complete cb env Tf_set_address e t s = Some (tf_set_address s)"
| "dispatch_on_complete cb env Tf_wait_command e t s = tf_wait_command cb (usbc env) s"
| "dispatch_on_complete cb env Tf_data_phase_complete e t s = msc_data_phase_complete cb (usbc env) s"
| "dispatch_on_complete cb env Tf_picoboot_wait_command e t s = tf_picoboot_wait_command cb (usbc env) s"
| "dispatch_on_complete cb env Tf_ack e t s = picoboot_ack cb (usbc env) s"

definition dispatch_setup_request ::
    "('d, 'z) picoboot_state_scheme usb_callbacks \<Rightarrow> ('d, 'e) picoboot_env_scheme \<Rightarrow> nat \<Rightarrow> usb_setup_packet \<Rightarrow>
       ('d, 'z) picoboot_state_scheme \<Rightarrow> (bool \<times> ('d, 'z) picoboot_state_scheme) option" where
  "dispatch_setup_request cb env i setup s =
     (if i = 0 then (if msd_handler_set s then msc_setup_request_handler cb (usbc env) setup s else Some (False, s))
      else if i = 1 then
        (if picoboot_handler_set s then picoboot_setup_request_handler cb (usbc env) (pico env) setup s
         else Some (False, s))
      else None)"

definition callbacks_over ::
    "('d, 'z) picoboot_state_scheme usb_callbacks \<Rightarrow> ('d, 'e) picoboot_env_scheme \<Rightarrow> ('d, 'z) picoboot_state_scheme usb_callbacks" where
  "callbacks_over cb env =
     \<lparr>cb_on_packet = dispatch_on_packet cb env,
      cb_on_complete = dispatch_on_complete cb env,
      cb_on_stall_change = (\<lambda>f e s. case f of
          Msc_in_on_stall_change \<Rightarrow> msc_in_on_stall_change cb (usbc env) e s | No_Stall_Change \<Rightarrow> None),
      cb_on_configure = usb_boot_on_configure cb (usbc env),
      cb_setup_request = dispatch_setup_request cb env,
      cb_descriptor_string = get_descriptor_string\<rparr>"

fun callbacks :: "('d, 'e) picoboot_env_scheme \<Rightarrow> nat \<Rightarrow> ('d, 'z) picoboot_state_scheme usb_callbacks" where
  "callbacks env 0 = no_callbacks"
| "callbacks env (Suc n) = callbacks_over (callbacks env n) env"

text \<open>The completion callbacks of tasks, which the worker calls.\<close>

definition task_callbacks ::
    "('d, 'z) picoboot_state_scheme usb_callbacks \<Rightarrow> ('d, 'e) picoboot_env_scheme \<Rightarrow> async_task \<Rightarrow> ('d, 'z) pb_step" where
  "task_callbacks cb env t s =
     (case callback t of
        No_Callback \<Rightarrow> Some s
      | Write_uf2_page_complete \<Rightarrow>
          write_uf2_page_complete env (vd_async_complete cb (stream_calls env) (usbc env)) t s
      | Atc_ack \<Rightarrow> atc_ack cb (usbc env) t s
      | Atc_chunk_task_done \<Rightarrow> atc_chunk_task_done cb (stream_calls env) (usbc env) t s)"

end
