(* ===== verification/Boot_Main.thy ===== *)
theory Boot_Main
  imports Usb_System Rom_Routines
begin

section \<open>The boot path\<close>

text \<open>
  \<open>bootrom/bootrom_main.c\<close>: the vote on the chip select strap, the search for a second stage
  bootloader in flash under the four clock modes, the clocks of the USB bootloader and its start.
  Registers that hardware changes on its own are read through functions of the number of reads
  (the fields of \<open>boot_consts\<close> from \<open>csn_strap\<close> on).
  Functions that do not return are modelled up to the jump.
\<close>

record boot_consts =
  SSI_CTRLR0_SCPH_BITS :: u32
  SSI_CTRLR0_SCPOL_BITS :: u32
  SSI_CTRLR0_SCPH_LSB :: nat
  ROSC_CTRL_ENABLE :: u32 \<comment> \<open>\<open>VALUE_ENABLE << LSB\<close>\<close>
  XOSC_CTRL_ENABLE :: u32
  XOSC_STATUS_STABLE_BITS :: u32
  CLK_SYS_RESUS_CTRL :: u32 \<comment> \<open>\<open>ENABLE_BITS | TIMEOUT_RESET << TIMEOUT_LSB\<close>\<close>
  CLOCKS_CLK_SYS_CTRL_SRC_BITS :: u32
  CLK_USB_CTRL :: u32 \<comment> \<open>\<open>ENABLE_BITS | AUXSRC_VALUE_CLKSRC_PLL_SYS << AUXSRC_LSB\<close>\<close>
  PLL_CS_REFDIV_LSB :: nat
  PLL_PRIM_POSTDIV1_LSB :: nat
  PLL_PRIM_POSTDIV2_LSB :: nat
  PLL_PWR_PD_BITS :: u32
  PLL_PWR_VCOPD_BITS :: u32
  PLL_PWR_POSTDIVPD_BITS :: u32
  PLL_CS_LOCK_BITS :: u32
  RESETS_RESET_PLL_SYS_BITS :: u32
  RESETS_RESET_USBCTRL_BITS :: u32
  RESETS_RESET_MAIN_BITS :: u32 \<comment> \<open>\<open>IO_QSPI | PADS_QSPI | TIMER\<close>\<close>
  XIP_CTRL_CACHE_EN_BITS :: u32
  USB_DPRAM_SIZE :: nat
  usb_boot_reboot_wrapper :: u32 \<comment> \<open>the address of the function\<close>
  csn_strap :: "nat \<Rightarrow> u32" \<comment> \<open>\<open>gpio_hi_in\<close> at the votes\<close>
  clk_sys_selected :: "nat \<Rightarrow> u32"
  clk_sys_selected_aux :: "nat \<Rightarrow> u32"
  xosc_status :: "nat \<Rightarrow> u32"
  pll_sys_cs :: "nat \<Rightarrow> u32"
  reset_done :: "u32 \<Rightarrow> nat \<Rightarrow> u32" \<comment> \<open>after the reset of the bits given\<close>

record 'd boot_state = "'d picoboot_state" +
  rosc_ctrl :: u32
  xosc_ctrl :: u32
  clk_resus_ctrl :: u32
  clk_sys_ctrl :: u32
  clk_sys_div :: u32
  clk_usb_ctrl :: u32
  clk_usb_div :: u32
  pll_cs :: u32
  pll_fbdiv_int :: u32
  pll_prim :: u32
  pll_pwr :: u32
  resets :: u32
  gpio_hi_out :: u32
  gpio_hi_oe :: u32

type_synonym ('d, 'z) boot_step = "('d, 'z) boot_state_scheme \<Rightarrow> ('d, 'z) boot_state_scheme option"

subsection \<open>Booting from flash\<close>

abbreviation (input) FLASH_MAX_ATTEMPTS :: nat where "FLASH_MAX_ATTEMPTS \<equiv> 128"
abbreviation (input) BOOT2_SIZE_BYTES :: nat where "BOOT2_SIZE_BYTES \<equiv> 256"

definition BOOT2_BASE :: "platform \<Rightarrow> u32" where
  "BOOT2_BASE p = SRAM_END p - 256"

definition select_clock_mode :: "boot_consts \<Rightarrow> 'd spi_env \<Rightarrow> nat \<Rightarrow> 'd flash_hw \<Rightarrow> 'd flash_hw" where
  "select_clock_mode bc env attempt h =
     (let h1 = write_ssienr env 0 h;
          h2 = tick env (tick env h1);
          h3 = h2\<lparr>ctrlr0 := (ctrlr0 h2 AND NOT (SSI_CTRLR0_SCPH_BITS bc OR SSI_CTRLR0_SCPOL_BITS bc)) OR
                 push_bit (SSI_CTRLR0_SCPH_LSB bc) (word_of_nat attempt AND 3)\<rparr>
      in write_ssienr env 1 h3)"

text \<open>One attempt: load 256 bytes, and compare the checksum of 252 of them with the last four.\<close>

definition boot2_attempt ::
    "'d boot_env \<Rightarrow> boot_consts \<Rightarrow> nat \<Rightarrow> ('d, 'z) boot_state_scheme \<Rightarrow> (bool \<times> ('d, 'z) boot_state_scheme) option" where
  "boot2_attempt env bc attempt s =
     do {
       (bytes, h) \<leftarrow> flash_read_data (spi env) 0 BOOT2_SIZE_BYTES (select_clock_mode bc (spi env) attempt (flash s));
       let base = BOOT2_BASE (plat env);
       let m = mem_write (mem s) base bytes;
       Some (crc32_small (mem_read m base 252) 0xffffffff = rd32 m (base + 252), s\<lparr>flash := h, mem := m\<rparr>)
     }"

function boot2_loop ::
    "'d boot_env \<Rightarrow> boot_consts \<Rightarrow> nat \<Rightarrow> ('d, 'z) boot_state_scheme \<Rightarrow> (nat \<times> ('d, 'z) boot_state_scheme) option" where
  "boot2_loop env bc attempt s =
     (if attempt < FLASH_MAX_ATTEMPTS then
        (case boot2_attempt env bc attempt s of
           None \<Rightarrow> None
         | Some (ok, s1) \<Rightarrow> if ok then Some (attempt, s1) else boot2_loop env bc (attempt + 1) s1)
      else Some (attempt, s))"
  by pat_completeness auto
termination by (relation "measure (\<lambda>(env, bc, attempt, s). FLASH_MAX_ATTEMPTS - attempt)") auto

declare boot2_loop.simps [simp del]

text \<open>The address that is jumped to, if a second stage was found.\<close>

definition flash_boot ::
    "'d boot_env \<Rightarrow> boot_consts \<Rightarrow> ('d, 'z) boot_state_scheme \<Rightarrow> (u32 option \<times> ('d, 'z) boot_state_scheme) option" where
  "flash_boot env bc s =
     do {
       h \<leftarrow> flash_exit_xip (ssi env) (spi env) (connect_internal_flash (ssi env) (spi env) (flash s));
       (attempt, s1) \<leftarrow> boot2_loop env bc 0 (s\<lparr>flash := h\<rparr>);
       Some (if attempt = FLASH_MAX_ATTEMPTS then (None, s1)
             else (Some (BOOT2_BASE (plat env) + 1),
                   s1\<lparr>flash := flash_flush_cache (ssi env) (spi env) (flash s1)\<rparr>))
     }"

subsection \<open>Clocks and resets\<close>

text \<open>The wait of the reset functions (\<open>bootrom_rt0.S\<close>) for the blocks to come out of reset.\<close>

partial_function (option) unreset_wait :: "(nat \<Rightarrow> u32) \<Rightarrow> u32 \<Rightarrow> nat \<Rightarrow> nat option" where
  "unreset_wait done msk n =
     (let left = msk AND NOT (done n) in if left \<noteq> 0 then unreset_wait done left (n + 1) else Some n)"

definition unreset_block_wait_noinline :: "boot_consts \<Rightarrow> u32 \<Rightarrow> ('d, 'z) boot_step" where
  "unreset_block_wait_noinline bc msk s =
     map_option (\<lambda>_. s\<lparr>resets := resets s AND NOT msk\<rparr>) (unreset_wait (reset_done bc msk) msk 0)"

definition reset_block_noinline :: "u32 \<Rightarrow> ('d, 'z) boot_state_scheme \<Rightarrow> ('d, 'z) boot_state_scheme" where
  "reset_block_noinline msk s = s\<lparr>resets := resets s OR msk\<rparr>"

definition reset_unreset_block_wait_noinline :: "boot_consts \<Rightarrow> u32 \<Rightarrow> ('d, 'z) boot_step" where
  "reset_unreset_block_wait_noinline bc msk s = unreset_block_wait_noinline bc msk (reset_block_noinline msk s)"

text \<open>The three parts of \<open>_usb_clock_setup\<close> around its waits.\<close>

definition clocks_to_reference :: "runtime_consts \<Rightarrow> boot_consts \<Rightarrow> ('d, 'z) boot_step" where
  "clocks_to_reference rc bc s =
     (let s1 = s\<lparr>rosc_ctrl := ROSC_CTRL_ENABLE bc,
                 clk_ref_ctrl := clk_ref_ctrl s AND NOT (CLOCKS_CLK_REF_CTRL_SRC_BITS rc),
                 clk_resus_ctrl := CLK_SYS_RESUS_CTRL bc,
                 clk_sys_ctrl := clk_sys_ctrl s AND NOT (CLOCKS_CLK_SYS_CTRL_SRC_BITS bc)\<rparr>
      in map_option (\<lambda>_. s1\<lparr>clk_sys_div := 0x100, clk_usb_div := 0x100\<rparr>)
           (poll_until (\<lambda>n. clk_sys_selected bc n AND 1 \<noteq> 0) 0))"

definition start_crystal_and_pll :: "boot_consts \<Rightarrow> ('d, 'z) boot_step" where
  "start_crystal_and_pll bc s =
     do {
       let s1 = s\<lparr>xosc_ctrl := XOSC_CTRL_ENABLE bc\<rparr>;
       _ \<leftarrow> poll_until (\<lambda>n. xosc_status bc n AND XOSC_STATUS_STABLE_BITS bc \<noteq> 0) 0;
       s2 \<leftarrow> reset_unreset_block_wait_noinline bc (RESETS_RESET_PLL_SYS_BITS bc) s1;
       let s3 = s2\<lparr>pll_cs := push_bit (PLL_CS_REFDIV_LSB bc) 1, pll_fbdiv_int := 100,
                   pll_prim := push_bit (PLL_PRIM_POSTDIV1_LSB bc) 5 OR push_bit (PLL_PRIM_POSTDIV2_LSB bc) 5,
                   pll_pwr := pll_pwr s2 AND NOT (PLL_PWR_PD_BITS bc OR PLL_PWR_VCOPD_BITS bc)\<rparr>;
       _ \<leftarrow> poll_until (\<lambda>n. pll_sys_cs bc n AND PLL_CS_LOCK_BITS bc \<noteq> 0) 0;
       Some (s3\<lparr>pll_pwr := pll_pwr s3 AND NOT (PLL_PWR_POSTDIVPD_BITS bc)\<rparr>)
     }"

definition clocks_to_pll :: "boot_consts \<Rightarrow> ('d, 'z) boot_step" where
  "clocks_to_pll bc s =
     (let s1 = s\<lparr>clk_sys_ctrl := 0, clk_usb_ctrl := CLK_USB_CTRL bc\<rparr>;
          s2 = s1\<lparr>clk_sys_ctrl := clk_sys_ctrl s1 OR CLOCKS_CLK_SYS_CTRL_SRC_BITS bc\<rparr>
      in map_option (\<lambda>_. s2) (poll_until (\<lambda>n. clk_sys_selected_aux bc n AND 2 \<noteq> 0) 0))"

definition usb_clock_setup :: "runtime_consts \<Rightarrow> boot_consts \<Rightarrow> ('d, 'z) boot_step" where
  "usb_clock_setup rc bc s =
     Option.bind (Option.bind (clocks_to_reference rc bc s) (start_crystal_and_pll bc)) (clocks_to_pll bc)"

subsection \<open>The USB bootloader\<close>

text \<open>
  The static variables of the bootloader are in the dual-port RAM of the USB controller, together
  with the buffer control registers: clearing that memory clears them all.
\<close>

definition zero_usb_endpoint :: usb_endpoint where
  "zero_usb_endpoint = \<lparr>ep_descriptor = None, default_transfer = None, current_transfer = None, chain_transfer = None,
     on_stall_change = No_Stall_Change, dpram_buffer_offset = 0, buffer_size = 0,
     current_hw_buffer = \<lparr>buf_data = 0, buf_data_len = 0, buf_data_max = 0, buf_valid = False\<rparr>,
     ep_num = 0, next_pid = 0, buffer_bit_index = 0, owned_buffer_count = 0, current_give_buffer = 0,
     current_take_buffer = 0, halt_state = HS_NONE, first_buffer_after_reset = False, double_buffered = False, ep_in = False\<rparr>"

definition zero_usb_transfer :: usb_transfer where
  "zero_usb_transfer = \<lparr>tr_type = No_Type, on_complete = No_Complete, remaining_packets_to_submit = 0,
     remaining_packets_to_handle = 0, outstanding_packet = False, packet_queued = False, started = False, completed = False\<rparr>"

definition zero_usb_stream :: usb_stream where
  "zero_usb_stream = \<lparr>stream_offset = 0, transfer_length = 0, chunk_size = 0, chunk_buffer = 0, stream_ep = Control_In,
     stream_functions = No_Funcs\<rparr>"

definition zero_queue :: async_task_queue where
  "zero_queue = \<lparr>queued_task = zero_task, full = False, disable = False\<rparr>"

definition clear_usb_statics :: "('d, 'z) picoboot_state_scheme \<Rightarrow> ('d, 'z) picoboot_state_scheme" where
  "clear_usb_statics s =
     s\<lparr>endpoints := (\<lambda>_. zero_usb_endpoint), transfers := (\<lambda>_. zero_usb_transfer), endpoint_table := (\<lambda>_. None),
       device := \<lparr>current_address = 0, current_config_num = 0, pending_address = 0, next_buffer_offset = 0,
                  device_descriptor = [], config_descriptor = [], first_interface = 0\<rparr>,
       buf_ctrl := (\<lambda>_ _ _. 0), ep_ctrl := (\<lambda>_ _. 0), streams := (\<lambda>_. zero_usb_stream),
       csw := \<lparr>csw_sig = 0, csw_tag = 0, residue = 0, csw_status = 0\<rparr>,
       request_sense := \<lparr>rs_code = 0, rs_key = 0, rs_additional_sense_len = 0, rs_asc = 0, rs_ascq = 0\<rparr>,
       data_phase_length := 0, stall_direction_before_csw := SCSI_DIR_NONE, send_csw_on_unstall := False, ejected := False,
       msc_async_token := 0, msc_sector_lba := 0, msc_one_time := False, current_cmd_status := zero_cmd_status,
       stream_task := zero_task, real_token := 0, msd_handler_set := False, picoboot_handler_set := False\<rparr>"

definition clear_bss :: "usb_consts \<Rightarrow> nat \<Rightarrow> ('d, 'z) picoboot_state_scheme \<Rightarrow> ('d, 'z) picoboot_state_scheme" where
  "clear_bss c n s =
     (clear_usb_statics s)\<lparr>mem := mem_write (mem s) (USBCTRL_DPRAM_BASE c) (replicate n 0),
       rebooting := False, usb_activity_gpio_pin_mask := 0, flash_funcs := 0, last_mutation_source := 0,
       virtual_disk_queue := zero_queue, picoboot_queue := zero_queue, worker_task := zero_task,
       the_uf2_info := zero_uf2_info, serial_number32 := 0, serial_number_valid := False, serial_number_string := []\<rparr>"

text \<open>Up to the start of the task worker, which does not return.\<close>

definition usb_boot ::
    "('d, 'z) boot_state_scheme usb_callbacks \<Rightarrow> ('d, 'e) picoboot_env_scheme \<Rightarrow> boot_consts \<Rightarrow> u32 \<Rightarrow> u32 \<Rightarrow> ('d, 'z) boot_step" where
  "usb_boot cb env bc pin_mask disable_mask s =
     do {
       let s1 = reset_block_noinline (RESETS_RESET_USBCTRL_BITS bc) s;
       s2 \<leftarrow> (if running_on_fpga (rt env) then Some s1 else usb_clock_setup (rt env) bc s1);
       s3 \<leftarrow> unreset_block_wait_noinline bc (RESETS_RESET_USBCTRL_BITS bc) s2;
       let s4 = s3\<lparr>wd_tick := push_bit (WATCHDOG_TICK_CYCLES_LSB (rt env)) 12 OR WATCHDOG_TICK_ENABLE_BITS (rt env),
                   flash := (flash s3)\<lparr>xip_ctrl := xip_ctrl (flash s3) AND NOT (XIP_CTRL_CACHE_EN_BITS bc)\<rparr>\<rparr>;
       let s5 = (clear_bss (usbc env) (USB_DPRAM_SIZE bc) s4)\<lparr>usb_activity_gpio_pin_mask := pin_mask\<rparr>;
       s6 \<leftarrow> usb_boot_device_init cb env disable_mask s5;
       Some (worker_start (boot_env.truncate env) s6)
     }"

definition usb_boot_reboot where
  "usb_boot_reboot cb env bc s = usb_boot cb env bc (wd_scratch s 0) (wd_scratch s 1) s"

text \<open>Up to the wait for the reset.\<close>

definition reset_usb_boot ::
    "('d, 'e) picoboot_env_scheme \<Rightarrow> boot_consts \<Rightarrow> u32 \<Rightarrow> u32 \<Rightarrow> ('d, 'z) boot_step" where
  "reset_usb_boot env bc pin_mask disable_mask s =
     watchdog_reboot (rt env) (usb_boot_reboot_wrapper bc) (SRAM_END (plat env)) 10
       (s\<lparr>wd_scratch := (wd_scratch s)(0 := pin_mask, 1 := disable_mask)\<rparr>)"

subsection \<open>main\<close>

fun csn_votes :: "(nat \<Rightarrow> u32) \<Rightarrow> nat \<Rightarrow> u32" where
  "csn_votes strap 0 = 0"
| "csn_votes strap (Suc n) = csn_votes strap n + (drop_bit 1 (strap n) AND 1)"

datatype boot_outcome = Jump_To_Boot2 u32 | Usb_Bootloader

definition boot_main ::
    "('d, 'z) boot_state_scheme usb_callbacks \<Rightarrow> ('d, 'e) picoboot_env_scheme \<Rightarrow> boot_consts \<Rightarrow>
       ('d, 'z) boot_state_scheme \<Rightarrow> (boot_outcome \<times> ('d, 'z) boot_state_scheme) option" where
  "boot_main cb env bc s =
     do {
       s1 \<leftarrow> reset_unreset_block_wait_noinline bc (RESETS_RESET_MAIN_BITS bc) s;
       let s2 = (if running_on_fpga (rt env) then s1\<lparr>gpio_hi_out := 2, gpio_hi_oe := 0\<rparr> else s1);
       (entry, s3) \<leftarrow> (if csn_votes (csn_strap bc) 9 \<ge> 5 then flash_boot (boot_env.truncate env) bc s2 else Some (None, s2));
       (case entry of
          Some a \<Rightarrow> Some (Jump_To_Boot2 a, s3)
        | None \<Rightarrow> map_option (Pair Usb_Bootloader) (usb_boot cb env bc 0 0 s3))
     }"

end
