(* ===== verification/Boot_Example.thy ===== *)
theory Boot_Example
  imports Boot_Main
begin

section \<open>Documented values\<close>

text \<open>
  The register fields of the USB controller, the protocol of the PICOBOOT interface and the other
  constants of the SDK headers, with their documented values, and a state to start from: the
  parameters of the model, instantiated for examples.
\<close>

definition rp2040_usb :: usb_consts where
  "rp2040_usb = \<lparr>USBCTRL_DPRAM_BASE = 0x50100000, USB_BUF_CTRL_FULL = 0x8000, USB_BUF_CTRL_DATA1_PID = 0x2000,
     USB_BUF_CTRL_DATA0_PID = 0, USB_BUF_CTRL_SEL = 0x1000, USB_BUF_CTRL_STALL = 0x800, USB_BUF_CTRL_AVAIL = 0x400,
     USB_BUF_CTRL_LEN_MASK = 0x3ff, USB_EP_STALL_ARM_EP0_IN_BITS = 1, USB_EP_STALL_ARM_EP0_OUT_BITS = 2,
     EP_CTRL_ENABLE_BITS = 0x80000000, EP_CTRL_INTERRUPT_PER_BUFFER = 0x20000000,
     EP_CTRL_DOUBLE_BUFFERED_BITS = 0x40000000, EP_CTRL_BUFFER_TYPE_LSB = 26, USB_USB_MUXING_VALUE = 9,
     USB_USB_PWR_VALUE = 0xc, USB_MAIN_CTRL_CONTROLLER_EN_BITS = 1, USB_SIE_CTRL_VALUE = 0x20010000,
     USB_INTS_SETUP_REQ_BITS = 0x10000, USB_INTS_BUFF_STATUS_BITS = 0x10, USB_INTS_BUS_RESET_BITS = 0x1000,
     USB_INTS_ERROR_BITS = 0x3e0, USB_SIE_STATUS_SETUP_REC_BITS = 0x20000, USB_SIE_STATUS_BUS_RESET_BITS = 0x80000,
     USB_SIE_STATUS_DATA_SEQ_ERROR_BITS = 0x80000000, USBCTRL_IRQ = 5, abort_done_at = (\<lambda>_. 0xffffffff)\<rparr>"

definition picoboot_cmd_layout :: "memory \<Rightarrow> u32 \<Rightarrow> picoboot_cmd" where
  "picoboot_cmd_layout m a =
     \<lparr>dMagic = rd32 m a, dToken = rd32 m (a + 4), bCmdId = m (a + 8), bCmdSize = m (a + 9),
      dTransferLength = rd32 m (a + 12), range_dAddr = rd32 m (a + 16), range_dSize = rd32 m (a + 20),
      reboot_dPC = rd32 m (a + 16), reboot_dSP = rd32 m (a + 20), reboot_dDelayMS = rd32 m (a + 24),
      bExclusive = m (a + 16)\<rparr>"

definition rp2040_picoboot :: picoboot_consts where
  "rp2040_picoboot = \<lparr>PICOBOOT_MAGIC = 0x431fd10b, PC_REBOOT = 2, PICOBOOT_IF_RESET = 0x41, PICOBOOT_IF_CMD_STATUS = 0x42,
     sizeof_picoboot_cmd = 32, sizeof_exclusive_cmd = 1, sizeof_reboot_cmd = 12, sizeof_range_cmd = 8,
     sizeof_address_only_cmd = 4, picoboot_cmd_at = picoboot_cmd_layout\<rparr>"

definition boot_example_env :: "unit picoboot_env" where
  "boot_example_env = msc_env.extend (vd_env.extend example_vd_env
     \<lparr>usbc = rp2040_usb, sector_buf = 0x50100400, scsi_ir_z = []\<rparr>)
     \<lparr>pico = rp2040_picoboot, picoboot_buffer = 0x50100600, sysinfo_gitref = 0xe0c912ac, software_git_revision = 0x58cbe1e9\<rparr>"

definition example_boot_consts :: boot_consts where
  "example_boot_consts = \<lparr>SSI_CTRLR0_SCPH_BITS = 0x40, SSI_CTRLR0_SCPOL_BITS = 0x80, SSI_CTRLR0_SCPH_LSB = 6,
     ROSC_CTRL_ENABLE = 0xfab000, XOSC_CTRL_ENABLE = 0xfab000, XOSC_STATUS_STABLE_BITS = 0x80000000,
     CLK_SYS_RESUS_CTRL = 0x1ff, CLOCKS_CLK_SYS_CTRL_SRC_BITS = 1, CLK_USB_CTRL = 0x820, PLL_CS_REFDIV_LSB = 0,
     PLL_PRIM_POSTDIV1_LSB = 16, PLL_PRIM_POSTDIV2_LSB = 12, PLL_PWR_PD_BITS = 1, PLL_PWR_VCOPD_BITS = 0x20,
     PLL_PWR_POSTDIVPD_BITS = 8, PLL_CS_LOCK_BITS = 0x80000000, RESETS_RESET_PLL_SYS_BITS = 0x1000,
     RESETS_RESET_USBCTRL_BITS = 0x1000000, RESETS_RESET_MAIN_BITS = 0x200240, XIP_CTRL_CACHE_EN_BITS = 1,
     USB_DPRAM_SIZE = 4096, usb_boot_reboot_wrapper = 0x2401, csn_strap = (\<lambda>n. if n < 3 then 0 else 2),
     clk_sys_selected = (\<lambda>n. if n < 2 then 2 else 1), clk_sys_selected_aux = (\<lambda>n. if n < 2 then 1 else 2),
     xosc_status = (\<lambda>n. if n < 4 then 0 else 0x80000000), pll_sys_cs = (\<lambda>n. if n < 4 then 0 else 0x80000000),
     reset_done = (\<lambda>m n. if n < 2 then 0 else m)\<rparr>"

definition example_boot_state :: "unit boot_state" where
  "example_boot_state = picoboot_state.extend (msc_state.extend (stream_state.extend (usb_state.extend
     (vd_state.extend example_vd_state
       \<lparr>endpoints = \<lambda>_. zero_usb_endpoint, transfers = \<lambda>_. zero_usb_transfer, endpoint_table = \<lambda>_. None,
        device = \<lparr>current_address = 0, current_config_num = 0, pending_address = 0, next_buffer_offset = 0,
                  device_descriptor = [], config_descriptor = [], first_interface = 0\<rparr>,
        buf_ctrl = \<lambda>_ _ _. 0, ep_ctrl = \<lambda>_ _. 0, ep_stall_arm = 0, usb_abort = 0, abort_polls = 0,
        dev_addr_ctrl = 0, buf_status = 0, buf_cpu_should_handle = 0, sie_status = 0, usb_regs = \<lambda>_. 0\<rparr>)
       \<lparr>streams = \<lambda>_. zero_usb_stream\<rparr>)
       \<lparr>csw = \<lparr>csw_sig = 0, csw_tag = 0, residue = 0, csw_status = 0\<rparr>,
        request_sense = \<lparr>rs_code = 0, rs_key = 0, rs_additional_sense_len = 0, rs_asc = 0, rs_ascq = 0\<rparr>,
        data_phase_length = 0, stall_direction_before_csw = SCSI_DIR_NONE, send_csw_on_unstall = False, ejected = False,
        msc_async_token = 0, msc_sector_lba = 0, msc_one_time = False\<rparr>)
       \<lparr>current_cmd_status = zero_cmd_status, stream_task = zero_task, real_token = 0, msd_handler_set = False,
        picoboot_handler_set = False\<rparr>)
       \<lparr>rosc_ctrl = 0, xosc_ctrl = 0, clk_resus_ctrl = 0, clk_sys_ctrl = 0, clk_sys_div = 0, clk_usb_ctrl = 0,
        clk_usb_div = 0, pll_cs = 0, pll_fbdiv_int = 0, pll_prim = 0, pll_pwr = 0, resets = 0, gpio_hi_out = 0,
        gpio_hi_oe = 0\<rparr>"

lemma example_unreset: "unreset_wait (reset_done example_boot_consts m) m 0 \<noteq> None"
  by (subst unreset_wait.simps, simp add: Let_def example_boot_consts_def, rule impI, subst unreset_wait.simps,
      simp add: Let_def, subst unreset_wait.simps, simp add: Let_def)

lemma rt_boot_example [simp]: "rt boot_example_env = example_runtime" "usbc boot_example_env = rp2040_usb"
  by (simp_all add: boot_example_env_def msc_env.extend_def vd_env.extend_def example_vd_env_def boot_env.extend_def example_env_def)

lemma example_clocks: "usb_clock_setup example_runtime example_boot_consts s \<noteq> None"
proof -
  have polls: "\<exists>m. poll_until (\<lambda>n. clk_sys_selected example_boot_consts n AND 1 \<noteq> 0) 0 = Some m"
    "\<exists>m. poll_until (\<lambda>n. clk_sys_selected_aux example_boot_consts n AND 2 \<noteq> 0) 0 = Some m"
    "\<exists>m. poll_until (\<lambda>n. xosc_status example_boot_consts n AND XOSC_STATUS_STABLE_BITS example_boot_consts \<noteq> 0) 0 = Some m"
    "\<exists>m. poll_until (\<lambda>n. pll_sys_cs example_boot_consts n AND PLL_CS_LOCK_BITS example_boot_consts \<noteq> 0) 0 = Some m"
    by (rule poll_until_ends [where k = 9], simp_all add: example_boot_consts_def)+
  obtain k where k: "unreset_wait (reset_done example_boot_consts (RESETS_RESET_PLL_SYS_BITS example_boot_consts))
      (RESETS_RESET_PLL_SYS_BITS example_boot_consts) 0 = Some k"
    using example_unreset by blast
  show ?thesis
    using polls
    by (clarsimp simp: usb_clock_setup_def clocks_to_reference_def start_crystal_and_pll_def clocks_to_pll_def Let_def k
        reset_unreset_block_wait_noinline_def unreset_block_wait_noinline_def)
qed

end
