(* ===== verification/Boot_Layout.thy ===== *)
theory Boot_Layout
  imports Picoboot
begin

section \<open>The layout that the initialisation makes\<close>

text \<open>
  The walk over the configuration descriptor of the boot device ends at its endpoint
  descriptors, so the initialisation returns, and the endpoints get their numbers and directions
  from it and buffers of their own in the dual-port RAM.
\<close>

subsection \<open>The descriptors\<close>

lemma boot_device_config_bytes: "boot_device_config = [9, 2, 0x37, 0, 2, 1, 0, 0x80, 0xfa, 
  9, 4, 0, 0, 2, 8, 6, 0x50, 0, 7, 5, 0x81, 2, 0x40, 0, 0, 7, 5, 2, 2, 0x40, 0, 0,
  9, 4, 1, 0, 2, 0xff, 0, 0, 0, 7, 5, 3, 2, 0x40, 0, 0, 7, 5, 0x84, 2, 0x40, 0, 0]"
  by (simp add: boot_device_config_def config_descriptor_bytes_def msc_interface_bytes_def picoboot_interface_bytes_def interface_descriptor_bytes_def endpoint_descriptor_bytes_def le16_def)

lemma descriptor_walk: "usb_next_descriptor boot_device_config 9 5 = Some 18" "usb_next_descriptor boot_device_config 18 5 = Some 25"
  "usb_next_descriptor boot_device_config 32 5 = Some 41" "usb_next_descriptor boot_device_config 41 5 = Some 48"
  by (subst usb_next_descriptor.simps, simp add: boot_device_config_bytes Let_def)+

lemma endpoint_descriptors: "usb_endpoint_descriptor_at boot_device_config 18 = \<lparr>bEndpointAddress = 0x81, bmAttributes = 2, wMaxPacketSize = 64\<rparr>"
 "usb_endpoint_descriptor_at boot_device_config 25 = \<lparr>bEndpointAddress = 2, bmAttributes = 2, wMaxPacketSize = 64\<rparr>"
 "usb_endpoint_descriptor_at boot_device_config 41 = \<lparr>bEndpointAddress = 3, bmAttributes = 2, wMaxPacketSize = 64\<rparr>"
 "usb_endpoint_descriptor_at boot_device_config 48 = \<lparr>bEndpointAddress = 0x84, bmAttributes = 2, wMaxPacketSize = 64\<rparr>"
  by (simp_all add: boot_device_config_bytes usb_endpoint_descriptor_at_def)

subsection \<open>What the steps of the initialisation change\<close>

named_theorems layoutsimps \<open>endpoints, table and offsets after a step\<close>

lemma init_internal_proj [layoutsimps]:
  "endpoints (usb_endpoint_init_internal e n i b d s) x =
     (if x = e then (endpoints s x)\<lparr>ep_num := n, ep_in := i, buffer_size := b, double_buffered := d,
        buffer_bit_index := n * 2 + (if i then 0 else 1)\<rparr> else endpoints s x)"
  "endpoint_table (usb_endpoint_init_internal e n i b d s) = endpoint_table s"
  "device (usb_endpoint_init_internal e n i b d s) = device s"
  "transfers (usb_endpoint_init_internal e n i b d s) = transfers s"
  "dev_addr_ctrl (usb_endpoint_init_internal e n i b d s) = dev_addr_ctrl s"
  by (simp_all add: usb_endpoint_init_internal_def upd_ep_def)

lemma hw_init_proj [layoutsimps]:
  "endpoints (usb_endpoint_hw_init c e s) x =
     (if x = e then (endpoints s x)\<lparr>dpram_buffer_offset := next_buffer_offset (device s)\<rparr> else endpoints s x)"
  "endpoint_table (usb_endpoint_hw_init c e s) = endpoint_table s"
  "device (usb_endpoint_hw_init c e s) =
     (device s)\<lparr>next_buffer_offset := next_buffer_offset (device s) + (if double_buffered (endpoints s e) then 128 else 64)\<rparr>"
  "transfers (usb_endpoint_hw_init c e s) = transfers s" "dev_addr_ctrl (usb_endpoint_hw_init c e s) = dev_addr_ctrl s"
  by (auto simp: usb_endpoint_hw_init_def Let_def upd_ep_def)

lemma set_offset_proj [layoutsimps]:
  "endpoints (set_next_buffer_offset off s) = endpoints s" "endpoint_table (set_next_buffer_offset off s) = endpoint_table s"
  "device (set_next_buffer_offset off s) = (device s)\<lparr>next_buffer_offset := off\<rparr>"
  "transfers (set_next_buffer_offset off s) = transfers s" "dev_addr_ctrl (set_next_buffer_offset off s) = dev_addr_ctrl s"
  by (simp_all add: set_next_buffer_offset_def)

lemma gpio_setup_proj [layoutsimps]:
  "endpoints (gpio_setup c s) = endpoints s" "endpoint_table (gpio_setup c s) = endpoint_table s" "device (gpio_setup c s) = device s"
  "transfers (gpio_setup c s) = transfers s" "dev_addr_ctrl (gpio_setup c s) = dev_addr_ctrl s"
  by (simp_all add: gpio_setup_def gpio_funcsel_def)

lemma fold_hw_init_other: "x \<notin> set es \<Longrightarrow> endpoints (fold (usb_endpoint_hw_init c) es s) x = endpoints s x"
  by (induction es arbitrary: s) (auto simp: layoutsimps)

lemma fold_hw_init_table:
  "endpoint_table (fold (usb_endpoint_hw_init c) es s) = endpoint_table s"
  "transfers (fold (usb_endpoint_hw_init c) es s) = transfers s"
  "dev_addr_ctrl (fold (usb_endpoint_hw_init c) es s) = dev_addr_ctrl s"
  by (induction es arbitrary: s) (auto simp: layoutsimps)

lemma fold_hw_init_at:
  "distinct es \<Longrightarrow> k < length es \<Longrightarrow> (\<And>e. e \<in> set es \<Longrightarrow> double_buffered (endpoints s e)) \<Longrightarrow>
   endpoints (fold (usb_endpoint_hw_init c) es s) (es ! k) =
     (endpoints s (es ! k))\<lparr>dpram_buffer_offset := next_buffer_offset (device s) + word_of_nat (128 * k)\<rparr>"
proof (induction es arbitrary: s k)
  case (Cons e es)
  show ?case
  proof (cases k)
    case 0
    then show ?thesis using Cons.prems by (simp add: fold_hw_init_other layoutsimps)
  next
    case (Suc j)
    have "endpoints (fold (usb_endpoint_hw_init c) es (usb_endpoint_hw_init c e s)) (es ! j) =
       (endpoints (usb_endpoint_hw_init c e s) (es ! j))\<lparr>dpram_buffer_offset :=
         next_buffer_offset (device (usb_endpoint_hw_init c e s)) + word_of_nat (128 * j)\<rparr>"
      using Cons.prems Suc by (intro Cons.IH) (auto simp: layoutsimps)
    moreover have "es ! j \<noteq> e" using Cons.prems Suc by auto
    ultimately show ?thesis using Cons.prems Suc by (simp add: layoutsimps algebra_simps)
  qed
qed simp

subsection \<open>The buffers\<close>

text \<open>The state before the bulk endpoints are initialised.\<close>

definition device_init_control where
  "device_init_control c desc config_desc interfaces s =
     set_next_buffer_offset 0x180 (usb_endpoint_hw_init c Control_Out (set_next_buffer_offset 0x100
       (usb_endpoint_hw_init c Control_In (set_next_buffer_offset 0x100
         (usb_endpoint_init_internal Control_Out 0 False 64 False (usb_endpoint_init_internal Control_In 0 True 64 False
           (s\<lparr>device := (device s)\<lparr>device_descriptor := desc, config_descriptor := config_desc,
                                    first_interface := interfaces\<rparr>\<rparr>)))))))"

lemma device_init_fold:
  "usb_device_init c desc cfg i s =
     fold (usb_endpoint_hw_init c) (List.map_filter (endpoint_table s) [1, 2, 3, 4]) (device_init_control c desc cfg i s)"
proof -
  have upt: "[1..<5] = [1, 2, 3, 4 :: nat]" by (simp add: upt_rec)
  have "endpoint_table (device_init_control c desc cfg i s) = endpoint_table s"
    by (simp add: device_init_control_def layoutsimps)
  then have "enumerated_endpoints False (device_init_control c desc cfg i s) = List.map_filter (endpoint_table s) [1, 2, 3, 4]"
    by (simp only: enumerated_endpoints_def upt if_False append_Nil)
  then show ?thesis
    by (simp only: usb_device_init_def Let_def device_init_control_def)
qed

lemma device_init_control_proj:
  "endpoints (device_init_control c desc cfg i s) x =
     (if x = Control_In then (endpoints s x)\<lparr>ep_num := 0, ep_in := True, buffer_size := 64, double_buffered := False,
         buffer_bit_index := 0, dpram_buffer_offset := 0x100\<rparr>
      else if x = Control_Out then (endpoints s x)\<lparr>ep_num := 0, ep_in := False, buffer_size := 64, double_buffered := False,
         buffer_bit_index := 1, dpram_buffer_offset := 0x100\<rparr>
      else endpoints s x)"
  "endpoint_table (device_init_control c desc cfg i s) = endpoint_table s"
  "next_buffer_offset (device (device_init_control c desc cfg i s)) = 0x180"
  "transfers (device_init_control c desc cfg i s) = transfers s" "dev_addr_ctrl (device_init_control c desc cfg i s) = dev_addr_ctrl s"
  by (simp_all add: device_init_control_def layoutsimps)

lemma init_interface_step:
  assumes "usb_next_descriptor bytes p 5 = Some q" 
  shows "init_interface_endpoints bytes p double (e # es) s =
     (let d = usb_endpoint_descriptor_at bytes q; num = bEndpointAddress d AND 0xf
      in init_interface_endpoints bytes q double es
         ((upd_ep e (\<lambda>ep. ep\<lparr>ep_num := num, ep_in := (bEndpointAddress d AND 0x80 \<noteq> 0), buffer_size := wMaxPacketSize d, double_buffered := double,
        buffer_bit_index := num * 2 + (if bEndpointAddress d AND 0x80 \<noteq> 0 then 0 else 1),
        ep_descriptor := Some d\<rparr>) s)\<lparr>endpoint_table := (endpoint_table s)(unat num := Some e)\<rparr>))"
  by (simp add: assms Let_def usb_endpoint_init_internal_def upd_ep_def)

fun bulk_layout where
  "bulk_layout Msc_In = (1, True)" | "bulk_layout Msc_Out = (2, False)" | "bulk_layout Picoboot_Out = (3, False)"
| "bulk_layout Picoboot_In = (4, True)" | "bulk_layout Control_In = (0, True)" | "bulk_layout Control_Out = (0, False)"

lemma interfaces_ok:
  "\<exists>s3. usb_boot_device_setup env 0 s = Some (usb_device_init (usbc env) boot_device_descriptor boot_device_config 0 s3) \<and>
     (\<forall>e \<in> {Msc_In, Msc_Out, Picoboot_Out, Picoboot_In}.
        (ep_num (endpoints s3 e), ep_in (endpoints s3 e)) = bulk_layout e \<and> double_buffered (endpoints s3 e) \<and>
        buffer_size (endpoints s3 e) = 64) \<and>
     endpoint_table s3 = (endpoint_table s)(1 := Some Msc_In, 2 := Some Msc_Out, 3 := Some Picoboot_Out, 4 := Some Picoboot_In)"
  unfolding usb_boot_device_setup_def init_msc_interface_def init_picoboot_interface_def usb_interface_init_def
  by (simp add: descriptor_walk endpoint_descriptors init_interface_step Let_def, rule exI, rule conjI, rule refl)
    (simp add: upd_ep_def upd_tr_def usb_set_default_transfer_def layoutsimps)

text \<open>The offsets of the buffers of an endpoint (two, if it is double buffered).\<close>

definition dpram_area :: "usb_endpoint \<Rightarrow> nat set" where
  "dpram_area ep =
     {unat (dpram_buffer_offset ep) ..< unat (dpram_buffer_offset ep) + (if double_buffered ep then 128 else 64)}"

text \<open>The two control endpoints share one buffer; any other two endpoints have buffers apart.\<close>

definition buffers_apart :: "(ep_id \<Rightarrow> usb_endpoint) \<Rightarrow> bool" where
  "buffers_apart eps \<longleftrightarrow>
     (\<forall>e f. e \<noteq> f \<longrightarrow> {e, f} = {Control_In, Control_Out} \<or> dpram_area (eps e) \<inter> dpram_area (eps f) = {})"

fun dpram_offset :: "ep_id \<Rightarrow> u16" where
  "dpram_offset Control_In = 0x100" | "dpram_offset Control_Out = 0x100" | "dpram_offset Msc_In = 0x180"
| "dpram_offset Msc_Out = 0x200" | "dpram_offset Picoboot_Out = 0x280" | "dpram_offset Picoboot_In = 0x300"

lemma device_init_layout:
  assumes "endpoint_table s3 = tab(1 := Some Msc_In, 2 := Some Msc_Out, 3 := Some Picoboot_Out, 4 := Some Picoboot_In)"
    "\<And>e. e \<in> {Msc_In, Msc_Out, Picoboot_Out, Picoboot_In} \<Longrightarrow> double_buffered (endpoints s3 e)"
  shows "endpoints (usb_device_init c desc cfg i s3) e =
    (if e = Control_In then (endpoints s3 e)\<lparr>ep_num := 0, ep_in := True, buffer_size := 64, double_buffered := False,
         buffer_bit_index := 0, dpram_buffer_offset := 0x100\<rparr>
     else if e = Control_Out then (endpoints s3 e)\<lparr>ep_num := 0, ep_in := False, buffer_size := 64, double_buffered := False,
         buffer_bit_index := 1, dpram_buffer_offset := 0x100\<rparr>
     else (endpoints s3 e)\<lparr>dpram_buffer_offset := dpram_offset e\<rparr>)"
proof -
  define es where "es = [Msc_In, Msc_Out, Picoboot_Out, Picoboot_In]"
  define S where "S = device_init_control c desc cfg i s3"
  define E where "E = fold (usb_endpoint_hw_init c) es S"
  have fold: "usb_device_init c desc cfg i s3 = E"
    by (simp add: device_init_fold E_def S_def es_def assms(1) List.map_filter_simps)
  have S: "next_buffer_offset (device S) = 0x180"
    "endpoints S x = (if x = Control_In then (endpoints s3 x)\<lparr>ep_num := 0, ep_in := True, buffer_size := 64,
        double_buffered := False, buffer_bit_index := 0, dpram_buffer_offset := 0x100\<rparr>
     else if x = Control_Out then (endpoints s3 x)\<lparr>ep_num := 0, ep_in := False, buffer_size := 64,
        double_buffered := False, buffer_bit_index := 1, dpram_buffer_offset := 0x100\<rparr>
     else endpoints s3 x)" for x
    by (simp_all add: S_def device_init_control_proj)
  have double: "double_buffered (endpoints S x)" if "x \<in> set es" for x
    using that assms(2) [of x] by (auto simp: es_def S(2))
  have at: "endpoints E (es ! k) = (endpoints S (es ! k))\<lparr>dpram_buffer_offset := 0x180 + word_of_nat (128 * k)\<rparr>" if "k < 4" for k
    using fold_hw_init_at [of es k S c] that double by (simp add: E_def S(1) es_def)
  have other: "endpoints E x = endpoints S x" if "x \<notin> set es" for x
    unfolding E_def by (rule fold_hw_init_other [OF that])
  have bulk: "endpoints E Msc_In = (endpoints S Msc_In)\<lparr>dpram_buffer_offset := 0x180\<rparr>"
    "endpoints E Msc_Out = (endpoints S Msc_Out)\<lparr>dpram_buffer_offset := 0x200\<rparr>"
    "endpoints E Picoboot_Out = (endpoints S Picoboot_Out)\<lparr>dpram_buffer_offset := 0x280\<rparr>"
    "endpoints E Picoboot_In = (endpoints S Picoboot_In)\<lparr>dpram_buffer_offset := 0x300\<rparr>"
    using at [of 0] at [of 1] at [of 2] at [of 3] by (simp_all add: es_def)
  show ?thesis
    unfolding fold by (cases e) (simp_all add: bulk S(2) other es_def)
qed

lemma device_init_other:
  "config_descriptor (device (fold (usb_endpoint_hw_init c) es s)) = config_descriptor (device s)"
  by (induction es arbitrary: s) (simp_all add: layoutsimps)

lemma boot_device_layout_ok:
  "\<exists>s'. usb_boot_device_setup env 0 s = Some s' \<and>
     (\<forall>e. (ep_num (endpoints s' e), ep_in (endpoints s' e)) = bulk_layout e \<and> buffer_size (endpoints s' e) = 64 \<and>
          dpram_buffer_offset (endpoints s' e) = dpram_offset e \<and>
          double_buffered (endpoints s' e) = (e \<notin> {Control_In, Control_Out})) \<and>
     map (endpoint_table s') [1, 2, 3, 4] = [Some Msc_In, Some Msc_Out, Some Picoboot_Out, Some Picoboot_In] \<and>
     config_descriptor (device s') = boot_device_config \<and> buffers_apart (endpoints s')"
proof -
  obtain s3 where s3: "usb_boot_device_setup env 0 s = Some (usb_device_init (usbc env) boot_device_descriptor boot_device_config 0 s3)"
    "\<And>e. e \<in> {Msc_In, Msc_Out, Picoboot_Out, Picoboot_In} \<Longrightarrow>
        (ep_num (endpoints s3 e), ep_in (endpoints s3 e)) = bulk_layout e \<and> double_buffered (endpoints s3 e) \<and>
        buffer_size (endpoints s3 e) = 64"
    "endpoint_table s3 = (endpoint_table s)(1 := Some Msc_In, 2 := Some Msc_Out, 3 := Some Picoboot_Out, 4 := Some Picoboot_In)"
    using interfaces_ok [of env s] by blast
  let ?s' = "usb_device_init (usbc env) boot_device_descriptor boot_device_config 0 s3"
  note ep = device_init_layout [OF s3(3), of "usbc env" boot_device_descriptor boot_device_config 0]
  have 1: "(ep_num (endpoints ?s' e), ep_in (endpoints ?s' e)) = bulk_layout e \<and> buffer_size (endpoints ?s' e) = 64 \<and>
          dpram_buffer_offset (endpoints ?s' e) = dpram_offset e \<and>
          double_buffered (endpoints ?s' e) = (e \<notin> {Control_In, Control_Out})" for e
    using ep [of e] s3(2) [of e] s3(2) by (cases e) simp_all
  have tab: "endpoint_table ?s' = endpoint_table s3"
    by (simp add: device_init_fold fold_hw_init_table device_init_control_proj)
  have cfg: "config_descriptor (device ?s') = boot_device_config"
    by (simp add: device_init_fold device_init_other device_init_control_def layoutsimps)
  have apart: "buffers_apart (endpoints ?s')"
    unfolding buffers_apart_def dpram_area_def
  proof (intro allI impI)
    fix e f :: ep_id assume "e \<noteq> f"
    then show "{e, f} = {Control_In, Control_Out} \<or>
      {unat (dpram_buffer_offset (endpoints ?s' e)) ..< unat (dpram_buffer_offset (endpoints ?s' e)) + (if double_buffered (endpoints ?s' e) then 128 else 64)} \<inter>
      {unat (dpram_buffer_offset (endpoints ?s' f)) ..< unat (dpram_buffer_offset (endpoints ?s' f)) + (if double_buffered (endpoints ?s' f) then 128 else 64)} = {}"
      using 1 [of e] 1 [of f] by (cases e; cases f) auto
  qed
  show ?thesis using s3(1) 1 tab cfg apart by (auto simp: s3(3))
qed

text \<open>C22. \<open>usb_boot_device_init\<close> with both interfaces always gets past its walk of the descriptors, and leaves
  four bulk endpoints of 64 bytes with the numbers and directions that the descriptors announce, in the endpoint
  table under those numbers, double buffered, and with buffers in the dual-port RAM that no other
  endpoint uses (the two control endpoints share theirs).\<close>

theorem boot_device_layout:
  "\<exists>s'. usb_boot_device_setup env 0 s = Some s' \<and>
     (\<forall>e. (ep_num (endpoints s' e), ep_in (endpoints s' e)) = bulk_layout e \<and> buffer_size (endpoints s' e) = 64 \<and>
          dpram_buffer_offset (endpoints s' e) = dpram_offset e \<and>
          double_buffered (endpoints s' e) = (e \<notin> {Control_In, Control_Out})) \<and>
     map (endpoint_table s') [1, 2, 3, 4] = [Some Msc_In, Some Msc_Out, Some Picoboot_Out, Some Picoboot_In] \<and>
     config_descriptor (device s') = boot_device_config \<and> buffers_apart (endpoints s')"
  by (rule boot_device_layout_ok)

end
