(* ===== verification/Usb_Wf.thy ===== *)
theory Usb_Wf
  imports Usb_Control
begin

section \<open>A well-formedness invariant of the USB device library\<close>

text \<open>
  What every operation of the USB library keeps, whatever the functions do that it calls through
  pointers, as long as they keep it too: the locale \<open>usb_client\<close> is that contract. The
  invariant \<open>usb_wf\<close> has three parts. The layout made by the initialisation (the numbers,
  directions and buffers of the endpoints, the endpoint table, the descriptors) stays. Transfers
  are typed: an endpoint only runs, chains and defaults to its own transfers, and a transfer only
  has its own packet handlers and completion functions. The address register agrees with the
  recorded address, addresses are below 128 and the configuration is one the descriptor has.
\<close>

subsection \<open>The invariant\<close>

definition ep_static where
  "ep_static ep = (ep_descriptor ep, dpram_buffer_offset ep, buffer_size ep, ep_num ep, buffer_bit_index ep,
     double_buffered ep, ep_in ep)"

definition usb_layout where
  "usb_layout s = ((\<lambda>e. ep_static (endpoints s e)), endpoint_table s, next_buffer_offset (device s),
     device_descriptor (device s), config_descriptor (device s), first_interface (device s))"

text \<open>The endpoints that run a transfer, and the functions that it may have.\<close>

fun transfer_home :: "transfer_id \<Rightarrow> ep_id list" where
  "transfer_home Control_In_Transfer = [Control_In]"
| "transfer_home Control_Out_Transfer = [Control_Out]"
| "transfer_home Msc_Cmd_Transfer = [Msc_Out]"
| "transfer_home Msc_Cmd_Response_Transfer = [Msc_In]"
| "transfer_home Msc_Sector_Transfer = [Msc_In, Msc_Out]"
| "transfer_home Picoboot_Cmd_Transfer = [Picoboot_Out]"
| "transfer_home Picoboot_Stream_Transfer = [Picoboot_In, Picoboot_Out]"
| "transfer_home Picoboot_Ack_Transfer = [Picoboot_In, Picoboot_Out]"

fun transfer_completions :: "transfer_id \<Rightarrow> completed_func list" where
  "transfer_completions Control_In_Transfer = [Tf_send_control_in_ack, Tf_set_address]"
| "transfer_completions Control_Out_Transfer = [Tf_send_control_out_ack]"
| "transfer_completions Msc_Cmd_Transfer = []"
| "transfer_completions Msc_Cmd_Response_Transfer = [Tf_wait_command, Tf_data_phase_complete]"
| "transfer_completions Msc_Sector_Transfer = [Tf_data_phase_complete]"
| "transfer_completions Picoboot_Cmd_Transfer = []"
| "transfer_completions Picoboot_Stream_Transfer = [Tf_ack]"
| "transfer_completions Picoboot_Ack_Transfer = [Tf_picoboot_wait_command]"

fun transfer_packets :: "transfer_id \<Rightarrow> transfer_type" where
  "transfer_packets Msc_Cmd_Transfer = Msc_Cmd_Packet"
| "transfer_packets Msc_Sector_Transfer = Usb_Stream_Packet_Handler"
| "transfer_packets Picoboot_Cmd_Transfer = Picoboot_Cmd_Packet"
| "transfer_packets Picoboot_Stream_Transfer = Usb_Stream_Packet_Handler"
| "transfer_packets _ = Current_Packet_Only"

definition ep_wf :: "ep_id \<Rightarrow> usb_endpoint \<Rightarrow> bool" where
  "ep_wf e ep \<longleftrightarrow>
     (\<forall>t. current_transfer ep = Some t \<or> chain_transfer ep = Some t \<or> default_transfer ep = Some t \<longrightarrow>
          e \<in> set (transfer_home t))"

definition tr_wf :: "transfer_id \<Rightarrow> usb_transfer \<Rightarrow> bool" where
  "tr_wf t tr \<longleftrightarrow>
     tr_type tr \<in> {No_Type, transfer_packets t} \<and> on_complete tr \<in> {No_Complete} \<union> set (transfer_completions t)"

definition dev_wf :: "usb_device \<Rightarrow> u32 \<Rightarrow> bool" where
  "dev_wf d reg \<longleftrightarrow>
     reg = ucast (current_address d) \<and> current_address d \<le> 127 \<and> pending_address d \<le> 127 \<and>
     current_config_num d \<in> {0, bConfigurationValue (config_descriptor d)}"

definition usb_wf where
  "usb_wf K s \<longleftrightarrow>
     usb_layout s = K \<and> (\<forall>e. ep_wf e (endpoints s e)) \<and> (\<forall>t. tr_wf t (transfers s t)) \<and> dev_wf (device s) (dev_addr_ctrl s)"

lemma chain_home:
  "usb_wf K s \<Longrightarrow> chain_transfer (endpoints s e) = Some t \<Longrightarrow> e \<in> set (transfer_home t)"
  "usb_wf K s \<Longrightarrow> default_transfer (endpoints s e) = Some t \<Longrightarrow> e \<in> set (transfer_home t)"
  by (auto simp: usb_wf_def ep_wf_def)

subsection \<open>Updates that keep it\<close>

named_theorems wf \<open>preservation of the invariant\<close>

lemma usb_wf_upd_ep [wf]:
  "usb_wf K s \<Longrightarrow> ep_static (f (endpoints s e)) = ep_static (endpoints s e) \<Longrightarrow> ep_wf e (f (endpoints s e)) \<Longrightarrow>
   usb_wf K (upd_ep e f s)"
  by (auto simp: usb_wf_def usb_layout_def usbsimps fun_eq_iff)

lemma usb_wf_upd_tr [wf]: "usb_wf K s \<Longrightarrow> tr_wf t (f (transfers s t)) \<Longrightarrow> usb_wf K (upd_tr t f s)"
  by (auto simp: usb_wf_def usb_layout_def usbsimps)

lemma usb_wfD:
  "usb_wf K s \<Longrightarrow> ep_wf e (endpoints s e)" "usb_wf K s \<Longrightarrow> tr_wf t (transfers s t)" "usb_wf K s \<Longrightarrow> usb_layout s = K"
  "usb_wf K s \<Longrightarrow> dev_wf (device s) (dev_addr_ctrl s)"
  by (auto simp: usb_wf_def)

lemma ep_wf_update [simp]:
  "ep_wf e (ep\<lparr>halt_state := h\<rparr>) = ep_wf e ep" "ep_wf e (ep\<lparr>current_hw_buffer := b\<rparr>) = ep_wf e ep"
  "ep_wf e (ep\<lparr>owned_buffer_count := n\<rparr>) = ep_wf e ep" "ep_wf e (ep\<lparr>next_pid := n\<rparr>) = ep_wf e ep"
  "ep_wf e (ep\<lparr>current_give_buffer := n\<rparr>) = ep_wf e ep" "ep_wf e (ep\<lparr>current_take_buffer := n\<rparr>) = ep_wf e ep"
  "ep_wf e (ep\<lparr>first_buffer_after_reset := x\<rparr>) = ep_wf e ep" "ep_wf e (ep\<lparr>on_stall_change := g\<rparr>) = ep_wf e ep"
  by (simp_all add: ep_wf_def)

lemma tr_wf_update [simp]:
  "tr_wf t (tr\<lparr>remaining_packets_to_submit := n\<rparr>) = tr_wf t tr" "tr_wf t (tr\<lparr>remaining_packets_to_handle := n\<rparr>) = tr_wf t tr"
  "tr_wf t (tr\<lparr>outstanding_packet := b\<rparr>) = tr_wf t tr" "tr_wf t (tr\<lparr>packet_queued := b\<rparr>) = tr_wf t tr"
  "tr_wf t (tr\<lparr>started := b\<rparr>) = tr_wf t tr" "tr_wf t (tr\<lparr>completed := b\<rparr>) = tr_wf t tr"
  by (simp_all add: tr_wf_def)

lemma ep_wf_current:
  "ep_wf e ep \<Longrightarrow> ep_wf e (ep\<lparr>current_transfer := None\<rparr>)"
  "ep_wf e ep \<Longrightarrow> e \<in> set (transfer_home t) \<Longrightarrow> ep_wf e (ep\<lparr>current_transfer := Some t, chain_transfer := None\<rparr>)"
  "ep_wf e ep \<Longrightarrow> e \<in> set (transfer_home t) \<Longrightarrow> ep_wf e (ep\<lparr>chain_transfer := Some t\<rparr>)"
  "ep_wf e ep \<Longrightarrow> e \<in> set (transfer_home t) \<Longrightarrow> ep_wf e (ep\<lparr>default_transfer := Some t\<rparr>)"
  by (auto simp: ep_wf_def)

lemma pred_option_bind [wf]:
  "pred_option P r \<Longrightarrow> (\<And>x. P x \<Longrightarrow> pred_option Q (f x)) \<Longrightarrow> pred_option Q (Option.bind r f)"
  by (cases r) auto

lemma usb_wf_registers [simp]:
  "usb_wf K (s\<lparr>usb_abort := x1\<rparr>) = usb_wf K s" "usb_wf K (s\<lparr>abort_polls := x2\<rparr>) = usb_wf K s"
  "usb_wf K (s\<lparr>ep_stall_arm := x3\<rparr>) = usb_wf K s" "usb_wf K (s\<lparr>buf_status := x4\<rparr>) = usb_wf K s"
  "usb_wf K (s\<lparr>sie_status := x5\<rparr>) = usb_wf K s" "usb_wf K (s\<lparr>usb_regs := x6\<rparr>) = usb_wf K s"
  "usb_wf K (s\<lparr>mem := x7\<rparr>) = usb_wf K s" "usb_wf K (s\<lparr>buf_ctrl := x8\<rparr>) = usb_wf K s"
  "usb_wf K (s\<lparr>buf_cpu_should_handle := x9\<rparr>) = usb_wf K s"
  "usb_wf K (write_buf_ctrl e w v s) = usb_wf K s"
  by (simp_all add: usb_wf_def usb_layout_def usbsimps)

lemma usb_wf_runtime [simp]:
  "usb_wf K (interrupt_enable i b s) = usb_wf K s" "usb_wf K (gpio_set_mask m s) = usb_wf K s"
  "usb_wf K (gpio_clr_mask m s) = usb_wf K s" "usb_wf K (s\<lparr>flash := x\<rparr>) = usb_wf K s"
  by (simp_all add: usb_wf_def usb_layout_def interrupt_enable_def gpio_set_mask_def gpio_clr_mask_def)

lemma usb_wf_ep_dynamic [wf]:
  "usb_wf K s \<Longrightarrow> (\<And>ep. ep_static (f ep) = ep_static ep) \<Longrightarrow> (\<And>ep. ep_wf e ep \<Longrightarrow> ep_wf e (f ep)) \<Longrightarrow> usb_wf K (upd_ep e f s)"
  by (intro wf) (simp_all add: usb_wfD)

lemma usb_wf_tr_dynamic [wf]:
  "usb_wf K s \<Longrightarrow> (\<And>tr. tr_wf t tr \<Longrightarrow> tr_wf t (f tr)) \<Longrightarrow> usb_wf K (upd_tr t f s)"
  by (intro wf) (simp_all add: usb_wfD)

lemma usb_wf_reset_buffers [wf]: "usb_wf K s \<Longrightarrow> usb_wf K (usb_reset_buffers c e s)"
  by (auto simp: usb_reset_buffers_def Let_def ep_static_def intro!: usb_wf_ep_dynamic)

lemma usb_wf_packet_buffer [wf]: "usb_wf K s \<Longrightarrow> usb_wf K (snd (usb_current_packet_buffer c e s))"
  by (auto simp: usb_current_packet_buffer_def Let_def ep_static_def intro!: usb_wf_ep_dynamic)

lemma usb_wf_set_buffer_len [wf]: "usb_wf K s \<Longrightarrow> usb_wf K (set_buffer_len e n s)"
  by (auto simp: set_buffer_len_def ep_static_def intro!: usb_wf_ep_dynamic)

lemma usb_wf_response_buffer [wf]: "usb_wf K s \<Longrightarrow> usb_wf K (snd (usb_get_single_packet_response_buffer c e n s))"
  by (auto simp: usb_get_single_packet_response_buffer_def Let_def split: prod.split intro!: usb_wf_set_buffer_len
      dest: usb_wf_packet_buffer [where e = e and c = c])

lemma usb_wf_give_buffer [wf]: "usb_wf K s \<Longrightarrow> pred_option (usb_wf K) (usb_give_buffer c e n s)"
  by (auto simp: usb_give_buffer_def Let_def ep_static_def split: option.split intro!: usb_wf_ep_dynamic usb_wf_tr_dynamic)

lemma usb_wf_reset_transfer [wf]:
  "usb_wf K s \<Longrightarrow> ty \<in> {No_Type, transfer_packets t} \<Longrightarrow> f \<in> {No_Complete} \<union> set (transfer_completions t) \<Longrightarrow>
   usb_wf K (usb_reset_transfer t ty f s)"
  by (auto simp: usb_reset_transfer_def tr_wf_def intro!: usb_wf_tr_dynamic)

lemma usb_wf_grow_transfer [wf]: "usb_wf K s \<Longrightarrow> usb_wf K (usb_grow_transfer t n s)"
  by (auto simp: usb_grow_transfer_def intro!: usb_wf_tr_dynamic)

lemma usb_wf_chain_transfer [wf]: "usb_wf K s \<Longrightarrow> e \<in> set (transfer_home t) \<Longrightarrow> usb_wf K (usb_chain_transfer e t s)"
  by (auto simp: usb_chain_transfer_def ep_static_def intro!: usb_wf_ep_dynamic ep_wf_current)

lemma usb_wf_clear_halt [wf]: "usb_wf K s \<Longrightarrow> usb_wf K (usb_clear_halt_condition e s)"
  by (auto simp: usb_clear_halt_condition_def ep_static_def intro!: usb_wf_ep_dynamic)

lemma usb_wf_set_address [wf]: "usb_wf K s \<Longrightarrow> a \<le> 127 \<Longrightarrow> usb_wf K (usb_handle_set_address a s)"
  by (auto simp: usb_handle_set_address_def usb_wf_def usb_layout_def dev_wf_def)

lemma usb_wf_tf_set_address [wf]: "usb_wf K s \<Longrightarrow> usb_wf K (tf_set_address s)"
  by (auto simp: tf_set_address_def dev_wf_def dest: usb_wfD(4) intro!: usb_wf_set_address)

lemma usb_wf_pending_address [wf]:
  "usb_wf K s \<Longrightarrow> a \<le> 127 \<Longrightarrow> usb_wf K (s\<lparr>device := (device s)\<lparr>pending_address := a\<rparr>\<rparr>)"
  by (auto simp: usb_wf_def usb_layout_def dev_wf_def)

lemma usb_wf_config_num [wf]:
  "usb_wf K s \<Longrightarrow> n \<in> {0, bConfigurationValue (config_descriptor (device s))} \<Longrightarrow>
   usb_wf K (s\<lparr>device := (device s)\<lparr>current_config_num := n\<rparr>\<rparr>)"
  by (auto simp: usb_wf_def usb_layout_def dev_wf_def)

text \<open>An invariant of its calls is one of the loop that gives buffers.\<close>

lemma give_as_many_invariant:
  assumes "I s" "\<And>s. I s \<Longrightarrow> pred_option I (usb_call_on_packet cb e s)" "\<And>s n. I s \<Longrightarrow> pred_option I (usb_give_buffer c e n s)"
  shows "pred_option I (usb_give_as_many_buffers_as_possible cb c e s)"
proof -
  let ?Q = "\<lambda>cb' c' e' s s'. cb' = cb \<and> c' = c \<and> e' = e \<and> I s \<longrightarrow> I s'"
  have "?Q cb c e s s'" if "usb_give_as_many_buffers_as_possible cb c e s = Some s'" for s'
  proof (rule usb_give_as_many_buffers_as_possible.raw_induct [where P = ?Q, OF _ that])
    fix g cb' c' e' s s'
    assume IH: "\<And>cb' c' e' s s'. g cb' c' e' s = Some s' \<Longrightarrow> ?Q cb' c' e' s s'"
      and eq: "(if may_give e' s
            then if ep_in (endpoints s e')
                 then Option.bind (usb_call_on_packet cb' e' s)
                   (\<lambda>s1. if owned_buffer_count (endpoints s e') = owned_buffer_count (endpoints s1 e') then Some s1
                         else g cb' c' e' s1)
                 else Option.bind (usb_give_buffer c' e' (ucast (buffer_size (endpoints s e'))) s) (g cb' c' e')
            else Some s) = Some s'"
    show "?Q cb' c' e' s s'"
    proof clarify
      assume same: "cb' = cb" "c' = c" "e' = e" "I s"
      consider "s' = s"
        | s1 where "usb_call_on_packet cb e s = Some s1" "s' = s1 \<or> g cb c e s1 = Some s'"
        | s1 where "usb_give_buffer c e (ucast (buffer_size (endpoints s e))) s = Some s1" "g cb c e s1 = Some s'"
        using eq same by (auto simp: bind_eq_Some_conv split: if_split_asm)
      then show "I s'"
        by cases (use IH [of cb c e _ s'] assms(2) [OF same(4)] assms(3) [OF same(4), of "ucast (buffer_size (endpoints s e))"] same(4) in \<open>fastforce+\<close>)
    qed
  qed
  then show ?thesis using assms(1) by (cases "usb_give_as_many_buffers_as_possible cb c e s") auto
qed

subsection \<open>The contract of the functions called through pointers\<close>

locale usb_client =
  fixes cb :: "('d, 'z) usb_state_scheme usb_callbacks" and K
  assumes on_packet: "usb_wf K s \<Longrightarrow> pred_option (usb_wf K) (cb_on_packet cb ty e s)"
    and on_completed: "usb_wf K s \<Longrightarrow> pred_option (usb_wf K) (cb_on_complete cb f e t s)"
    and on_stall: "usb_wf K s \<Longrightarrow> pred_option (usb_wf K) (cb_on_stall_change cb g e s)"
    and on_configure: "usb_wf K s \<Longrightarrow> pred_option (usb_wf K) (cb_on_configure cb b s)"
    and setup_request: "usb_wf K s \<Longrightarrow> pred_option (\<lambda>r. usb_wf K (snd r)) (cb_setup_request cb i setup s)"
begin

lemmas client = on_packet on_completed on_stall on_configure setup_request

lemma stall_endpoint: "usb_wf K s \<Longrightarrow> pred_option (usb_wf K) (usb_stall_endpoint cb c e h s)"
  by (auto simp: usb_stall_endpoint_def Let_def ep_static_def intro!: client usb_wf_ep_dynamic)

lemma halt_endpoint:
  "usb_wf K s \<Longrightarrow> pred_option (usb_wf K) (usb_halt_endpoint cb c e s)"
  "usb_wf K s \<Longrightarrow> pred_option (usb_wf K) (usb_halt_endpoint_on_condition cb c e s)"
  by (simp_all add: usb_halt_endpoint_def usb_halt_endpoint_on_condition_def stall_endpoint)

lemma call_on_packet: "usb_wf K s \<Longrightarrow> pred_option (usb_wf K) (usb_call_on_packet cb e s)"
  by (auto simp: usb_call_on_packet_def Let_def split: option.split intro!: client usb_wf_tr_dynamic)

lemma give_as_many: "usb_wf K s \<Longrightarrow> pred_option (usb_wf K) (usb_give_as_many_buffers_as_possible cb c e s)"
  by (rule give_as_many_invariant) (auto intro: call_on_packet usb_wf_give_buffer)

lemma start_transfer:
  "usb_wf K s \<Longrightarrow> e \<in> set (transfer_home t) \<Longrightarrow> pred_option (usb_wf K) (usb_start_transfer cb c e t s)"
  unfolding usb_start_transfer_def
  by (intro give_as_many usb_wf_tr_dynamic usb_wf_ep_dynamic) (simp_all add: ep_wf_current ep_static_def)

lemma check_completion: "usb_wf K s \<Longrightarrow> pred_option (usb_wf K) (usb_check_for_transfer_completion cb c e s)"
  by (auto simp: usb_check_for_transfer_completion_def Let_def usbsimps ep_static_def split: option.split
      intro!: client usb_wf_tr_dynamic usb_wf_ep_dynamic start_transfer ep_wf_current chain_home(1))

lemma handle_transfer:
  "usb_wf K s \<Longrightarrow> pred_option (usb_wf K) (usb_handle_transfer cb c num d which s)"
  unfolding usb_handle_transfer_def Let_def
  by (cases "find_ep num d s")
    (auto simp: usbsimps ep_static_def split: option.split
      intro!: pred_option_bind [where P = "usb_wf K"] client halt_endpoint call_on_packet check_completion
        usb_wf_tr_dynamic usb_wf_ep_dynamic)

lemma packet_done: "usb_wf K s \<Longrightarrow> pred_option (usb_wf K) (usb_packet_done cb c e s)"
  unfolding usb_packet_done_def Let_def
  by (cases "current_transfer (endpoints s e)")
    (auto simp: usbsimps ep_static_def
      intro!: pred_option_bind [where P = "usb_wf K"] check_completion usb_wf_give_buffer handle_transfer give_as_many
        usb_wf_tr_dynamic usb_wf_ep_dynamic)

lemma reset_and_start:
  "usb_wf K s \<Longrightarrow> e \<in> set (transfer_home t) \<Longrightarrow> ty \<in> {No_Type, transfer_packets t} \<Longrightarrow>
   f \<in> {No_Complete} \<union> set (transfer_completions t) \<Longrightarrow>
   pred_option (usb_wf K) (usb_reset_and_start_transfer cb c e t ty f s)"
  unfolding usb_reset_and_start_transfer_def by (intro start_transfer usb_wf_reset_transfer)

lemma start_default: "usb_wf K s \<Longrightarrow> pred_option (usb_wf K) (start_default_transfer cb c e s)"
  by (auto simp: start_default_transfer_def split: option.split intro!: reset_and_start chain_home(2)
      dest: usb_wfD(2) simp: tr_wf_def)

lemma start_default_if:
  "usb_wf K s \<Longrightarrow> pred_option (usb_wf K) (usb_start_default_transfer_if_not_already_running_or_halted cb c e s)"
  by (simp add: usb_start_default_transfer_if_not_already_running_or_halted_def start_default)

lemma start_empty:
  "usb_wf K s \<Longrightarrow> e \<in> set (transfer_home t) \<Longrightarrow> transfer_packets t = Current_Packet_Only \<Longrightarrow>
   f \<in> {No_Complete} \<union> set (transfer_completions t) \<Longrightarrow> pred_option (usb_wf K) (usb_start_empty_transfer cb c e t f s)"
  unfolding usb_start_empty_transfer_def
  by (intro reset_and_start) (simp_all add: usb_wf_set_buffer_len usb_wf_packet_buffer)

lemma reset_endpoint: "usb_wf K s \<Longrightarrow> pred_option (usb_wf K) (usb_reset_endpoint cb c e hard s)"
  unfolding usb_reset_endpoint_def Let_def
  by (auto simp: ep_static_def
      intro!: pred_option_bind [where P = "usb_wf K"] client start_default usb_wf_ep_dynamic usb_wf_reset_buffers ep_wf_current)

lemma soft_reset: "usb_wf K s \<Longrightarrow> pred_option (usb_wf K) (usb_soft_reset_endpoint cb c e s)"
  and hard_reset: "usb_wf K s \<Longrightarrow> pred_option (usb_wf K) (usb_hard_reset_endpoint cb c e s)"
  by (simp_all add: usb_soft_reset_endpoint_def usb_hard_reset_endpoint_def reset_endpoint)

lemma stall_control_pipe: "usb_wf K s \<Longrightarrow> pred_option (usb_wf K) (usb_stall_control_pipe cb c s)"
  unfolding usb_stall_control_pipe_def
  by (intro pred_option_bind [where P = "usb_wf K"] stall_endpoint usb_wf_reset_buffers)

lemma single_buffer_in:
  "usb_wf K s \<Longrightarrow> pred_option (usb_wf K) (usb_start_single_buffer_control_in_transfer cb c s)"
  unfolding usb_start_single_buffer_control_in_transfer_def by (intro reset_and_start) simp_all

lemma tiny_in: "usb_wf K s \<Longrightarrow> pred_option (usb_wf K) (usb_start_tiny_control_in_transfer cb c v n s)"
  using usb_wf_packet_buffer [of K s c Control_In]
  by (auto simp: usb_start_tiny_control_in_transfer_def Let_def split: prod.split intro!: single_buffer_in usb_wf_set_buffer_len)

lemma empty_in: "usb_wf K s \<Longrightarrow> pred_option (usb_wf K) (usb_start_empty_control_in_transfer_null_completion cb c s)"
  and empty_in_address: "usb_wf K s \<Longrightarrow> pred_option (usb_wf K) (usb_start_empty_control_in_transfer cb c Tf_set_address s)"
  and in_ack: "usb_wf K s \<Longrightarrow> pred_option (usb_wf K) (tf_send_control_in_ack cb c s)"
  and out_ack: "usb_wf K s \<Longrightarrow> pred_option (usb_wf K) (tf_send_control_out_ack cb c s)"
  by (simp_all add: usb_start_empty_control_in_transfer_null_completion_def usb_start_empty_control_in_transfer_def
      tf_send_control_in_ack_def tf_send_control_out_ack_def start_empty)

lemma control_in_response: "usb_wf K s \<Longrightarrow> pred_option (usb_wf K) (control_in_response cb c setup bytes s)"
  using usb_wf_packet_buffer [of K s c Control_In]
  by (auto simp: control_in_response_def Let_def split: prod.split intro!: single_buffer_in usb_wf_set_buffer_len)

lemma for_endpoints:
  "(\<And>e s. usb_wf K s \<Longrightarrow> pred_option (usb_wf K) (f e s)) \<Longrightarrow> usb_wf K s \<Longrightarrow> pred_option (usb_wf K) (for_endpoints f es s)"
  by (induction es arbitrary: s) (auto intro!: pred_option_bind [where P = "usb_wf K"])

lemma set_config:
  "usb_wf K s \<Longrightarrow> n \<in> {0, bConfigurationValue (config_descriptor (device s))} \<Longrightarrow>
   pred_option (usb_wf K) (usb_handle_set_config cb c n s)"
  unfolding usb_handle_set_config_def Let_def usb_for_each_endpoint_def
  by (intro pred_option_bind [where P = "usb_wf K"] for_endpoints hard_reset client usb_wf_config_num)

lemma bus_reset: "usb_wf K s \<Longrightarrow> pred_option (usb_wf K) (usb_handle_bus_reset cb c s)"
  unfolding usb_handle_bus_reset_def Let_def
  by (intro pred_option_bind [where P = "usb_wf K"] set_config) (simp_all add: usb_wf_set_address)

lemma clear_endpoint_halt: "usb_wf K s \<Longrightarrow> pred_option (usb_wf K) (usb_clear_endpoint_halt cb c e s)"
  by (auto simp: usb_clear_endpoint_halt_def ep_static_def intro!: hard_reset usb_wf_ep_dynamic)

lemma device_request:
  "usb_wf K s \<Longrightarrow> pred_option (usb_wf K) (usb_default_handle_device_setup_request cb c setup s)"
  unfolding usb_default_handle_device_setup_request_def Let_def
  by (auto split: option.split intro!: stall_control_pipe control_in_response usb_wf_packet_buffer empty_in_address empty_in
      usb_wf_pending_address pred_option_bind [where P = "usb_wf K"] set_config)

lemma interface_request:
  "usb_wf K s \<Longrightarrow> pred_option (usb_wf K) (usb_default_handle_interface_setup_request cb c setup s)"
  by (simp add: usb_default_handle_interface_setup_request_def tiny_in stall_control_pipe)

lemma endpoint_request:
  "usb_wf K s \<Longrightarrow> pred_option (usb_wf K) (usb_default_handle_endpoint_setup_request cb c setup e s)"
  by (auto simp: usb_default_handle_endpoint_setup_request_def
      intro!: pred_option_bind [where P = "usb_wf K"] clear_endpoint_halt stall_endpoint tiny_in stall_control_pipe empty_in)

lemma setup_packet: "usb_wf K s \<Longrightarrow> pred_option (usb_wf K) (usb_handle_setup_packet cb c setup s)"
  unfolding usb_handle_setup_packet_def Let_def
  by (intro pred_option_bind [where P = "usb_wf K"] soft_reset)
    (auto simp: ep_static_def split: option.split prod.split
      intro!: device_request interface_request endpoint_request stall_control_pipe usb_wf_ep_dynamic
        pred_option_bind [where P = "\<lambda>r. usb_wf K (snd r)"] client)

lemma buffer_bits:
  "usb_wf K s \<Longrightarrow> pred_option (\<lambda>r. usb_wf K (snd r)) (handle_buffer_bits cb c is r s)"
  by (induction "is" arbitrary: r s) (auto intro!: pred_option_bind [where P = "usb_wf K"] handle_transfer)

lemma handle_buffer: "usb_wf K s \<Longrightarrow> pred_option (usb_wf K) (usb_handle_buffer cb c s)"
  unfolding usb_handle_buffer_def
  by (rule pred_option_bind [OF buffer_bits]) auto

lemma isr: "usb_wf K s \<Longrightarrow> pred_option (usb_wf K) (isr_usbctrl cb c status s)"
  unfolding isr_usbctrl_def Let_def
  by (intro pred_option_bind [where P = "usb_wf K"])
    (auto intro!: pred_option_bind [where P = "usb_wf K"] setup_packet handle_buffer bus_reset)

lemma device_start:
  "usb_wf K (s\<lparr>dev_addr_ctrl := 0\<rparr>) \<Longrightarrow> pred_option (usb_wf K) (usb_device_start cb c s)"
  unfolding usb_device_start_def Let_def
  by (intro pred_option_bind [where P = "usb_wf K"] bus_reset) simp_all

end

end
