(* ===== verification/Task_Invariant.thy ===== *)
theory Task_Invariant
  imports Async_Task
begin

section \<open>Invariants of the task worker\<close>

text \<open>
  The contract under which a property of the state survives a round of the worker: it does not
  depend on what the worker itself writes, and the code of the user, the eject and the completion
  callbacks keep it. The interpretation is in \<open>Usb_Reach\<close>.
\<close>

locale task_invariant =
  fixes I :: "('d, 'z) async_state_scheme \<Rightarrow> bool" and user :: "('d, 'z) user_code" and eject and complete
  assumes memory: "I s \<Longrightarrow> I (s\<lparr>mem := m\<rparr>)" and flash: "I s \<Longrightarrow> I (s\<lparr>flash := h\<rparr>)"
    and table: "I s \<Longrightarrow> I (s\<lparr>flash_funcs := a\<rparr>)" and source: "I s \<Longrightarrow> I (s\<lparr>last_mutation_source := b\<rparr>)"
    and queue: "I s \<Longrightarrow> I (set_queue q v s)" and worker: "I s \<Longrightarrow> I (s\<lparr>worker_task := t\<rparr>)"
    and gpio: "I s \<Longrightarrow> I (gpio_setup c s)"
    and user: "I s \<Longrightarrow> pred_option (\<lambda>r. I (snd r)) (user p args s)"
    and eject: "I s \<Longrightarrow> I (eject s)"
    and complete: "I s \<Longrightarrow> pred_option I (complete t s)"
begin

abbreviation (input) keeps where "keeps r \<equiv> pred_option (\<lambda>r. I (snd r)) r"

lemma via: "I s \<Longrightarrow> keeps (f s) \<Longrightarrow> keeps (via_table env user slot args f s)"
  by (simp add: via_table_def Let_def user)

lemma check: "keeps r \<Longrightarrow> keeps (check_ret r)"
  by (cases r) (auto simp: check_ret_def split: prod.split)

lemma and_then: "I s \<Longrightarrow> keeps (f s) \<Longrightarrow> (\<And>s. I s \<Longrightarrow> keeps (g s)) \<Longrightarrow> keeps (and_then f g s)"
  by (cases "f s") (auto simp: and_then_def split: option.split)

lemma flash_functions:
  "I s \<Longrightarrow> keeps (do_flash_exit_xip env s)" "I s \<Longrightarrow> keeps (do_flash_enter_cmd_xip env s)"
  "I s \<Longrightarrow> keeps (do_flash_erase_sector env a s)" "I s \<Longrightarrow> keeps (do_flash_page_program env a d s)"
  by (auto simp: do_flash_exit_xip_def do_flash_enter_cmd_xip_def do_flash_erase_sector_def do_flash_page_program_def
      split: option.split intro!: flash gpio)

lemma page_read: "I s \<Longrightarrow> keeps (do_flash_page_read env a d s)"
  using memory flash by (fastforce simp: do_flash_page_read_def split: option.split)

lemma erase_range: "I s \<Longrightarrow> keeps (do_flash_erase_range env user a n s)"
proof -
  let ?Q = "\<lambda>env' user' (a :: u32) (goal :: u32) ret s r. user' = user \<and> I s \<longrightarrow> I (snd r)"
  have loop: "?Q env user a goal ret s r" if "erase_range_loop env user a goal ret s = Some r" for a goal ret s r
  proof (rule erase_range_loop.raw_induct [where P = ?Q, OF _ that])
    fix f :: "'d boot_env \<Rightarrow> ('d, 'z) user_code \<Rightarrow> u32 \<Rightarrow> u32 \<Rightarrow> u32 \<Rightarrow> ('d, 'z) async_state_scheme \<Rightarrow>
       (u32 \<times> ('d, 'z) async_state_scheme) option"
      and env user' a goal ret s r
    assume IH: "\<And>env user' a goal ret s r. f env user' a goal ret s = Some r \<Longrightarrow> ?Q env user' a goal ret s r"
      and eq: "(if a < goal \<and> ret = 0 then
        (case via_table env user' slot_erase_sector [a] (do_flash_erase_sector env a) s of
           None \<Rightarrow> None
         | Some (ret', s') \<Rightarrow> f env user' (a + FLASH_SECTOR_ERASE_SIZE) goal ret' s')
      else Some (ret, s)) = Some r"
    show "?Q env user' a goal ret s r"
    proof clarify
      assume "user' = user" "I s"
      then show "I (snd r)"
        using eq via [where f = "do_flash_erase_sector env a" and slot = slot_erase_sector and args = "[a]" and env = env,
            OF \<open>I s\<close> flash_functions(3) [OF \<open>I s\<close>]]
          IH [of env user "a + FLASH_SECTOR_ERASE_SIZE" goal _ _ r]
        by (auto split: if_split_asm option.split_asm)
    qed
  qed
  assume "I s"
  then show ?thesis
    unfolding do_flash_erase_range_def
    using loop [of a "a + n" "PICOBOOT_OK (plat env)" s]
    by (cases "erase_range_loop env user a (a + n) (PICOBOOT_OK (plat env)) s") auto
qed

lemma phases:
  assumes "I s"
  shows "keeps (vectorize_phase env t s)" "keeps (exclusive_phase env eject t s)" "keeps (exit_xip_phase env user t s)"
    "keeps (exec_phase user t s)" "keeps (mutation_phase env t s)" "keeps (erase_phase env user t s)"
    "keeps (write_phase env user d t s)" "keeps (read_phase env user d t s)" "keeps (enter_xip_phase env user t s)"
proof -
  show "keeps (exec_phase user t s)"
    using user [OF assms, of "transfer_addr t OR 1" "[]"]
    by (cases "user (transfer_addr t OR 1) [] s") (auto simp: exec_phase_def assms)
qed (auto simp: vectorize_phase_def exclusive_phase_def exit_xip_phase_def mutation_phase_def erase_phase_def
    write_phase_def read_phase_def enter_xip_phase_def async_disable_queue_def Let_def assms
    intro!: via check flash_functions page_read erase_range eject queue source memory table [THEN memory, simplified] table)

lemma transfer: "I s \<Longrightarrow> keeps (transfer_phase env user t s)"
  by (auto simp: transfer_phase_def split: sum.split intro!: and_then phases)

lemma body: "I s \<Longrightarrow> keeps (execute_task_body env user eject t s)"
proof -
  let ?run = "Async_Task.and_then (vectorize_phase env t) (Async_Task.and_then (exclusive_phase env eject t)
            (Async_Task.and_then (exit_xip_phase env user t) (Async_Task.and_then (exec_phase user t)
              (Async_Task.and_then (mutation_phase env t) (Async_Task.and_then (erase_phase env user t)
                (transfer_phase env user t)))))) s"
  assume "I s"
  then have "keeps ?run" by (intro and_then phases transfer)
  then show ?thesis
    using \<open>I s\<close> by (cases ?run) (auto simp: execute_task_body_def)
qed

lemma execute: "I s \<Longrightarrow> pred_option I (execute_task env user eject complete q t s)"
  using body [of s env t]
  by (auto simp: execute_task_def Let_def split: option.split intro!: complete worker)

lemma round: "I s \<Longrightarrow> keeps (worker_round env user eject complete s)"
  by (auto simp: worker_round_def dequeue_task_def option.pred_map o_def split: prod.split option.split
      intro!: execute worker queue)

end

end
