(* ===== verification/Usb_Reach.thy ===== *)
theory Usb_Reach
  imports Boot_Example Boot_Layout Usb_Wf Task_Invariant
begin

section \<open>Reachable states of the USB bootloader\<close>

text \<open>
  The handlers of the stream, mass storage and PICOBOOT theories satisfy the contract of
  \<open>Usb_Wf\<close>, so the callbacks of the tied system do, at every depth of nesting; hence the
  invariant holds in every state that interrupts, the worker and the controller can reach.
\<close>

subsection \<open>Updates above the library\<close>

lemma usb_wf_stream [simp]: "usb_wf K (upd_stream t f s) = usb_wf K s"
  by (simp add: usb_wf_def usb_layout_def upd_stream_def)

lemma usb_wf_msc [simp]:
  "usb_wf K (s\<lparr>csw := x1\<rparr>) = usb_wf K s" "usb_wf K (s\<lparr>request_sense := x2\<rparr>) = usb_wf K s"
  "usb_wf K (s\<lparr>data_phase_length := x3\<rparr>) = usb_wf K s" "usb_wf K (s\<lparr>stall_direction_before_csw := x4\<rparr>) = usb_wf K s"
  "usb_wf K (s\<lparr>send_csw_on_unstall := x5\<rparr>) = usb_wf K s" "usb_wf K (s\<lparr>ejected := x6\<rparr>) = usb_wf K s"
  "usb_wf K (s\<lparr>msc_async_token := x7\<rparr>) = usb_wf K s" "usb_wf K (s\<lparr>msc_sector_lba := x8\<rparr>) = usb_wf K s"
  "usb_wf K (s\<lparr>msc_one_time := x9\<rparr>) = usb_wf K s"
  by (simp_all add: usb_wf_def usb_layout_def)

lemma usb_wf_picoboot [simp]:
  "usb_wf K (s\<lparr>current_cmd_status := x1\<rparr>) = usb_wf K s" "usb_wf K (s\<lparr>stream_task := x2\<rparr>) = usb_wf K s"
  "usb_wf K (s\<lparr>real_token := x3\<rparr>) = usb_wf K s" "usb_wf K (set_status f s) = usb_wf K s"
  "usb_wf K (set_cmd_status n s) = usb_wf K s"
  by (simp_all add: usb_wf_def usb_layout_def set_cmd_status_def set_status_def)

text \<open>Operations of the theories below the library leave its state alone.\<close>

definition same_usb where
  "same_usb s s' \<longleftrightarrow>
     endpoints s' = endpoints s \<and> transfers s' = transfers s \<and> device s' = device s \<and>
     dev_addr_ctrl s' = dev_addr_ctrl s \<and> endpoint_table s' = endpoint_table s"

lemma usb_wf_same: "same_usb s s' \<Longrightarrow> usb_wf K s' = usb_wf K s"
  by (simp add: usb_wf_def usb_layout_def same_usb_def)

lemma same_usb_trans: "same_usb s s1 \<Longrightarrow> same_usb s1 s2 \<Longrightarrow> same_usb s s2"
  by (simp add: same_usb_def)

lemma same_usb_queue: "same_usb s (snd (queue_task q t f s))" "same_usb s (reset_queue q s)"
  by (auto simp: same_usb_def queue_task_def set_queue_def reset_queue_def async_disable_queue_def Let_def
      split: queue_id.split)

lemma same_usb_vd_reset: "same_usb s (vd_reset s)"
  by (simp add: same_usb_def vd_reset_def)

lemma same_usb_vd_read: "same_usb s (snd (vd_read_block env token lba buf s))"
  by (auto simp: same_usb_def vd_read_block_def msc_get_serial_number32_def Let_def)

lemma same_usb_start_uf2: "same_usb s (snd (start_uf2_transfer env ram fl b s))"
  by (auto simp: same_usb_def start_uf2_transfer_def Let_def)

lemma same_usb_update_uf2: "same_usb s (snd (update_current_uf2_info env buf b token s))"
proof -
  let ?ram = "uf2_addr_ram (plat env) b" and ?fa = "uf2_addr_flash (plat env) b"
  obtain fits j where j: "(if num_blocks (the_uf2_info s) \<noteq> uf2_num_blocks b
      then start_uf2_transfer env ?ram ?fa b s else (True, s)) = (fits, j)" by (rule prod.exhaust)
  have start: "same_usb s j"
    using j same_usb_start_uf2 [of s env ?ram ?fa b] by (auto simp: same_usb_def split: if_split_asm)
  show ?thesis
    unfolding update_current_uf2_info_def Let_def j
    using same_usb_trans [OF start same_usb_vd_reset] start same_usb_vd_reset [of s] by (simp add: same_usb_def)
qed

lemma same_usb_erase: "same_usb s (erase_on_first_write s)"
  by (simp add: erase_on_first_write_def Let_def same_usb_def)

lemma same_usb_write_page: "same_usb s (snd (write_uf2_page env s))"
proof -
  define s1 where "s1 = s\<lparr>the_uf2_info := (the_uf2_info s)\<lparr>lowest_addr :=
     update_lowest (plat env) (transfer_addr (next_task (the_uf2_info s))) (lowest_addr (the_uf2_info s))\<rparr>\<rparr>"
  define s2 where "s2 = (if uf2_ram (the_uf2_info s) then s1 else erase_on_first_write s1)"
  have "same_usb s s1" by (simp add: s1_def same_usb_def)
  then have s2: "same_usb s s2" using same_usb_erase [of s1] by (auto simp: s2_def intro: same_usb_trans)
  then show ?thesis
    by (auto simp: write_uf2_page_def Let_def s1_def [symmetric] s2_def [symmetric] queue_task_def set_queue_def same_usb_def)
qed

lemma same_usb_vd_write: "same_usb s (snd (vd_write_block env token lba buf s))"
  using same_usb_update_uf2 [of s env buf "uf2_block_at (plat env) (mem s) buf" token]
  by (auto simp: vd_write_block_def Let_def same_usb_def same_usb_write_page [unfolded same_usb_def]
      split: prod.split bool.split)

lemma same_usb_reboot: "watchdog_reboot rc pc sp n s = Some s' \<Longrightarrow> same_usb s s'"
  by (auto simp: watchdog_reboot_def watchdog_vector_def Let_def same_usb_def split: if_split_asm)

subsection \<open>The handlers keep the contract\<close>

lemma usb_wf_vd_reset [simp]: "usb_wf K (vd_reset s) = usb_wf K s"
  by (rule usb_wf_same [OF same_usb_vd_reset])

lemma usb_wf_reset_queue [simp]: "usb_wf K (reset_queue q s) = usb_wf K s"
  by (rule usb_wf_same [OF same_usb_queue(2)])

lemma usb_wf_queue_task: "queue_task q t f s = (t', s') \<Longrightarrow> usb_wf K s' = usb_wf K s"
  using usb_wf_same [OF same_usb_queue(1), of K q t f s] by simp

lemma usb_wf_vd_read: "vd_read_block env token lba buf s = (b, s') \<Longrightarrow> usb_wf K s' = usb_wf K s"
  using usb_wf_same [OF same_usb_vd_read, of K env token lba buf s] by simp

lemma usb_wf_vd_write: "vd_write_block env token lba buf s = (b, s') \<Longrightarrow> usb_wf K s' = usb_wf K s"
  using usb_wf_same [OF same_usb_vd_write, of K env token lba buf s] by simp

lemma usb_wf_response_eq:
  "usb_get_single_packet_response_buffer c e n s = (b, s') \<Longrightarrow> usb_wf K s \<Longrightarrow> usb_wf K s'"
  using usb_wf_response_buffer [of K s c e n] by simp

lemma usb_wf_packet_eq: "usb_current_packet_buffer c e s = (b, s') \<Longrightarrow> usb_wf K s \<Longrightarrow> usb_wf K s'"
  using usb_wf_packet_buffer [of K s c e] by simp

locale stream_client = usb_client cb K
  for cb :: "('d, 'z) stream_state_scheme usb_callbacks" and K +
  fixes sc :: "('d, 'z) stream_state_scheme stream_callbacks"
  assumes chunk: "usb_wf K s \<Longrightarrow> pred_option (\<lambda>r. usb_wf K (snd r)) (sc_on_chunk sc f n s)"
    and packet_complete: "usb_wf K s \<Longrightarrow> usb_wf K (sc_on_packet_complete sc f s)"
begin

lemma fill_in_packet: "usb_wf K s \<Longrightarrow> usb_wf K (stream_fill_in_packet c t s)"
  by (auto simp: stream_fill_in_packet_def Let_def split: prod.split intro!: usb_wf_set_buffer_len dest: usb_wf_packet_eq)

lemma store_out_packet: "usb_wf K s \<Longrightarrow> usb_wf K (stream_store_out_packet c t e s)"
  by (auto simp: stream_store_out_packet_def Let_def split: prod.split dest: usb_wf_packet_eq)

lemma handler_complete: "usb_wf K s \<Longrightarrow> pred_option (usb_wf K) (usb_stream_packet_handler_complete cb sc c t s)"
  by (auto simp: usb_stream_packet_handler_complete_def Let_def
      intro!: packet_done packet_complete fill_in_packet usb_wf_packet_buffer)

lemma chunk_done: "usb_wf K s \<Longrightarrow> pred_option (usb_wf K) (usb_stream_chunk_done cb sc c t s)"
  by (simp add: usb_stream_chunk_done_def handler_complete)

lemma packet_handler: "usb_wf K s \<Longrightarrow> pred_option (usb_wf K) (usb_stream_packet_packet_handler cb sc c e s)"
  unfolding usb_stream_packet_packet_handler_def Let_def
  by (cases "current_transfer (endpoints (gpio_set_mask (usb_activity_gpio_pin_mask s) s) e)")
    (auto split: prod.split intro!: pred_option_bind [where P = "\<lambda>r. usb_wf K (snd r)"] chunk handler_complete store_out_packet)

end

lemma usb_wf_setup_transfer:
  "usb_wf K s \<Longrightarrow> transfer_packets t = Usb_Stream_Packet_Handler \<Longrightarrow> g \<in> {No_Complete} \<union> set (transfer_completions t) \<Longrightarrow>
   usb_wf K (usb_stream_setup_transfer t f b n l g s)"
  by (simp add: usb_stream_setup_transfer_def usb_wf_grow_transfer usb_wf_reset_transfer)

locale boot_client = stream_client cb K "stream_calls env"
  for cb :: "('d, 'z) picoboot_state_scheme usb_callbacks" and K and env :: "('d, 'e) picoboot_env_scheme"
begin

lemma send_csw: "usb_wf K s \<Longrightarrow> pred_option (usb_wf K) (msc_send_csw cb c s)"
  by (auto simp: msc_send_csw_def msc_reset_and_start_cmd_response_transfer_def Let_def split: prod.split
      intro!: reset_and_start dest: usb_wf_response_eq)

lemma data_phase_complete: "usb_wf K s \<Longrightarrow> pred_option (usb_wf K) (msc_data_phase_complete cb c s)"
  by (auto simp: msc_data_phase_complete_def
      intro!: halt_endpoint send_csw pred_option_bind [where P = "usb_wf K"])

lemma init_for_dn: "usb_wf K s \<Longrightarrow> pred_option (usb_wf K) (msc_init_for_dn cb c cbw s)"
  by (simp add: msc_init_for_dn_def data_phase_complete)

lemma usb_wf_plan [simp]: "usb_wf K (di_or_do_plan cbw n d s) = usb_wf K s"
  by (simp add: di_or_do_plan_def Let_def)

lemma usb_wf_csw_failed [simp]: "usb_wf K (msc_set_csw_failed a b d s) = usb_wf K s"
  by (simp add: msc_set_csw_failed_def)

lemma init_for_di_or_do:
  "usb_wf K s \<Longrightarrow> pred_option (\<lambda>r. usb_wf K (snd r)) (msc_init_for_di_or_do cb c cbw n d s)"
  by (auto simp: msc_init_for_di_or_do_def Let_def option.pred_map o_def intro!: data_phase_complete)

lemma fail_cmd: "usb_wf K s \<Longrightarrow> pred_option (usb_wf K) (scsi_fail_cmd cb c cbw a b d s)"
  by (simp add: scsi_fail_cmd_def init_for_dn)

lemma cmd_response:
  "usb_wf K s \<Longrightarrow> pred_option (usb_wf K) (msc_reset_and_start_cmd_response_transfer cb c Tf_data_phase_complete s)"
  by (simp add: msc_reset_and_start_cmd_response_transfer_def reset_and_start)

lemma standard_response: "usb_wf K s \<Longrightarrow> pred_option (usb_wf K) (scsi_standard_response cb c cbw s)"
  unfolding scsi_standard_response_def Let_def
  by (auto split: prod.split intro!: pred_option_bind [where P = "\<lambda>r. usb_wf K (snd r)"] init_for_di_or_do cmd_response
      usb_wf_set_buffer_len dest: usb_wf_packet_eq)

lemma sector_chunk: "usb_wf K s \<Longrightarrow> usb_wf K (snd (msc_on_sector_stream_chunk env s))"
  by (auto simp: msc_on_sector_stream_chunk_def Let_def usb_wf_same [OF same_usb_vd_read] usb_wf_same [OF same_usb_vd_write])

lemma read_or_write_blocks:
  "usb_wf K s \<Longrightarrow> pred_option (usb_wf K) (scsi_read_or_write_blocks cb env cbw lba n d s)"
  unfolding scsi_read_or_write_blocks_def Let_def
  by (auto split: prod.split intro!: pred_option_bind [where P = "\<lambda>r. usb_wf K (snd r)"] init_for_di_or_do
      data_phase_complete start_transfer usb_wf_setup_transfer usb_wf_chain_transfer)

lemma memcpy_response: "usb_wf K s \<Longrightarrow> pred_option (usb_wf K) (scsi_memcpy_response cb c cbw bytes s)"
  by (auto simp: scsi_memcpy_response_def Let_def split: prod.split intro!: standard_response dest: usb_wf_response_eq)

lemma inquiry: "usb_wf K s \<Longrightarrow> pred_option (usb_wf K) (scsi_handle_inquiry_response cb env cbw s)"
  by (auto simp: scsi_handle_inquiry_response_def Let_def split: prod.split intro!: standard_response dest: usb_wf_response_eq)

lemma request_sense: "usb_wf K s \<Longrightarrow> pred_option (usb_wf K) (scsi_handle_request_sense cb c cbw s)"
  by (auto simp: scsi_handle_request_sense_def Let_def split: prod.split intro!: standard_response dest: usb_wf_response_eq)

lemma mode_sense: "usb_wf K s \<Longrightarrow> pred_option (usb_wf K) (scsi_handle_mode_sense cb c cbw s)"
  by (auto simp: scsi_handle_mode_sense_def Let_def split: prod.split intro!: standard_response dest: usb_wf_response_eq)

lemma command: "usb_wf K s \<Longrightarrow> pred_option (usb_wf K) (scsi_command cb env cbw s)"
  unfolding scsi_command_def Let_def
  by (auto simp: scsi_handle_read_or_write_command_def scsi_handle_read_format_capacities_def scsi_handle_read_capacity_def
      scsi_handle_test_unit_ready_def scsi_handle_start_stop_unit_def msc_eject_def
      intro!: inquiry mode_sense init_for_dn read_or_write_blocks memcpy_response request_sense fail_cmd)

lemma cmd_halt: "usb_wf K s \<Longrightarrow> pred_option (usb_wf K) (msc_cmd_halt cb c s)"
  unfolding msc_cmd_halt_def by (intro pred_option_bind [where P = "usb_wf K"] halt_endpoint)

lemma msc_packet: "usb_wf K s \<Longrightarrow> pred_option (usb_wf K) (msc_cmd_packet cb env e s)"
  unfolding msc_cmd_packet_def
  by (intro pred_option_bind [where P = "usb_wf K"] packet_done)
    (auto simp: msc_cmd_packet_internal_def Let_def split: prod.split intro!: command cmd_halt dest: usb_wf_packet_eq)

lemma msc_reset: "usb_wf K s \<Longrightarrow> pred_option (usb_wf K) (msc_reset cb c s)"
  unfolding msc_reset_def Let_def
  by (intro pred_option_bind [where P = "usb_wf K"] soft_reset)
    (auto simp: ep_static_def usb_set_default_transfer_def tr_wf_def
      intro!: usb_wf_ep_dynamic usb_wf_tr_dynamic ep_wf_current)

lemma msc_setup: "usb_wf K s \<Longrightarrow> pred_option (\<lambda>r. usb_wf K (snd r)) (msc_setup_request_handler cb c setup s)"
  unfolding msc_setup_request_handler_def Let_def
  by (auto simp: option.pred_map o_def split: prod.split
      intro!: pred_option_bind [where P = "usb_wf K"] msc_reset empty_in single_buffer_in usb_wf_set_buffer_len usb_wf_clear_halt
      dest: usb_wf_packet_eq)

lemma stall_change: "usb_wf K s \<Longrightarrow> pred_option (usb_wf K) (msc_in_on_stall_change cb c e s)"
  by (simp add: msc_in_on_stall_change_def send_csw)

lemma wait_command: "usb_wf K s \<Longrightarrow> pred_option (usb_wf K) (tf_wait_command cb c s)"
  and pb_wait_command: "usb_wf K s \<Longrightarrow> pred_option (usb_wf K) (tf_picoboot_wait_command cb c s)"
  by (simp_all add: tf_wait_command_def tf_picoboot_wait_command_def start_default_if)

lemma pb_reset: "usb_wf K s \<Longrightarrow> pred_option (usb_wf K) (picoboot_reset cb c s)"
  unfolding picoboot_reset_def Let_def by (intro pred_option_bind [where P = "usb_wf K"] soft_reset) auto

lemma pb_ack: "usb_wf K s \<Longrightarrow> pred_option (usb_wf K) (picoboot_ack cb c s)"
  by (auto simp: picoboot_ack_def intro!: start_empty)

lemma pb_setup: "usb_wf K s \<Longrightarrow> pred_option (\<lambda>r. usb_wf K (snd r)) (picoboot_setup_request_handler cb c p setup s)"
  unfolding picoboot_setup_request_handler_def Let_def
  by (auto simp: option.pred_map o_def split: prod.split
      intro!: pred_option_bind [where P = "usb_wf K"] pb_reset empty_in single_buffer_in dest: usb_wf_response_eq)

lemma ack_done: "usb_wf K s \<Longrightarrow> pred_option (usb_wf K) (atc_ack cb c t s)"
  by (simp add: atc_ack_def pb_ack)

lemma chunk_task_done: "usb_wf K s \<Longrightarrow> pred_option (usb_wf K) (atc_chunk_task_done cb (stream_calls env) c t s)"
  unfolding atc_chunk_task_done_def Let_def
  by (auto simp: option.pred_map o_def intro!: pred_option_bind [where P = "usb_wf K"] halt_endpoint chunk_done)

lemma start_cmd: "usb_wf K s \<Longrightarrow> pred_option (usb_wf K) (picoboot_start_cmd cb env ty cmd s)"
  by (auto simp: picoboot_start_cmd_def Let_def usb_wf_queue_task split: prod.split
      intro!: start_transfer usb_wf_chain_transfer usb_wf_setup_transfer)

lemma halt_both: "usb_wf K s \<Longrightarrow> pred_option (usb_wf K) (picoboot_halt_both cb c s)"
  unfolding picoboot_halt_both_def by (intro pred_option_bind [where P = "usb_wf K"] halt_endpoint)

lemma reboot: "usb_wf K s \<Longrightarrow> pred_option (usb_wf K) (safe_reboot be pc sp n s)"
  using usb_wf_same [OF same_usb_reboot, of "rt be" pc sp n s _ K]
  by (cases "safe_reboot be pc sp n s") (auto simp: safe_reboot_def)

lemma usb_wf_init_task [simp]: "usb_wf K (picoboot_init_task cmd p s) = usb_wf K s"
  by (simp add: picoboot_init_task_def Let_def)

lemma execute_cmd: "usb_wf K s \<Longrightarrow> pred_option (usb_wf K) (picoboot_execute_cmd cb env cmd s)"
  unfolding picoboot_execute_cmd_def Let_def
  by (simp split: prod.split)
    (auto intro!: pred_option_bind [where P = "usb_wf K"] reboot pb_ack start_cmd halt_both)

lemma pb_packet: "usb_wf K s \<Longrightarrow> pred_option (usb_wf K) (picoboot_cmd_packet cb env e s)"
  unfolding picoboot_cmd_packet_def
  by (intro pred_option_bind [where P = "usb_wf K"] packet_done)
    (auto simp: picoboot_cmd_packet_internal_def Let_def split: prod.split intro!: execute_cmd halt_both dest: usb_wf_packet_eq)

lemma configure: "usb_wf K s \<Longrightarrow> pred_option (usb_wf K) (usb_boot_on_configure cb c b s)"
  unfolding usb_boot_on_configure_def Let_def
  by (intro pred_option_bind [where P = "usb_wf K"]) (auto simp: msc_on_configure_def msc_reset pb_reset)

lemma over: "usb_client (callbacks_over cb env) K"
proof
  fix s :: "('d, 'z) picoboot_state_scheme" and ty e f t g b i req
  assume s: "usb_wf K s"
  show "pred_option (usb_wf K) (cb_on_packet (callbacks_over cb env) ty e s)"
    by (cases ty) (simp_all add: callbacks_over_def s packet_done packet_handler msc_packet pb_packet
        usb_transfer_current_packet_only_def)
  show "pred_option (usb_wf K) (cb_on_complete (callbacks_over cb env) f e t s)"
    by (cases f) (simp_all add: callbacks_over_def s in_ack out_ack usb_wf_tf_set_address wait_command
        data_phase_complete pb_wait_command pb_ack)
  show "pred_option (usb_wf K) (cb_on_stall_change (callbacks_over cb env) g e s)"
    by (cases g) (simp_all add: callbacks_over_def s stall_change)
  show "pred_option (usb_wf K) (cb_on_configure (callbacks_over cb env) b s)"
    by (simp add: callbacks_over_def s configure)
  show "pred_option (\<lambda>r. usb_wf K (snd r)) (cb_setup_request (callbacks_over cb env) i req s)"
    by (simp add: callbacks_over_def dispatch_setup_request_def s msc_setup pb_setup)
qed

lemma task_done: "usb_wf K s \<Longrightarrow> pred_option (usb_wf K) (task_callbacks cb env t s)"
proof -
  assume s: "usb_wf K s"
  have vd: "pred_option (usb_wf K) (vd_async_complete cb (stream_calls env) c tok r s)" if "usb_wf K s" for c tok r s
    using that unfolding vd_async_complete_def
    by (auto intro!: pred_option_bind [where P = "usb_wf K"] data_phase_complete chunk_done)
  have "pred_option (usb_wf K) (write_uf2_page_complete env (vd_async_complete cb (stream_calls env) (usbc env)) t s)"
    unfolding write_uf2_page_complete_def Let_def
    by (intro pred_option_bind [where P = "usb_wf K"] vd) (auto simp: s intro!: reboot)
  then show ?thesis
    by (cases "callback t") (simp_all add: task_callbacks_def s ack_done chunk_task_done)
qed

end

subsection \<open>The tied system\<close>

lemma boot_client_of_usb_client:
  assumes "usb_client (cb :: ('d, 'z) picoboot_state_scheme usb_callbacks) K"
  shows "boot_client cb K (env :: ('d, 'e) picoboot_env_scheme)"
  by (intro boot_client.intro stream_client.intro stream_client_axioms.intro assms)
    (auto simp: stream_calls_def msc_on_sector_stream_chunk_def picoboot_on_stream_chunk_def Let_def
      msc_on_sector_stream_packet_complete_def usb_wf_same [OF same_usb_vd_read] usb_wf_same [OF same_usb_vd_write]
      split: stream_funcs.split prod.split dest: usb_wf_queue_task)

lemma usb_client_callbacks: "usb_client (callbacks env n) K"
proof (induction n)
  case 0
  show ?case by unfold_locales (simp_all add: no_callbacks_def)
next
  case (Suc n)
  show ?case using boot_client.over [OF boot_client_of_usb_client [OF Suc]] by simp
qed

interpretation sys: boot_client "callbacks env n" K env for env :: "('d, 'e) picoboot_env_scheme" and n K
  by (rule boot_client_of_usb_client [OF usb_client_callbacks])

subsection \<open>The worker\<close>

text \<open>The code of the user, as a function of memory and the flash port.\<close>

type_synonym 'd guest_code = "u32 \<Rightarrow> u32 list \<Rightarrow> memory \<Rightarrow> 'd flash_hw \<Rightarrow> (u32 \<times> memory \<times> 'd flash_hw) option"

definition user_of :: "'d guest_code \<Rightarrow> ('d, 'z) user_code" where
  "user_of g p args s = map_option (\<lambda>(r, m, h). (r, s\<lparr>mem := m, flash := h\<rparr>)) (g p args (mem s) (flash s))"

interpretation worker: task_invariant "usb_wf K" "user_of g" msc_eject "task_callbacks (callbacks env n) env"
  for K g and env :: "('d, 'e) picoboot_env_scheme" and n
proof
  fix s :: "('d, 'z) picoboot_state_scheme" and p args t q v c
  assume s: "usb_wf K s"
  show "pred_option (\<lambda>r. usb_wf K (snd r)) (user_of g p args s)"
    using s by (cases "g p args (mem s) (flash s)") (auto simp: user_of_def)
  show "usb_wf K (set_queue q v s)"
    using s by (cases q) (simp_all add: set_queue_def usb_wf_def usb_layout_def)
  show "usb_wf K (gpio_setup c s)"
    using s by (simp add: gpio_setup_def gpio_funcsel_def usb_wf_def usb_layout_def)
  show "pred_option (usb_wf K) (task_callbacks (callbacks env n) env t s)"
    using s by (rule sys.task_done)
qed (simp_all add: usb_wf_def usb_layout_def msc_eject_def)

subsection \<open>Start\<close>

definition usb_typed where
  "usb_typed s \<longleftrightarrow> (\<forall>e. ep_wf e (endpoints s e)) \<and> (\<forall>t. tr_wf t (transfers s t)) \<and>
     (\<forall>e. halt_state (endpoints s e) = HS_NONE \<and> current_transfer (endpoints s e) = None) \<and>
     current_address (device s) = 0 \<and> pending_address (device s) = 0 \<and> current_config_num (device s) = 0"

lemma usb_wf_typed: "usb_typed s \<Longrightarrow> usb_wf (usb_layout s) (s\<lparr>dev_addr_ctrl := 0\<rparr>)"
  by (simp add: usb_typed_def usb_wf_def usb_layout_def dev_wf_def)

lemma typed_interface:
  "init_interface_endpoints bytes p d es s = Some s' \<Longrightarrow> usb_typed s \<Longrightarrow> usb_typed s'"
proof (induction es arbitrary: p s)
  case (Cons e es)
  obtain q where q: "usb_next_descriptor bytes p 5 = Some q" using Cons.prems by (auto simp: bind_eq_Some_conv)
  show ?case
    by (rule Cons.IH [OF Cons.prems(1) [unfolded init_interface_step [OF q] Let_def]])
      (use Cons.prems(2) in \<open>auto simp: usb_typed_def usbsimps ep_wf_def upd_ep_def\<close>)
qed simp

lemma typed_fold_hw_init: "usb_typed (fold (usb_endpoint_hw_init c) es s) = usb_typed s"
  by (induction es arbitrary: s) (auto simp: usb_typed_def layoutsimps ep_wf_def)

lemma typed_device_init: "usb_typed s \<Longrightarrow> usb_typed (usb_device_init c d cfg i s)"
  by (auto simp: device_init_fold typed_fold_hw_init)
    (auto simp: usb_typed_def device_init_control_def layoutsimps ep_wf_def)

lemma typed_msc_interface: "usb_typed s \<Longrightarrow> pred_option usb_typed (init_msc_interface cfg s)"
  using typed_interface [of cfg 9 True "[Msc_In, Msc_Out]" s]
  by (cases "init_interface_endpoints cfg 9 True [Msc_In, Msc_Out] s")
    (auto simp only: init_msc_interface_def usb_interface_init_def, simp_all add: usb_typed_def)

lemma typed_command_transfer:
  "usb_typed z \<Longrightarrow>
   usb_typed ((usb_set_default_transfer Picoboot_Out Picoboot_Cmd_Transfer
               (upd_tr Picoboot_Cmd_Transfer (\<lambda>t. t\<lparr>tr_type := Picoboot_Cmd_Packet\<rparr>) z))\<lparr>picoboot_handler_set := True\<rparr>)"
  by (auto simp: usb_typed_def usbsimps usb_set_default_transfer_def tr_wf_def ep_wf_def)

lemma typed_picoboot_interface: "usb_typed s \<Longrightarrow> pred_option usb_typed (init_picoboot_interface cfg k s)"
  using typed_interface [of cfg "9 + 23 * k" True "[Picoboot_Out, Picoboot_In]" s]
  by (cases "init_interface_endpoints cfg (9 + 23 * k) True [Picoboot_Out, Picoboot_In] s")
    (auto simp only: init_picoboot_interface_def usb_interface_init_def option.map option.pred_inject typed_command_transfer
      option.simps)

lemma typed_setup: "usb_typed s \<Longrightarrow> pred_option usb_typed (usb_boot_device_setup env msk s)"
  unfolding usb_boot_device_setup_def Let_def
  by (intro pred_option_bind [where P = usb_typed])
    (auto intro!: typed_device_init typed_msc_interface typed_picoboot_interface, auto simp: usb_typed_def layoutsimps)

subsection \<open>Reachable states\<close>

text \<open>
  A step is an interrupt with any status, a round of the worker, or a change that the controller or the
  flash make on their own: of packet memory, of the control words of buffers, of status registers.
\<close>

inductive usb_step ::
    "('d, 'e) picoboot_env_scheme \<Rightarrow> nat \<Rightarrow> 'd guest_code \<Rightarrow> ('d, 'z) picoboot_state_scheme \<Rightarrow> ('d, 'z) picoboot_state_scheme \<Rightarrow> bool"
  for env n g where
  interrupt: "isr_usbctrl (callbacks env n) (usbc env) status s = Some s' \<Longrightarrow> usb_step env n g s s'"
| worker: "worker_round (boot_env.truncate env) (user_of g) msc_eject (task_callbacks (callbacks env n) env) s = Some (b, s') \<Longrightarrow>
    usb_step env n g s s'"
| controller: "usb_step env n g s (s\<lparr>mem := m, flash := h, buf_ctrl := bc, buf_status := bs, buf_cpu_should_handle := ch,
    sie_status := ss, ep_stall_arm := sa, abort_polls := ap\<rparr>)"

inductive usb_reach ::
    "('d, 'e) picoboot_env_scheme \<Rightarrow> nat \<Rightarrow> 'd guest_code \<Rightarrow> ('d, 'z) picoboot_state_scheme \<Rightarrow> ('d, 'z) picoboot_state_scheme \<Rightarrow> bool"
  for env n g s0 where
  start: "usb_reach env n g s0 s0"
| step: "usb_reach env n g s0 s \<Longrightarrow> usb_step env n g s s' \<Longrightarrow> usb_reach env n g s0 s'"

inductive_cases usb_stepE: "usb_step env n g s s'"

lemma usb_wf_step: "usb_step env n g s s' \<Longrightarrow> usb_wf K s \<Longrightarrow> usb_wf K s'"
proof (erule usb_stepE, goal_cases)
  case (1 status)
  then show ?case using sys.isr [of K s env n "usbc env" status] by simp
next
  case (2 b)
  have "pred_option (\<lambda>r. usb_wf K (snd r))
      (worker_round (boot_env.truncate env) (user_of g) msc_eject (task_callbacks (callbacks env n) env) s)"
    by (rule worker.round) (use 2 in simp)
  then show ?case using 2 by simp
qed simp

lemma usb_wf_reach: "usb_reach env n g s0 s \<Longrightarrow> usb_wf K s0 \<Longrightarrow> usb_wf K s"
  by (induction rule: usb_reach.induct) (auto intro: usb_wf_step)

lemma typed_cleared: "usb_typed (clear_bss c n s)"
  by (simp add: usb_typed_def clear_bss_def clear_usb_statics_def zero_usb_endpoint_def zero_usb_transfer_def ep_wf_def tr_wf_def)

lemma usb_boot_wf:
  assumes "usb_boot (callbacks env n) env bc pin_mask disable_mask s = Some s'"
  shows "\<exists>K. usb_wf K s'"
proof -
  obtain s5 where s5: "map_option (worker_start (boot_env.truncate env)) (usb_boot_device_init (callbacks env n) env disable_mask
      ((clear_bss (usbc env) (USB_DPRAM_SIZE bc) s5)\<lparr>usb_activity_gpio_pin_mask := pin_mask\<rparr>)) = Some s'"
    using assms unfolding usb_boot_def Let_def by (auto simp only: bind_eq_Some_conv map_option_eq_Some option.inject)
  obtain z z' where z: "usb_boot_device_setup env disable_mask
      ((clear_bss (usbc env) (USB_DPRAM_SIZE bc) s5)\<lparr>usb_activity_gpio_pin_mask := pin_mask\<rparr>) = Some z"
    "usb_device_start (callbacks env n) (usbc env) z = Some z'" "s' = worker_start (boot_env.truncate env) z'"
    using s5 by (auto simp only: usb_boot_device_init_def bind_eq_Some_conv map_option_eq_Some)
  have "usb_typed ((clear_bss (usbc env) (USB_DPRAM_SIZE bc) s5)\<lparr>usb_activity_gpio_pin_mask := pin_mask\<rparr>)"
    using typed_cleared [of "usbc env" "USB_DPRAM_SIZE bc" s5] by (simp add: usb_typed_def)
  then have "usb_typed z" using typed_setup z(1) by (metis option.pred_inject(2))
  from usb_wf_typed [OF this] have "usb_wf (usb_layout z) z'"
    using sys.device_start [of "usb_layout z" z env n "usbc env"] z(2) by simp
  then have "usb_wf (usb_layout z) s'" by (simp add: z(3) worker_start_def usb_wf_def usb_layout_def)
  then show ?thesis ..
qed

subsection \<open>The start returns\<close>

lemma typed_reset_buffers: "usb_typed s \<Longrightarrow> usb_typed (usb_reset_buffers c e s)"
  by (simp add: usb_reset_buffers_def Let_def usb_typed_def usbsimps)

lemma hard_reset_typed:
  assumes "usb_typed s"
  shows "\<exists>s'. usb_hard_reset_endpoint cb c e s = Some s' \<and> usb_typed s' \<and> dev_addr_ctrl s' = dev_addr_ctrl s \<and>
     owned_buffer_count (endpoints s' e) = ep_buffer_count (endpoints s e) \<and> next_pid (endpoints s' e) = 0 \<and>
     (\<forall>e'. e' \<noteq> e \<longrightarrow> endpoints s' e' = endpoints s e')"
proof -
  define s1 where "s1 = usb_reset_buffers c e (upd_ep e (\<lambda>ep. ep\<lparr>current_transfer := None\<rparr>) s)"
  have t: "usb_typed s1"
    unfolding s1_def by (rule typed_reset_buffers) (use assms in \<open>auto simp: usb_typed_def usbsimps ep_wf_def\<close>)
  have keep: "dev_addr_ctrl s1 = dev_addr_ctrl s" "owned_buffer_count (endpoints s1 e) = ep_buffer_count (endpoints s e)"
    "e' \<noteq> e \<Longrightarrow> endpoints s1 e' = endpoints s e'" for e'
    by (auto simp: s1_def usb_reset_buffers_def Let_def usbsimps ep_buffer_count_def)
  show ?thesis
    unfolding usb_hard_reset_endpoint_def usb_reset_endpoint_def Let_def s1_def [symmetric]
    using t keep assms by (auto simp: usb_typed_def usbsimps)
qed

lemma for_endpoints_typed:
  "usb_typed s \<Longrightarrow> distinct es \<Longrightarrow>
   \<exists>s'. for_endpoints (usb_hard_reset_endpoint cb c) es s = Some s' \<and> usb_typed s' \<and> dev_addr_ctrl s' = dev_addr_ctrl s \<and>
     (\<forall>e. if e \<in> set es then owned_buffer_count (endpoints s' e) = ep_buffer_count (endpoints s e) \<and> next_pid (endpoints s' e) = 0
          else endpoints s' e = endpoints s e)"
proof (induction es arbitrary: s)
  case (Cons e es)
  obtain s1 where s1: "usb_hard_reset_endpoint cb c e s = Some s1" "usb_typed s1" "dev_addr_ctrl s1 = dev_addr_ctrl s"
    "owned_buffer_count (endpoints s1 e) = ep_buffer_count (endpoints s e)" "next_pid (endpoints s1 e) = 0"
    "\<And>e'. e' \<noteq> e \<Longrightarrow> endpoints s1 e' = endpoints s e'"
    using hard_reset_typed [OF Cons.prems(1), of cb c e] by blast
  have "distinct es" using Cons.prems by simp
  from Cons.IH [OF s1(2) this] obtain s' where s': "for_endpoints (usb_hard_reset_endpoint cb c) es s1 = Some s'"
    "usb_typed s'" "dev_addr_ctrl s' = dev_addr_ctrl s1"
    "\<And>e. if e \<in> set es then owned_buffer_count (endpoints s' e) = ep_buffer_count (endpoints s1 e) \<and> next_pid (endpoints s' e) = 0
          else endpoints s' e = endpoints s1 e" by blast
  have "if x \<in> set (e # es) then owned_buffer_count (endpoints s' x) = ep_buffer_count (endpoints s x) \<and> next_pid (endpoints s' x) = 0
          else endpoints s' x = endpoints s x" for x
    using s'(4) [of x] s1(4-6) Cons.prems(2) by (cases "x = e") (auto split: if_split_asm)
  then show ?case using s1 s' by auto
qed auto

lemma usb_typed_registers [simp]:
  "usb_typed (s\<lparr>flash := x1\<rparr>) = usb_typed s" "usb_typed (s\<lparr>ep_stall_arm := x2\<rparr>) = usb_typed s"
  "usb_typed (s\<lparr>usb_abort := x3\<rparr>) = usb_typed s" "usb_typed (s\<lparr>usb_regs := x4\<rparr>) = usb_typed s"
  "usb_typed (s\<lparr>dev_addr_ctrl := x5\<rparr>) = usb_typed s" "usb_typed (s\<lparr>usb_activity_gpio_pin_mask := x6\<rparr>) = usb_typed s"
  by (simp_all add: usb_typed_def)

lemma device_start_ok:
  assumes "usb_typed s" "map (endpoint_table s) [1, 2, 3, 4] = [Some Msc_In, Some Msc_Out, Some Picoboot_Out, Some Picoboot_In]"
  shows "\<exists>s'. usb_device_start (callbacks env (Suc n)) c s = Some s' \<and> usb_typed s' \<and> dev_addr_ctrl s' = 0 \<and>
     bit (nvic_enabled s') (USBCTRL_IRQ c) = (USBCTRL_IRQ c < 32) \<and>
     (\<forall>e \<in> {Msc_In, Msc_Out, Picoboot_Out, Picoboot_In}.
        owned_buffer_count (endpoints s' e) = ep_buffer_count (endpoints s e) \<and> next_pid (endpoints s' e) = 0)"
proof -
  let ?cb = "callbacks env (Suc n)" and ?es = "[Msc_In, Msc_Out, Picoboot_Out, Picoboot_In]"
  define s2 where "s2 = s\<lparr>dev_addr_ctrl := 0, ep_stall_arm := 0, usb_abort := 0,
     usb_regs := (\<lambda>_. 0)(''muxing'' := USB_USB_MUXING_VALUE c, ''pwr'' := USB_USB_PWR_VALUE c,
                     ''main_ctrl'' := USB_MAIN_CTRL_CONTROLLER_EN_BITS c),
     device := (device s)\<lparr>current_config_num := 0\<rparr>\<rparr>"
  have s2: "usb_typed s2" "endpoints s2 = endpoints s" using assms(1) by (simp_all add: s2_def usb_typed_def)
  have upt: "[1..<5] = [1, 2, 3, 4 :: nat]" by (simp add: upt_rec)
  have es: "enumerated_endpoints False s2 = ?es"
    using assms(2) by (simp add: enumerated_endpoints_def upt [simplified] s2_def List.map_filter_simps)
  obtain s3 where s3: "for_endpoints (usb_hard_reset_endpoint ?cb c) ?es s2 = Some s3" "usb_typed s3"
    "\<And>e. e \<in> set ?es \<Longrightarrow> owned_buffer_count (endpoints s3 e) = ep_buffer_count (endpoints s2 e) \<and> next_pid (endpoints s3 e) = 0"
    using for_endpoints_typed [OF s2(1), of ?es ?cb c] by (force split: if_split_asm)
  have cfg: "cb_on_configure ?cb False s3 = Some (s3\<lparr>flash := flash_abort (flash s3)\<rparr>)"
    by (simp add: callbacks_over_def usb_boot_on_configure_def msc_on_configure_def)
  have bus: "usb_handle_bus_reset ?cb c (s\<lparr>dev_addr_ctrl := 0, ep_stall_arm := 0, usb_abort := 0,
     usb_regs := (\<lambda>_. 0)(''muxing'' := USB_USB_MUXING_VALUE c, ''pwr'' := USB_USB_PWR_VALUE c,
                     ''main_ctrl'' := USB_MAIN_CTRL_CONTROLLER_EN_BITS c)\<rparr>) =
     Some ((usb_handle_set_address 0 (s3\<lparr>flash := flash_abort (flash s3)\<rparr>))\<lparr>buf_status := 0, sie_status := 0\<rparr>)"
    using es s3(1) cfg
    by (simp add: usb_handle_bus_reset_def usb_handle_set_config_def usb_for_each_endpoint_def s2_def Let_def del: callbacks.simps)
  show ?thesis
    unfolding usb_device_start_def Let_def
    using bus s3(2,3) s2(2)
    by (simp add: interrupt_enable_def usb_handle_set_address_def bit_simps del: callbacks.simps) (auto simp: usb_typed_def dest: bit_imp_le_length)
qed

lemma worker_start_proj:
  "usb_typed (worker_start be s) = usb_typed s" "dev_addr_ctrl (worker_start be s) = dev_addr_ctrl s"
  "nvic_enabled (worker_start be s) = nvic_enabled s" "endpoints (worker_start be s) = endpoints s"
  "flash_funcs (worker_start (boot_env.truncate env) s) = default_flash_funcs env"
  by (simp_all add: worker_start_def usb_typed_def boot_env.truncate_def)

lemma usb_boot_ok:
  assumes clocks: "running_on_fpga (rt env) \<or>
      usb_clock_setup (rt env) bc (reset_block_noinline (RESETS_RESET_USBCTRL_BITS bc) s) \<noteq> None"
    and unreset: "unreset_wait (reset_done bc (RESETS_RESET_USBCTRL_BITS bc)) (RESETS_RESET_USBCTRL_BITS bc) 0 \<noteq> None"
  shows "\<exists>s'. usb_boot (callbacks env (Suc n)) env bc pin_mask 0 s = Some s' \<and> usb_typed s' \<and> dev_addr_ctrl s' = 0 \<and>
     bit (nvic_enabled s') (USBCTRL_IRQ (usbc env)) = (USBCTRL_IRQ (usbc env) < 32) \<and>
     flash_funcs s' = default_flash_funcs env \<and>
     (\<forall>e \<in> {Msc_In, Msc_Out, Picoboot_Out, Picoboot_In}.
        owned_buffer_count (endpoints s' e) = 2 \<and> next_pid (endpoints s' e) = 0)"
proof -
  define s1 where "s1 = reset_block_noinline (RESETS_RESET_USBCTRL_BITS bc) s"
  obtain s2 where s2: "(if running_on_fpga (rt env) then Some s1 else usb_clock_setup (rt env) bc s1) = Some s2"
    using clocks by (cases "running_on_fpga (rt env)") (auto simp: s1_def)
  obtain s3 where s3: "unreset_block_wait_noinline bc (RESETS_RESET_USBCTRL_BITS bc) s2 = Some s3"
    using unreset by (auto simp: unreset_block_wait_noinline_def)
  define s5 where "s5 = (clear_bss (usbc env) (USB_DPRAM_SIZE bc)
     (s3\<lparr>wd_tick := push_bit (WATCHDOG_TICK_CYCLES_LSB (rt env)) 12 OR WATCHDOG_TICK_ENABLE_BITS (rt env),
         flash := (flash s3)\<lparr>xip_ctrl := xip_ctrl (flash s3) AND NOT (XIP_CTRL_CACHE_EN_BITS bc)\<rparr>\<rparr>))
     \<lparr>usb_activity_gpio_pin_mask := pin_mask\<rparr>"
  have boot: "usb_boot (callbacks env (Suc n)) env bc pin_mask 0 s =
     map_option (worker_start (boot_env.truncate env)) (usb_boot_device_init (callbacks env (Suc n)) env 0 s5)"
    unfolding usb_boot_def Let_def s1_def [symmetric]
    unfolding s2 bind.simps s3 s5_def [symmetric]
    by (cases "usb_boot_device_init (callbacks env (Suc n)) env 0 s5") (simp_all only: bind.simps option.map)
  have "usb_typed s5" unfolding s5_def by (simp add: typed_cleared)
  from boot_device_layout_ok [of env s5] obtain z where z: "usb_boot_device_setup env 0 s5 = Some z"
    "map (endpoint_table z) [1, 2, 3, 4] = [Some Msc_In, Some Msc_Out, Some Picoboot_Out, Some Picoboot_In]"
    and layout: "\<forall>e. (ep_num (endpoints z e), ep_in (endpoints z e)) = bulk_layout e \<and> buffer_size (endpoints z e) = 64 \<and>
          dpram_buffer_offset (endpoints z e) = dpram_offset e \<and>
          double_buffered (endpoints z e) = (e \<notin> {Control_In, Control_Out})"
    by (elim exE conjE) (rule that)
  have double: "double_buffered (endpoints z e) = (e \<notin> {Control_In, Control_Out})" for e using layout by blast
  have "usb_typed z" using typed_setup [OF \<open>usb_typed s5\<close>, of env 0] z(1) by simp
  from device_start_ok [OF this z(2), of env n "usbc env"] obtain s' where
    s': "usb_device_start (callbacks env (Suc n)) (usbc env) z = Some s'" "usb_typed s'" "dev_addr_ctrl s' = 0"
      "bit (nvic_enabled s') (USBCTRL_IRQ (usbc env)) = (USBCTRL_IRQ (usbc env) < 32)"
      "\<forall>e \<in> {Msc_In, Msc_Out, Picoboot_Out, Picoboot_In}.
        owned_buffer_count (endpoints s' e) = ep_buffer_count (endpoints z e) \<and> next_pid (endpoints s' e) = 0"
    by blast
  have two: "\<forall>e \<in> {Msc_In, Msc_Out, Picoboot_Out, Picoboot_In}.
        owned_buffer_count (endpoints s' e) = 2 \<and> next_pid (endpoints s' e) = 0"
    using s'(5) double by (simp add: ep_buffer_count_def)
  show ?thesis
    unfolding boot usb_boot_device_init_def z(1) bind.simps s'(1) option.map
    by (rule exI [of _ "worker_start (boot_env.truncate env) s'"])
      (use s'(2-4) two in \<open>simp only: worker_start_proj simp_thms\<close>)
qed

subsection \<open>Theorems\<close>



text \<open>C3. The type and layout invariant of the whole bootloader. Whatever interrupts, tasks of the worker and changes
  by the controller follow \<open>_usb_boot\<close>, in any order: the numbers, directions, buffers
  and descriptors of the endpoints and the endpoint table stay what the start made them; an endpoint only runs,
  chains and defaults to transfers of its own, and a transfer only has its own packet handler and completion
  functions; the address register agrees with the recorded address, which is below 128, and the
  configuration is zero or the one of the descriptor.\<close>

theorem usb_system_invariant:
  assumes "usb_boot (callbacks env n) env bc pin_mask disable_mask s = Some s0" "usb_reach env n g s0 s'"
  shows "usb_layout s' = usb_layout s0 \<and>
    (\<forall>e t. (current_transfer (endpoints s' e) = Some t \<or> chain_transfer (endpoints s' e) = Some t \<or>
            default_transfer (endpoints s' e) = Some t) \<longrightarrow> e \<in> set (transfer_home t)) \<and>
    (\<forall>t. tr_type (transfers s' t) \<in> {No_Type, transfer_packets t} \<and>
         on_complete (transfers s' t) \<in> {No_Complete} \<union> set (transfer_completions t)) \<and>
    dev_addr_ctrl s' = ucast (current_address (device s')) \<and> current_address (device s') \<le> 127 \<and>
    current_config_num (device s') \<in> {0, bConfigurationValue (config_descriptor (device s'))}"
proof -
  obtain K where K: "usb_wf K s0" using usb_boot_wf [OF assms(1)] by blast
  show ?thesis
    using K usb_wf_reach [OF assms(2) K] by (simp add: usb_wf_def ep_wf_def tr_wf_def dev_wf_def)
qed

theorem usb_system_invariant_witness:
  "\<exists>s0 s'. usb_boot (callbacks boot_example_env (Suc 0)) boot_example_env example_boot_consts 0 0 example_boot_state = Some s0 \<and>
     usb_reach boot_example_env (Suc 0) (\<lambda>_ _ _ _. None) s0 s' \<and> buf_status s' = 0x30 \<and>
     dev_addr_ctrl s' = ucast (current_address (device s')) \<and> current_address (device s') \<le> 127"
proof -
  have "running_on_fpga (rt boot_example_env) \<or> usb_clock_setup (rt boot_example_env) example_boot_consts
     (reset_block_noinline (RESETS_RESET_USBCTRL_BITS example_boot_consts) example_boot_state) \<noteq> None"
    by (simp only: rt_boot_example) (rule disjI2, rule example_clocks)
  from usb_boot_ok [OF this example_unreset, of 0 0] obtain s0 where
    s0: "usb_boot (callbacks boot_example_env (Suc 0)) boot_example_env example_boot_consts 0 0 example_boot_state = Some s0"
    by blast
  define s' where "s' = s0\<lparr>mem := (\<lambda>_. 0), flash := flash s0, buf_ctrl := buf_ctrl s0, buf_status := 0x30,
     buf_cpu_should_handle := 0, sie_status := 0, ep_stall_arm := 0, abort_polls := 0\<rparr>"
  have r: "usb_reach boot_example_env (Suc 0) (\<lambda>_ _ _ _. None) s0 s'"
    unfolding s'_def by (rule usb_reach.step [OF usb_reach.start usb_step.controller])
  have "buf_status s' = 0x30" by (simp add: s'_def)
  then show ?thesis using usb_system_invariant [OF s0 r] s0 r by blast
qed

end
