(* ===== verification/Usb_Transfers.thy ===== *)
theory Usb_Transfers
  imports Usb_Control
begin

section \<open>Giving buffers and running single-packet transfers\<close>

text \<open>
  What the transfer functions of \<open>usb_device.c\<close> do to the endpoint they work on: buffers of an OUT
  endpoint are handed over until there are no more of them or of packets, and a transfer of one packet to
  the host goes from its start over the handed over packet to its completion function.
\<close>

subsection \<open>Giving buffers\<close>

lemma give_buffer_some:
  assumes "current_transfer (endpoints s e) = Some t"
  shows "\<exists>s1. usb_give_buffer c e n s = Some s1 \<and>
     endpoints s1 e = (endpoints s e)\<lparr>halt_state := HS_NONE, first_buffer_after_reset := False,
       next_pid := next_pid (endpoints s e) XOR 1,
       current_hw_buffer := (current_hw_buffer (endpoints s e))\<lparr>buf_valid := False\<rparr>,
       owned_buffer_count := owned_buffer_count (endpoints s e) - 1,
       current_give_buffer := (if double_buffered (endpoints s e) then current_give_buffer (endpoints s e) XOR 1
                               else current_give_buffer (endpoints s e))\<rparr> \<and>
     transfers s1 t = (transfers s t)\<lparr>remaining_packets_to_submit := remaining_packets_to_submit (transfers s t) - 1\<rparr> \<and>
     (\<forall>w. read_buf_ctrl e w s1 = (if w = unat (current_give_buffer (endpoints s e)) then give_buffer_val c (endpoints s e) n
                                  else read_buf_ctrl e w s)) \<and>
     (\<forall>e'. e' \<noteq> e \<longrightarrow> endpoints s1 e' = endpoints s e') \<and> (\<forall>t'. t' \<noteq> t \<longrightarrow> transfers s1 t' = transfers s t')"
  by (auto simp: usb_give_buffer_def assms usbsimps Let_def read_buf_ctrl_def write_buf_ctrl_def)

lemma give_as_many_stop: "\<not> may_give e s \<Longrightarrow> usb_give_as_many_buffers_as_possible cb c e s = Some s"
  by (subst usb_give_as_many_buffers_as_possible.simps) simp

lemma give_as_many_out_step:
  "may_give e s \<Longrightarrow> \<not> ep_in (endpoints s e) \<Longrightarrow>
   usb_give_as_many_buffers_as_possible cb c e s =
     Option.bind (usb_give_buffer c e (ucast (buffer_size (endpoints s e))) s) (usb_give_as_many_buffers_as_possible cb c e)"
  by (subst usb_give_as_many_buffers_as_possible.simps) simp

lemma unat_pred: "r \<noteq> 0 \<Longrightarrow> unat (r - 1 :: 'a::len word) = unat r - 1" "r \<noteq> 0 \<Longrightarrow> 0 < unat (r :: 'a::len word)"
  by (auto simp: unat_minus_one unat_gt_0)

text \<open>The control word that hands over the \<open>i\<close>-th buffer from now.\<close>

definition nth_give_val :: "usb_consts \<Rightarrow> usb_endpoint \<Rightarrow> nat \<Rightarrow> u16" where
  "nth_give_val c ep i =
     give_buffer_val c (if i = 0 then ep else ep\<lparr>next_pid := next_pid ep XOR 1, first_buffer_after_reset := False\<rparr>)
       (ucast (buffer_size ep))"

lemma give_as_many_out_ok:
  assumes "\<not> ep_in (endpoints s e)" "halt_state (endpoints s e) = HS_NONE" "current_transfer (endpoints s e) = Some t"
    and owned: "owned_buffer_count (endpoints s e) \<le> ep_buffer_count (endpoints s e)"
  defines "k \<equiv> min (unat (owned_buffer_count (endpoints s e))) (unat (remaining_packets_to_submit (transfers s t)))"
  shows "\<exists>s'. usb_give_as_many_buffers_as_possible cb c e s = Some s' \<and>
     unat (owned_buffer_count (endpoints s' e)) + k = unat (owned_buffer_count (endpoints s e)) \<and>
     unat (remaining_packets_to_submit (transfers s' t)) + k = unat (remaining_packets_to_submit (transfers s t)) \<and>
     next_pid (endpoints s' e) = (if even k then next_pid (endpoints s e) else next_pid (endpoints s e) XOR 1) \<and>
     (0 < k \<longrightarrow> read_buf_ctrl e (unat (current_give_buffer (endpoints s e))) s' = nth_give_val c (endpoints s e) 0) \<and>
     (1 < k \<longrightarrow> read_buf_ctrl e (unat (current_give_buffer (endpoints s e) XOR 1)) s' = nth_give_val c (endpoints s e) 1)"
proof -
  let ?ep = "endpoints s e" and ?n = "ucast (buffer_size (endpoints s e)) :: u32"
  let ?r = "remaining_packets_to_submit (transfers s t)"
  consider "\<not> may_give e s" | "may_give e s" by blast
  then show ?thesis
  proof cases
    case 1
    then have "k = 0" using assms(2,3) by (auto simp: k_def may_give_def unat_eq_0 min_def)
    then show ?thesis using give_as_many_stop [OF 1] by simp
  next
    case 2
    then have nz: "?r \<noteq> 0" "owned_buffer_count ?ep \<noteq> 0" using assms(3) by (auto simp: may_give_def)
    obtain s1 where s1: "usb_give_buffer c e ?n s = Some s1"
      "endpoints s1 e = ?ep\<lparr>halt_state := HS_NONE, first_buffer_after_reset := False, next_pid := next_pid ?ep XOR 1,
         current_hw_buffer := (current_hw_buffer ?ep)\<lparr>buf_valid := False\<rparr>, owned_buffer_count := owned_buffer_count ?ep - 1,
         current_give_buffer := (if double_buffered ?ep then current_give_buffer ?ep XOR 1 else current_give_buffer ?ep)\<rparr>"
      "remaining_packets_to_submit (transfers s1 t) = ?r - 1"
      "\<And>w. read_buf_ctrl e w s1 = (if w = unat (current_give_buffer ?ep) then nth_give_val c ?ep 0 else read_buf_ctrl e w s)"
      using give_buffer_some [OF assms(3), of c ?n] by (auto simp: nth_give_val_def)
    have run: "usb_give_as_many_buffers_as_possible cb c e s = usb_give_as_many_buffers_as_possible cb c e s1"
      using give_as_many_out_step [OF 2 assms(1)] s1(1) by simp
    show ?thesis
    proof (cases "may_give e s1")
      case False
      then have k1: "k = 1"
        using nz unat_pred [of ?r] unat_pred [of "owned_buffer_count ?ep"] assms(2,3)
        by (auto simp: k_def may_give_def s1(2,3) min_def unat_eq_0 dest!: arg_cong [where f = unat])
      show ?thesis
        using give_as_many_stop [OF False] s1 run k1 unat_pred [OF nz(1)] unat_pred [OF nz(2)] by simp
    next
      case True
      then have two: "double_buffered ?ep" "owned_buffer_count ?ep = 2" "?r - 1 \<noteq> 0"
        using owned nz assms(3) by (auto simp: may_give_def s1(2,3) ep_buffer_count_def word_le_nat_alt unat_arith_simps split: if_split_asm)
      from True have "usb_give_as_many_buffers_as_possible cb c e s1 =
          Option.bind (usb_give_buffer c e ?n s1) (usb_give_as_many_buffers_as_possible cb c e)"
        using give_as_many_out_step [OF True] assms(1) by (simp add: s1(2))
      moreover obtain s2 where s2: "usb_give_buffer c e ?n s1 = Some s2"
        "owned_buffer_count (endpoints s2 e) = 0" "next_pid (endpoints s2 e) = next_pid ?ep"
        "remaining_packets_to_submit (transfers s2 t) = ?r - 1 - 1"
        "\<And>w. read_buf_ctrl e w s2 =
           (if w = unat (current_give_buffer ?ep XOR 1) then nth_give_val c ?ep 1 else read_buf_ctrl e w s1)"
        using give_buffer_some [of s1 e t c ?n] assms(3) two
        by (auto simp: s1(2,3) nth_give_val_def give_buffer_val_def xor.assoc)
      moreover have "\<not> may_give e s2" by (simp add: may_give_def s2(2) split: option.split)
      ultimately have run2: "usb_give_as_many_buffers_as_possible cb c e s = Some s2"
        using run give_as_many_stop by simp
      have k2: "k = 2" using two unat_pred(1) [OF nz(1)] unat_pred(2) [OF two(3)] by (auto simp: k_def)
      have ne: "unat (g XOR 1) \<noteq> unat g" for g :: u8
      proof -
        have "bit (g XOR 1) 0 \<noteq> bit g 0" by (simp add: bit_simps)
        then show ?thesis using word_unat_eq_iff by metis
      qed
      show ?thesis
        using run2 s2 k2 two(2) s1(4) ne [of "current_give_buffer ?ep"] unat_pred(1) [OF nz(1)] unat_pred [OF two(3)] by simp
    qed
  qed
qed


subsection \<open>A single packet to the host\<close>

text \<open>Operations that only change endpoints, transfers and buffer control words.\<close>

definition usb_frame where
  "usb_frame s s' \<longleftrightarrow> (\<exists>E T B. s' = s\<lparr>endpoints := E, transfers := T, buf_ctrl := B\<rparr>)"

lemma usb_frameI [intro]: "s' = s\<lparr>endpoints := E, transfers := T, buf_ctrl := B\<rparr> \<Longrightarrow> usb_frame s s'"
  by (auto simp: usb_frame_def)

lemma usb_frame_refl: "usb_frame s s"
  by (rule usb_frameI [where E = "endpoints s" and T = "transfers s" and B = "buf_ctrl s"]) simp

lemma usb_frame_trans: "usb_frame s s1 \<Longrightarrow> usb_frame s1 s2 \<Longrightarrow> usb_frame s s2"
  unfolding usb_frame_def by (elim exE, simp, (rule exI)+, rule refl)

lemma usb_frame_upd: "usb_frame s (upd_ep e f s)" "usb_frame s (upd_tr t g s)" "usb_frame s (write_buf_ctrl e w v s)"
  by (rule usb_frameI [where E = "(endpoints s)(e := f (endpoints s e))" and T = "transfers s" and B = "buf_ctrl s"],
      simp add: upd_ep_def)
    (rule usb_frameI [where E = "endpoints s" and T = "(transfers s)(t := g (transfers s t))" and B = "buf_ctrl s"],
     simp add: upd_tr_def,
     rule usb_frameI [where E = "endpoints s" and T = "transfers s" and B = "buf_ctrl (write_buf_ctrl e w v s)"],
     simp add: write_buf_ctrl_def Let_def)

lemma usb_frame_into:
  "usb_frame s x \<Longrightarrow> usb_frame s (upd_ep e f x)" "usb_frame s x \<Longrightarrow> usb_frame s (upd_tr t g x)"
  by (blast intro: usb_frame_trans usb_frame_upd)+

lemma usb_frame_same:
  assumes "usb_frame s s'"
  shows "mem s' = mem s" "device s' = device s" "dev_addr_ctrl s' = dev_addr_ctrl s" "endpoint_table s' = endpoint_table s"
  using assms by (auto simp: usb_frame_def)

lemma give_buffer_frame: "usb_give_buffer c e n s = Some s' \<Longrightarrow> usb_frame s s'"
  by (auto simp: usb_give_buffer_def Let_def split: option.split_asm
      intro: usb_frame_trans [OF usb_frame_upd(3) usb_frame_trans [OF usb_frame_upd(1) usb_frame_upd(2)]])

text \<open>
  An endpoint that can give a buffer starts a transfer of one packet, whose contents are ready in its current
  packet: the packet is handed to the controller and the transfer waits for the answer.
\<close>

lemma give_buffer_val_current [simp]:
  "give_buffer_val c (ep\<lparr>current_transfer := x, chain_transfer := y\<rparr>) n = give_buffer_val c ep n"
  by (simp add: give_buffer_val_def)

lemma start_single_in:
  assumes cb: "cb_on_packet cb Current_Packet_Only e = usb_packet_done cb' c e"
    and ep: "ep_in (endpoints s e)" "halt_state (endpoints s e) = HS_NONE" "owned_buffer_count (endpoints s e) \<noteq> 0"
  defines "ep \<equiv> endpoints s e"
  shows "\<exists>s'. usb_reset_and_start_transfer cb c e t Current_Packet_Only f s = Some s' \<and> usb_frame s s' \<and>
     endpoints s' e = ep\<lparr>current_transfer := Some t, chain_transfer := None, halt_state := HS_NONE,
       first_buffer_after_reset := False, next_pid := next_pid ep XOR 1,
       current_hw_buffer := (current_hw_buffer ep)\<lparr>buf_valid := False\<rparr>, owned_buffer_count := owned_buffer_count ep - 1,
       current_give_buffer := (if double_buffered ep then current_give_buffer ep XOR 1 else current_give_buffer ep)\<rparr> \<and>
     transfers s' t = \<lparr>tr_type = Current_Packet_Only, on_complete = f, remaining_packets_to_submit = 0,
       remaining_packets_to_handle = 1, outstanding_packet = False, packet_queued = False, started = True, completed = False\<rparr> \<and>
     read_buf_ctrl e (unat (current_give_buffer ep)) s' =
       give_buffer_val c ep (ucast (buf_data_len (current_hw_buffer ep))) \<and>
     (\<forall>e'. e' \<noteq> e \<longrightarrow> endpoints s' e' = endpoints s e') \<and> (\<forall>t'. t' \<noteq> t \<longrightarrow> transfers s' t' = transfers s t')"
proof -
  define s0 where "s0 = upd_tr t (\<lambda>t. t\<lparr>started := True\<rparr>)
         (upd_ep e (\<lambda>ep. ep\<lparr>current_transfer := Some t, chain_transfer := None\<rparr>) (usb_reset_transfer t Current_Packet_Only f s))"
  define s1 where "s1 = upd_tr t (\<lambda>t. t\<lparr>outstanding_packet := False\<rparr>) (upd_tr t (\<lambda>t. t\<lparr>outstanding_packet := True\<rparr>) s0)"
  have s0: "endpoints s0 e = ep\<lparr>current_transfer := Some t, chain_transfer := None\<rparr>"
    "transfers s0 t = \<lparr>tr_type = Current_Packet_Only, on_complete = f, remaining_packets_to_submit = 1,
       remaining_packets_to_handle = 1, outstanding_packet = False, packet_queued = False, started = True, completed = False\<rparr>"
    by (simp_all add: s0_def ep_def usbsimps usb_reset_transfer_def)
  have s1: "endpoints s1 e = endpoints s0 e" "transfers s1 t = transfers s0 t"
    by (simp_all add: s1_def usbsimps s0)
  have may: "may_give e s0" using ep by (simp add: may_give_def s0 ep_def)
  have "usb_check_for_transfer_completion cb' c e s1 = Some s1"
    using ep by (simp add: usb_check_for_transfer_completion_def s1 s0 ep_def)
  moreover have cur: "current_transfer (endpoints s1 e) = Some t" by (simp add: s1 s0)
  from give_buffer_some [OF cur, of c "ucast (buf_data_len (current_hw_buffer ep))"] obtain s2 where
    s2: "usb_give_buffer c e (ucast (buf_data_len (current_hw_buffer ep))) s1 = Some s2"
     "endpoints s2 e = (endpoints s1 e)\<lparr>halt_state := HS_NONE, first_buffer_after_reset := False,
       next_pid := next_pid (endpoints s1 e) XOR 1,
       current_hw_buffer := (current_hw_buffer (endpoints s1 e))\<lparr>buf_valid := False\<rparr>,
       owned_buffer_count := owned_buffer_count (endpoints s1 e) - 1,
       current_give_buffer := (if double_buffered (endpoints s1 e) then current_give_buffer (endpoints s1 e) XOR 1
                               else current_give_buffer (endpoints s1 e))\<rparr>"
     "transfers s2 t = (transfers s1 t)\<lparr>remaining_packets_to_submit := remaining_packets_to_submit (transfers s1 t) - 1\<rparr>"
     "read_buf_ctrl e (unat (current_give_buffer (endpoints s1 e))) s2 =
       give_buffer_val c (endpoints s1 e) (ucast (buf_data_len (current_hw_buffer ep)))"
     "\<And>e'. e' \<noteq> e \<Longrightarrow> endpoints s2 e' = endpoints s1 e'" "\<And>t'. t' \<noteq> t \<Longrightarrow> transfers s2 t' = transfers s1 t'"
    by auto
  define s3 where "s3 = upd_ep e (\<lambda>ep. ep\<lparr>current_hw_buffer := (current_hw_buffer ep)\<lparr>buf_valid := False\<rparr>\<rparr>) s2"
  have s3: "endpoints s3 e = endpoints s2 e" "transfers s3 = transfers s2" "read_buf_ctrl e w s3 = read_buf_ctrl e w s2" for w
    by (simp_all add: s3_def usbsimps s2(2))
  have stop: "\<not> may_give e s3" by (simp add: may_give_def s3 s2(2,3) s1 s0)
  ultimately have pdone: "usb_packet_done cb' c e (upd_tr t (\<lambda>t. t\<lparr>outstanding_packet := True\<rparr>) s0) = Some s3"
    using ep by (simp add: usb_packet_done_def s1_def [symmetric] usbsimps s0 s1 s2(1) Let_def s3_def [symmetric]
        ep_def [symmetric]) (simp add: s3 s2(3) s1 s0 give_as_many_stop)
  have call: "usb_call_on_packet cb e s0 = Some s3"
    using pdone by (simp add: usb_call_on_packet_def s0 usbsimps cb)
  have less: "owned_buffer_count (endpoints s0 e) \<noteq> owned_buffer_count (endpoints s3 e)"
    by (simp add: s3 s2(2) s1)
  have run: "usb_reset_and_start_transfer cb c e t Current_Packet_Only f s = Some s3"
    unfolding usb_reset_and_start_transfer_def usb_start_transfer_def s0_def [symmetric]
    using may ep less by (subst usb_give_as_many_buffers_as_possible.simps)
      (simp add: call s0 ep_def [symmetric] give_as_many_stop [OF stop])
  have "usb_frame s s1"
    unfolding s1_def s0_def usb_reset_transfer_def by (intro usb_frame_into usb_frame_refl)
  then have frame: "usb_frame s s3"
    unfolding s3_def by (intro usb_frame_into usb_frame_trans [OF _ give_buffer_frame [OF s2(1)]])
  show ?thesis
    using run frame s2 by (auto simp: s3 s1 s0) (auto simp: s3_def s1_def s0_def usbsimps usb_reset_transfer_def)
qed

text \<open>The answer of the host completes it.\<close>

lemma single_in_answered:
  assumes "find_ep num d s = Some e" "ep_in (endpoints s e)" "halt_state (endpoints s e) = HS_NONE"
    "current_transfer (endpoints s e) = Some t" "remaining_packets_to_submit (transfers s t) = 0"
    "remaining_packets_to_handle (transfers s t) = 1" "\<not> outstanding_packet (transfers s t)" "\<not> completed (transfers s t)"
    "on_complete (transfers s t) \<noteq> No_Complete"
  shows "\<exists>s'. usb_handle_transfer cb c num d which s = cb_on_complete cb (on_complete (transfers s t)) e t s' \<and> usb_frame s s' \<and>
     endpoints s' e = (endpoints s e)\<lparr>owned_buffer_count := owned_buffer_count (endpoints s e) + 1,
        current_take_buffer := which, current_transfer := None\<rparr> \<and>
     completed (transfers s' t) \<and> (\<forall>e'. e' \<noteq> e \<longrightarrow> endpoints s' e' = endpoints s e') \<and>
     (\<forall>t'. t' \<noteq> t \<longrightarrow> transfers s' t' = transfers s t')"
proof -
  let ?s = "upd_ep e (\<lambda>ep. ep\<lparr>current_transfer := None\<rparr>) (upd_tr t (\<lambda>t. t\<lparr>completed := True\<rparr>)
     (upd_tr t (\<lambda>t. t\<lparr>remaining_packets_to_handle := remaining_packets_to_handle t - 1\<rparr>)
     (upd_ep e (\<lambda>ep. ep\<lparr>current_take_buffer := which\<rparr>)
     (upd_ep e (\<lambda>ep. ep\<lparr>owned_buffer_count := owned_buffer_count ep + 1\<rparr>) s))))"
  have "usb_handle_transfer cb c num d which s = cb_on_complete cb (on_complete (transfers s t)) e t ?s"
    using assms by (simp add: usb_handle_transfer_def usbsimps usb_check_for_transfer_completion_def Let_def)
  moreover have "usb_frame s ?s" by (intro usb_frame_into usb_frame_refl)
  ultimately show ?thesis by (intro exI [of _ ?s]) (simp add: usbsimps)
qed

end
