(* ===== verification/Usb_Requests.thy ===== *)
theory Usb_Requests
  imports Usb_Reach Usb_Transfers
begin

section \<open>Requests and commands, end to end\<close>

text \<open>
  What the host sees of requests on the control endpoint and of commands of the two interfaces, with
  all functions that are called through pointers in place.
\<close>

subsection \<open>Set address\<close>

text \<open>A control endpoint, whatever was going on on it.\<close>

definition plain_endpoint :: "usb_endpoint \<Rightarrow> bool" where
  "plain_endpoint ep \<longleftrightarrow> on_stall_change ep = No_Stall_Change \<and> default_transfer ep = None \<and> \<not> double_buffered ep"

lemma soft_reset_plain:
  assumes "plain_endpoint (endpoints s e)"
  shows "\<exists>s'. usb_soft_reset_endpoint cb c e s = Some s' \<and> plain_endpoint (endpoints s' e) \<and>
     owned_buffer_count (endpoints s' e) = 1 \<and> halt_state (endpoints s' e) = HS_NONE \<and>
     ep_in (endpoints s' e) = ep_in (endpoints s e) \<and> current_transfer (endpoints s' e) = None \<and>
     (\<forall>e'. e' \<noteq> e \<longrightarrow> endpoints s' e' = endpoints s e') \<and> device s' = device s \<and> dev_addr_ctrl s' = dev_addr_ctrl s"
  using assms
  by (auto simp: usb_soft_reset_endpoint_def usb_reset_endpoint_def usb_reset_buffers_def Let_def usbsimps
      plain_endpoint_def ep_buffer_count_def)

lemma packet_buffer_proj:
  "\<exists>b. endpoints (snd (usb_current_packet_buffer c e s)) e = (endpoints s e)\<lparr>current_hw_buffer := b\<rparr> \<and> buf_valid b"
  "e' \<noteq> e \<Longrightarrow> endpoints (snd (usb_current_packet_buffer c e s)) e' = endpoints s e'"
  "usb_frame s (snd (usb_current_packet_buffer c e s))"
proof -
  show "\<exists>b. endpoints (snd (usb_current_packet_buffer c e s)) e = (endpoints s e)\<lparr>current_hw_buffer := b\<rparr> \<and> buf_valid b"
  proof (cases "buf_valid (current_hw_buffer (endpoints s e))")
    case True
    then show ?thesis
      by (intro exI [of _ "current_hw_buffer (endpoints s e)"]) (simp add: usb_current_packet_buffer_def Let_def)
  qed (auto simp: usb_current_packet_buffer_def Let_def usbsimps)
qed (auto simp: usb_current_packet_buffer_def Let_def usbsimps intro: usb_frame_refl usb_frame_upd)

text \<open>The packet handler of single-packet transfers, at any depth of the callbacks.\<close>

lemma single_packet_handler:
  "cb_on_packet (callbacks env (Suc n)) Current_Packet_Only e = usb_packet_done (callbacks env n) (usbc env) e"
  by (simp add: callbacks_over_def usb_transfer_current_packet_only_def fun_eq_iff)

text \<open>An empty packet to the host, with a function to call when it has been answered.\<close>

lemma empty_in_transfer:
  assumes "ep_in (endpoints s e)" "halt_state (endpoints s e) = HS_NONE" "owned_buffer_count (endpoints s e) \<noteq> 0"
  shows "\<exists>s'. usb_start_empty_transfer (callbacks env (Suc n)) (usbc env) e t f s = Some s' \<and> usb_frame s s' \<and>
     ep_in (endpoints s' e) \<and> halt_state (endpoints s' e) = HS_NONE \<and> current_transfer (endpoints s' e) = Some t \<and>
     transfers s' t = \<lparr>tr_type = Current_Packet_Only, on_complete = f, remaining_packets_to_submit = 0,
       remaining_packets_to_handle = 1, outstanding_packet = False, packet_queued = False, started = True, completed = False\<rparr> \<and>
     ep_num (endpoints s' e) = ep_num (endpoints s e) \<and>
     read_buf_ctrl e (unat (current_give_buffer (endpoints s e))) s' = give_buffer_val (usbc env) (endpoints s e) 0"
proof -
  define s1 where "s1 = set_buffer_len e 0 (snd (usb_current_packet_buffer (usbc env) e s))"
  obtain b where b: "endpoints s1 e = (endpoints s e)\<lparr>current_hw_buffer := b\<lparr>buf_data_len := 0\<rparr>\<rparr>"
    using packet_buffer_proj(1) [of "usbc env" e s] by (auto simp: s1_def set_buffer_len_def usbsimps)
  have f: "usb_frame s s1" unfolding s1_def set_buffer_len_def by (intro usb_frame_into packet_buffer_proj)
  have v: "give_buffer_val c (ep\<lparr>current_hw_buffer := x\<rparr>) m = give_buffer_val c ep m" for c ep x m
    by (simp add: give_buffer_val_def)
  have "ep_in (endpoints s1 e)" "halt_state (endpoints s1 e) = HS_NONE" "owned_buffer_count (endpoints s1 e) \<noteq> 0"
    using assms by (simp_all add: b)
  from start_single_in [OF single_packet_handler [of env n e] this, of t f] show ?thesis
    using assms f by (auto simp: usb_start_empty_transfer_def s1_def [symmetric] b v intro: usb_frame_trans)
qed

lemma set_address_ok:
  assumes ready: "plain_endpoint (endpoints s Control_In)" "plain_endpoint (endpoints s Control_Out)" "ep_in (endpoints s Control_In)"
    and req: "bmRequestType setup = 0" "bRequest setup = USB_REQUEST_SET_ADDRESS"
    and addr: "a = ucast (wValue setup)" "a \<noteq> (0 :: u8)" "a \<le> 127"
  shows "\<exists>s1. usb_handle_setup_packet (callbacks env (Suc n)) (usbc env) setup s = Some s1 \<and>
     current_address (device s1) = current_address (device s) \<and> dev_addr_ctrl s1 = dev_addr_ctrl s \<and>
     (\<exists>s2. usb_handle_transfer (callbacks env (Suc n)) (usbc env) 0 True which s1 = Some s2 \<and>
        current_address (device s2) = a \<and> dev_addr_ctrl s2 = ucast a)"
proof -
  let ?cb = "callbacks env (Suc n)"
  obtain t1 where t1: "usb_soft_reset_endpoint ?cb (usbc env) Control_In s = Some t1" "plain_endpoint (endpoints t1 Control_In)"
    "owned_buffer_count (endpoints t1 Control_In) = 1" "halt_state (endpoints t1 Control_In) = HS_NONE"
    "ep_in (endpoints t1 Control_In)" "endpoints t1 Control_Out = endpoints s Control_Out" "device t1 = device s"
    "dev_addr_ctrl t1 = dev_addr_ctrl s"
    using soft_reset_plain [OF ready(1), of ?cb "usbc env"] ready(3) by auto
  obtain t2 where t2: "usb_soft_reset_endpoint ?cb (usbc env) Control_Out t1 = Some t2"
    "endpoints t2 Control_In = endpoints t1 Control_In" "device t2 = device s" "dev_addr_ctrl t2 = dev_addr_ctrl s"
    using soft_reset_plain [of t1 Control_Out ?cb "usbc env"] ready(2) t1 by auto
  define t3 where "t3 = (upd_ep Control_In (\<lambda>ep. ep\<lparr>next_pid := 1\<rparr>) (upd_ep Control_Out (\<lambda>ep. ep\<lparr>next_pid := 1\<rparr>) t2))
     \<lparr>device := (device s)\<lparr>pending_address := a\<rparr>\<rparr>"
  have t3: "ep_in (endpoints t3 Control_In)" "halt_state (endpoints t3 Control_In) = HS_NONE"
    "owned_buffer_count (endpoints t3 Control_In) \<noteq> 0"
    using t1 t2 by (simp_all add: t3_def usbsimps)
  from empty_in_transfer [OF t3, of env n Control_In_Transfer Tf_set_address] obtain s1 where
    s1: "usb_start_empty_transfer ?cb (usbc env) Control_In Control_In_Transfer Tf_set_address t3 = Some s1" "usb_frame t3 s1"
      "ep_in (endpoints s1 Control_In)" "halt_state (endpoints s1 Control_In) = HS_NONE"
      "current_transfer (endpoints s1 Control_In) = Some Control_In_Transfer"
      "transfers s1 Control_In_Transfer = \<lparr>tr_type = Current_Packet_Only, on_complete = Tf_set_address,
        remaining_packets_to_submit = 0, remaining_packets_to_handle = 1, outstanding_packet = False, packet_queued = False,
        started = True, completed = False\<rparr>" by blast
  have req1: "usb_handle_setup_packet ?cb (usbc env) setup s = Some s1"
    using t1(1) t2 s1(1) addr
    by (simp add: usb_handle_setup_packet_def req usb_default_handle_device_setup_request_def Let_def
        usb_start_empty_control_in_transfer_def t3_def usbsimps del: callbacks.simps)
  have "find_ep 0 True s1 = Some Control_In" by (simp add: find_ep_def)
  from single_in_answered [OF this s1(3-5), of ?cb "usbc env" which] obtain s2 where
    s2: "usb_handle_transfer ?cb (usbc env) 0 True which s1 = Some (tf_set_address s2)" "usb_frame s1 s2"
    by (auto simp: s1(6) callbacks_over_def)
  have "device s1 = (device s)\<lparr>pending_address := a\<rparr>" "dev_addr_ctrl s1 = dev_addr_ctrl s"
    using usb_frame_same [OF s1(2)] t2 by (simp_all add: t3_def usbsimps)
  moreover from this have "device s2 = (device s)\<lparr>pending_address := a\<rparr>" using usb_frame_same [OF s2(2)] by simp
  ultimately show ?thesis
    using req1 s2(1) by (simp add: tf_set_address_def usb_handle_set_address_def del: callbacks.simps)
qed

subsection \<open>Mass storage commands\<close>

text \<open>The buffer of an IN endpoint that the next packet is put in.\<close>

definition give_addr :: "usb_consts \<Rightarrow> usb_endpoint \<Rightarrow> u32" where
  "give_addr c ep = USBCTRL_DPRAM_BASE c + ucast (dpram_buffer_offset ep) + (if current_give_buffer ep \<noteq> 0 then 64 else 0)"

text \<open>An IN endpoint that can answer.\<close>

definition can_answer :: "usb_endpoint \<Rightarrow> bool" where
  "can_answer ep \<longleftrightarrow> ep_in ep \<and> halt_state ep = HS_NONE \<and> owned_buffer_count ep \<noteq> 0 \<and> \<not> buf_valid (current_hw_buffer ep)"

lemma response_buffer_proj:
  assumes "can_answer (endpoints s e)" "n < 256"
  shows "fst (usb_get_single_packet_response_buffer c e n s) = give_addr c (endpoints s e)"
    "endpoints (snd (usb_get_single_packet_response_buffer c e n s)) =
       (endpoints s)(e := (endpoints s e)\<lparr>current_hw_buffer := \<lparr>buf_data = give_addr c (endpoints s e),
          buf_data_len = word_of_nat n, buf_data_max = ucast (buffer_size (endpoints s e)), buf_valid = True\<rparr>\<rparr>)"
    "transfers (snd (usb_get_single_packet_response_buffer c e n s)) = transfers s"
    "csw (snd (usb_get_single_packet_response_buffer c e n s)) = csw s"
    "request_sense (snd (usb_get_single_packet_response_buffer c e n s)) = request_sense s"
    "ejected (snd (usb_get_single_packet_response_buffer c e n s)) = ejected s"
  using assms
  by (simp_all add: usb_get_single_packet_response_buffer_def usb_current_packet_buffer_def set_buffer_len_def Let_def
      can_answer_def give_addr_def upd_ep_def)

text \<open>The endpoint after its answer has been given to the controller.\<close>

definition answer_given :: "usb_endpoint \<Rightarrow> transfer_id \<Rightarrow> usb_endpoint \<Rightarrow> bool" where
  "answer_given ep t ep' \<longleftrightarrow> current_transfer ep' = Some t \<and> ep_in ep' = ep_in ep \<and> halt_state ep' = HS_NONE \<and>
     \<not> buf_valid (current_hw_buffer ep') \<and> owned_buffer_count ep' = owned_buffer_count ep - 1 \<and> ep_num ep' = ep_num ep \<and>
     dpram_buffer_offset ep' = dpram_buffer_offset ep \<and> default_transfer ep' = default_transfer ep \<and>
     on_stall_change ep' = on_stall_change ep"

lemma send_csw_ok:
  fixes s :: "('d, 'z) picoboot_state_scheme"
  assumes "can_answer (endpoints s Msc_In)"
  shows "\<exists>s'. msc_send_csw (callbacks env (Suc n)) (usbc env) s = Some s' \<and>
     mem_read (mem s') (give_addr (usbc env) (endpoints s Msc_In)) 13 = csw_bytes (csw s) \<and>
     read_buf_ctrl Msc_In (unat (current_give_buffer (endpoints s Msc_In))) s' =
       give_buffer_val (usbc env) (endpoints s Msc_In) 13 \<and>
     (\<forall>e'. e' \<noteq> Msc_In \<longrightarrow> endpoints s' e' = endpoints s e') \<and>
     (\<forall>t'. t' \<noteq> Msc_Cmd_Response_Transfer \<longrightarrow> transfers s' t' = transfers s t') \<and>
     answer_given (endpoints s Msc_In) Msc_Cmd_Response_Transfer (endpoints s' Msc_In) \<and>
     transfers s' Msc_Cmd_Response_Transfer = \<lparr>tr_type = Current_Packet_Only, on_complete = Tf_wait_command,
       remaining_packets_to_submit = 0, remaining_packets_to_handle = 1, outstanding_packet = False, packet_queued = False,
       started = True, completed = False\<rparr> \<and>
     (\<forall>x. 13 \<le> unat (x - give_addr (usbc env) (endpoints s Msc_In)) \<longrightarrow> mem s' x = mem s x) \<and>
     (\<exists>M E T B. s' = s\<lparr>mem := M, endpoints := E, transfers := T, buf_ctrl := B, send_csw_on_unstall := False\<rparr>)"
proof -
  let ?s = "s\<lparr>send_csw_on_unstall := False\<rparr>"
  define a where "a = give_addr (usbc env) (endpoints s Msc_In)"
  define s1 where "s1 = snd (usb_get_single_packet_response_buffer (usbc env) Msc_In 13 ?s)"
  define s2 where "s2 = s1\<lparr>mem := mem_write (mem s1) a (csw_bytes (csw s))\<rparr>"
  have can: "can_answer (endpoints ?s Msc_In)" using assms by simp
  note p = response_buffer_proj [OF can, of 13 "usbc env", folded s1_def, simplified]
  have pair: "usb_get_single_packet_response_buffer (usbc env) Msc_In 13 ?s = (a, s1)"
    using p(1) by (simp add: prod_eq_iff s1_def a_def)
  have send: "msc_send_csw (callbacks env (Suc n)) (usbc env) s =
     usb_reset_and_start_transfer (callbacks env (Suc n)) (usbc env) Msc_In Msc_Cmd_Response_Transfer Current_Packet_Only
       Tf_wait_command s2"
    unfolding msc_send_csw_def pair msc_reset_and_start_cmd_response_transfer_def
    by (simp add: s2_def p(4))
  have v: "give_buffer_val c (ep\<lparr>current_hw_buffer := x\<rparr>) m = give_buffer_val c ep m" for c ep x m
    by (simp add: give_buffer_val_def)
  have "ep_in (endpoints s2 Msc_In)" "halt_state (endpoints s2 Msc_In) = HS_NONE" "owned_buffer_count (endpoints s2 Msc_In) \<noteq> 0"
    using assms by (simp_all add: s2_def p(2) can_answer_def)
  from start_single_in [OF single_packet_handler this, of env n Msc_Cmd_Response_Transfer Tf_wait_command] obtain s' where
    s': "usb_reset_and_start_transfer (callbacks env (Suc n)) (usbc env) Msc_In Msc_Cmd_Response_Transfer Current_Packet_Only
       Tf_wait_command s2 = Some s'" "usb_frame s2 s'"
      "read_buf_ctrl Msc_In (unat (current_give_buffer (endpoints s2 Msc_In))) s' =
         give_buffer_val (usbc env) (endpoints s2 Msc_In) (ucast (buf_data_len (current_hw_buffer (endpoints s2 Msc_In))))"
      "\<forall>e'. e' \<noteq> Msc_In \<longrightarrow> endpoints s' e' = endpoints s2 e'"
      "\<forall>t'. t' \<noteq> Msc_Cmd_Response_Transfer \<longrightarrow> transfers s' t' = transfers s2 t'"
      "answer_given (endpoints s2 Msc_In) Msc_Cmd_Response_Transfer (endpoints s' Msc_In)"
      "transfers s' Msc_Cmd_Response_Transfer = \<lparr>tr_type = Current_Packet_Only, on_complete = Tf_wait_command,
       remaining_packets_to_submit = 0, remaining_packets_to_handle = 1, outstanding_packet = False, packet_queued = False,
       started = True, completed = False\<rparr>"
    by (auto simp: answer_given_def)
  obtain E T B where frame: "s' = s2\<lparr>endpoints := E, transfers := T, buf_ctrl := B\<rparr>"
    using s'(2) by (auto simp: usb_frame_def)
  have len: "length (csw_bytes w) = 13" for w by (simp add: csw_bytes_def)
  then have rd: "mem_read (mem s') a 13 = csw_bytes (csw s)"
    by (simp add: frame s2_def mem_read_write_same)
  have s1: "s1 = s\<lparr>mem := mem s1, endpoints := endpoints s1, send_csw_on_unstall := False\<rparr>"
    "mem s1 = mem_write (mem s) a (replicate 13 0)"
    using can by (simp_all add: s1_def usb_get_single_packet_response_buffer_def usb_current_packet_buffer_def set_buffer_len_def
        Let_def can_answer_def upd_ep_def a_def give_addr_def)
  then obtain M1 E1 where s1e: "s1 = s\<lparr>mem := M1, endpoints := E1, send_csw_on_unstall := False\<rparr>" by blast
  then have "\<exists>M E T B. s' = s\<lparr>mem := M, endpoints := E, transfers := T, buf_ctrl := B, send_csw_on_unstall := False\<rparr>"
    by (intro exI [of _ "mem s'"] exI [of _ E] exI [of _ T] exI [of _ B]) (simp add: frame s2_def)
  moreover have "mem s' x = mem s x" if "13 \<le> unat (x - a)" for x
    using that len by (simp add: frame s2_def s1(2) mem_write_other)
  ultimately show ?thesis
    using send s' rd by (simp add: a_def s2_def p v answer_given_def)
qed

text \<open>
  The commands without a data phase, and the ones that are not known: status, sense key and
  additional sense code of the answer, by command and state of the medium.
\<close>

definition scsi_data_commands :: "u8 list" where
  "scsi_data_commands = [0x03, 0x12, 0x1a, 0x23, 0x25, 0x28, 0x2a]"

definition no_data_answer :: "u8 \<Rightarrow> bool \<Rightarrow> u8 \<times> u8 \<times> u8" where
  "no_data_answer cmd is_ejected =
     (if cmd \<in> {0x1b, 0x1e, 0x2f, 0x35} \<or> cmd = 0 \<and> \<not> is_ejected then (CSW_STATUS_COMMAND_PASSED, SK_OK, 0)
      else if cmd = 0 then (CSW_STATUS_COMMAND_FAILED, SK_NOT_READY, ASC_MEDIUM_NOT_PRESENT)
      else (CSW_STATUS_COMMAND_FAILED, SK_ILLEGAL_REQUEST, ASC_INVALID_COMMAND_OPERATION_CODE))"

lemma no_data_command:
  assumes "cbw_cb cbw 0 \<notin> set scsi_data_commands" "csw_status (csw s) = 0" "rs_key (request_sense s) = 0"
    "rs_asc (request_sense s) = 0"
  shows "\<exists>x. scsi_command cb env cbw s = msc_init_for_dn cb (usbc env) cbw x \<and> endpoints x = endpoints s \<and>
     transfers x = transfers s \<and>
     csw x = (csw s)\<lparr>csw_status := fst (no_data_answer (cbw_cb cbw 0) (ejected s))\<rparr> \<and>
     (rs_key (request_sense x), rs_asc (request_sense x)) = snd (no_data_answer (cbw_cb cbw 0) (ejected s)) \<and>
     ejected x = (ejected s \<or> cbw_cb cbw 0 = 0x1b \<and> cbw_cb cbw 4 AND 3 = 2)"
proof -
  let ?cmd = "cbw_cb cbw 0"
  have same: "(csw s)\<lparr>csw_status := 0\<rparr> = csw s" using assms(2) by (cases "csw s") simp
  have nd: "?cmd \<noteq> 0x03" "?cmd \<noteq> 0x12" "?cmd \<noteq> 0x1a" "?cmd \<noteq> 0x23" "?cmd \<noteq> 0x25" "?cmd \<noteq> 0x28" "?cmd \<noteq> 0x2a"
    using assms(1) by (auto simp: scsi_data_commands_def)
  consider "?cmd = 0" | "?cmd = 0x1b" | "?cmd \<in> {0x1e, 0x2f, 0x35}" | "?cmd \<notin> {0, 0x1b, 0x1e, 0x2f, 0x35}" by blast
  then show ?thesis
  proof cases
    case 1
    show ?thesis
    proof (cases "ejected s")
      case True
      then show ?thesis
        using 1 by (intro exI [of _ "msc_set_csw_failed SK_NOT_READY ASC_MEDIUM_NOT_PRESENT 0 s"])
          (simp add: scsi_command_def scsi_handle_test_unit_ready_def scsi_fail_cmd_def msc_set_csw_failed_def no_data_answer_def)
    next
      case False
      then show ?thesis
        using 1 assms same by (intro exI [of _ s]) (simp add: scsi_command_def scsi_handle_test_unit_ready_def no_data_answer_def)
    qed
  next
    case 2
    then show ?thesis
      using assms same
      by (intro exI [of _ "if cbw_cb cbw 4 AND 3 = 2 then msc_eject s else s"])
        (simp add: scsi_command_def scsi_handle_start_stop_unit_def no_data_answer_def msc_eject_def)
  next
    case 3
    then show ?thesis
      using assms same by (intro exI [of _ s]) (auto simp: scsi_command_def no_data_answer_def Let_def)
  next
    case 4
    then show ?thesis
      using nd by (intro exI [of _ "msc_set_csw_failed SK_ILLEGAL_REQUEST ASC_INVALID_COMMAND_OPERATION_CODE 0 s"])
        (simp add: scsi_command_def scsi_fail_cmd_def msc_set_csw_failed_def no_data_answer_def)
  qed
qed

lemma packet_done_waiting:
  assumes "current_transfer (endpoints s e) = Some t" "\<not> ep_in (endpoints s e)" "halt_state (endpoints s e) = HS_NONE"
    "remaining_packets_to_submit (transfers s t) = 0" "remaining_packets_to_handle (transfers s t) \<noteq> 0"
    "\<not> packet_queued (transfers s t)" "\<not> completed (transfers s t)"
  shows "\<exists>s'. usb_packet_done cb c e s = Some s' \<and> usb_frame s s' \<and> (\<forall>e'. e' \<noteq> e \<longrightarrow> endpoints s' e' = endpoints s e') \<and>
     buf_ctrl s' = buf_ctrl s"
proof -
  let ?s1 = "upd_tr t (\<lambda>t. t\<lparr>outstanding_packet := False\<rparr>) s"
  let ?s3 = "upd_ep e (\<lambda>ep. ep\<lparr>current_hw_buffer := (current_hw_buffer ep)\<lparr>buf_valid := False\<rparr>\<rparr>) ?s1"
  have "\<not> may_give e ?s3" using assms by (simp add: may_give_def usbsimps)
  then have "usb_packet_done cb c e s = Some ?s3"
    using assms by (simp add: usb_packet_done_def usb_check_for_transfer_completion_def usbsimps Let_def give_as_many_stop)
  moreover have "usb_frame s ?s3" by (intro usb_frame_into usb_frame_refl)
  ultimately show ?thesis by (intro exI [of _ ?s3]) (simp add: usbsimps)
qed

text \<open>The endpoint that commands arrive at, with a command in its current packet.\<close>

definition command_arrived :: "ep_id \<Rightarrow> transfer_id \<Rightarrow> ('d, 'z) usb_state_scheme \<Rightarrow> bool" where
  "command_arrived e t s \<longleftrightarrow>
     current_transfer (endpoints s e) = Some t \<and> \<not> ep_in (endpoints s e) \<and> halt_state (endpoints s e) = HS_NONE \<and>
     remaining_packets_to_submit (transfers s t) = 0 \<and> remaining_packets_to_handle (transfers s t) \<noteq> 0 \<and>
     \<not> packet_queued (transfers s t) \<and> \<not> completed (transfers s t)"

lemma no_data_command_ok:
  fixes s :: "('d, 'z) picoboot_state_scheme"
  assumes "usb_current_packet_buffer (usbc env) Msc_Out s = (b, s1)" "cbw = scsi_cbw_at (mem s) (buf_data b)"
    "cbw_valid (buf_data_len b) cbw" "data_transfer_length cbw = 0" "cbw_cb cbw 0 \<notin> set scsi_data_commands"
    "can_answer (endpoints s Msc_In)" "command_arrived Msc_Out Msc_Cmd_Transfer s"
  defines "answer \<equiv> no_data_answer (cbw_cb cbw 0) (ejected s)"
  shows "\<exists>s'. msc_cmd_packet (callbacks env (Suc n)) env Msc_Out s = Some s' \<and>
     mem_read (mem s') (give_addr (usbc env) (endpoints s Msc_In)) 13 =
       csw_bytes \<lparr>csw_sig = CSW_SIG, csw_tag = cbw_tag cbw, residue = 0, csw_status = fst answer\<rparr> \<and>
     read_buf_ctrl Msc_In (unat (current_give_buffer (endpoints s Msc_In))) s' =
       give_buffer_val (usbc env) (endpoints s Msc_In) 13 \<and>
     (rs_key (request_sense s'), rs_asc (request_sense s')) = snd answer \<and>
     ejected s' = (ejected s \<or> cbw_cb cbw 0 = 0x1b \<and> cbw_cb cbw 4 AND 3 = 2)"
proof -
  let ?cb = "callbacks env (Suc n)"
  have s1: "mem s1 = mem s" "endpoints s1 Msc_In = endpoints s Msc_In" "ejected s1 = ejected s" "transfers s1 = transfers s"
    "current_transfer (endpoints s1 Msc_Out) = current_transfer (endpoints s Msc_Out)"
    "ep_in (endpoints s1 Msc_Out) = ep_in (endpoints s Msc_Out)" "halt_state (endpoints s1 Msc_Out) = halt_state (endpoints s Msc_Out)"
    using assms(1) by (auto simp: usb_current_packet_buffer_def Let_def upd_ep_def split: if_split_asm)
  define s2 where "s2 = s1\<lparr>csw := \<lparr>csw_sig = CSW_SIG, csw_tag = cbw_tag cbw, residue = 0, csw_status = 0\<rparr>,
     request_sense := (request_sense s1)\<lparr>rs_key := SK_OK, rs_asc := 0, rs_ascq := 0\<rparr>\<rparr>"
  have "cbw_cb cbw 0 \<noteq> 3" using assms(5) by (auto simp: scsi_data_commands_def)
  then have internal: "msc_cmd_packet_internal ?cb env Msc_Out s = scsi_command ?cb env cbw s2"
    using assms(1-4) by (simp add: msc_cmd_packet_internal_def s1 s2_def Let_def)
  obtain x where x: "scsi_command ?cb env cbw s2 = msc_init_for_dn ?cb (usbc env) cbw x" "endpoints x = endpoints s1"
    "transfers x = transfers s1" "csw x = (csw s2)\<lparr>csw_status := fst answer\<rparr>"
    "(rs_key (request_sense x), rs_asc (request_sense x)) = snd answer"
    "ejected x = (ejected s \<or> cbw_cb cbw 0 = 0x1b \<and> cbw_cb cbw 4 AND 3 = 2)"
    using no_data_command [OF assms(5), of s2 ?cb env] by (auto simp: s2_def s1 answer_def)
  let ?x = "x\<lparr>stall_direction_before_csw := SCSI_DIR_NONE\<rparr>"
  have dn: "msc_init_for_dn ?cb (usbc env) cbw x = msc_send_csw ?cb (usbc env) ?x"
    using assms(4) by (simp add: msc_init_for_dn_def msc_data_phase_complete_def)
  have "can_answer (endpoints ?x Msc_In)" using assms(6) by (simp add: x(2) s1)
  from send_csw_ok [OF this, of env n] obtain z where
    z: "msc_send_csw ?cb (usbc env) ?x = Some z"
      "mem_read (mem z) (give_addr (usbc env) (endpoints s Msc_In)) 13 = csw_bytes (csw x)"
      "read_buf_ctrl Msc_In (unat (current_give_buffer (endpoints s Msc_In))) z =
         give_buffer_val (usbc env) (endpoints s Msc_In) 13"
      "endpoints z Msc_Out = endpoints s1 Msc_Out" "transfers z Msc_Cmd_Transfer = transfers s Msc_Cmd_Transfer"
      "request_sense z = request_sense x" "ejected z = ejected x"
    by (clarsimp simp: x(2,3) s1)
  have arrived: "current_transfer (endpoints z Msc_Out) = Some Msc_Cmd_Transfer" "\<not> ep_in (endpoints z Msc_Out)"
    "halt_state (endpoints z Msc_Out) = HS_NONE" "remaining_packets_to_submit (transfers z Msc_Cmd_Transfer) = 0"
    "remaining_packets_to_handle (transfers z Msc_Cmd_Transfer) \<noteq> 0" "\<not> packet_queued (transfers z Msc_Cmd_Transfer)"
    "\<not> completed (transfers z Msc_Cmd_Transfer)"
    using assms(7) by (simp_all add: command_arrived_def z(4,5) s1)
  obtain s' where s': "usb_packet_done ?cb (usbc env) Msc_Out z = Some s'" "usb_frame z s'"
    "endpoints s' Msc_In = endpoints z Msc_In" "buf_ctrl s' = buf_ctrl z"
    using packet_done_waiting [OF arrived, of ?cb "usbc env"] by auto
  have "request_sense s' = request_sense x" "ejected s' = ejected x" "mem s' = mem z"
    using s'(2) z(6,7) by (auto simp: usb_frame_def)
  moreover have "csw x = \<lparr>csw_sig = CSW_SIG, csw_tag = cbw_tag cbw, residue = 0, csw_status = fst answer\<rparr>"
    by (simp add: x(4) s2_def)
  moreover have "msc_cmd_packet ?cb env Msc_Out s = Some s'"
    using s'(1) by (simp add: msc_cmd_packet_def internal x(1) dn z(1) del: callbacks.simps)
  ultimately show ?thesis
    using z(2,3) x(5,6) s'(3,4) by (simp add: read_buf_ctrl_def del: callbacks.simps)
qed

subsection \<open>Halting endpoints\<close>

text \<open>Halting, with the only function that is told of it: when the endpoint halts it does nothing.\<close>

lemma halt_proj:
  assumes "halt_state (endpoints s e) = HS_NONE" "h \<noteq> HS_NONE"
  shows "\<exists>s'. usb_stall_endpoint (callbacks env (Suc n)) (usbc env) e h s = Some s' \<and>
     endpoints s' = (endpoints s)(e := (endpoints s e)\<lparr>halt_state := h\<rparr>) \<and> transfers s' = transfers s \<and>
     device s' = device s \<and> picoboot_queue s' = picoboot_queue s \<and> virtual_disk_queue s' = virtual_disk_queue s \<and>
     current_cmd_status s' = current_cmd_status s \<and> msc_one_time s' = msc_one_time s"
proof -
  define s3 where "s3 = upd_ep e (\<lambda>ep. ep\<lparr>halt_state := h\<rparr>)
     (write_buf_ctrl e 0 (read_buf_ctrl e 0 s OR USB_BUF_CTRL_STALL (usbc env))
       (if ep_num (endpoints s e) = 0 then s\<lparr>ep_stall_arm := ep_stall_arm s OR
                            (if ep_in (endpoints s e) then USB_EP_STALL_ARM_EP0_IN_BITS (usbc env)
                             else USB_EP_STALL_ARM_EP0_OUT_BITS (usbc env))\<rparr> else s))"
  have r: "read_buf_ctrl e 0 (s\<lparr>ep_stall_arm := x\<rparr>) = read_buf_ctrl e 0 s" for x by (simp add: read_buf_ctrl_def)
  have "usb_stall_endpoint (callbacks env (Suc n)) (usbc env) e h s = Some s3"
    using assms by (cases "on_stall_change (endpoints s e)")
      (simp_all add: usb_stall_endpoint_def Let_def s3_def r callbacks_over_def msc_in_on_stall_change_def usbsimps)
  then show ?thesis
    by (intro exI [of _ s3]) (simp add: s3_def write_buf_ctrl_def upd_ep_def Let_def)
qed

text \<open>The mass storage interface after its first configuration.\<close>

definition msc_configured :: "('d, 'z) picoboot_state_scheme \<Rightarrow> bool" where
  "msc_configured s \<longleftrightarrow> msc_one_time s \<and> current_config_num (device s) \<noteq> 0 \<and>
     on_stall_change (endpoints s Msc_In) = Msc_in_on_stall_change \<and> default_transfer (endpoints s Msc_In) = None \<and>
     on_stall_change (endpoints s Msc_Out) = No_Stall_Change \<and>
     default_transfer (endpoints s Msc_Out) = Some Msc_Cmd_Transfer \<and> \<not> ep_in (endpoints s Msc_Out) \<and>
     tr_type (transfers s Msc_Cmd_Transfer) = Msc_Cmd_Packet"

lemma packet_done_halted:
  assumes "current_transfer (endpoints s e) = Some t" "halt_state (endpoints s e) \<noteq> HS_NONE"
  shows "\<exists>s'. usb_packet_done cb c e s = Some s' \<and> usb_frame s s' \<and>
     endpoints s' = (endpoints s)(e := (endpoints s e)\<lparr>current_transfer := None\<rparr>) \<and>
     (\<forall>t'. tr_type (transfers s' t') = tr_type (transfers s t'))"
proof -
  let ?s1 = "upd_tr t (\<lambda>t. t\<lparr>outstanding_packet := False\<rparr>) s"
  let ?s' = "upd_tr t (\<lambda>t. t\<lparr>remaining_packets_to_submit := 0, remaining_packets_to_handle := 0\<rparr>)
     (upd_ep e (\<lambda>ep. ep\<lparr>current_transfer := None\<rparr>) (upd_tr t (\<lambda>t. t\<lparr>completed := True\<rparr>) ?s1))"
  have "usb_packet_done cb c e s = Some ?s'"
    using assms by (simp add: usb_packet_done_def usb_check_for_transfer_completion_def usbsimps Let_def)
  moreover have "usb_frame s ?s'" by (intro usb_frame_into usb_frame_refl)
  ultimately show ?thesis by (intro exI [of _ ?s']) (simp add: upd_ep_def upd_tr_def)
qed

lemma invalid_cbw_ok:
  fixes s :: "('d, 'z) picoboot_state_scheme"
  assumes "usb_current_packet_buffer (usbc env) Msc_Out s = (b, s1)"
    "\<not> cbw_valid (buf_data_len b) (scsi_cbw_at (mem s) (buf_data b))"
    "halt_state (endpoints s Msc_In) = HS_NONE" "halt_state (endpoints s Msc_Out) = HS_NONE"
    "current_transfer (endpoints s Msc_Out) = Some t"
  shows "\<exists>s'. msc_cmd_packet (callbacks env (Suc n)) env Msc_Out s = Some s' \<and>
     halt_state (endpoints s' Msc_In) = HS_HALTED_ON_CONDITION \<and> halt_state (endpoints s' Msc_Out) = HS_HALTED_ON_CONDITION \<and>
     current_transfer (endpoints s' Msc_Out) = None \<and> (msc_configured s \<longrightarrow> msc_configured s')"
proof -
  let ?cb = "callbacks env (Suc n)"
  have s1: "mem s1 = mem s" "halt_state (endpoints s1 e) = halt_state (endpoints s e)"
    "current_transfer (endpoints s1 e) = current_transfer (endpoints s e)" "msc_configured s1 = msc_configured s" for e
    using assms(1) by (auto simp: usb_current_packet_buffer_def Let_def upd_ep_def msc_configured_def split: if_split_asm)
  obtain s2 where s2: "usb_stall_endpoint ?cb (usbc env) Msc_In HS_HALTED_ON_CONDITION s1 = Some s2"
    "endpoints s2 = (endpoints s1)(Msc_In := (endpoints s1 Msc_In)\<lparr>halt_state := HS_HALTED_ON_CONDITION\<rparr>)"
    "transfers s2 = transfers s1" "device s2 = device s1" "msc_one_time s2 = msc_one_time s1"
    using halt_proj [of s1 Msc_In HS_HALTED_ON_CONDITION env n] assms(3) s1 by auto
  obtain s3 where s3: "usb_stall_endpoint ?cb (usbc env) Msc_Out HS_HALTED_ON_CONDITION s2 = Some s3"
    "endpoints s3 = (endpoints s2)(Msc_Out := (endpoints s2 Msc_Out)\<lparr>halt_state := HS_HALTED_ON_CONDITION\<rparr>)"
    "transfers s3 = transfers s2" "device s3 = device s2" "msc_one_time s3 = msc_one_time s2"
    using halt_proj [of s2 Msc_Out HS_HALTED_ON_CONDITION env n] assms(4) s1 s2 by auto
  have cur: "current_transfer (endpoints s3 Msc_Out) = Some t" "halt_state (endpoints s3 Msc_Out) \<noteq> HS_NONE"
    using assms(5) s1 by (simp_all add: s2 s3)
  obtain s' where s': "usb_packet_done ?cb (usbc env) Msc_Out s3 = Some s'"
    "endpoints s' = (endpoints s3)(Msc_Out := (endpoints s3 Msc_Out)\<lparr>current_transfer := None\<rparr>)" "\<And>t'. tr_type (transfers s' t') = tr_type (transfers s3 t')" "usb_frame s3 s'"
    using packet_done_halted [OF cur, of ?cb "usbc env"] by auto
  have "device s' = device s3" "msc_one_time s' = msc_one_time s3" using s'(4) by (auto simp: usb_frame_def)
  then have conf: "msc_configured s' = msc_configured s1"
    by (simp add: msc_configured_def s'(2,3) s3(2-5) s2(2-5))
  have "msc_cmd_packet ?cb env Msc_Out s = Some s'"
    using assms(1,2) s2(1) s3(1) s'(1)
    by (simp add: msc_cmd_packet_def msc_cmd_packet_internal_def s1 Let_def msc_cmd_halt_def
        usb_halt_endpoint_on_condition_def del: callbacks.simps)
  then show ?thesis by (simp add: s'(2) s3(2) s2(2) conf s1)
qed

lemma clear_feature_halted:
  "halt_state (endpoints s e) = HS_HALTED_ON_CONDITION \<Longrightarrow>
   \<exists>s'. usb_clear_endpoint_halt cb c e s = Some s' \<and> (\<forall>e. halt_state (endpoints s' e) = halt_state (endpoints s e))"
  by (simp add: usb_clear_endpoint_halt_def less_usb_halt_state_def usbsimps)

text \<open>Starting a transfer on an OUT endpoint that the processor owns all buffers of.\<close>

lemma start_out:
  assumes "\<not> ep_in (endpoints s e)" "halt_state (endpoints s e) = HS_NONE"
    "owned_buffer_count (endpoints s e) = ep_buffer_count (endpoints s e)" "initial_packet_count ty = 1"
  shows "\<exists>s'. usb_reset_and_start_transfer cb c e t ty f s = Some s' \<and> halt_state (endpoints s' e) = HS_NONE \<and> \<not> ep_in (endpoints s' e) \<and>
     current_transfer (endpoints s' e) = Some t \<and> remaining_packets_to_submit (transfers s' t) = 0 \<and>
     remaining_packets_to_handle (transfers s' t) = 1 \<and> \<not> completed (transfers s' t) \<and> \<not> packet_queued (transfers s' t) \<and>
     unat (owned_buffer_count (endpoints s' e)) + 1 = unat (ep_buffer_count (endpoints s e)) \<and>
     (\<forall>e'. e' \<noteq> e \<longrightarrow> endpoints s' e' = endpoints s e') \<and> usb_frame s s' \<and>
     (\<exists>H P W G. endpoints s' e = (endpoints s e)\<lparr>current_transfer := Some t, chain_transfer := None, halt_state := HS_NONE,
        first_buffer_after_reset := False, next_pid := P, current_hw_buffer := H\<lparr>buf_valid := False\<rparr>, owned_buffer_count := W,
        current_give_buffer := G\<rparr>) \<and>
     transfers s' t = \<lparr>tr_type = ty, on_complete = f, remaining_packets_to_submit = 0, remaining_packets_to_handle = 1,
       outstanding_packet = False, packet_queued = False, started = True, completed = False\<rparr>"
proof -
  define s0 where "s0 = upd_tr t (\<lambda>t. t\<lparr>started := True\<rparr>)
         (upd_ep e (\<lambda>ep. ep\<lparr>current_transfer := Some t, chain_transfer := None\<rparr>) (usb_reset_transfer t ty f s))"
  have s0: "endpoints s0 e = (endpoints s e)\<lparr>current_transfer := Some t, chain_transfer := None\<rparr>"
    "e' \<noteq> e \<Longrightarrow> endpoints s0 e' = endpoints s e'"
    "transfers s0 t = \<lparr>tr_type = ty, on_complete = f, remaining_packets_to_submit = 1,
       remaining_packets_to_handle = 1, outstanding_packet = False, packet_queued = False, started = True, completed = False\<rparr>" for e'
    using assms(4) by (simp_all add: s0_def usbsimps usb_reset_transfer_def)
  have n0: "owned_buffer_count (endpoints s e) \<noteq> 0" using assms(3) by (simp add: ep_buffer_count_def)
  have may: "may_give e s0" "\<not> ep_in (endpoints s0 e)" "current_transfer (endpoints s0 e) = Some t"
    using assms n0 by (simp_all add: may_give_def s0)
  from give_buffer_some [OF may(3), of c "ucast (buffer_size (endpoints s0 e))"] obtain s1 where
    g: "usb_give_buffer c e (ucast (buffer_size (endpoints s0 e))) s0 = Some s1"
     "endpoints s1 e = (endpoints s0 e)\<lparr>halt_state := HS_NONE, first_buffer_after_reset := False,
       next_pid := next_pid (endpoints s0 e) XOR 1,
       current_hw_buffer := (current_hw_buffer (endpoints s0 e))\<lparr>buf_valid := False\<rparr>,
       owned_buffer_count := owned_buffer_count (endpoints s0 e) - 1,
       current_give_buffer := (if double_buffered (endpoints s0 e) then current_give_buffer (endpoints s0 e) XOR 1
                               else current_give_buffer (endpoints s0 e))\<rparr>"
     "transfers s1 t = (transfers s0 t)\<lparr>remaining_packets_to_submit := remaining_packets_to_submit (transfers s0 t) - 1\<rparr>"
     "\<forall>e'. e' \<noteq> e \<longrightarrow> endpoints s1 e' = endpoints s0 e'" by blast
  have s1: "usb_give_buffer c e (ucast (buffer_size (endpoints s0 e))) s0 = Some s1"
     "halt_state (endpoints s1 e) = HS_NONE" "current_transfer (endpoints s1 e) = Some t" "\<not> ep_in (endpoints s1 e)"
     "owned_buffer_count (endpoints s1 e) = owned_buffer_count (endpoints s e) - 1"
     "transfers s1 t = (transfers s0 t)\<lparr>remaining_packets_to_submit := remaining_packets_to_submit (transfers s0 t) - 1\<rparr>"
     "\<And>e'. e' \<noteq> e \<Longrightarrow> endpoints s1 e' = endpoints s0 e'"
    using g may(2) by (simp_all add: s0)
  have shape: "\<exists>H P W G. endpoints s1 e = (endpoints s e)\<lparr>current_transfer := Some t, chain_transfer := None, halt_state := HS_NONE,
        first_buffer_after_reset := False, next_pid := P, current_hw_buffer := H\<lparr>buf_valid := False\<rparr>, owned_buffer_count := W,
        current_give_buffer := G\<rparr>"
    unfolding g(2) s0(1) by ((rule exI)+, rule refl)
  have "\<not> may_give e s1" by (simp add: may_give_def s1 s0)
  then have run: "usb_reset_and_start_transfer cb c e t ty f s = Some s1"
    unfolding usb_reset_and_start_transfer_def usb_start_transfer_def s0_def [symmetric]
    using give_as_many_out_step [OF may(1,2)] s1(1) give_as_many_stop by simp
  have "usb_frame s s0" unfolding s0_def usb_reset_transfer_def by (intro usb_frame_into usb_frame_refl)
  then have "usb_frame s s1" by (rule usb_frame_trans [OF _ give_buffer_frame [OF s1(1)]])
  then show ?thesis using run s1 s0 shape assms(3) unat_pred [OF n0] by simp
qed

lemma reset_buffers_proj:
  "endpoints (usb_reset_buffers c e s) e = (endpoints s e)\<lparr>owned_buffer_count := ep_buffer_count (endpoints s e),
     current_give_buffer := 0, current_take_buffer := 0, first_buffer_after_reset := True,
     next_pid := next_pid (endpoints (usb_reset_buffers c e s) e)\<rparr>"
  "e' \<noteq> e \<Longrightarrow> endpoints (usb_reset_buffers c e s) e' = endpoints s e'"
  "transfers (usb_reset_buffers c e s) = transfers s" "device (usb_reset_buffers c e s) = device s"
  by (auto simp: usb_reset_buffers_def Let_def usbsimps ep_buffer_count_def)

lemma soft_reset_msc_in:
  fixes s :: "('d, 'z) picoboot_state_scheme"
  assumes "on_stall_change (endpoints s Msc_In) = Msc_in_on_stall_change" "default_transfer (endpoints s Msc_In) = None"
    "\<not> send_csw_on_unstall s"
  shows "\<exists>s'. usb_soft_reset_endpoint (callbacks env (Suc n)) (usbc env) Msc_In s = Some s' \<and>
     halt_state (endpoints s' Msc_In) = HS_NONE \<and> endpoints s' Msc_Out = endpoints s Msc_Out \<and>
     transfers s' = transfers s \<and> device s' = device s"
proof -
  define s1 where "s1 = upd_ep Msc_In (\<lambda>ep. ep\<lparr>current_hw_buffer := (current_hw_buffer ep)\<lparr>buf_valid := False\<rparr>\<rparr>)
     (usb_reset_buffers (usbc env) Msc_In (upd_ep Msc_In (\<lambda>ep. ep\<lparr>current_transfer := None\<rparr>) s))"
  have s1: "on_stall_change (endpoints s1 Msc_In) = Msc_in_on_stall_change" "default_transfer (endpoints s1 Msc_In) = None"
    "\<not> send_csw_on_unstall s1" "endpoints s1 Msc_Out = endpoints s Msc_Out" "transfers s1 = transfers s" "device s1 = device s"
    using assms by (simp_all add: s1_def usb_reset_buffers_def usbsimps Let_def upd_ep_def write_buf_ctrl_def)
  let ?s2 = "upd_ep Msc_In (\<lambda>ep. ep\<lparr>halt_state := HS_NONE\<rparr>) s1"
  have stall: "msc_in_on_stall_change (callbacks env n) (usbc env) Msc_In ?s2 = Some ?s2"
    using s1(3) by (simp add: msc_in_on_stall_change_def upd_ep_def)
  show ?thesis
    unfolding usb_soft_reset_endpoint_def usb_reset_endpoint_def Let_def if_False s1_def [symmetric]
    by (cases "halt_state (endpoints s1 Msc_In) = HS_NONE") (auto simp: s1 usbsimps callbacks_over_def stall)
qed

lemma soft_reset_default:
  assumes "on_stall_change (endpoints s e) = No_Stall_Change" "default_transfer (endpoints s e) = Some t"
    "current_config_num (device s) \<noteq> 0" "\<not> ep_in (endpoints s e)" "initial_packet_count (tr_type (transfers s t)) = 1"
  shows "\<exists>s'. usb_soft_reset_endpoint cb c e s = Some s' \<and> halt_state (endpoints s' e) = HS_NONE \<and> \<not> ep_in (endpoints s' e) \<and>
     current_transfer (endpoints s' e) = Some t \<and> remaining_packets_to_submit (transfers s' t) = 0 \<and>
     remaining_packets_to_handle (transfers s' t) = 1 \<and> \<not> completed (transfers s' t) \<and> \<not> packet_queued (transfers s' t) \<and>
     (\<forall>e'. e' \<noteq> e \<longrightarrow> endpoints s' e' = endpoints s e')"
proof -
  define s1 where "s1 = upd_ep e (\<lambda>ep. ep\<lparr>current_hw_buffer := (current_hw_buffer ep)\<lparr>buf_valid := False\<rparr>\<rparr>)
     (usb_reset_buffers c e (upd_ep e (\<lambda>ep. ep\<lparr>current_transfer := None\<rparr>) s))"
  have s1: "on_stall_change (endpoints s1 e) = No_Stall_Change" "default_transfer (endpoints s1 e) = Some t"
    "e' \<noteq> e \<Longrightarrow> endpoints s1 e' = endpoints s e'" "transfers s1 = transfers s" "device s1 = device s"
    "\<not> ep_in (endpoints s1 e)" "owned_buffer_count (endpoints s1 e) = ep_buffer_count (endpoints s1 e)"
    "current_transfer (endpoints s1 e) = None" for e'
    using assms by (simp_all add: s1_def usb_reset_buffers_def usbsimps Let_def ep_buffer_count_def)
  define s2 where "s2 = (if halt_state (endpoints s1 e) \<noteq> HS_NONE then upd_ep e (\<lambda>ep. ep\<lparr>halt_state := HS_NONE\<rparr>) s1 else s1)"
  have s2: "default_transfer (endpoints s2 e) = Some t" "e' \<noteq> e \<Longrightarrow> endpoints s2 e' = endpoints s e'"
    "transfers s2 = transfers s" "device s2 = device s" "\<not> ep_in (endpoints s2 e)" "halt_state (endpoints s2 e) = HS_NONE"
    "owned_buffer_count (endpoints s2 e) = ep_buffer_count (endpoints s2 e)" "current_transfer (endpoints s2 e) = None" for e'
    using s1 by (auto simp: s2_def usbsimps ep_buffer_count_def)
  have "usb_soft_reset_endpoint cb c e s = usb_reset_and_start_transfer cb c e t (tr_type (transfers s t)) No_Complete s2"
    unfolding usb_soft_reset_endpoint_def usb_reset_endpoint_def Let_def if_False s1_def [symmetric]
    using assms(3) s2 by (cases "halt_state (endpoints s1 e) = HS_NONE")
      (auto simp: s1 usbsimps s2_def start_default_transfer_def)
  then show ?thesis
    using start_out [OF s2(5,6,7) assms(5), of cb c t No_Complete] s2(2) by auto
qed

lemma msc_reset_ok:
  fixes s :: "('d, 'z) picoboot_state_scheme"
  assumes "msc_configured s"
  shows "\<exists>s'. msc_reset (callbacks env (Suc n)) (usbc env) s = Some s' \<and>
     halt_state (endpoints s' Msc_In) = HS_NONE \<and> command_arrived Msc_Out Msc_Cmd_Transfer s'"
proof -
  define z where "z = vd_reset (s\<lparr>csw := \<lparr>csw_sig = 0, csw_tag = 0, residue = 0, csw_status = 0\<rparr>,
                   request_sense := \<lparr>rs_code = 0x70, rs_key = 0, rs_additional_sense_len = 0xa, rs_asc = 0, rs_ascq = 0\<rparr>,
                   data_phase_length := 0, stall_direction_before_csw := SCSI_DIR_NONE, send_csw_on_unstall := False,
                   ejected := False\<rparr>)"
  have z: "endpoints z = endpoints s" "transfers z = transfers s" "device z = device s" "\<not> send_csw_on_unstall z"
    by (simp_all add: z_def vd_reset_def)
  have c: "on_stall_change (endpoints z Msc_In) = Msc_in_on_stall_change" "default_transfer (endpoints z Msc_In) = None"
    "on_stall_change (endpoints z Msc_Out) = No_Stall_Change" "default_transfer (endpoints z Msc_Out) = Some Msc_Cmd_Transfer"
    "\<not> ep_in (endpoints z Msc_Out)" "tr_type (transfers z Msc_Cmd_Transfer) = Msc_Cmd_Packet" "msc_one_time s"
    "current_config_num (device s) \<noteq> 0"
    using assms by (simp_all add: msc_configured_def z)
  obtain z1 where z1: "usb_soft_reset_endpoint (callbacks env (Suc n)) (usbc env) Msc_In z = Some z1"
    "halt_state (endpoints z1 Msc_In) = HS_NONE" "endpoints z1 Msc_Out = endpoints z Msc_Out" "transfers z1 = transfers z"
    "device z1 = device z"
    using soft_reset_msc_in [OF c(1,2) z(4), of env n] by blast
  have "initial_packet_count (tr_type (transfers z1 Msc_Cmd_Transfer)) = 1" by (simp add: z1 c)
  from soft_reset_default [of z1 Msc_Out, OF _ _ _ _ this, of "callbacks env (Suc n)" "usbc env"] obtain s' where
    s': "usb_soft_reset_endpoint (callbacks env (Suc n)) (usbc env) Msc_Out z1 = Some s'"
      "halt_state (endpoints s' Msc_Out) = HS_NONE" "current_transfer (endpoints s' Msc_Out) = Some Msc_Cmd_Transfer"
      "remaining_packets_to_submit (transfers s' Msc_Cmd_Transfer) = 0"
      "remaining_packets_to_handle (transfers s' Msc_Cmd_Transfer) = 1" "\<not> completed (transfers s' Msc_Cmd_Transfer)"
      "\<not> packet_queued (transfers s' Msc_Cmd_Transfer)" "endpoints s' Msc_In = endpoints z1 Msc_In"
      "\<not> ep_in (endpoints s' Msc_Out)"
    using c by (auto simp: z1 z)
  have "msc_reset (callbacks env (Suc n)) (usbc env) s = Some s'"
    unfolding msc_reset_def Let_def if_P [OF c(7)] z_def [symmetric] z1(1) bind.simps s'(1) ..
  then show ?thesis using s' z1(2) by (simp add: command_arrived_def)
qed

text \<open>
  Halted on condition, the endpoints stay halted when the host clears their halt feature, and the class
  reset gets the interface back to waiting for a command.
\<close>

lemma clear_condition_proj:
  "halt_state (endpoints (usb_clear_halt_condition e s) e') =
     (if e' = e \<and> halt_state (endpoints s e) = HS_HALTED_ON_CONDITION then HS_HALTED else halt_state (endpoints s e'))"
  "msc_configured (usb_clear_halt_condition e s) = msc_configured s"
  by (simp_all add: usb_clear_halt_condition_def usbsimps msc_configured_def upd_ep_def)

lemma halted_until_reset_ok:
  fixes s :: "('d, 'z) picoboot_state_scheme"
  assumes "usb_current_packet_buffer (usbc env) Msc_Out s = (b, s1)"
    "\<not> cbw_valid (buf_data_len b) (scsi_cbw_at (mem s) (buf_data b))"
    "halt_state (endpoints s Msc_In) = HS_NONE" "command_arrived Msc_Out Msc_Cmd_Transfer s" "msc_configured s"
  shows "\<exists>s'. msc_cmd_packet (callbacks env (Suc n)) env Msc_Out s = Some s' \<and>
     halt_state (endpoints s' Msc_In) = HS_HALTED_ON_CONDITION \<and> halt_state (endpoints s' Msc_Out) = HS_HALTED_ON_CONDITION \<and>
     (\<forall>e \<in> {Msc_In, Msc_Out}. \<exists>s2. usb_clear_endpoint_halt (callbacks env (Suc n)) (usbc env) e s' = Some s2 \<and>
        halt_state (endpoints s2 e) = HS_HALTED_ON_CONDITION) \<and>
     (\<exists>s3. msc_reset (callbacks env (Suc n)) (usbc env)
          (usb_clear_halt_condition Msc_Out (usb_clear_halt_condition Msc_In s')) = Some s3 \<and>
        halt_state (endpoints s3 Msc_In) = HS_NONE \<and> command_arrived Msc_Out Msc_Cmd_Transfer s3)"
proof -
  have "current_transfer (endpoints s Msc_Out) = Some Msc_Cmd_Transfer" "halt_state (endpoints s Msc_Out) = HS_NONE"
    using assms(4) by (simp_all add: command_arrived_def)
  from invalid_cbw_ok [OF assms(1-3) this(2,1), of n] obtain s' where
    s': "msc_cmd_packet (callbacks env (Suc n)) env Msc_Out s = Some s'"
      "halt_state (endpoints s' Msc_In) = HS_HALTED_ON_CONDITION" "halt_state (endpoints s' Msc_Out) = HS_HALTED_ON_CONDITION"
      "msc_configured s'"
    using assms(5) by blast
  have "msc_configured (usb_clear_halt_condition Msc_Out (usb_clear_halt_condition Msc_In s'))"
    using s'(4) by (simp add: clear_condition_proj)
  from msc_reset_ok [OF this, of env n] show ?thesis
    using s' clear_feature_halted [of s' Msc_In "callbacks env (Suc n)" "usbc env"]
      clear_feature_halted [of s' Msc_Out "callbacks env (Suc n)" "usbc env"]
    by (auto simp del: callbacks.simps)
qed

subsection \<open>PICOBOOT commands\<close>

definition picoboot_packet :: "('d, 'e) picoboot_env_scheme \<Rightarrow> ('d, 'z) picoboot_state_scheme \<Rightarrow> picoboot_cmd \<Rightarrow> bool" where
  "picoboot_packet env s cmd \<longleftrightarrow>
     (let b = fst (usb_current_packet_buffer (usbc env) Picoboot_Out s)
      in buf_data_len b = sizeof_picoboot_cmd (pico env) \<and> cmd = picoboot_cmd_at (pico env) (mem s) (buf_data b) \<and>
         dMagic cmd = PICOBOOT_MAGIC (pico env))"

lemma packet_buffer_same:
  assumes "usb_current_packet_buffer c e s = (b, s1)"
  shows "mem s1 = mem s" "transfers s1 = transfers s" "device s1 = device s"
    "endpoints s1 x = (if x = e then (endpoints s e)\<lparr>current_hw_buffer := b\<rparr> else endpoints s x)"
    "usb_frame s s1"
proof -
  show "usb_frame s s1" using packet_buffer_proj(3) [of s c e] assms by simp
qed (use assms in \<open>auto simp: usb_current_packet_buffer_def Let_def upd_ep_def split: if_split_asm\<close>)

text \<open>A status code with which a command is turned down before anything is done.\<close>

definition picoboot_refusal :: "('d, 'e) picoboot_env_scheme \<Rightarrow> picoboot_cmd \<Rightarrow> u32 option" where
  "picoboot_refusal env cmd =
     (let cid = unat (bCmdId cmd AND 0x7f)
      in if cid = 0 \<or> cid \<ge> 10 then Some (PICOBOOT_UNKNOWN_CMD (plat env))
         else if bCmdSize cmd \<noteq> fst (cmd_mapping (pico env) ! cid) then Some (PICOBOOT_INVALID_CMD_LENGTH (plat env))
         else if bCmdId cmd = PC_REBOOT (pico env) then None
         else if cid = 2 \<or> dTransferLength cmd \<noteq> (if cid \<in> {4, 5} then range_dSize cmd else 0)
         then Some (PICOBOOT_INVALID_TRANSFER_LENGTH (plat env))
         else None)"

lemma cmd_mapping_types:
  assumes "0 < cid" "cid < 10"
  shows "snd (snd (cmd_mapping p ! cid)) = [0, AT_EXCLUSIVE, 0, AT_FLASH_ERASE, AT_READ, AT_WRITE, AT_EXIT_XIP,
       AT_ENTER_CMD_XIP, AT_EXEC, AT_VECTORIZE_FLASH] ! cid"
    "fst (snd (cmd_mapping p ! cid)) = (if cid \<in> {4, 5} then 0x80 else 0)"
  using assms by (auto simp: cmd_mapping_def less_Suc_eq numeral_eq_Suc)

lemma set_cmd_status_proj:
  "endpoints (set_cmd_status c x) = endpoints x" "transfers (set_cmd_status c x) = transfers x"
  "picoboot_queue (set_cmd_status c x) = picoboot_queue x" "virtual_disk_queue (set_cmd_status c x) = virtual_disk_queue x"
  "current_cmd_status (set_cmd_status c x) = (current_cmd_status x)\<lparr>dStatusCode := c\<rparr>"
  by (simp_all add: set_cmd_status_def set_status_def)

lemma refused_command:
  assumes "picoboot_refusal env cmd = Some code"
  shows "\<exists>x. picoboot_execute_cmd cb env cmd s = picoboot_halt_both cb (usbc env) x \<and> endpoints x = endpoints s \<and>
     transfers x = transfers s \<and> picoboot_queue x = picoboot_queue s \<and> virtual_disk_queue x = virtual_disk_queue s \<and>
     current_cmd_status x = \<lparr>st_dToken = dToken cmd, dStatusCode = code, st_bCmdId = bCmdId cmd, bInProgress = False\<rparr>"
proof -
  let ?s1 = "picoboot_init_task cmd (plat env) s" and ?cid = "unat (bCmdId cmd AND 0x7f)"
  have s1: "endpoints ?s1 = endpoints s" "transfers ?s1 = transfers s" "picoboot_queue ?s1 = picoboot_queue s"
    "virtual_disk_queue ?s1 = virtual_disk_queue s"
    "current_cmd_status ?s1 = \<lparr>st_dToken = dToken cmd, dStatusCode = PICOBOOT_UNKNOWN_CMD (plat env),
       st_bCmdId = bCmdId cmd, bInProgress = False\<rparr>"
    by (cases "current_cmd_status s", simp_all add: picoboot_init_task_def Let_def)+
  have len: "length (cmd_mapping (pico env)) = 10" by (simp add: cmd_mapping_def)
  obtain size l ty where m: "cmd_mapping (pico env) ! ?cid = (size, l, ty)" by (rule prod_cases3)
  show ?thesis
  proof (cases "?cid = 0 \<or> ?cid \<ge> 10")
    case True
    then show ?thesis
      using assms s1 by (intro exI [of _ ?s1]) (auto simp: picoboot_execute_cmd_def Let_def len picoboot_refusal_def)
  next
    case False
    then have cid: "0 < ?cid" "?cid < 10" by auto
    note ty = cmd_mapping_types [OF cid, of "pico env", unfolded m, simplified]
    have ex: "picoboot_execute_cmd cb env cmd s =
      (if bCmdSize cmd = size then
         (let s2 = set_cmd_status (PICOBOOT_OK (plat env)) ?s1;
              len = (if l AND 0x80 \<noteq> 0 then range_dSize cmd else ucast l);
              ty' = (if len = dTransferLength cmd then ty else 0)
          in if bCmdId cmd = PC_REBOOT (pico env) then
               Option.bind (safe_reboot (boot_env.truncate env) (reboot_dPC cmd) (reboot_dSP cmd) (reboot_dDelayMS cmd) s2)
                 (picoboot_ack cb (usbc env))
             else if ty' \<noteq> 0 then picoboot_start_cmd cb env ty' cmd s2
             else picoboot_halt_both cb (usbc env) (set_cmd_status (PICOBOOT_INVALID_TRANSFER_LENGTH (plat env)) s2))
       else picoboot_halt_both cb (usbc env) (set_cmd_status (PICOBOOT_INVALID_CMD_LENGTH (plat env)) ?s1))"
      using cid unfolding picoboot_execute_cmd_def Let_def len by (simp add: m)
    show ?thesis
    proof (cases "bCmdSize cmd = size")
      case False
      then show ?thesis
        using assms cid s1 unfolding ex
        by (intro exI [of _ "set_cmd_status (PICOBOOT_INVALID_CMD_LENGTH (plat env)) ?s1"])
          (simp add: picoboot_refusal_def m set_cmd_status_proj)
    next
      case True
      let ?len = "if l AND 0x80 \<noteq> 0 then range_dSize cmd else ucast l"
      have r: "bCmdId cmd \<noteq> PC_REBOOT (pico env)" "?cid = 2 \<or> dTransferLength cmd \<noteq> ?len"
        "code = PICOBOOT_INVALID_TRANSFER_LENGTH (plat env)"
        using assms cid True ty(2) by (auto simp: picoboot_refusal_def m Let_def split: if_split_asm)
      then have "(if ?len = dTransferLength cmd then ty else 0) = 0" using ty(1) by auto
      then show ?thesis
        using True r s1 unfolding ex
        by (intro exI [of _ "set_cmd_status (PICOBOOT_INVALID_TRANSFER_LENGTH (plat env))
              (set_cmd_status (PICOBOOT_OK (plat env)) ?s1)"]) (simp add: set_cmd_status_proj)
    qed
  qed
qed

lemma picoboot_packet_internal:
  assumes "picoboot_packet env s cmd" "usb_current_packet_buffer (usbc env) Picoboot_Out s = (b, s1)"
  shows "picoboot_cmd_packet_internal cb env Picoboot_Out s = picoboot_execute_cmd cb env cmd s1"
proof -
  have "buf_data_len b = sizeof_picoboot_cmd (pico env)" "picoboot_cmd_at (pico env) (mem s1) (buf_data b) = cmd"
    "dMagic cmd = PICOBOOT_MAGIC (pico env)"
    using assms(1) unfolding picoboot_packet_def assms(2) packet_buffer_same(1) [OF assms(2)] Let_def by auto
  then show ?thesis by (simp add: picoboot_cmd_packet_internal_def assms(2) Let_def)
qed

lemma usb_frame_queues:
  assumes "usb_frame s s'"
  shows "picoboot_queue s' = picoboot_queue s" "virtual_disk_queue s' = virtual_disk_queue s" "flash s' = flash s"
    "flash_funcs s' = flash_funcs s" "rebooting s' = rebooting s"
  using assms by (auto simp: usb_frame_def)

lemma usb_frame_picoboot:
  assumes "usb_frame (s :: ('d, 'z) picoboot_state_scheme) s'"
  shows "current_cmd_status s' = current_cmd_status s" "stream_task s' = stream_task s"
  using assms by (auto simp: usb_frame_def)

lemma refused_command_ok:
  fixes s :: "('d, 'z) picoboot_state_scheme"
  assumes "picoboot_packet env s cmd" "picoboot_refusal env cmd = Some code"
    "halt_state (endpoints s Picoboot_In) = HS_NONE" "halt_state (endpoints s Picoboot_Out) = HS_NONE"
    "current_transfer (endpoints s Picoboot_Out) = Some t"
  shows "\<exists>s'. picoboot_cmd_packet (callbacks env (Suc n)) env Picoboot_Out s = Some s' \<and>
     halt_state (endpoints s' Picoboot_In) = HS_HALTED \<and> halt_state (endpoints s' Picoboot_Out) = HS_HALTED \<and>
     current_transfer (endpoints s' Picoboot_Out) = None \<and>
     picoboot_queue s' = picoboot_queue s \<and> virtual_disk_queue s' = virtual_disk_queue s \<and>
     current_cmd_status s' = \<lparr>st_dToken = dToken cmd, dStatusCode = code, st_bCmdId = bCmdId cmd, bInProgress = False\<rparr>"
proof -
  let ?cb = "callbacks env (Suc n)"
  obtain b s1 where b: "usb_current_packet_buffer (usbc env) Picoboot_Out s = (b, s1)" by (rule prod.exhaust)
  note same = packet_buffer_same [OF b]
  obtain x where x: "picoboot_execute_cmd ?cb env cmd s1 = picoboot_halt_both ?cb (usbc env) x" "endpoints x = endpoints s1"
    "transfers x = transfers s1" "picoboot_queue x = picoboot_queue s1" "virtual_disk_queue x = virtual_disk_queue s1"
    "current_cmd_status x = \<lparr>st_dToken = dToken cmd, dStatusCode = code, st_bCmdId = bCmdId cmd, bInProgress = False\<rparr>"
    using refused_command [OF assms(2), of ?cb s1] by blast
  have internal: "picoboot_cmd_packet_internal ?cb env Picoboot_Out s = picoboot_halt_both ?cb (usbc env) x"
    using picoboot_packet_internal [OF assms(1) b] x(1) by simp
  obtain s2 where s2: "usb_stall_endpoint ?cb (usbc env) Picoboot_In HS_HALTED x = Some s2"
    "endpoints s2 = (endpoints x)(Picoboot_In := (endpoints x Picoboot_In)\<lparr>halt_state := HS_HALTED\<rparr>)"
    "picoboot_queue s2 = picoboot_queue x" "virtual_disk_queue s2 = virtual_disk_queue x"
    "current_cmd_status s2 = current_cmd_status x"
    using halt_proj [of x Picoboot_In HS_HALTED env n] assms(3) by (auto simp: x(2) same(4))
  obtain s3 where s3: "usb_stall_endpoint ?cb (usbc env) Picoboot_Out HS_HALTED s2 = Some s3"
    "endpoints s3 = (endpoints s2)(Picoboot_Out := (endpoints s2 Picoboot_Out)\<lparr>halt_state := HS_HALTED\<rparr>)"
    "picoboot_queue s3 = picoboot_queue s2" "virtual_disk_queue s3 = virtual_disk_queue s2"
    "current_cmd_status s3 = current_cmd_status s2"
    using halt_proj [of s2 Picoboot_Out HS_HALTED env n] assms(4) by (auto simp: s2(2) x(2) same(4))
  have cur: "current_transfer (endpoints s3 Picoboot_Out) = Some t" "halt_state (endpoints s3 Picoboot_Out) \<noteq> HS_NONE"
    using assms(5) by (simp_all add: s3(2) s2(2) x(2) same(4))
  obtain s' where s': "usb_packet_done ?cb (usbc env) Picoboot_Out s3 = Some s'" "usb_frame s3 s'"
    "endpoints s' = (endpoints s3)(Picoboot_Out := (endpoints s3 Picoboot_Out)\<lparr>current_transfer := None\<rparr>)"
    using packet_done_halted [OF cur, of ?cb "usbc env"] by auto
  have "picoboot_cmd_packet ?cb env Picoboot_Out s = Some s'"
    using s2(1) s3(1) s'(1)
    by (simp add: picoboot_cmd_packet_def internal picoboot_halt_both_def usb_halt_endpoint_def del: callbacks.simps)
  moreover have "picoboot_queue s1 = picoboot_queue s" "virtual_disk_queue s1 = virtual_disk_queue s"
    using usb_frame_queues [OF same(5)] by simp_all
  ultimately show ?thesis
    by (simp add: s'(3) s3(2-) s2(2-) x(4-) usb_frame_queues [OF s'(2)] usb_frame_picoboot [OF s'(2)])
qed

text \<open>The task of a command.\<close>

definition command_task :: "picoboot_cmd \<Rightarrow> u8 \<Rightarrow> u32 \<Rightarrow> async_task" where
  "command_task cmd ty tok = zero_task\<lparr>task_token := tok, picoboot_user_token := dToken cmd, transfer_addr := range_dAddr cmd,
     erase_addr := range_dAddr cmd, erase_size := range_dSize cmd, exclusive_param := bExclusive cmd, task_type := ty,
     task_source := TASK_SOURCE_PICOBOOT, callback := Atc_ack\<rparr>"

lemma accepted_command:
  fixes s :: "('d, 'z) picoboot_state_scheme"
  assumes "picoboot_refusal env cmd = None" "bCmdId cmd \<noteq> PC_REBOOT (pico env)" "dTransferLength cmd = 0"
    "unat (bCmdId cmd AND 0x7f) \<notin> {4, 5}"
  shows "\<exists>x. picoboot_execute_cmd cb env cmd s = Some x \<and> mem x = mem s \<and> flash x = flash s \<and>
     flash_funcs x = flash_funcs s \<and> rebooting x = rebooting s \<and> virtual_disk_queue x = virtual_disk_queue s \<and>
     endpoints x = endpoints s \<and> transfers x = transfers s \<and>
     picoboot_queue x = (picoboot_queue s)\<lparr>queued_task := stream_task x, full := True\<rparr> \<and>
     stream_task x = command_task cmd (snd (snd (cmd_mapping (pico env) ! unat (bCmdId cmd AND 0x7f)))) (real_token s - 1) \<and>
     current_cmd_status x = \<lparr>st_dToken = dToken cmd, dStatusCode = PICOBOOT_OK (plat env), st_bCmdId = bCmdId cmd,
       bInProgress = True\<rparr>"
proof -
  let ?cid = "unat (bCmdId cmd AND 0x7f)"
  obtain size l ty where m: "cmd_mapping (pico env) ! ?cid = (size, l, ty)" by (rule prod_cases3)
  have cid: "0 < ?cid" "?cid < 10" "?cid \<noteq> 2" "bCmdSize cmd = size"
    using assms by (auto simp: picoboot_refusal_def Let_def m split: if_split_asm)
  note ty = cmd_mapping_types [OF cid(1,2), of "pico env", unfolded m, simplified]
  have "?cid = 1 \<or> ?cid = 3 \<or> ?cid = 6 \<or> ?cid = 7 \<or> ?cid = 8 \<or> ?cid = 9" using cid assms(4) by auto
  then have nz: "l = 0" "ty \<noteq> 0" unfolding ty by (elim disjE; simp)+
  have len: "length (cmd_mapping (pico env)) = 10" by (simp add: cmd_mapping_def)
  have "picoboot_execute_cmd cb env cmd s =
      picoboot_start_cmd cb env ty cmd (set_cmd_status (PICOBOOT_OK (plat env)) (picoboot_init_task cmd (plat env) s))"
    using cid assms nz unfolding picoboot_execute_cmd_def Let_def len by (simp add: m)
  then show ?thesis
    using assms(3) by (cases "current_cmd_status s")
      (simp add: picoboot_start_cmd_def queue_task_def set_queue_def get_queue_def set_cmd_status_def set_status_def
        picoboot_init_task_def Let_def command_task_def reset_task_def m zero_task_def)
qed

lemma picoboot_ack_ok:
  fixes s :: "('d, 'z) picoboot_state_scheme"
  assumes "ep_in (endpoints s Picoboot_In)" "halt_state (endpoints s Picoboot_In) = HS_NONE"
    "owned_buffer_count (endpoints s Picoboot_In) \<noteq> 0" "st_bCmdId (current_cmd_status s) AND 0x80 = 0"
  shows "\<exists>s'. picoboot_ack (callbacks env (Suc n)) (usbc env) s = Some s' \<and>
     current_cmd_status s' = (current_cmd_status s)\<lparr>bInProgress := False\<rparr> \<and>
     current_transfer (endpoints s' Picoboot_In) = Some Picoboot_Ack_Transfer \<and>
     read_buf_ctrl Picoboot_In (unat (current_give_buffer (endpoints s Picoboot_In))) s' =
       give_buffer_val (usbc env) (endpoints s Picoboot_In) 0 \<and> flash s' = flash s"
proof -
  let ?s = "set_status (\<lambda>r. r\<lparr>bInProgress := False\<rparr>) s"
  have ep: "endpoints ?s = endpoints s" "flash ?s = flash s" "current_cmd_status ?s = (current_cmd_status s)\<lparr>bInProgress := False\<rparr>"
    by (simp_all add: set_status_def)
  obtain s' where s': "usb_start_empty_transfer (callbacks env (Suc n)) (usbc env) Picoboot_In Picoboot_Ack_Transfer
      Tf_picoboot_wait_command ?s = Some s'" "usb_frame ?s s'"
    "current_transfer (endpoints s' Picoboot_In) = Some Picoboot_Ack_Transfer"
    "read_buf_ctrl Picoboot_In (unat (current_give_buffer (endpoints s Picoboot_In))) s' =
       give_buffer_val (usbc env) (endpoints s Picoboot_In) 0"
    using empty_in_transfer [of ?s Picoboot_In env n Picoboot_Ack_Transfer Tf_picoboot_wait_command] assms(1-3)
    unfolding ep by blast
  then show ?thesis
    using assms(4) usb_frame_picoboot(1) [OF s'(2)] usb_frame_queues(3) [OF s'(2)]
    by (simp add: picoboot_ack_def ep del: callbacks.simps)
qed

text \<open>A round of the worker that finds the task of a command.\<close>

lemma worker_round_command:
  fixes s :: "('d, 'z) picoboot_state_scheme"
  assumes "\<not> full (virtual_disk_queue s)" "picoboot_queue s = q\<lparr>queued_task := t, full := True\<rparr>" "\<not> disable q"
    "callback t = Atc_ack" "stream_task s = t"
    "execute_task_body be user eject t (s\<lparr>picoboot_queue := q\<lparr>queued_task := t, full := False\<rparr>, worker_task := t\<rparr>) = Some (code, z)"
    "stream_task z = t"
  shows "worker_round be user eject (task_callbacks cb env) s =
     map_option (Pair True) (picoboot_ack cb (usbc env) (z\<lparr>worker_task := t\<lparr>task_result := code\<rparr>\<rparr>))"
proof -
  have "dequeue_task Virtual_Disk_Queue s = (None, s)" using assms(1) by (simp add: dequeue_task_def get_queue_def)
  moreover have "dequeue_task Picoboot_Queue s = (Some t, s\<lparr>picoboot_queue := q\<lparr>queued_task := t, full := False\<rparr>\<rparr>)"
    by (simp add: dequeue_task_def get_queue_def set_queue_def assms(2))
  ultimately show ?thesis
    using assms(3-7)
    by (simp add: worker_round_def execute_task_def get_queue_def task_callbacks_def atc_ack_def Let_def)
qed

text \<open>The flash after the task of an erase command, if it gets that far.\<close>

definition erase_outcome :: "'d boot_env \<Rightarrow> picoboot_cmd \<Rightarrow> 'd flash_hw \<Rightarrow> 'd flash_hw option" where
  "erase_outcome env cmd h =
     (let a = range_dAddr cmd; n = range_dSize cmd
      in if a AND 0xfff = 0 \<and> n AND 0xfff = 0 \<and> is_address_flash (plat env) a \<and> is_address_flash (plat env) (a + n)
         then run_seq (map (\<lambda>i. flash_sector_erase (spi env) (a - XIP_MAIN_BASE (plat env) + word_of_nat (4096 * i)))
                [0..<unat n div 4096]) h
         else Some h)"

lemma flash_erase_command_ok:
  fixes s :: "('d, 'z) picoboot_state_scheme"
  assumes "picoboot_packet env s cmd" "picoboot_refusal env cmd = None" "bCmdId cmd = 3" "PC_REBOOT (pico env) \<noteq> 3"
    and "command_arrived Picoboot_Out Picoboot_Cmd_Transfer s"
    and "ep_in (endpoints s Picoboot_In)" "halt_state (endpoints s Picoboot_In) = HS_NONE"
      "owned_buffer_count (endpoints s Picoboot_In) \<noteq> 0"
    and "\<not> disable (picoboot_queue s)" "\<not> full (virtual_disk_queue s)" "\<not> rebooting s"
    and "rp2040_map (plat env)" "uses_rom_table (boot_env.truncate env) s" "unat (range_dAddr cmd) + unat (range_dSize cmd) < 2 ^ 32"
    and "erase_outcome (boot_env.truncate env) cmd (flash s) = Some h"
  shows "\<exists>s1 s2. picoboot_cmd_packet (callbacks env (Suc n)) env Picoboot_Out s = Some s1 \<and> flash s1 = flash s \<and>
     bInProgress (current_cmd_status s1) \<and>
     worker_round (boot_env.truncate env) user msc_eject (task_callbacks (callbacks env (Suc n)) env) s1 = Some (True, s2) \<and>
     flash s2 = h \<and>
     current_cmd_status s2 = \<lparr>st_dToken = dToken cmd, dStatusCode = PICOBOOT_OK (plat env), st_bCmdId = 3, bInProgress = False\<rparr> \<and>
     current_transfer (endpoints s2 Picoboot_In) = Some Picoboot_Ack_Transfer \<and>
     read_buf_ctrl Picoboot_In (unat (current_give_buffer (endpoints s Picoboot_In))) s2 =
       give_buffer_val (usbc env) (endpoints s Picoboot_In) 0"
proof -
  let ?cb = "callbacks env (Suc n)" and ?be = "boot_env.truncate env"
  obtain b s0 where b: "usb_current_packet_buffer (usbc env) Picoboot_Out s = (b, s0)" by (rule prod.exhaust)
  note same = packet_buffer_same [OF b]
  have three: "unat (bCmdId cmd AND 0x7f) = 3" by (simp add: assms(3))
  have "dTransferLength cmd = 0"
    using assms(2) unfolding picoboot_refusal_def Let_def three by (simp add: assms(3,4) split: if_split_asm)
  from accepted_command [OF assms(2) _ this, of ?cb s0] obtain x where
    x: "picoboot_execute_cmd ?cb env cmd s0 = Some x" "mem x = mem s" "flash x = flash s" "flash_funcs x = flash_funcs s"
      "rebooting x = rebooting s" "virtual_disk_queue x = virtual_disk_queue s" "endpoints x = endpoints s0"
      "transfers x = transfers s" "picoboot_queue x = (picoboot_queue s)\<lparr>queued_task := stream_task x, full := True\<rparr>"
      "stream_task x = command_task cmd AT_FLASH_ERASE (real_token s0 - 1)"
      "current_cmd_status x = \<lparr>st_dToken = dToken cmd, dStatusCode = PICOBOOT_OK (plat env), st_bCmdId = bCmdId cmd,
         bInProgress = True\<rparr>"
    using assms(3,4) usb_frame_queues [OF same(5)] same by (auto simp: three cmd_mapping_def)
  have w: "current_transfer (endpoints x Picoboot_Out) = Some Picoboot_Cmd_Transfer" "\<not> ep_in (endpoints x Picoboot_Out)"
    "halt_state (endpoints x Picoboot_Out) = HS_NONE" "remaining_packets_to_submit (transfers x Picoboot_Cmd_Transfer) = 0"
    "remaining_packets_to_handle (transfers x Picoboot_Cmd_Transfer) \<noteq> 0"
    "\<not> packet_queued (transfers x Picoboot_Cmd_Transfer)" "\<not> completed (transfers x Picoboot_Cmd_Transfer)"
    using assms(5) by (simp_all add: command_arrived_def x(7,8) same(4))
  obtain s1 where s1: "usb_packet_done ?cb (usbc env) Picoboot_Out x = Some s1" "usb_frame x s1"
    "endpoints s1 Picoboot_In = endpoints x Picoboot_In"
    using packet_done_waiting [OF w, of ?cb "usbc env"] by auto
  have pkt: "picoboot_cmd_packet ?cb env Picoboot_Out s = Some s1"
    using picoboot_packet_internal [OF assms(1) b, of ?cb] x(1) s1(1) by (simp add: picoboot_cmd_packet_def del: callbacks.simps)
  note f1 = usb_frame_queues [OF s1(2)] usb_frame_picoboot [OF s1(2)] usb_frame_same(1) [OF s1(2)]
  define t where "t = stream_task x"
  define q where "q = picoboot_queue s"
  define s1d where "s1d = s1\<lparr>picoboot_queue := q\<lparr>queued_task := t, full := False\<rparr>, worker_task := t\<rparr>"
  have t: "task_type t = AT_FLASH_ERASE" "\<not> check_last_mutation_source t" "erase_addr t = range_dAddr cmd"
    "erase_size t = range_dSize cmd" "callback t = Atc_ack"
    by (simp_all add: t_def x(10) command_task_def zero_task_def)
  have be: "plat ?be = plat env" "spi ?be = spi env" by (simp_all add: boot_env.truncate_def)
  have d: "\<not> watchdog_rebooting s1d" "uses_rom_table ?be s1d" "flash s1d = flash s"
    using assms(11,13) f1 x by (simp_all add: s1d_def watchdog_rebooting_def uses_rom_table_def)
  have map: "rp2040_map (plat ?be)" using assms(12) by (simp add: be)
  have sum: "unat (erase_addr t) + unat (erase_size t) < 2 ^ 32" using assms(14) by (simp add: t)
  note body = erase_task_ok [OF t(1) d(1) t(2) map d(2) sum, of user msc_eject, unfolded t(3,4) be d(3)]
  have "\<exists>code. execute_task_body ?be user msc_eject t s1d = Some (code, s1d\<lparr>last_mutation_source := task_source t, flash := h\<rparr>)"
  proof (cases "range_dAddr cmd AND 0xfff = 0 \<and> range_dSize cmd AND 0xfff = 0 \<and>
      is_address_flash (plat env) (range_dAddr cmd) \<and> is_address_flash (plat env) (range_dAddr cmd + range_dSize cmd)")
    case True
    then show ?thesis using assms(15) unfolding body erase_outcome_def be Let_def by simp
  next
    case False
    then have h: "h = flash s" using assms(15) unfolding erase_outcome_def be Let_def by (simp only: if_not_P if_False option.inject)
    have self: "s1d\<lparr>last_mutation_source := task_source t, flash := flash s1d\<rparr> = s1d\<lparr>last_mutation_source := task_source t\<rparr>"
      by simp
    show ?thesis
      unfolding h d(3) [symmetric] self
      using False unfolding body Let_def by (cases "range_dAddr cmd AND 0xfff = 0 \<and> range_dSize cmd AND 0xfff = 0") auto
  qed
  then obtain code where code: "execute_task_body ?be user msc_eject t s1d =
     Some (code, s1d\<lparr>last_mutation_source := task_source t, flash := h\<rparr>)" by blast
  let ?z = "s1d\<lparr>last_mutation_source := task_source t, flash := h, worker_task := t\<lparr>task_result := code\<rparr>\<rparr>"
  have round: "worker_round ?be user msc_eject (task_callbacks ?cb env) s1 = map_option (Pair True) (picoboot_ack ?cb (usbc env) ?z)"
    using worker_round_command [where s = s1 and q = q and t = t and be = ?be and user = user and eject = msc_eject
        and code = code and z = "s1d\<lparr>last_mutation_source := task_source t, flash := h\<rparr>" and cb = ?cb and env = env]
      t(5) code assms(9,10) f1 x(6,9)
    by (simp add: s1d_def q_def t_def del: callbacks.simps)
  have "endpoints ?z Picoboot_In = endpoints s Picoboot_In" "current_cmd_status ?z = current_cmd_status x"
    using s1(3) f1 by (simp_all add: s1d_def x(7) same(4))
  then have ack: "ep_in (endpoints ?z Picoboot_In)" "halt_state (endpoints ?z Picoboot_In) = HS_NONE"
    "owned_buffer_count (endpoints ?z Picoboot_In) \<noteq> 0" "st_bCmdId (current_cmd_status ?z) AND 0x80 = 0"
    using assms(6,7,8) by (simp_all add: x(11) assms(3))
  from picoboot_ack_ok [OF this, of env n] round show ?thesis
    using pkt f1 x(3,11) \<open>endpoints ?z Picoboot_In = endpoints s Picoboot_In\<close> \<open>current_cmd_status ?z = current_cmd_status x\<close>
    by (auto simp: assms(3) simp del: callbacks.simps)
qed

end
