(* ===== verification/Usb_Properties.thy ===== *)
theory Usb_Properties
  imports Usb_Requests
begin

section \<open>Properties of requests and commands\<close>

text \<open>
  The properties of the device as the host sees them, each with the whole call tree in place
  (\<open>callbacks env n\<close>), and a state with a request waiting, to apply them to.
\<close>

text \<open>An endpoint of its own, idle, that owns its buffers; with a packet of the given length in the buffer at 0x50100180.\<close>

definition example_endpoint :: "bool \<Rightarrow> usb_endpoint" where
  "example_endpoint is_in = zero_usb_endpoint\<lparr>ep_in := is_in, owned_buffer_count := 1\<rparr>"

definition example_packet :: "transfer_id \<Rightarrow> u8 \<Rightarrow> usb_endpoint" where
  "example_packet t n = (example_endpoint False)\<lparr>current_transfer := Some t, default_transfer := Some t,
     current_hw_buffer := \<lparr>buf_data = 0x50100180, buf_data_len = n, buf_data_max = 64, buf_valid = True\<rparr>\<rparr>"

definition example_waiting :: "transfer_type \<Rightarrow> usb_transfer" where
  "example_waiting ty = zero_usb_transfer\<lparr>tr_type := ty, remaining_packets_to_handle := 1, started := True\<rparr>"

text \<open>The device, configured, with a command block and a PICOBOOT command, both at 0x50100180.\<close>

definition example_command :: "u32 list \<Rightarrow> memory" where
  "example_command ws = wr32 (wr32 (wr32 (wr32 (wr32 (wr32 (\<lambda>_. 0) 0x50100180 (ws ! 0)) 0x50100184 (ws ! 1))
     0x50100188 (ws ! 2)) 0x5010018c (ws ! 3)) 0x50100190 (ws ! 4)) 0x50100194 (ws ! 5)"

definition example_memory :: "u32 list \<Rightarrow> memory" where
  "example_memory ws = mem_write (example_command ws) 0x1000 (default_table (boot_env.truncate boot_example_env))"

definition example_requests :: "u32 list \<Rightarrow> unit boot_state" where
  "example_requests ws = example_boot_state\<lparr>mem := example_memory ws,
     endpoints := (\<lambda>_. zero_usb_endpoint)(Control_In := example_endpoint True, Control_Out := example_endpoint False,
       Msc_In := (example_endpoint True)\<lparr>on_stall_change := Msc_in_on_stall_change\<rparr>,
       Msc_Out := example_packet Msc_Cmd_Transfer 31,
       Picoboot_In := example_endpoint True, Picoboot_Out := example_packet Picoboot_Cmd_Transfer 32),
     transfers := (\<lambda>_. zero_usb_transfer)(Msc_Cmd_Transfer := example_waiting Msc_Cmd_Packet,
       Picoboot_Cmd_Transfer := example_waiting Picoboot_Cmd_Packet),
     device := (device example_boot_state)\<lparr>current_config_num := 1\<rparr>, msc_one_time := True\<rparr>"

lemmas example_request_defs =
  example_requests_def example_endpoint_def example_packet_def example_waiting_def zero_usb_endpoint_def
  zero_usb_transfer_def

lemma example_request_parts:
  "plain_endpoint (endpoints (example_requests ws) Control_In)" "plain_endpoint (endpoints (example_requests ws) Control_Out)"
  "ep_in (endpoints (example_requests ws) Control_In)" "dev_addr_ctrl (example_requests ws) = 0"
  "can_answer (endpoints (example_requests ws) Msc_In)" "command_arrived Msc_Out Msc_Cmd_Transfer (example_requests ws)"
  "msc_configured (example_requests ws)" "halt_state (endpoints (example_requests ws) e) = HS_NONE"
  "command_arrived Picoboot_Out Picoboot_Cmd_Transfer (example_requests ws)"
  "ep_in (endpoints (example_requests ws) Picoboot_In)" "owned_buffer_count (endpoints (example_requests ws) Picoboot_In) = 1"
  "mem (example_requests ws) = example_memory ws" "\<not> ejected (example_requests ws)"
  by (simp_all add: plain_endpoint_def can_answer_def command_arrived_def msc_configured_def example_request_defs
      example_boot_state_def example_vd_state_def vd_state.defs usb_state.defs stream_state.defs msc_state.defs picoboot_state.defs)

lemma example_request_packets:
  "usb_current_packet_buffer c Msc_Out (example_requests ws) =
     (\<lparr>buf_data = 0x50100180, buf_data_len = 31, buf_data_max = 64, buf_valid = True\<rparr>, example_requests ws)"
  "usb_current_packet_buffer c Picoboot_Out (example_requests ws) =
     (\<lparr>buf_data = 0x50100180, buf_data_len = 32, buf_data_max = 64, buf_valid = True\<rparr>, example_requests ws)"
  by (simp_all add: usb_current_packet_buffer_def example_request_defs Let_def)

lemma length_default_table: "length (default_table env) = 28"
  by (simp add: default_table_unfold le32_def)

lemma example_memory_word:
  "28 \<le> unat (a - 0x1000) \<Longrightarrow> unat (a - 0x1000) + 4 \<le> 2 ^ 32 \<Longrightarrow>
   rd32 (example_memory ws) a = rd32 (example_command ws) a"
  unfolding example_memory_def by (rule rd32_write_other) (simp_all add: length_default_table)

lemma example_command_words:
 "rd32 (example_command ws) 0x50100180 = ws ! 0"
 "rd32 (example_command ws) 0x50100184 = ws ! 1"
 "rd32 (example_command ws) 0x50100188 = ws ! 2"
 "rd32 (example_command ws) 0x5010018c = ws ! 3"
 "rd32 (example_command ws) 0x50100190 = ws ! 4"
 "rd32 (example_command ws) 0x50100194 = ws ! 5"
  unfolding example_command_def by (simp_all add: rd32_wr32_same rd32_wr32_other)

lemma example_words:
 "rd32 (example_memory ws) 0x50100180 = ws ! 0"
 "rd32 (example_memory ws) 0x50100184 = ws ! 1"
 "rd32 (example_memory ws) 0x50100188 = ws ! 2"
 "rd32 (example_memory ws) 0x5010018c = ws ! 3"
 "rd32 (example_memory ws) 0x50100190 = ws ! 4"
 "rd32 (example_memory ws) 0x50100194 = ws ! 5"
  by (simp_all add: example_memory_word example_command_words)

lemma example_bytes:
  assumes "unat (x - 0x50100180) < 32"
  shows "example_memory ws x = example_command ws x"
proof -
  define y where "y = x - 0x50100180"
  have c: "unat (0x500ff180 :: u32) = 0x500ff180" by simp
  have y: "unat y < 32" using assms by (simp only: y_def)
  have sum: "unat (y + 0x500ff180) = unat y + 0x500ff180" by (subst unat_plus_noof) (unfold c, use y in simp_all)
  have "x - 0x1000 = y + 0x500ff180" by (simp add: y_def)
  then have "28 \<le> unat (x - 0x1000)" by (simp only: sum)
  then show ?thesis unfolding example_memory_def by (intro mem_write_other) (simp_all add: length_default_table)
qed

subsection \<open>The control endpoint\<close>

text \<open>C16. SET_ADDRESS is carried out in two steps, in the order the USB specification asks for. The request, for
  any address from 1 to 127 and whatever the control endpoint was doing, leaves the device at its old address and
  prepares the empty status packet; when the controller reports that packet as sent, and only then,
  the device records the new address and writes it to the address register.\<close>

theorem set_address_after_status:
  assumes "plain_endpoint (endpoints s Control_In)" "plain_endpoint (endpoints s Control_Out)" "ep_in (endpoints s Control_In)"
    and "bmRequestType setup = 0" "bRequest setup = USB_REQUEST_SET_ADDRESS"
    and "a = ucast (wValue setup)" "a \<noteq> (0 :: u8)" "a \<le> 127"
  shows "\<exists>s1. usb_handle_setup_packet (callbacks env (Suc n)) (usbc env) setup s = Some s1 \<and>
     current_address (device s1) = current_address (device s) \<and> dev_addr_ctrl s1 = dev_addr_ctrl s \<and>
     (\<exists>s2. usb_handle_transfer (callbacks env (Suc n)) (usbc env) 0 True which s1 = Some s2 \<and>
        current_address (device s2) = a \<and> dev_addr_ctrl s2 = ucast a)"
  by (rule set_address_ok [OF assms])

theorem set_address_after_status_witness:
  "\<exists>s1 s2. usb_handle_setup_packet (callbacks boot_example_env (Suc 0)) rp2040_usb
       \<lparr>bmRequestType = 0, bRequest = 5, wValue = 42, wIndex = 0, wLength = 0\<rparr> (example_requests []) = Some s1 \<and>
     dev_addr_ctrl s1 = 0 \<and> usb_handle_transfer (callbacks boot_example_env (Suc 0)) rp2040_usb 0 True 0 s1 = Some s2 \<and>
     dev_addr_ctrl s2 = 42"
  using set_address_after_status [of "example_requests []" "\<lparr>bmRequestType = 0, bRequest = 5, wValue = 42, wIndex = 0, wLength = 0\<rparr>"
      42 boot_example_env 0 0]
  unfolding rt_boot_example by (auto simp: example_request_parts simp del: callbacks.simps)

text \<open>C26. Giving buffers of an OUT endpoint terminates without calling anything, whatever the callbacks: it hands
  over as many buffers as the processor owns and packets remain to be submitted, whichever is less, with alternating
  data toggles, and no other; the control words of the buffers handed over are the ones that make them available.\<close>

theorem give_as_many_out:
  assumes "\<not> ep_in (endpoints s e)" "halt_state (endpoints s e) = HS_NONE" "current_transfer (endpoints s e) = Some t"
    and "owned_buffer_count (endpoints s e) \<le> ep_buffer_count (endpoints s e)"
  defines "k \<equiv> min (unat (owned_buffer_count (endpoints s e))) (unat (remaining_packets_to_submit (transfers s t)))"
  shows "\<exists>s'. usb_give_as_many_buffers_as_possible cb c e s = Some s' \<and>
     unat (owned_buffer_count (endpoints s' e)) + k = unat (owned_buffer_count (endpoints s e)) \<and>
     unat (remaining_packets_to_submit (transfers s' t)) + k = unat (remaining_packets_to_submit (transfers s t)) \<and>
     next_pid (endpoints s' e) = (if even k then next_pid (endpoints s e) else next_pid (endpoints s e) XOR 1) \<and>
     (0 < k \<longrightarrow> read_buf_ctrl e (unat (current_give_buffer (endpoints s e))) s' = nth_give_val c (endpoints s e) 0) \<and>
     (1 < k \<longrightarrow> read_buf_ctrl e (unat (current_give_buffer (endpoints s e) XOR 1)) s' = nth_give_val c (endpoints s e) 1)"
  unfolding k_def by (rule give_as_many_out_ok [OF assms(1-4)])

theorem give_as_many_out_witness:
  "\<exists>s'. usb_give_as_many_buffers_as_possible (callbacks boot_example_env 0) rp2040_usb Msc_Out
       (upd_tr Msc_Cmd_Transfer (\<lambda>t. t\<lparr>remaining_packets_to_submit := 3\<rparr>)
         (upd_ep Msc_Out (\<lambda>ep. ep\<lparr>double_buffered := True, owned_buffer_count := 2\<rparr>) (example_requests []))) = Some s' \<and>
     owned_buffer_count (endpoints s' Msc_Out) = 0 \<and> remaining_packets_to_submit (transfers s' Msc_Cmd_Transfer) = 1"
proof -
  let ?s = "upd_tr Msc_Cmd_Transfer (\<lambda>t. t\<lparr>remaining_packets_to_submit := 3\<rparr>)
         (upd_ep Msc_Out (\<lambda>ep. ep\<lparr>double_buffered := True, owned_buffer_count := 2\<rparr>) (example_requests []))"
  have s: "\<not> ep_in (endpoints ?s Msc_Out)" "halt_state (endpoints ?s Msc_Out) = HS_NONE"
    "current_transfer (endpoints ?s Msc_Out) = Some Msc_Cmd_Transfer"
    "owned_buffer_count (endpoints ?s Msc_Out) \<le> ep_buffer_count (endpoints ?s Msc_Out)"
    "unat (owned_buffer_count (endpoints ?s Msc_Out)) = 2"
    "unat (remaining_packets_to_submit (transfers ?s Msc_Cmd_Transfer)) = 3"
    by (simp_all add: upd_tr_def upd_ep_def example_request_defs ep_buffer_count_def)
  from give_as_many_out [OF s(1-4), of "callbacks boot_example_env 0" rp2040_usb] obtain s' where
    s': "usb_give_as_many_buffers_as_possible (callbacks boot_example_env 0) rp2040_usb Msc_Out ?s = Some s'"
      "unat (owned_buffer_count (endpoints s' Msc_Out)) + 2 = 2" "unat (remaining_packets_to_submit (transfers s' Msc_Cmd_Transfer)) + 2 = 3"
    unfolding s(5,6) by auto
  have "owned_buffer_count (endpoints s' Msc_Out) = 0" using s'(2) by (simp add: unat_eq_0)
  moreover have "remaining_packets_to_submit (transfers s' Msc_Cmd_Transfer) = 1"
    unfolding word_unat_eq_iff using s'(3) by simp
  ultimately show ?thesis using s'(1) by blast
qed

subsection \<open>Mass storage\<close>

text \<open>C13. Every mass storage command without data (and every unknown one), sent in a valid command block with data
  length zero, is answered at once with one command status block: the tag of the command, no residue, and the status,
  sense key and additional sense code that belong to the command: passed for synchronise, verify,
  start/stop and removal, by the state of the medium for the ready test, failed with an illegal request otherwise.
  A stop with the eject bit, and nothing else, ejects the medium. The 13 bytes are in the buffer that is handed to the controller.\<close>

theorem no_data_command_answer:
  fixes s :: "('d, 'z) picoboot_state_scheme"
  assumes "usb_current_packet_buffer (usbc env) Msc_Out s = (b, s1)" "cbw = scsi_cbw_at (mem s) (buf_data b)"
    "cbw_valid (buf_data_len b) cbw" "data_transfer_length cbw = 0" "cbw_cb cbw 0 \<notin> set scsi_data_commands"
    "can_answer (endpoints s Msc_In)" "command_arrived Msc_Out Msc_Cmd_Transfer s"
  shows "\<exists>s'. msc_cmd_packet (callbacks env (Suc n)) env Msc_Out s = Some s' \<and>
     mem_read (mem s') (give_addr (usbc env) (endpoints s Msc_In)) 13 =
       csw_bytes \<lparr>csw_sig = CSW_SIG, csw_tag = cbw_tag cbw, residue = 0,
         csw_status = fst (no_data_answer (cbw_cb cbw 0) (ejected s))\<rparr> \<and>
     read_buf_ctrl Msc_In (unat (current_give_buffer (endpoints s Msc_In))) s' =
       give_buffer_val (usbc env) (endpoints s Msc_In) 13 \<and>
     (rs_key (request_sense s'), rs_asc (request_sense s')) = snd (no_data_answer (cbw_cb cbw 0) (ejected s)) \<and>
     ejected s' = (ejected s \<or> cbw_cb cbw 0 = 0x1b \<and> cbw_cb cbw 4 AND 3 = 2)"
  by (rule no_data_command_ok [OF assms])

text \<open>A command block with signature, tag 0x77 and six command bytes: a ready test.\<close>

abbreviation example_ready_test :: "u32 list" where
  "example_ready_test \<equiv> [0x43425355, 0x77, 0, 0x00060000, 0, 0]"

lemma example_ready_test_cbw:
  assumes "cbw = scsi_cbw_at (example_memory example_ready_test) 0x50100180"
  shows "cbw_valid 31 cbw" "data_transfer_length cbw = 0" "cbw_cb cbw 0 = 0" "cbw_tag cbw = 0x77"
  unfolding assms by (simp_all add: cbw_valid_def scsi_cbw_at_def example_words,
      simp_all add: example_bytes example_command_def wr32_def le32_def)

theorem no_data_command_answer_witness:
  "\<exists>s'. msc_cmd_packet (callbacks boot_example_env (Suc 0)) boot_example_env Msc_Out (example_requests example_ready_test) = Some s' \<and>
     mem_read (mem s') 0x50100000 13 = [0x55, 0x53, 0x42, 0x53, 0x77, 0, 0, 0, 0, 0, 0, 0, 0]"
proof -
  let ?s = "example_requests example_ready_test"
  note cbw = example_ready_test_cbw [OF refl]
  have "give_addr (usbc boot_example_env) (endpoints ?s Msc_In) = 0x50100000"
    by (simp add: give_addr_def rp2040_usb_def example_request_defs)
  moreover have "cbw_cb (scsi_cbw_at (example_memory example_ready_test) 0x50100180) 0 \<notin> set scsi_data_commands"
    unfolding cbw(3) by (simp add: scsi_data_commands_def)
  ultimately show ?thesis
    using no_data_command_answer [where env = boot_example_env and s = ?s and n = 0, OF example_request_packets(1) refl]
    by (auto simp: example_request_parts cbw no_data_answer_def csw_bytes_def le32_def simp del: callbacks.simps)
qed

text \<open>C14. A command block that is not valid halts both mass storage endpoints, and they stay halted when the host clears
  their halt feature: only the class reset, which takes the condition off, gets the interface back to waiting
  for a command. This is the reset recovery of the bulk-only transport.\<close>

theorem invalid_cbw_halted_until_reset:
  fixes s :: "('d, 'z) picoboot_state_scheme"
  assumes "usb_current_packet_buffer (usbc env) Msc_Out s = (b, s1)"
    "\<not> cbw_valid (buf_data_len b) (scsi_cbw_at (mem s) (buf_data b))"
    "halt_state (endpoints s Msc_In) = HS_NONE" "command_arrived Msc_Out Msc_Cmd_Transfer s" "msc_configured s"
  shows "\<exists>s'. msc_cmd_packet (callbacks env (Suc n)) env Msc_Out s = Some s' \<and>
     halt_state (endpoints s' Msc_In) = HS_HALTED_ON_CONDITION \<and> halt_state (endpoints s' Msc_Out) = HS_HALTED_ON_CONDITION \<and>
     (\<forall>e \<in> {Msc_In, Msc_Out}. \<exists>s2. usb_clear_endpoint_halt (callbacks env (Suc n)) (usbc env) e s' = Some s2 \<and>
        halt_state (endpoints s2 e) = HS_HALTED_ON_CONDITION) \<and>
     (\<exists>s3. msc_reset (callbacks env (Suc n)) (usbc env)
          (usb_clear_halt_condition Msc_Out (usb_clear_halt_condition Msc_In s')) = Some s3 \<and>
        halt_state (endpoints s3 Msc_In) = HS_NONE \<and> command_arrived Msc_Out Msc_Cmd_Transfer s3)"
  by (rule halted_until_reset_ok [OF assms])

theorem invalid_cbw_halted_until_reset_witness:
  "\<exists>s'. msc_cmd_packet (callbacks boot_example_env (Suc 0)) boot_example_env Msc_Out (example_requests [0, 0, 0, 0, 0, 0]) = Some s' \<and>
     halt_state (endpoints s' Msc_In) = HS_HALTED_ON_CONDITION \<and> halt_state (endpoints s' Msc_Out) = HS_HALTED_ON_CONDITION"
proof -
  let ?s = "example_requests [0, 0, 0, 0, 0, 0]"
  have "\<not> cbw_valid 31 (scsi_cbw_at (example_memory [0, 0, 0, 0, 0, 0]) 0x50100180)"
    by (simp add: cbw_valid_def scsi_cbw_at_def example_words)
  then show ?thesis
    using invalid_cbw_halted_until_reset [where env = boot_example_env and s = ?s and n = 0, OF example_request_packets(1)]
    by (auto simp: example_request_parts simp del: callbacks.simps)
qed

subsection \<open>The PICOBOOT interface\<close>

text \<open>C15. Whatever command PICOBOOT turns down is turned down with the status code that belongs to the reason: not
  known, a command size other than the one of the command, a transfer length other than the one the command implies.
  Both endpoints halt, no task is queued, and the status record names the token and the identifier of the
  command, with the error code, and not in progress.\<close>

theorem picoboot_command_refused:
  fixes s :: "('d, 'z) picoboot_state_scheme"
  assumes "picoboot_packet env s cmd" "picoboot_refusal env cmd = Some code"
    "halt_state (endpoints s Picoboot_In) = HS_NONE" "halt_state (endpoints s Picoboot_Out) = HS_NONE"
    "current_transfer (endpoints s Picoboot_Out) = Some t"
  shows "\<exists>s'. picoboot_cmd_packet (callbacks env (Suc n)) env Picoboot_Out s = Some s' \<and>
     halt_state (endpoints s' Picoboot_In) = HS_HALTED \<and> halt_state (endpoints s' Picoboot_Out) = HS_HALTED \<and>
     current_transfer (endpoints s' Picoboot_Out) = None \<and>
     picoboot_queue s' = picoboot_queue s \<and> virtual_disk_queue s' = virtual_disk_queue s \<and>
     current_cmd_status s' = \<lparr>st_dToken = dToken cmd, dStatusCode = code, st_bCmdId = bCmdId cmd, bInProgress = False\<rparr>"
  by (rule refused_command_ok [OF assms])

text \<open>A PICOBOOT command with token 7: identifier and size in one word, the transfer length, and a range.\<close>

abbreviation example_picoboot :: "u32 \<Rightarrow> u32 \<Rightarrow> u32 \<Rightarrow> u32 list" where
  "example_picoboot cid_size len addr \<equiv> [0x431fd10b, 7, cid_size, len, addr, 0x1000]"

lemma example_picoboot_env:
  "pico boot_example_env = rp2040_picoboot" "plat boot_example_env = rp2040" "boot_env.truncate boot_example_env = example_env"
  by (simp_all add: boot_example_env_def picoboot_env.defs msc_env.defs vd_env.defs example_vd_env_def boot_env.defs
      example_env_def)

lemma example_picoboot_cmd:
  assumes "cmd = picoboot_cmd_layout (example_memory (example_picoboot w n a)) 0x50100180"
  shows "picoboot_packet boot_example_env (example_requests (example_picoboot w n a)) cmd" "dToken cmd = 7"
    "dTransferLength cmd = n" "range_dAddr cmd = a" "range_dSize cmd = 0x1000" "bCmdId cmd = ucast w" "bCmdSize cmd = ucast (drop_bit 8 w)"
proof -
  note p = example_picoboot_env(1)
  show "picoboot_packet boot_example_env (example_requests (example_picoboot w n a)) cmd"
    unfolding picoboot_packet_def example_request_packets example_request_parts p assms
    by (simp add: rp2040_picoboot_def picoboot_cmd_layout_def example_words)
qed (simp_all add: assms picoboot_cmd_layout_def example_words, simp_all add: example_bytes example_command_def wr32_def le32_def)

theorem picoboot_command_refused_witness:
  "\<exists>s'. picoboot_cmd_packet (callbacks boot_example_env (Suc 0)) boot_example_env Picoboot_Out
       (example_requests (example_picoboot 0x0c 0 0)) = Some s' \<and>
     current_cmd_status s' = \<lparr>st_dToken = 7, dStatusCode = PICOBOOT_UNKNOWN_CMD rp2040, st_bCmdId = 12, bInProgress = False\<rparr> \<and>
     halt_state (endpoints s' Picoboot_Out) = HS_HALTED"
proof -
  let ?s = "example_requests (example_picoboot 0x0c 0 0)"
  note cmd = example_picoboot_cmd [OF refl, of "0x0c" 0 0]
  have "picoboot_refusal boot_example_env (picoboot_cmd_layout (example_memory (example_picoboot 0x0c 0 0)) 0x50100180) =
      Some (PICOBOOT_UNKNOWN_CMD rp2040)"
    by (simp add: picoboot_refusal_def cmd example_picoboot_env Let_def)
  moreover have "current_transfer (endpoints ?s Picoboot_Out) = Some Picoboot_Cmd_Transfer"
    using example_request_parts(9) by (simp add: command_arrived_def)
  ultimately show ?thesis
    using picoboot_command_refused [OF cmd(1), of "PICOBOOT_UNKNOWN_CMD rp2040" Picoboot_Cmd_Transfer 0]
    by (auto simp: example_request_parts cmd simp del: callbacks.simps)
qed

text \<open>C7. An erase command, from the packet to the answer. The packet queues the task and answers nothing; the worker's
  next round runs it and sends the empty packet that acknowledges the command. The flash is then erased sector by sector over the range
  of the command, or is untouched where the range is misaligned or not in flash. In both cases the
  acknowledgement and the status record are the same, \<open>PICOBOOT_OK\<close>: the
  acknowledging callback does not look at the result of the task.\<close>

theorem flash_erase_command:
  fixes s :: "('d, 'z) picoboot_state_scheme"
  assumes "picoboot_packet env s cmd" "picoboot_refusal env cmd = None" "bCmdId cmd = 3" "PC_REBOOT (pico env) \<noteq> 3"
    and "command_arrived Picoboot_Out Picoboot_Cmd_Transfer s"
    and "ep_in (endpoints s Picoboot_In)" "halt_state (endpoints s Picoboot_In) = HS_NONE"
      "owned_buffer_count (endpoints s Picoboot_In) \<noteq> 0"
    and "\<not> disable (picoboot_queue s)" "\<not> full (virtual_disk_queue s)" "\<not> rebooting s"
    and "rp2040_map (plat env)" "uses_rom_table (boot_env.truncate env) s" "unat (range_dAddr cmd) + unat (range_dSize cmd) < 2 ^ 32"
    and "erase_outcome (boot_env.truncate env) cmd (flash s) = Some h"
  shows "\<exists>s1 s2. picoboot_cmd_packet (callbacks env (Suc n)) env Picoboot_Out s = Some s1 \<and> flash s1 = flash s \<and>
     bInProgress (current_cmd_status s1) \<and>
     worker_round (boot_env.truncate env) user msc_eject (task_callbacks (callbacks env (Suc n)) env) s1 = Some (True, s2) \<and>
     flash s2 = h \<and>
     current_cmd_status s2 = \<lparr>st_dToken = dToken cmd, dStatusCode = PICOBOOT_OK (plat env), st_bCmdId = 3, bInProgress = False\<rparr> \<and>
     current_transfer (endpoints s2 Picoboot_In) = Some Picoboot_Ack_Transfer \<and>
     read_buf_ctrl Picoboot_In (unat (current_give_buffer (endpoints s Picoboot_In))) s2 =
       give_buffer_val (usbc env) (endpoints s Picoboot_In) 0"
  by (rule flash_erase_command_ok [OF assms])

text \<open>The address is in the middle of a sector: nothing is erased, and the command is acknowledged.\<close>

theorem flash_erase_command_witness:
  "\<exists>s1 s2. picoboot_cmd_packet (callbacks boot_example_env (Suc 0)) boot_example_env Picoboot_Out
       (example_requests (example_picoboot 0x0803 0 0x10000800)) = Some s1 \<and>
     worker_round example_env (\<lambda>p args s. None) msc_eject (task_callbacks (callbacks boot_example_env (Suc 0)) boot_example_env) s1 =
       Some (True, s2) \<and>
     flash s2 = idle_hw () \<and>
     current_cmd_status s2 = \<lparr>st_dToken = 7, dStatusCode = PICOBOOT_OK rp2040, st_bCmdId = 3, bInProgress = False\<rparr> \<and>
     current_transfer (endpoints s2 Picoboot_In) = Some Picoboot_Ack_Transfer"
proof -
  let ?s = "example_requests (example_picoboot 0x0803 0 0x10000800)"
  let ?cmd = "picoboot_cmd_layout (example_memory (example_picoboot 0x0803 0 0x10000800)) 0x50100180"
  note cmd = example_picoboot_cmd [OF refl, of "0x0803" 0 "0x10000800"]
  have r: "picoboot_refusal boot_example_env ?cmd = None"
    by (simp add: picoboot_refusal_def cmd example_picoboot_env Let_def cmd_mapping_def rp2040_picoboot_def)
  have s: "flash ?s = idle_hw ()" "\<not> disable (picoboot_queue ?s)" "\<not> full (virtual_disk_queue ?s)" "\<not> rebooting ?s"
    "flash_funcs ?s = 0x1000"
    by (simp_all add: example_requests_def example_boot_state_def example_vd_state_def example_state_def picoboot_state.defs
        msc_state.defs stream_state.defs usb_state.defs vd_state.defs async_state.defs)
  have "uses_rom_table (boot_env.truncate boot_example_env) ?s"
    by (rule table_in_memory)
      (simp add: s example_request_parts example_memory_def mem_read_write_same length_default_table del: mem_write.simps)
  moreover have "erase_outcome (boot_env.truncate boot_example_env) ?cmd (flash ?s) = Some (flash ?s)"
    by (simp add: erase_outcome_def cmd Let_def)
  moreover have "PC_REBOOT (pico boot_example_env) \<noteq> 3" "bCmdId ?cmd = 3" by (simp_all add: example_picoboot_env rp2040_picoboot_def cmd)
  ultimately show ?thesis
    using flash_erase_command [where n = 0 and user = "\<lambda>p args s. None" and s = ?s and h = "idle_hw ()", OF cmd(1) r _ _ example_request_parts(9)] s example_request_parts(8,10,11)
    by (auto simp: cmd example_picoboot_env rp2040_map_rp2040 simp del: callbacks.simps)
qed

end
