(* ===== verification/Stream_Chunks.thy ===== *)
theory Stream_Chunks
  imports Usb_Stream
begin

section \<open>The chunks of a stream\<close>

text \<open>
  Which packets of a stream hand a chunk to the chunk function, and how long the chunks are, against
  a reference: whole chunks first, and a last one with what remains.
\<close>

definition chunk_lengths :: "nat \<Rightarrow> nat \<Rightarrow> nat list" where
  "chunk_lengths len c = replicate (len div c) c @ (if len mod c = 0 then [] else [len mod c])"

text \<open>The calls of a stream: the non-zero lengths at the offsets of its packets, in order.\<close>

definition stream_calls_of :: "(usb_stream \<Rightarrow> u32) \<Rightarrow> usb_stream \<Rightarrow> u32 list" where
  "stream_calls_of f st = filter (\<lambda>n. n \<noteq> 0)
     (map (\<lambda>i. f (st\<lparr>stream_offset := word_of_nat (64 * i)\<rparr>)) [0..<(unat (transfer_length st) + 63) div 64])"

lemma filter_single:
  assumes "a \<le> i" "i < b" "f i \<noteq> 0" "\<And>j. a \<le> j \<Longrightarrow> j < b \<Longrightarrow> j \<noteq> i \<Longrightarrow> f j = 0"
  shows "filter (\<lambda>n. n \<noteq> 0) (map f [a..<b]) = [f i]"
proof -
  have "[a..<b] = [a..<i] @ i # [Suc i..<b]"
    using assms(1,2) by (metis le_Suc_ex less_imp_le_nat upt_add_eq_append upt_conv_Cons)
  moreover have "filter (\<lambda>n. n \<noteq> 0) (map f [a..<i]) = []" "filter (\<lambda>n. n \<noteq> 0) (map f [Suc i..<b]) = []"
    using assms by (auto simp: filter_empty_conv)
  ultimately show ?thesis using assms(3) by simp
qed

text \<open>One call per block of packets, and at most one more in an incomplete last block.\<close>

lemma filter_blocks:
  assumes "0 < p" "\<And>j. j < q \<Longrightarrow> filter (\<lambda>n. n \<noteq> 0) (map f [j * p..<Suc j * p]) = [c]"
  shows "filter (\<lambda>n. n \<noteq> 0) (map f [0..<q * p]) = replicate q c"
  using assms(2)
proof (induction q)
  case (Suc q)
  have "[0..<Suc q * p] = [0..<q * p] @ [q * p..<Suc q * p]"
    using upt_add_eq_append [of 0 "q * p" p] by (simp add: add.commute)
  then show ?case using Suc by (simp add: replicate_append_same)
qed simp

lemma mask_mod: "unat (x AND (2 ^ k - 1)) = unat (x :: u32) mod 2 ^ k"
proof -
  have "x AND (2 ^ k - 1) = take_bit k x" by (simp add: take_bit_eq_mask mask_eq_exp_minus_1)
  then have "unat (x AND (2 ^ k - 1)) = unat (take_bit k x)" by (rule arg_cong)
  also have "\<dots> = take_bit k (unat x)" by (rule unsigned_take_bit_eq)
  finally show ?thesis by (simp only: take_bit_eq_mod)
qed

lemma unat_power_two: "k < 32 \<Longrightarrow> unat ((2 :: u32) ^ k) = 2 ^ k"
proof -
  assume "k < 32"
  then have "(2 :: nat) ^ k < 2 ^ LENGTH(32)" using power_strict_increasing [of k 32 "2 :: nat"] by simp
  then have "unat (word_of_nat (2 ^ k) :: u32) = 2 ^ k" by (rule unat_of_nat_small)
  then show ?thesis by simp
qed

text \<open>A stream whose chunks are a whole number of packets, a power of two, small enough for the sums not to wrap.\<close>

definition chunked_stream :: "usb_stream \<Rightarrow> nat \<Rightarrow> bool" where
  "chunked_stream st p \<longleftrightarrow> (\<exists>k. p = 2 ^ k \<and> k < 26 \<and> chunk_size st = 2 ^ (k + 6)) \<and>
     unat (transfer_length st) + 64 * p < 2 ^ 32"

abbreviation packet_at :: "usb_stream \<Rightarrow> nat \<Rightarrow> usb_stream" where
  "packet_at st i \<equiv> st\<lparr>stream_offset := word_of_nat (64 * i)\<rparr>"

lemma chunked_stream_parts:
  assumes "chunked_stream st p"
  shows "0 < p" "unat (chunk_size st) = 64 * p" "unat (x AND (chunk_size st - 1)) = unat x mod (64 * p)"
proof -
  obtain k where k: "p = 2 ^ k" "k < 26" "chunk_size st = 2 ^ (k + 6)" using assms by (auto simp: chunked_stream_def)
  have c: "(2 :: nat) ^ (k + 6) = 64 * p" by (simp add: k(1) power_add)
  have "unat (2 ^ (k + 6) :: u32) = 2 ^ (k + 6)" using k(2) by (intro unat_power_two) simp
  then show "unat (chunk_size st) = 64 * p" by (simp only: k(3) c)
  show "unat (x AND (chunk_size st - 1)) = unat x mod (64 * p)" unfolding k(3) mask_mod c ..
qed (use assms in \<open>auto simp: chunked_stream_def\<close>)

lemma chunk_offset_at:
  assumes "chunked_stream st p" "unat (stream_offset st) = 64 * i"
  shows "unat (usb_stream_chunk_offset st) = 64 * (i mod p)"
  unfolding usb_stream_chunk_offset_def chunked_stream_parts(3) [OF assms(1)] assms(2) mult_mod_right ..

lemma out_chunk_len_at:
  assumes "chunked_stream st p" "unat (stream_offset st) = 64 * i" "len = unat (transfer_length st)" "64 * i < len"
  shows "unat (out_chunk_len st) =
    (if len \<le> 64 * i + 64 then (if len mod (64 * p) = 0 then 64 * p else len mod (64 * p))
     else if Suc (i mod p) = p then 64 * p else 0)"
proof -
  note c = chunked_stream_parts [OF assms(1)]
  have small: "len + 64 * p < 2 ^ 32" using assms(1,3) by (simp add: chunked_stream_def)
  have off: "unat (stream_offset st + 64) = 64 * i + 64"
    by (subst unat_plus_noof) (use assms c(1) small in simp_all)
  have less: "i mod p < p" using c(1) by simp
  have "unat (usb_stream_chunk_offset st + 64) = 64 * (i mod p) + 64"
    by (subst unat_plus_noof) (use chunk_offset_at [OF assms(1,2)] less small in simp_all)
  then have last: "usb_stream_chunk_offset st + 64 \<ge> chunk_size st \<longleftrightarrow> Suc (i mod p) = p"
    unfolding word_le_nat_alt c(2) using less by linarith
  have zero: "transfer_length st AND (chunk_size st - 1) = 0 \<longleftrightarrow> len mod (64 * p) = 0"
    unfolding unat_eq_0 [symmetric] c(3) assms(3) ..
  have ends: "stream_offset st + 64 \<ge> transfer_length st \<longleftrightarrow> len \<le> 64 * i + 64"
    unfolding word_le_nat_alt off assms(3) ..
  show ?thesis unfolding out_chunk_len_def Let_def last zero ends by (simp add: c(2,3) assms(3))
qed

lemma in_chunk_len_at:
  assumes "chunked_stream st p" "unat (stream_offset st) = 64 * i" "len = unat (transfer_length st)" "64 * i < len"
  shows "unat (in_chunk_len st) = (if i mod p = 0 then min (64 * p) (len - 64 * i) else 0)"
proof -
  note c = chunked_stream_parts [OF assms(1)]
  have small: "len + 64 * p < 2 ^ 32" using assms(1,3) by (simp add: chunked_stream_def)
  have off: "unat (stream_offset st + chunk_size st) = 64 * i + 64 * p"
    by (subst unat_plus_noof) (use assms c(2) small in simp_all)
  have left: "unat (transfer_length st - stream_offset st) = len - 64 * i"
    by (subst unat_sub) (use assms in \<open>simp_all add: word_le_nat_alt\<close>)
  have zero: "usb_stream_chunk_offset st = 0 \<longleftrightarrow> i mod p = 0"
    unfolding unat_eq_0 [symmetric] chunk_offset_at [OF assms(1,2)] by simp
  have ends: "stream_offset st + chunk_size st > transfer_length st \<longleftrightarrow> len < 64 * i + 64 * p"
    unfolding word_less_nat_alt off assms(3) ..
  show ?thesis unfolding in_chunk_len_def zero ends by (auto simp: left c(2) min_def)
qed

text \<open>The lengths by packet number, for a stream of \<open>len\<close> bytes.\<close>

definition out_len :: "nat \<Rightarrow> nat \<Rightarrow> nat \<Rightarrow> nat" where
  "out_len len p i =
     (if len \<le> 64 * i + 64 then (if len mod (64 * p) = 0 then 64 * p else len mod (64 * p))
      else if Suc (i mod p) = p then 64 * p else 0)"

definition in_len :: "nat \<Rightarrow> nat \<Rightarrow> nat \<Rightarrow> nat" where
  "in_len len p i = (if i mod p = 0 then min (64 * p) (len - 64 * i) else 0)"

lemma block_mod:
  assumes "j * p \<le> i" "i < Suc j * p"
  shows "i mod p = i - j * p"
proof -
  have "i = j * p + (i - j * p)" "i - j * p < p" using assms by auto
  then show ?thesis by (metis mod_less mod_mult_self3)
qed

lemma out_len_block:
  assumes "0 < p" "Suc j * (64 * p) \<le> len"
  shows "filter (\<lambda>n. n \<noteq> 0) (map (out_len len p) [j * p..<Suc j * p]) = [64 * p]"
proof -
  let ?i = "Suc j * p - 1"
  have i: "j * p \<le> ?i" "?i < Suc j * p" "64 * ?i + 64 = Suc j * (64 * p)" using assms(1) by auto
  have m: "Suc (?i mod p) = p" using block_mod [OF i(1,2)] assms(1) by simp
  have "out_len len p ?i = 64 * p"
  proof (cases "len = Suc j * (64 * p)")
    case True
    then show ?thesis unfolding out_len_def i(3) by simp
  next
    case False
    then show ?thesis using assms(2) m unfolding out_len_def i(3) by simp
  qed
  moreover have "out_len len p x = 0" if x: "j * p \<le> x" "x < Suc j * p" "x \<noteq> ?i" for x
  proof -
    have "x + 1 < Suc j * p" using x by simp
    then have "64 * x + 64 < len" using assms(2) by simp
    moreover have "Suc (x mod p) \<noteq> p" using block_mod [OF x(1,2)] x by auto
    ultimately show ?thesis by (simp add: out_len_def)
  qed
  ultimately show ?thesis using filter_single [OF i(1,2), of "out_len len p"] assms(1) by simp
qed

lemma in_len_block:
  assumes "0 < p" "Suc j * (64 * p) \<le> len"
  shows "filter (\<lambda>n. n \<noteq> 0) (map (in_len len p) [j * p..<Suc j * p]) = [64 * p]"
proof -
  have "in_len len p (j * p) = 64 * p" using assms by (auto simp: in_len_def)
  moreover have "in_len len p x = 0" if "j * p \<le> x" "x < Suc j * p" "x \<noteq> j * p" for x
    using block_mod [OF that(1,2)] that by (simp add: in_len_def)
  ultimately show ?thesis using filter_single [of "j * p" "j * p" "Suc j * p" "in_len len p"] assms(1) by simp
qed

text \<open>The packets after the last whole chunk.\<close>

lemma out_len_rest:
  assumes "0 < p" "0 < len mod (64 * p)" "q = len div (64 * p)" "n = (len + 63) div 64"
  shows "filter (\<lambda>n. n \<noteq> 0) (map (out_len len p) [q * p..<n]) = [len mod (64 * p)]"
proof -
  have len: "len = q * (64 * p) + len mod (64 * p)" unfolding assms(3) by (rule div_mult_mod_eq [symmetric])
  have less: "len mod (64 * p) < 64 * p" using assms(1) by simp
  have i: "q * p \<le> n - 1" "n - 1 < n" "len \<le> 64 * (n - 1) + 64"
    using assms(2,4) len by (auto intro!: Nat.le_diff_conv2 [THEN iffD2])
  have "out_len len p x = 0" if x: "q * p \<le> x" "x < n" "x \<noteq> n - 1" for x
  proof -
    have "64 * x + 64 < len" using x assms(4) by linarith
    moreover from this have "x + 1 < Suc q * p" using len less by simp
    then have "Suc (x mod p) \<noteq> p" using block_mod [OF x(1)] x(1) unfolding mult_Suc by linarith
    ultimately show ?thesis by (simp add: out_len_def)
  qed
  moreover have "out_len len p (n - 1) = len mod (64 * p)" using i(3) assms(2) by (simp add: out_len_def)
  ultimately show ?thesis using filter_single [OF i(1,2), of "out_len len p"] assms(2) by simp
qed

lemma in_len_rest:
  assumes "0 < p" "0 < len mod (64 * p)" "q = len div (64 * p)" "n = (len + 63) div 64"
  shows "filter (\<lambda>n. n \<noteq> 0) (map (in_len len p) [q * p..<n]) = [len mod (64 * p)]"
proof -
  have len: "len = q * (64 * p) + len mod (64 * p)" unfolding assms(3) by (rule div_mult_mod_eq [symmetric])
  have less: "len mod (64 * p) < 64 * p" using assms(1) by simp
  have "q * p < n" using assms(2,4) len by linarith
  moreover have "in_len len p (q * p) = len mod (64 * p)" using len less by (simp add: in_len_def)
  moreover have "in_len len p x = 0" if x: "q * p \<le> x" "x < n" "x \<noteq> q * p" for x
  proof -
    have "64 * x < len" using x(2) assms(4) by linarith
    then have "x < Suc q * p" using len less by simp
    then show ?thesis using block_mod [OF x(1)] x by (simp add: in_len_def)
  qed
  ultimately show ?thesis using filter_single [of "q * p" "q * p" n "in_len len p"] assms(2) by simp
qed

lemma calls_chunk_lengths:
  assumes "0 < p" "n = (len + 63) div 64"
    and blocks: "\<And>j. Suc j * (64 * p) \<le> len \<Longrightarrow> filter (\<lambda>n. n \<noteq> 0) (map f [j * p..<Suc j * p]) = [64 * p]"
    and rest: "0 < len mod (64 * p) \<Longrightarrow>
      filter (\<lambda>n. n \<noteq> 0) (map f [len div (64 * p) * p..<n]) = [len mod (64 * p)]"
  shows "filter (\<lambda>n. n \<noteq> 0) (map f [0..<n]) = chunk_lengths len (64 * p)"
proof -
  let ?q = "len div (64 * p)"
  have len: "len = ?q * (64 * p) + len mod (64 * p)" by (rule div_mult_mod_eq [symmetric])
  have "?q * p \<le> n" using assms(2) len by linarith
  then have split: "[0..<n] = [0..<?q * p] @ [?q * p..<n]" by (metis le_add_diff_inverse upt_add_eq_append zero_le)
  have "filter (\<lambda>n. n \<noteq> 0) (map f [0..<?q * p]) = replicate ?q (64 * p)"
  proof (rule filter_blocks [OF assms(1) blocks])
    fix j assume "j < ?q"
    then have "Suc j * (64 * p) \<le> ?q * (64 * p)" by (intro mult_le_mono1) simp
    then show "Suc j * (64 * p) \<le> len" using len by linarith
  qed
  moreover have "n = ?q * p" if "len mod (64 * p) = 0" using that len assms(2) by simp
  ultimately show ?thesis using rest unfolding split by (simp add: chunk_lengths_def)
qed

lemma stream_calls_eq:
  assumes "chunked_stream st p" "len = unat (transfer_length st)"
    and at: "\<And>i. 64 * i < len \<Longrightarrow> unat (f (packet_at st i)) = g i"
  shows "map unat (stream_calls_of f st) = filter (\<lambda>n. n \<noteq> 0) (map g [0..<(len + 63) div 64])"
proof -
  have nz: "map unat (filter (\<lambda>n. n \<noteq> 0) ws) = filter (\<lambda>n. n \<noteq> 0) (map unat ws)" for ws :: "u32 list"
    by (induction ws) (simp_all add: unat_eq_0)
  have "map unat (map (\<lambda>i. f (packet_at st i)) [0..<(len + 63) div 64]) = map g [0..<(len + 63) div 64]"
    using at by simp
  then show ?thesis unfolding stream_calls_of_def nz assms(2) [symmetric] by (simp only:)
qed

lemma chunk_schedule_ok:
  assumes "chunked_stream st p"
  shows "map unat (stream_calls_of out_chunk_len st) = chunk_lengths (unat (transfer_length st)) (64 * p)"
    "map unat (stream_calls_of in_chunk_len st) = chunk_lengths (unat (transfer_length st)) (64 * p)"
proof -
  let ?len = "unat (transfer_length st)"
  have p: "0 < p" and small: "?len + 64 * p < 2 ^ 32"
    using assms chunked_stream_parts(1) by (auto simp: chunked_stream_def)
  have off: "unat (stream_offset (packet_at st i)) = 64 * i" if "64 * i < ?len" for i
  proof -
    have "unat (word_of_nat (64 * i) :: u32) = 64 * i" by (rule unat_of_nat_small) (use that small in simp)
    then show ?thesis by simp
  qed
  have st: "chunked_stream (packet_at st i) p" for i using assms by (simp add: chunked_stream_def)
  have out: "unat (out_chunk_len (packet_at st i)) = out_len ?len p i" if "64 * i < ?len" for i
    unfolding out_len_def by (rule out_chunk_len_at [OF st off [OF that] _ that]) simp
  have "in": "unat (in_chunk_len (packet_at st i)) = in_len ?len p i" if "64 * i < ?len" for i
    unfolding in_len_def by (rule in_chunk_len_at [OF st off [OF that] _ that]) simp
  show "map unat (stream_calls_of out_chunk_len st) = chunk_lengths ?len (64 * p)"
    using stream_calls_eq [of st p ?len out_chunk_len "out_len ?len p"] assms out
      calls_chunk_lengths [OF p refl out_len_block [OF p] out_len_rest [OF p _ refl refl]] by simp
  show "map unat (stream_calls_of in_chunk_len st) = chunk_lengths ?len (64 * p)"
    using stream_calls_eq [of st p ?len in_chunk_len "in_len ?len p"] assms "in"
      calls_chunk_lengths [OF p refl in_len_block [OF p] in_len_rest [OF p _ refl refl]] by simp
qed

lemma sum_chunk_lengths: "sum_list (chunk_lengths len c) = len"
  using div_mult_mod_eq [of len c] by (auto simp: chunk_lengths_def sum_list_replicate)

text \<open>C21. The two ways of splitting a stream into chunks agree with the reference and so with each other. An OUT stream
  learns at the end of a packet that a chunk is full or the transfer over, an IN stream at the
  start of a packet that it needs the next chunk; either way, over the packets of the
  transfer, the chunk function is called with whole chunks and a last one of what remains, and the lengths add up to the length of the transfer.\<close>

theorem stream_chunk_schedule:
  assumes "chunked_stream st p"
  shows "map unat (stream_calls_of out_chunk_len st) = chunk_lengths (unat (transfer_length st)) (64 * p) \<and>
    stream_calls_of in_chunk_len st = stream_calls_of out_chunk_len st \<and>
    sum_list (map unat (stream_calls_of out_chunk_len st)) = unat (transfer_length st)"
proof -
  have "map unat (stream_calls_of in_chunk_len st) = map unat (stream_calls_of out_chunk_len st)"
    by (simp only: chunk_schedule_ok [OF assms])
  then have "stream_calls_of in_chunk_len st = stream_calls_of out_chunk_len st"
    by (rule map_injective) (rule injI, simp add: word_unat_eq_iff)
  then show ?thesis by (simp add: chunk_schedule_ok [OF assms] sum_chunk_lengths)
qed

text \<open>The chunks of a flash page: 600 bytes are two pages and 88 bytes.\<close>

theorem stream_chunk_schedule_witness:
  "map unat (stream_calls_of out_chunk_len \<lparr>stream_offset = 0, transfer_length = 600, chunk_size = 256, chunk_buffer = 0,
     stream_ep = Picoboot_Out, stream_functions = Picoboot_Stream_Funcs\<rparr>) = [256, 256, 88]"
proof -
  let ?st = "\<lparr>stream_offset = 0, transfer_length = 600, chunk_size = 256, chunk_buffer = 0,
     stream_ep = Picoboot_Out, stream_functions = Picoboot_Stream_Funcs\<rparr>"
  have "(4 :: nat) = 2 ^ 2" "chunk_size ?st = 2 ^ (2 + 6)" by simp_all
  then have "chunked_stream ?st 4" unfolding chunked_stream_def by (intro conjI exI [of _ 2]) simp_all
  then have "map unat (stream_calls_of out_chunk_len ?st) = chunk_lengths (unat (transfer_length ?st)) (64 * 4)"
    by (rule stream_chunk_schedule [THEN conjunct1])
  also have "unat (transfer_length ?st) = 600" by simp
  also have "chunk_lengths 600 (64 * 4) = [256, 256, 88]" by (simp add: chunk_lengths_def numeral_2_eq_2)
  finally show ?thesis .
qed

text \<open>C39. The number of packets that a stream of \<open>len\<close> bytes is set up for is the number needed, up to 64 bytes short of
  4 GiB; for longer transfers the sum in \<open>(len + 63) / 64\<close> wraps, and the transfer is set up
  with no packet at all.\<close>

theorem stream_setup_packets:
  "unat (remaining_packets_to_submit (transfers (usb_stream_setup_transfer t funcs buf n len f s) t)) =
     (if len \<le> 0xffffffc0 then (unat len + 63) div 64 else 0) \<and>
   remaining_packets_to_handle (transfers (usb_stream_setup_transfer t funcs buf n len f s) t) =
     remaining_packets_to_submit (transfers (usb_stream_setup_transfer t funcs buf n len f s) t)"
proof -
  have "unat (len + 63) div 64 = (if len \<le> 0xffffffc0 then (unat len + 63) div 64 else 0)"
  proof (cases "len \<le> 0xffffffc0")
    case True
    then have "unat (len + 63) = unat len + 63" by (subst unat_plus_noof) (simp_all add: word_le_nat_alt)
    then show ?thesis using True by simp
  next
    case False
    moreover have "unat len < 2 ^ LENGTH(32)" by (rule unsigned_less)
    ultimately have "4294967232 < unat len" "unat len < 4294967296" by (simp_all add: word_le_nat_alt)
    then obtain d where "unat len + 63 = d + 4294967296" "d < 64"
      by (intro that [of "unat len - 4294967233"]) linarith+
    then have "unat (len + 63) = d" by (simp add: unat_word_ariths)
    then have "unat (len + 63) < 64" using \<open>d < 64\<close> by simp
    then show ?thesis using False by simp
  qed
  then show ?thesis
    by (simp add: usb_stream_setup_transfer_def usb_grow_transfer_def usb_reset_transfer_def
        upd_tr_def upd_stream_def unat_div)
qed

end
