(* ===== verification/Stream_Out.thy ===== *)
theory Stream_Out
  imports Usb_Requests Stream_Chunks
begin

section \<open>Packets of a stream from the host\<close>

text \<open>
  What happens to an OUT stream, packet by packet: the controller leaves a packet in one of the two
  buffers of the endpoint, the interrupt handler stores it in the chunk buffer, counts it and gives the
  buffer back. The packet that ends a chunk calls the chunk function; the last one ends the transfer.
\<close>

subsection \<open>The controller\<close>

text \<open>The address of a buffer of an endpoint, and a packet that arrives in it with a control word.\<close>

definition take_addr :: "usb_consts \<Rightarrow> usb_endpoint \<Rightarrow> u8 \<Rightarrow> u32" where
  "take_addr c ep which = USBCTRL_DPRAM_BASE c + ucast (dpram_buffer_offset ep) + (if which \<noteq> 0 then 64 else 0)"

definition packet_arrives ::
    "usb_consts \<Rightarrow> ep_id \<Rightarrow> u8 \<Rightarrow> u16 \<Rightarrow> u8 list \<Rightarrow> ('d, 'z) usb_state_scheme \<Rightarrow> ('d, 'z) usb_state_scheme" where
  "packet_arrives c e which v p s =
     write_buf_ctrl e (unat which) v (s\<lparr>mem := mem_write (mem s) (take_addr c (endpoints s e) which) p\<rparr>)"

definition ctrl_length :: "usb_consts \<Rightarrow> u16 \<Rightarrow> nat \<Rightarrow> bool" where
  "ctrl_length c v n \<longleftrightarrow> ucast (USB_BUF_CTRL_LEN_MASK c AND v) = (word_of_nat n :: u8)"

subsection \<open>What packets may change\<close>

definition stream_frame :: "('d, 'z) msc_state_scheme \<Rightarrow> ('d, 'z) msc_state_scheme \<Rightarrow> bool" where
  "stream_frame s s' \<longleftrightarrow> (\<exists>G M E T B S C. s' = s\<lparr>gpio_out := G, mem := M, endpoints := E, transfers := T,
     buf_ctrl := B, streams := S, csw := C\<rparr>)"

lemma stream_frameI: "s' = s\<lparr>gpio_out := G, mem := M, endpoints := E, transfers := T, buf_ctrl := B, streams := S,
    csw := C\<rparr> \<Longrightarrow> stream_frame s s'"
  unfolding stream_frame_def by ((rule exI)+, assumption)

lemma stream_frame_refl: "stream_frame s s"
  by (rule stream_frameI [where G = "gpio_out s" and M = "mem s" and E = "endpoints s" and T = "transfers s" and
      B = "buf_ctrl s" and S = "streams s" and C = "csw s"]) simp

lemma stream_frame_trans: "stream_frame s s1 \<Longrightarrow> stream_frame s1 s2 \<Longrightarrow> stream_frame s s2"
  unfolding stream_frame_def by (elim exE, simp, (rule exI)+, rule refl)

lemma usb_frame_stream: "usb_frame s s' \<Longrightarrow> stream_frame s s'"
  by (auto simp: usb_frame_def intro: stream_frameI [where G = "gpio_out s" and M = "mem s" and S = "streams s" and C = "csw s"])

lemma stream_frame_upd:
  "stream_frame s (s\<lparr>mem := m\<rparr>)" "stream_frame s (s\<lparr>gpio_out := g\<rparr>)" "stream_frame s (s\<lparr>csw := w\<rparr>)"
  "stream_frame s (upd_stream t f s)"
proof -
  show "stream_frame s (s\<lparr>mem := m\<rparr>)"
    by (rule stream_frameI [where G = "gpio_out s" and M = m and E = "endpoints s" and T = "transfers s" and
      B = "buf_ctrl s" and S = "streams s" and C = "csw s"]) simp
  show "stream_frame s (s\<lparr>gpio_out := g\<rparr>)"
    by (rule stream_frameI [where G = g and M = "mem s" and E = "endpoints s" and T = "transfers s" and
      B = "buf_ctrl s" and S = "streams s" and C = "csw s"]) simp
  show "stream_frame s (s\<lparr>csw := w\<rparr>)"
    by (rule stream_frameI [where G = "gpio_out s" and M = "mem s" and E = "endpoints s" and T = "transfers s" and
      B = "buf_ctrl s" and S = "streams s" and C = w]) simp
  show "stream_frame s (upd_stream t f s)"
    by (rule stream_frameI [where G = "gpio_out s" and M = "mem s" and E = "endpoints s" and T = "transfers s" and
      B = "buf_ctrl s" and S = "(streams s)(t := f (streams s t))" and C = "csw s"]) (simp add: upd_stream_def)
qed

text \<open>What stays of the endpoint, the transfer and the stream.\<close>

definition same_endpoint :: "usb_endpoint \<Rightarrow> usb_endpoint \<Rightarrow> bool" where
  "same_endpoint ep ep' \<longleftrightarrow> (\<exists>H P W G T F. ep' = ep\<lparr>current_hw_buffer := H, next_pid := P, owned_buffer_count := W,
     current_give_buffer := G, current_take_buffer := T, first_buffer_after_reset := F\<rparr>)"

lemma same_endpointI: "ep' = ep\<lparr>current_hw_buffer := H, next_pid := P, owned_buffer_count := W,
     current_give_buffer := G, current_take_buffer := T, first_buffer_after_reset := F\<rparr> \<Longrightarrow> same_endpoint ep ep'"
  unfolding same_endpoint_def by ((rule exI)+, assumption)

lemma same_endpoint_refl: "same_endpoint ep ep"
  by (rule same_endpointI [where H = "current_hw_buffer ep" and P = "next_pid ep" and W = "owned_buffer_count ep" and
      G = "current_give_buffer ep" and T = "current_take_buffer ep" and F = "first_buffer_after_reset ep"]) simp

lemma same_endpoint_trans: "same_endpoint a b \<Longrightarrow> same_endpoint b c \<Longrightarrow> same_endpoint a c"
  unfolding same_endpoint_def by (elim exE, simp, (rule exI)+, rule refl)

lemma same_endpoint_proj:
  assumes "same_endpoint ep ep'"
  shows "current_transfer ep' = current_transfer ep" "ep_in ep' = ep_in ep" "halt_state ep' = halt_state ep"
    "double_buffered ep' = double_buffered ep" "ep_num ep' = ep_num ep" "dpram_buffer_offset ep' = dpram_buffer_offset ep"
    "buffer_size ep' = buffer_size ep" "default_transfer ep' = default_transfer ep" "chain_transfer ep' = chain_transfer ep"
    "on_stall_change ep' = on_stall_change ep" "ep_descriptor ep' = ep_descriptor ep" "buffer_bit_index ep' = buffer_bit_index ep"
  using assms by (auto simp: same_endpoint_def)

definition stream_step :: "ep_id \<Rightarrow> transfer_id \<Rightarrow> ('d, 'z) msc_state_scheme \<Rightarrow> ('d, 'z) msc_state_scheme \<Rightarrow> bool" where
  "stream_step e t s s' \<longleftrightarrow> stream_frame s s' \<and> same_endpoint (endpoints s e) (endpoints s' e) \<and>
     (\<forall>e'. e' \<noteq> e \<longrightarrow> endpoints s' e' = endpoints s e') \<and>
     (\<forall>t'. t' \<noteq> t \<longrightarrow> transfers s' t' = transfers s t' \<and> streams s' t' = streams s t') \<and>
     tr_type (transfers s' t) = tr_type (transfers s t) \<and> on_complete (transfers s' t) = on_complete (transfers s t) \<and>
     (\<exists>x. streams s' t = (streams s t)\<lparr>stream_offset := x\<rparr>)"

lemma stream_step_refl: "stream_step e t s s"
  by (simp add: stream_step_def stream_frame_refl same_endpoint_refl)
    (rule exI [of _ "stream_offset (streams s t)"], simp)

lemma stream_step_trans:
  assumes "stream_step e t s s1" "stream_step e t s1 s2"
  shows "stream_step e t s s2"
proof -
  have "stream_frame s s2" "same_endpoint (endpoints s e) (endpoints s2 e)"
    using assms stream_frame_trans same_endpoint_trans unfolding stream_step_def by blast+
  moreover obtain x y where "streams s1 t = (streams s t)\<lparr>stream_offset := x\<rparr>" "streams s2 t = (streams s1 t)\<lparr>stream_offset := y\<rparr>"
    using assms by (auto simp: stream_step_def)
  ultimately show ?thesis using assms by (simp add: stream_step_def)
qed

subsection \<open>The states of a stream\<close>

text \<open>
  Waiting for packet \<open>i\<close> of \<open>n\<close>, with \<open>h\<close> packets left to handle; and in the middle of that packet,
  which is current and outstanding.
\<close>

definition stream_going :: "ep_id \<Rightarrow> transfer_id \<Rightarrow> nat \<Rightarrow> nat \<Rightarrow> nat \<Rightarrow> ('d, 'z) stream_state_scheme \<Rightarrow> bool" where
  "stream_going e t n i h s \<longleftrightarrow>
     current_transfer (endpoints s e) = Some t \<and> \<not> ep_in (endpoints s e) \<and> halt_state (endpoints s e) = HS_NONE \<and>
     double_buffered (endpoints s e) \<and> find_ep (unat (ep_num (endpoints s e))) False s = Some e \<and>
     tr_type (transfers s t) = Usb_Stream_Packet_Handler \<and> \<not> packet_queued (transfers s t) \<and> \<not> completed (transfers s t) \<and>
     unat (remaining_packets_to_handle (transfers s t)) = h \<and>
     unat (remaining_packets_to_submit (transfers s t)) = n - i - 2 \<and>
     stream_ep (streams s t) = e \<and> unat (stream_offset (streams s t)) = 64 * i \<and>
     unat (transfer_length (streams s t)) = 64 * n \<and> i \<le> n"

definition stream_waits :: "ep_id \<Rightarrow> transfer_id \<Rightarrow> nat \<Rightarrow> nat \<Rightarrow> nat \<Rightarrow> ('d, 'z) stream_state_scheme \<Rightarrow> bool" where
  "stream_waits e t n i h s \<longleftrightarrow> stream_going e t n i h s \<and> \<not> outstanding_packet (transfers s t) \<and>
     \<not> buf_valid (current_hw_buffer (endpoints s e)) \<and> unat (owned_buffer_count (endpoints s e)) = 2 - (n - i)"

definition stream_packet :: "ep_id \<Rightarrow> transfer_id \<Rightarrow> nat \<Rightarrow> nat \<Rightarrow> nat \<Rightarrow> ('d, 'z) stream_state_scheme \<Rightarrow> bool" where
  "stream_packet e t n i h s \<longleftrightarrow> stream_going e t n i h s \<and> outstanding_packet (transfers s t) \<and> i < n \<and>
     buf_valid (current_hw_buffer (endpoints s e)) \<and> buf_data_len (current_hw_buffer (endpoints s e)) = 64 \<and>
     unat (owned_buffer_count (endpoints s e)) = Suc (2 - (n - i))"

subsection \<open>Giving the buffers back\<close>

lemma same_endpoint_given:
  "halt_state ep = HS_NONE \<Longrightarrow> same_endpoint ep (ep\<lparr>halt_state := HS_NONE, first_buffer_after_reset := F, next_pid := P,
     current_hw_buffer := H, owned_buffer_count := W, current_give_buffer := G\<rparr>)"
  by (rule same_endpointI [where H = H and P = P and W = W and T = "current_take_buffer ep" and F = F and G = G]) (cases ep, simp)

lemma less_pred_min:
  "0 < a \<Longrightarrow> 0 < b \<Longrightarrow> k = min (a - 1) (b - 1) \<Longrightarrow> w + k = a - 1 \<Longrightarrow> r + k = b - 1 \<Longrightarrow>
   Suc k = min a b \<and> w + Suc k = a \<and> r + Suc k = (b :: nat)"
  by (cases a; cases b) auto

lemma give_as_many_out_shape:
  assumes "\<not> ep_in (endpoints s e)" "halt_state (endpoints s e) = HS_NONE" "current_transfer (endpoints s e) = Some t"
    "\<not> buf_valid (current_hw_buffer (endpoints s e))"
  shows "\<exists>s' W R k. usb_give_as_many_buffers_as_possible cb c e s = Some s' \<and> usb_frame s s' \<and>
     same_endpoint (endpoints s e) (endpoints s' e) \<and> (\<forall>e'. e' \<noteq> e \<longrightarrow> endpoints s' e' = endpoints s e') \<and>
     (\<forall>t'. t' \<noteq> t \<longrightarrow> transfers s' t' = transfers s t') \<and>
     current_hw_buffer (endpoints s' e) = current_hw_buffer (endpoints s e) \<and>
     transfers s' t = (transfers s t)\<lparr>remaining_packets_to_submit := R\<rparr> \<and>
     k = min (unat (owned_buffer_count (endpoints s e))) (unat (remaining_packets_to_submit (transfers s t))) \<and>
     owned_buffer_count (endpoints s' e) = W \<and> unat W + k = unat (owned_buffer_count (endpoints s e)) \<and>
     unat R + k = unat (remaining_packets_to_submit (transfers s t))"
  using assms
proof (induction "unat (owned_buffer_count (endpoints s e))" arbitrary: s)
  case 0
  then have "\<not> may_give e s" by (simp add: may_give_def unat_eq_0)
  then show ?case
    using 0 by (intro exI [of _ s] exI [of _ "remaining_packets_to_submit (transfers s t)"] exI)
      (auto simp: give_as_many_stop usb_frame_refl same_endpoint_refl)
next
  case (Suc m)
  show ?case
  proof (cases "remaining_packets_to_submit (transfers s t) = 0")
    case True
    then have "\<not> may_give e s" using Suc by (simp add: may_give_def)
    then show ?thesis
      using Suc True by (intro exI [of _ s] exI [of _ "0"] exI)
        (auto simp: give_as_many_stop usb_frame_refl same_endpoint_refl)
  next
    case False
    have nz: "owned_buffer_count (endpoints s e) \<noteq> 0" using Suc.hyps(2) by auto
    then have may: "may_give e s" using Suc False by (simp add: may_give_def)
    let ?ep = "endpoints s e"
    from give_buffer_some [OF Suc.prems(3), of c "ucast (buffer_size ?ep)"] obtain s1 where
      s1: "usb_give_buffer c e (ucast (buffer_size ?ep)) s = Some s1"
      "endpoints s1 e = ?ep\<lparr>halt_state := HS_NONE, first_buffer_after_reset := False, next_pid := next_pid ?ep XOR 1,
         current_hw_buffer := (current_hw_buffer ?ep)\<lparr>buf_valid := False\<rparr>, owned_buffer_count := owned_buffer_count ?ep - 1,
         current_give_buffer := (if double_buffered ?ep then current_give_buffer ?ep XOR 1 else current_give_buffer ?ep)\<rparr>"
      "transfers s1 t = (transfers s t)\<lparr>remaining_packets_to_submit := remaining_packets_to_submit (transfers s t) - 1\<rparr>"
      "\<And>e'. e' \<noteq> e \<Longrightarrow> endpoints s1 e' = endpoints s e'" "\<And>t'. t' \<noteq> t \<Longrightarrow> transfers s1 t' = transfers s t'" by blast
    have keep: "(current_hw_buffer ?ep)\<lparr>buf_valid := False\<rparr> = current_hw_buffer ?ep"
      using Suc.prems by (cases "current_hw_buffer ?ep", simp)
    have same: "same_endpoint ?ep (endpoints s1 e)"
      unfolding s1(2) keep by (rule same_endpoint_given [OF Suc.prems(2)])
    have m: "m = unat (owned_buffer_count (endpoints s1 e))" using Suc.hyps(2) unat_pred [OF nz] by (simp add: s1(2))
    have "\<not> ep_in (endpoints s1 e)" "halt_state (endpoints s1 e) = HS_NONE" "current_transfer (endpoints s1 e) = Some t"
      "\<not> buf_valid (current_hw_buffer (endpoints s1 e))" using Suc.prems by (simp_all add: s1(2))
    from Suc.hyps(1) [OF m this] obtain s' W R k where
      s': "usb_give_as_many_buffers_as_possible cb c e s1 = Some s'" "usb_frame s1 s'"
        "same_endpoint (endpoints s1 e) (endpoints s' e)" "\<forall>e'. e' \<noteq> e \<longrightarrow> endpoints s' e' = endpoints s1 e'"
        "\<forall>t'. t' \<noteq> t \<longrightarrow> transfers s' t' = transfers s1 t'"
        "current_hw_buffer (endpoints s' e) = current_hw_buffer (endpoints s1 e)"
        "transfers s' t = (transfers s1 t)\<lparr>remaining_packets_to_submit := R\<rparr>"
        "k = min (unat (owned_buffer_count (endpoints s1 e))) (unat (remaining_packets_to_submit (transfers s1 t)))"
        "owned_buffer_count (endpoints s' e) = W" "unat W + k = unat (owned_buffer_count (endpoints s1 e))"
        "unat R + k = unat (remaining_packets_to_submit (transfers s1 t))" by blast
    have run: "usb_give_as_many_buffers_as_possible cb c e s = Some s'"
      using give_as_many_out_step [OF may Suc.prems(1)] s1(1) s'(1) by simp
    note n = unat_pred [OF nz] unat_pred [OF False]
    have "owned_buffer_count (endpoints s1 e) = owned_buffer_count ?ep - 1"
      "remaining_packets_to_submit (transfers s1 t) = remaining_packets_to_submit (transfers s t) - 1"
      by (simp_all add: s1(2,3))
    note num = less_pred_min [OF n(2,4) s'(8,10,11) [unfolded this n(1,3)]]
    show ?thesis
      using run s'(4-7,9) num s1(4,5) same_endpoint_trans [OF same s'(3)] usb_frame_trans [OF give_buffer_frame [OF s1(1)] s'(2)]
      by (intro exI [of _ s'] exI [of _ W] exI [of _ R] exI [of _ "Suc k"]) (simp add: keep s1(2,3))
  qed
qed

subsection \<open>The packet is done\<close>

text \<open>The function that counts a packet of the stream.\<close>

definition packet_counted :: "stream_funcs \<Rightarrow> scsi_csw \<Rightarrow> scsi_csw" where
  "packet_counted f w = (if f = Msc_Sector_Funcs then w\<lparr>residue := residue w - 64\<rparr> else w)"

lemma packet_complete_calls:
  "sc_on_packet_complete (stream_calls env) f s = s\<lparr>csw := packet_counted f (csw s)\<rparr>"
  by (cases f) (simp_all add: stream_calls_def packet_counted_def msc_on_sector_stream_packet_complete_def)

text \<open>The state in which a packet that is done is counted, and the transfer goes on without it.\<close>

definition packet_finished :: "ep_id \<Rightarrow> transfer_id \<Rightarrow> ('d, 'z) msc_state_scheme \<Rightarrow> ('d, 'z) msc_state_scheme" where
  "packet_finished e t s =
     upd_tr t (\<lambda>t. t\<lparr>outstanding_packet := False\<rparr>)
       (gpio_clr_mask (usb_activity_gpio_pin_mask s)
         ((upd_stream t (\<lambda>st. st\<lparr>stream_offset := stream_offset st + 64\<rparr>) s)
           \<lparr>csw := packet_counted (stream_functions (streams s t)) (csw s)\<rparr>))"

lemma packet_finished_proj:
  "endpoints (packet_finished e t s) = endpoints s" "mem (packet_finished e t s) = mem s"
  "transfers (packet_finished e t s) = (transfers s)(t := (transfers s t)\<lparr>outstanding_packet := False\<rparr>)"
  "streams (packet_finished e t s) = (streams s)(t := (streams s t)\<lparr>stream_offset := stream_offset (streams s t) + 64\<rparr>)"
  "csw (packet_finished e t s) = packet_counted (stream_functions (streams s t)) (csw s)"
  "endpoint_table (packet_finished e t s) = endpoint_table s"
  by (simp_all add: packet_finished_def upd_tr_def gpio_clr_mask_def upd_stream_def)

lemma packet_finished_frame: "stream_frame s (packet_finished e t s)"
  unfolding packet_finished_def upd_tr_def gpio_clr_mask_def upd_stream_def
  by (rule stream_frameI [where M = "mem s" and E = "endpoints s" and B = "buf_ctrl s" and C = "packet_counted (stream_functions (streams s t)) (csw s)"
      and G = "gpio_out s AND NOT (usb_activity_gpio_pin_mask s)" and T = "(transfers s)(t := transfers s t\<lparr>outstanding_packet := False\<rparr>)"
      and S = "(streams s)(t := streams s t\<lparr>stream_offset := stream_offset (streams s t) + 64\<rparr>)"]) simp

lemma handler_complete_unfold:
  assumes "stream_ep (streams s t) = e" "\<not> ep_in (endpoints s e)" "buf_valid (current_hw_buffer (endpoints s e))"
    "buf_data_len (current_hw_buffer (endpoints s e)) = 64" "current_transfer (endpoints s e) = Some t"
  shows "usb_stream_packet_handler_complete cb (stream_calls env) c t s =
    do {
      s1 \<leftarrow> usb_check_for_transfer_completion cb c e (packet_finished e t s);
      if completed (transfers s1 t) then Some s1
      else do {
        s2 \<leftarrow> (if ep_in (endpoints s1 e)
                 then usb_give_buffer c e (ucast (buf_data_len (current_hw_buffer (endpoints s1 e)))) s1 else Some s1);
        let s3 = upd_ep e (\<lambda>ep. ep\<lparr>current_hw_buffer := (current_hw_buffer ep)\<lparr>buf_valid := False\<rparr>\<rparr>) s2;
        if packet_queued (transfers s3 t) then
          (let s4 = upd_ep e (\<lambda>ep. ep\<lparr>owned_buffer_count := owned_buffer_count ep - 1\<rparr>)
                      (upd_tr t (\<lambda>t. t\<lparr>packet_queued := False\<rparr>) s3)
           in usb_handle_transfer cb c (unat (ep_num (endpoints s4 e))) (ep_in (endpoints s4 e))
                (current_take_buffer (endpoints s4 e) XOR 1) s4)
        else usb_give_as_many_buffers_as_possible cb c e s3
      }
    }"
proof -
  have "gpio_clr_mask (usb_activity_gpio_pin_mask s) ((upd_stream t (\<lambda>st. st\<lparr>stream_offset := stream_offset st + 64\<rparr>) s)
           \<lparr>csw := packet_counted (stream_functions (streams s t)) (csw s)\<rparr>) = z \<Longrightarrow> endpoints z = endpoints s" for z
    by (auto simp: gpio_clr_mask_def upd_stream_def)
  then show ?thesis
    using assms
    by (simp add: usb_stream_packet_handler_complete_def usb_current_packet_buffer_def Let_def packet_complete_calls
        usb_packet_done_def packet_finished_def upd_stream_def gpio_clr_mask_def)
qed

lemma packet_complete_waits:
  assumes s: "stream_packet e t n i h s" and "0 < h"
  shows "\<exists>s'. usb_stream_packet_handler_complete cb (stream_calls env) c t s = Some s' \<and> stream_step e t s s' \<and>
     stream_waits e t n (Suc i) h s' \<and> mem s' = mem s \<and>
     csw s' = packet_counted (stream_functions (streams s t)) (csw s)"
proof -
  define s1 where "s1 = packet_finished e t s"
  define s3 where "s3 = upd_ep e (\<lambda>ep. ep\<lparr>current_hw_buffer := (current_hw_buffer ep)\<lparr>buf_valid := False\<rparr>\<rparr>) s1"
  note d = s [unfolded stream_packet_def stream_going_def]
  have chk: "usb_check_for_transfer_completion cb c e s1 = Some s1"
    using d \<open>0 < h\<close> by (auto simp: usb_check_for_transfer_completion_def s1_def packet_finished_proj Let_def)
  have s3: "endpoints s3 e = (endpoints s e)\<lparr>current_hw_buffer := (current_hw_buffer (endpoints s e))\<lparr>buf_valid := False\<rparr>\<rparr>"
    "transfers s3 = (transfers s)(t := (transfers s t)\<lparr>outstanding_packet := False\<rparr>)" "\<And>e'. e' \<noteq> e \<Longrightarrow> endpoints s3 e' = endpoints s e'"
    by (simp_all add: s3_def usbsimps s1_def packet_finished_proj)
  have "\<not> ep_in (endpoints s3 e)" "halt_state (endpoints s3 e) = HS_NONE" "current_transfer (endpoints s3 e) = Some t"
    "\<not> buf_valid (current_hw_buffer (endpoints s3 e))" using d by (simp_all add: s3)
  from give_as_many_out_shape [OF this, of cb c] obtain s' W R k where
    s': "usb_give_as_many_buffers_as_possible cb c e s3 = Some s'" "usb_frame s3 s'"
     "same_endpoint (endpoints s3 e) (endpoints s' e)" "\<forall>e'. e' \<noteq> e \<longrightarrow> endpoints s' e' = endpoints s3 e'"
     "\<forall>t'. t' \<noteq> t \<longrightarrow> transfers s' t' = transfers s3 t'"
     "current_hw_buffer (endpoints s' e) = current_hw_buffer (endpoints s3 e)"
     "transfers s' t = (transfers s3 t)\<lparr>remaining_packets_to_submit := R\<rparr>"
     "k = min (unat (owned_buffer_count (endpoints s3 e))) (unat (remaining_packets_to_submit (transfers s3 t)))"
     "owned_buffer_count (endpoints s' e) = W" "unat W + k = unat (owned_buffer_count (endpoints s3 e))"
     "unat R + k = unat (remaining_packets_to_submit (transfers s3 t))" by blast
  have q: "\<not> packet_queued (transfers s3 t)" "\<not> completed (transfers s1 t)" "\<not> ep_in (endpoints s1 e)"
    using d by (simp_all add: s3 s1_def packet_finished_proj)
  have p: "stream_ep (streams s t) = e" "\<not> ep_in (endpoints s e)" "buf_valid (current_hw_buffer (endpoints s e))"
    "buf_data_len (current_hw_buffer (endpoints s e)) = 64" "current_transfer (endpoints s e) = Some t" using d by simp_all
  have run: "usb_stream_packet_handler_complete cb (stream_calls env) c t s = Some s'"
    unfolding handler_complete_unfold [OF p] s1_def [symmetric] chk Let_def
    using q s'(1) by (simp add: s3_def [symmetric])
  have f: "stream_frame s s3" unfolding s3_def s1_def
    by (rule stream_frame_trans [OF packet_finished_frame usb_frame_stream]) (rule usb_frame_upd)
  obtain E T B where x: "s' = s3\<lparr>endpoints := E, transfers := T, buf_ctrl := B\<rparr>" using s'(2) by (auto simp: usb_frame_def)
  have y: "mem s' = mem s" "csw s' = packet_counted (stream_functions (streams s t)) (csw s)" "endpoint_table s' = endpoint_table s"
    "streams s' = (streams s)(t := (streams s t)\<lparr>stream_offset := stream_offset (streams s t) + 64\<rparr>)"
    by (simp_all add: x s3_def s1_def usbsimps packet_finished_proj) (simp_all add: upd_ep_def packet_finished_proj)
  have "same_endpoint (endpoints s e) (endpoints s3 e)"
    unfolding s3(1) by (rule same_endpointI [where P = "next_pid (endpoints s e)" and W = "owned_buffer_count (endpoints s e)" and
      G = "current_give_buffer (endpoints s e)" and T = "current_take_buffer (endpoints s e)" and
      F = "first_buffer_after_reset (endpoints s e)"]) simp
  then have same: "same_endpoint (endpoints s e) (endpoints s' e)" by (rule same_endpoint_trans [OF _ s'(3)])
  have "stream_step e t s s'"
    unfolding stream_step_def
    using stream_frame_trans [OF f usb_frame_stream [OF s'(2)]] same s'(4,5,7) by (auto simp: s3 y)
  moreover have "stream_waits e t n (Suc i) h s'"
  proof -
    have off: "unat (stream_offset (streams s t) + 64) = 64 * Suc i"
      using d unat_u32_less [of "transfer_length (streams s t)"] by (subst unat_plus_noof) simp_all
    have "unat W = 2 - (n - Suc i)" "unat R = n - Suc i - 2"
      using d s'(8,10,11) by (simp_all add: s3 min_def split: if_splits)
    moreover have "find_ep num d s' = find_ep num d s" for num d by (simp add: find_ep_def y)
    ultimately show ?thesis
      unfolding stream_waits_def stream_going_def same_endpoint_proj [OF same] using d s'(6,7,9) off
      by (simp add: s3 y)
  qed
  ultimately show ?thesis using run y by blast
qed

subsection \<open>The packet is stored\<close>

definition block :: "u32 \<Rightarrow> nat \<Rightarrow> u32 set" where
  "block a n = {x. unat (x - a) < n}"

lemma mem_write_outside: "x \<notin> block a (length bs) \<Longrightarrow> length bs < 2 ^ 32 \<Longrightarrow> mem_write m a bs x = m x"
  by (simp add: block_def mem_write_other)

lemma in_block: "j < n \<Longrightarrow> n \<le> 2 ^ 32 \<Longrightarrow> a + word_of_nat j \<in> block a n"
  by (simp add: block_def unat_of_nat_small)

lemma in_block_offset:
  assumes "unat x + j < n" "n \<le> 2 ^ 32"
  shows "a + x + word_of_nat j \<in> block a n"
proof -
  have "unat (word_of_nat j :: u32) = j" using assms by (intro unat_of_nat_small) simp
  then have "unat (x + word_of_nat j) = unat x + j" using assms by (subst unat_plus_noof) simp_all
  then show ?thesis using assms by (simp add: block_def algebra_simps)
qed

lemma mem_read_cong: "(\<And>j. j < n \<Longrightarrow> m (a + word_of_nat j) = m' (a + word_of_nat j)) \<Longrightarrow> mem_read m a n = mem_read m' a n"
  by (simp add: mem_read_conv_map)

text \<open>Memory that is the same outside a set of addresses.\<close>

definition same_outside :: "u32 set \<Rightarrow> memory \<Rightarrow> memory \<Rightarrow> bool" where
  "same_outside A m m' \<longleftrightarrow> (\<forall>x. x \<notin> A \<longrightarrow> m' x = m x)"

lemma same_outside_refl: "same_outside A m m"
  by (simp add: same_outside_def)

lemma same_outside_trans: "same_outside A m m1 \<Longrightarrow> same_outside A m1 m2 \<Longrightarrow> same_outside A m m2"
  by (simp add: same_outside_def)

lemma same_outside_write:
  "same_outside A m m1 \<Longrightarrow> (\<And>j. j < length bs \<Longrightarrow> a + word_of_nat j \<in> A) \<Longrightarrow> length bs < 2 ^ 32 \<Longrightarrow>
   same_outside A m (mem_write m1 a bs)"
proof -
  assume m: "same_outside A m m1" and A: "\<And>j. j < length bs \<Longrightarrow> a + word_of_nat j \<in> A" and l: "length bs < 2 ^ 32"
  have "x \<in> A" if "x \<in> block a (length bs)" for x
    using A [of "unat (x - a)"] that by (simp add: block_def)
  then have "mem_write m1 a bs x = m1 x" if "x \<notin> A" for x using that l by (intro mem_write_outside) auto
  then show ?thesis using m by (simp add: same_outside_def)
qed

lemma mem_read_outside:
  "same_outside A m m' \<Longrightarrow> (\<And>j. j < n \<Longrightarrow> a + word_of_nat j \<notin> A) \<Longrightarrow> mem_read m' a n = mem_read m a n"
  by (rule mem_read_cong) (simp add: same_outside_def)

text \<open>Appending to a block that has been read so far.\<close>

lemma mem_read_extend:
  assumes "mem_read m a k = bs" "length p = n" "k + n < 2 ^ 32"
  shows "mem_read (mem_write m (a + word_of_nat k) p) a (k + n) = bs @ p"
proof -
  have k: "unat (word_of_nat k :: u32) = k" using assms(3) by (intro unat_of_nat_small) simp
  have "mem_read (mem_write m (a + word_of_nat k) p) a k = mem_read m a k"
  proof (rule mem_read_cong)
    fix j assume j: "j < k"
    then have u: "unat (word_of_nat j :: u32) = j" using assms(3) by (intro unat_of_nat_small) simp
    have "unat (word_of_nat j - word_of_nat k :: u32) = 2 ^ 32 + j - k"
      using j by (subst unat_sub_if') (simp add: u k)
    then show "mem_write m (a + word_of_nat k) p (a + word_of_nat j) = m (a + word_of_nat j)"
      using j assms(2,3) by (intro mem_write_outside) (simp_all add: block_def)
  qed
  then show ?thesis using assms by (simp add: mem_read_append mem_read_write_same)
qed

text \<open>The memory that the packets of a stream are written to.\<close>

definition stream_memory :: "usb_consts \<Rightarrow> usb_endpoint \<Rightarrow> usb_stream \<Rightarrow> u32 set" where
  "stream_memory c ep st = block (chunk_buffer st) (unat (chunk_size st)) \<union> block (take_addr c ep 0) 128"

text \<open>The packet buffers are apart from the chunk buffer.\<close>

definition buffers_apart :: "usb_consts \<Rightarrow> usb_endpoint \<Rightarrow> usb_stream \<Rightarrow> bool" where
  "buffers_apart c ep st \<longleftrightarrow> block (chunk_buffer st) (unat (chunk_size st)) \<inter> block (take_addr c ep 0) 128 = {}"

lemma take_addr_block: "j < 64 \<Longrightarrow> take_addr c ep which + word_of_nat j \<in> block (take_addr c ep 0) 128"
proof -
  assume j: "j < 64"
  have "take_addr c ep which + word_of_nat j = take_addr c ep 0 + (if which \<noteq> 0 then 64 else 0) + word_of_nat j"
    by (simp add: take_addr_def)
  then show ?thesis using j in_block [of j 128] by (auto intro!: in_block_offset)
qed

text \<open>What handling a packet does before the chunk function is called.\<close>

lemma packet_received:
  fixes which :: u8
  assumes s: "stream_waits e t n i (n - i) s" and i: "i < n" and p: "length p = 64" "ctrl_length c v 64"
    and st: "chunked_stream (streams s t) q"
    and bs: "length bs = 64 * (i mod q)" "mem_read (mem s) (chunk_buffer (streams s t)) (length bs) = bs"
    and apart: "buffers_apart c (endpoints s e) (streams s t)"
  defines "s0 \<equiv> packet_arrives c e which v p s"
  shows "\<exists>x. stream_packet e t n i (n - i) x \<and> stream_step e t s x \<and> csw x = csw s \<and> streams x = streams s \<and>
     mem_read (mem x) (chunk_buffer (streams s t)) (length bs + 64) = bs @ p \<and>
     same_outside (stream_memory c (endpoints s e) (streams s t)) (mem s) (mem x) \<and>
     (\<forall>cb cb'. cb_on_packet cb Usb_Stream_Packet_Handler e = usb_stream_packet_packet_handler cb' (stream_calls env) c e \<longrightarrow>
       usb_handle_transfer cb c (unat (ep_num (endpoints s e))) False which s0 =
         do {
           (async, s2) \<leftarrow> (if out_chunk_len (streams s t) \<noteq> 0
               then sc_on_chunk (stream_calls env) (stream_functions (streams s t)) (out_chunk_len (streams s t)) x
               else Some (False, x));
           s3 \<leftarrow> (if async then Some s2 else usb_stream_packet_handler_complete cb' (stream_calls env) c t s2);
           if completed (transfers s3 t) then Some s3
           else usb_check_for_transfer_completion cb c e
                  (upd_tr t (\<lambda>t. t\<lparr>remaining_packets_to_handle := remaining_packets_to_handle t - 1\<rparr>) s3)
         })"
proof -
  note d = s [unfolded stream_waits_def stream_going_def]
  let ?st = "streams s t" and ?ep = "endpoints s e"
  let ?a = "take_addr c ?ep which"
  define b where "b = \<lparr>buf_data = ?a, buf_data_len = 64, buf_data_max = ucast (buffer_size ?ep), buf_valid = True\<rparr>"
  define s1 where "s1 = gpio_set_mask (usb_activity_gpio_pin_mask s) (upd_tr t (\<lambda>t. t\<lparr>outstanding_packet := True\<rparr>)
    (upd_ep e (\<lambda>ep. ep\<lparr>current_take_buffer := which\<rparr>) (upd_ep e (\<lambda>ep. ep\<lparr>owned_buffer_count := owned_buffer_count ep + 1\<rparr>) s0)))"
  define m where "m = (if usb_stream_chunk_offset ?st = 0 then mem_write (mem s1) (chunk_buffer ?st) (replicate (unat (chunk_size ?st)) 0)
    else mem s1)"
  define x where "x = (upd_ep e (\<lambda>ep. ep\<lparr>current_hw_buffer := b\<rparr>) s1)\<lparr>mem := mem_write m (chunk_buffer ?st + usb_stream_chunk_offset ?st) (mem_read m ?a 64)\<rparr>"
  have s0: "endpoints s0 = endpoints s" "transfers s0 = transfers s" "streams s0 = streams s" "csw s0 = csw s"
    "read_buf_ctrl e (unat which) s0 = v" "mem s0 = mem_write (mem s) ?a p" "find_ep k False s0 = find_ep k False s" for k
    by (simp_all add: s0_def packet_arrives_def find_ep_def usbsimps) (simp_all add: write_buf_ctrl_def Let_def read_buf_ctrl_def)
  have s1: "endpoints s1 e = ?ep\<lparr>owned_buffer_count := owned_buffer_count ?ep + 1, current_take_buffer := which\<rparr>"
    "transfers s1 = (transfers s)(t := (transfers s t)\<lparr>outstanding_packet := True\<rparr>)" "streams s1 = streams s" "csw s1 = csw s"
    "read_buf_ctrl e (unat which) s1 = v" "mem s1 = mem s0"
    by (simp_all add: s1_def gpio_set_mask_def upd_tr_def upd_ep_def s0 read_buf_ctrl_def)
      (simp_all add: s0(5) [unfolded read_buf_ctrl_def s0(1)])
  have store: "stream_store_out_packet c t e s1 = x"
  proof -
    have "usb_current_packet_buffer c e s1 = (b, upd_ep e (\<lambda>ep. ep\<lparr>current_hw_buffer := b\<rparr>) s1)"
      using d p(2) by (simp add: usb_current_packet_buffer_def Let_def s1 b_def take_addr_def ctrl_length_def)
    then show ?thesis by (simp add: stream_store_out_packet_def s1(3) m_def x_def b_def usbsimps Let_def)
  qed
  let ?A = "stream_memory c ?ep ?st" and ?buf = "chunk_buffer ?st"
  note cs = chunked_stream_parts(1,2) [OF st]
  have big: "64 * q < 2 ^ 32" using st cs by (simp add: chunked_stream_def)
  have "i mod q < q" using cs(1) by simp
  then have kq: "length bs + 64 \<le> 64 * q" by (simp add: bs(1))
  have off: "unat (usb_stream_chunk_offset ?st) = length bs" using chunk_offset_at [OF st] d by (simp add: bs(1))
  then have buf: "?buf + usb_stream_chunk_offset ?st = ?buf + word_of_nat (length bs)" by (simp flip: off)
  have chunk: "?buf + word_of_nat j \<in> block ?buf (unat (chunk_size ?st))" if "j < 64 * q" for j
    using that big by (intro in_block) (simp_all add: cs(2))
  have A: "?a + word_of_nat j \<in> ?A" "?a + word_of_nat j \<notin> block ?buf (unat (chunk_size ?st))" if "j < 64" for j
    using take_addr_block [OF that, of c ?ep which] apart by (auto simp: stream_memory_def buffers_apart_def)
  have m1: "same_outside ?A (mem s) (mem s1)"
    unfolding s1(6) s0(6) using p(1) A(1) by (intro same_outside_write same_outside_refl) simp_all
  have m2: "same_outside ?A (mem s) m"
    unfolding m_def using m1 chunk big by (auto intro!: same_outside_write simp: cs(2) stream_memory_def)
  have data: "mem_read m ?a 64 = p"
  proof -
    have "mem_read m ?a 64 = mem_read (mem s1) ?a 64"
      by (rule mem_read_cong) (use A(2) big in \<open>simp add: m_def mem_write_outside cs(2)\<close>)
    then show ?thesis by (simp add: s1(6) s0(6) mem_read_write_same p(1))
  qed
  have old: "mem_read m ?buf (length bs) = bs"
  proof (cases "usb_stream_chunk_offset ?st = 0")
    case True
    then show ?thesis using off by simp
  next
    case False
    have "mem_read (mem s1) ?buf (length bs) = mem_read (mem s) ?buf (length bs)"
    proof (rule mem_read_cong)
      fix j assume "j < length bs"
      then have "?buf + word_of_nat j \<notin> block (take_addr c ?ep 0) 128"
        using chunk [of j] kq apart by (auto simp: buffers_apart_def)
      then have "?buf + word_of_nat j \<notin> block ?a 64"
        using take_addr_block [of "unat (?buf + word_of_nat j - ?a)" c ?ep which] by (auto simp: block_def)
      then show "mem s1 (?buf + word_of_nat j) = mem s (?buf + word_of_nat j)"
        unfolding s1(6) s0(6) using p(1) by (intro mem_write_outside) simp_all
    qed
    then show ?thesis using False bs(2) by (simp add: m_def)
  qed
  have mx: "mem x = mem_write m (?buf + word_of_nat (length bs)) p" by (simp add: x_def data buf)
  have stored: "mem_read (mem x) ?buf (length bs + 64) = bs @ p"
    unfolding mx using old p(1) kq big by (intro mem_read_extend) simp_all
  have frame: "same_outside ?A (mem s) (mem x)"
    unfolding mx
  proof (rule same_outside_write [OF m2])
    fix j assume "j < length p"
    then show "?buf + word_of_nat (length bs) + word_of_nat j \<in> ?A"
      using chunk [of "length bs + j"] kq p(1) by (simp add: stream_memory_def add.assoc)
  qed (use p(1) in simp)
  have x: "endpoints x = (endpoints s)(e := ?ep\<lparr>owned_buffer_count := owned_buffer_count ?ep + 1, current_take_buffer := which,
      current_hw_buffer := b\<rparr>)" "transfers x = transfers s1" "streams x = streams s" "csw x = csw s" "find_ep k False x = find_ep k False s" for k
    by (simp_all add: x_def find_ep_def upd_ep_def s1) (simp_all add: s1_def s0_def gpio_set_mask_def upd_tr_def upd_ep_def
      packet_arrives_def write_buf_ctrl_def Let_def fun_eq_iff)
  define y where "y = upd_tr t (\<lambda>t. t\<lparr>outstanding_packet := True\<rparr>)
    (upd_ep e (\<lambda>ep. ep\<lparr>current_take_buffer := which\<rparr>) (upd_ep e (\<lambda>ep. ep\<lparr>owned_buffer_count := owned_buffer_count ep + 1\<rparr>) s0))"
  have y: "usb_activity_gpio_pin_mask y = usb_activity_gpio_pin_mask s" "current_transfer (endpoints y e) = Some t"
    "\<not> ep_in (endpoints y e)" "streams y t = streams s t" "s1 = gpio_set_mask (usb_activity_gpio_pin_mask s) y"
    using d by (simp_all add: y_def upd_tr_def upd_ep_def s0 s1_def)
      (simp add: s0_def packet_arrives_def write_buf_ctrl_def Let_def)
  have f0: "stream_frame s s0" unfolding s0_def packet_arrives_def
    by (rule stream_frame_trans [OF stream_frame_upd(1) usb_frame_stream [OF usb_frame_upd(3)]])
  have "usb_frame s0 y" unfolding y_def by (intro usb_frame_into usb_frame_refl)
  then have f1: "stream_frame s0 s1" unfolding y(5) gpio_set_mask_def
    by (rule stream_frame_trans [OF usb_frame_stream stream_frame_upd(2)])
  have f2: "stream_frame s1 x" unfolding x_def
    by (rule stream_frame_trans [OF usb_frame_stream [OF usb_frame_upd(1)] stream_frame_upd(1)])
  have fx: "stream_frame s x" by (rule stream_frame_trans [OF stream_frame_trans [OF f0 f1] f2])
  have same: "same_endpoint ?ep (endpoints x e)"
    unfolding x(1) by (rule same_endpointI [where P = "next_pid ?ep" and W = "owned_buffer_count ?ep + 1" and G = "current_give_buffer ?ep"
      and T = which and F = "first_buffer_after_reset ?ep" and H = b]) simp
  have "unat (owned_buffer_count ?ep + 1) = Suc (2 - (n - i))" using d i by (subst unat_plus_noof) simp_all
  then have packet: "stream_packet e t n i (n - i) x"
    unfolding stream_packet_def stream_going_def same_endpoint_proj [OF same] using d i by (simp add: x s1(2) b_def)
  have step: "stream_step e t s x"
    unfolding stream_step_def using fx same
    by (simp add: x s1(2)) (rule exI [of _ "stream_offset (streams s t)"], simp)
  have handler: "usb_stream_packet_packet_handler cb' (stream_calls env) c e y =
      do {
        (async, s2) \<leftarrow> (if out_chunk_len (streams s t) \<noteq> 0
            then sc_on_chunk (stream_calls env) (stream_functions (streams s t)) (out_chunk_len (streams s t)) x
            else Some (False, x));
        if async then Some s2 else usb_stream_packet_handler_complete cb' (stream_calls env) c t s2
      }" for cb'
    using y(2-4) d store by (simp add: usb_stream_packet_packet_handler_def Let_def y(1) y(5) [symmetric] s1(1,3))
  have call: "usb_call_on_packet cb e z = cb_on_packet cb Usb_Stream_Packet_Handler e y"
    if "z = upd_ep e (\<lambda>ep. ep\<lparr>current_take_buffer := which\<rparr>) (upd_ep e (\<lambda>ep. ep\<lparr>owned_buffer_count := owned_buffer_count ep + 1\<rparr>) s0)"
    for cb z
    using d by (simp add: that usb_call_on_packet_def usbsimps s0 y_def)
  have handled: "usb_handle_transfer cb c (unat (ep_num ?ep)) False which s0 =
      do {
        s3 \<leftarrow> cb_on_packet cb Usb_Stream_Packet_Handler e y;
        if completed (transfers s3 t) then Some s3
        else usb_check_for_transfer_completion cb c e
               (upd_tr t (\<lambda>t. t\<lparr>remaining_packets_to_handle := remaining_packets_to_handle t - 1\<rparr>) s3)
      }" for cb
    using d by (simp add: usb_handle_transfer_def s0(7) usbsimps s0 call [OF refl])
  show ?thesis
    using packet step stored frame handler handled by (intro exI [of _ x]) (auto simp: x bind_assoc split_def)
qed


subsection \<open>Packets up to the end of a chunk\<close>

lemma dispatch_stream:
  "cb_on_packet (callbacks env (Suc k)) Usb_Stream_Packet_Handler e =
     usb_stream_packet_packet_handler (callbacks env k) (stream_calls env) (usbc env) e"
  by (simp add: callbacks_over_def fun_eq_iff)

text \<open>A packet, with the buffer it is in and the control word, and its interrupt.\<close>

type_synonym usb_packet = "u8 \<times> u16 \<times> u8 list"

abbreviation payload :: "usb_packet \<Rightarrow> u8 list" where
  "payload pk \<equiv> snd (snd pk)"

definition full_packet :: "usb_consts \<Rightarrow> usb_packet \<Rightarrow> bool" where
  "full_packet c pk \<longleftrightarrow> length (payload pk) = 64 \<and> ctrl_length c (fst (snd pk)) 64"

definition receive_packet ::
    "('d, 'z) usb_state_scheme usb_callbacks \<Rightarrow> usb_consts \<Rightarrow> ep_id \<Rightarrow> usb_packet \<Rightarrow>
       ('d, 'z) usb_state_scheme \<Rightarrow> ('d, 'z) usb_state_scheme option" where
  "receive_packet cb c e pk s =
     usb_handle_transfer cb c (unat (ep_num (endpoints s e))) False (fst pk)
       (packet_arrives c e (fst pk) (fst (snd pk)) (payload pk) s)"

fun receive_packets ::
    "('d, 'z) usb_state_scheme usb_callbacks \<Rightarrow> usb_consts \<Rightarrow> ep_id \<Rightarrow> usb_packet list \<Rightarrow>
       ('d, 'z) usb_state_scheme \<Rightarrow> ('d, 'z) usb_state_scheme option" where
  "receive_packets cb c e [] s = Some s"
| "receive_packets cb c e (pk # pks) s = Option.bind (receive_packet cb c e pk s) (receive_packets cb c e pks)"

lemma receive_packets_append:
  "receive_packets cb c e (pks @ qs) s = Option.bind (receive_packets cb c e pks s) (receive_packets cb c e qs)"
proof (induction pks arbitrary: s)
  case (Cons pk pks)
  then show ?case by (cases "receive_packet cb c e pk s") simp_all
qed simp

text \<open>What is the same for all packets of a stream.\<close>

lemma stream_step_keeps:
  assumes "stream_step e t s s'"
  shows "chunked_stream (streams s' t) q = chunked_stream (streams s t) q" "chunk_buffer (streams s' t) = chunk_buffer (streams s t)"
    "buffers_apart c (endpoints s' e) (streams s' t) = buffers_apart c (endpoints s e) (streams s t)"
    "stream_memory c (endpoints s' e) (streams s' t) = stream_memory c (endpoints s e) (streams s t)"
    "stream_functions (streams s' t) = stream_functions (streams s t)" "ep_num (endpoints s' e) = ep_num (endpoints s e)"
    "chunk_size (streams s' t) = chunk_size (streams s t)" "on_complete (transfers s' t) = on_complete (transfers s t)"
proof -
  obtain x where x: "streams s' t = (streams s t)\<lparr>stream_offset := x\<rparr>" using assms by (auto simp: stream_step_def)
  have "same_endpoint (endpoints s e) (endpoints s' e)" using assms by (simp add: stream_step_def)
  note same = same_endpoint_proj [OF this]
  have a: "take_addr c (endpoints s' e) w = take_addr c (endpoints s e) w" for w by (simp add: take_addr_def same)
  show "chunked_stream (streams s' t) q = chunked_stream (streams s t) q" "chunk_buffer (streams s' t) = chunk_buffer (streams s t)"
    "buffers_apart c (endpoints s' e) (streams s' t) = buffers_apart c (endpoints s e) (streams s t)"
    "stream_memory c (endpoints s' e) (streams s' t) = stream_memory c (endpoints s e) (streams s t)"
    "stream_functions (streams s' t) = stream_functions (streams s t)" "ep_num (endpoints s' e) = ep_num (endpoints s e)"
    "chunk_size (streams s' t) = chunk_size (streams s t)" "on_complete (transfers s' t) = on_complete (transfers s t)"
    using assms by (simp_all add: x chunked_stream_def buffers_apart_def stream_memory_def a same stream_step_def)
qed

lemma find_ep_upd [usbsimps]: "find_ep k d (upd_tr t f s) = find_ep k d s" "find_ep k d (upd_ep e g s) = find_ep k d s"
  by (simp_all add: find_ep_def usbsimps)

lemma stream_step_upd_tr:
  assumes "\<And>tr. tr_type (f tr) = tr_type tr \<and> on_complete (f tr) = on_complete tr"
  shows "stream_step e t s (upd_tr t f s)"
proof -
  have "streams (upd_tr t f s) = streams s" by (simp add: upd_tr_def)
  moreover have "\<exists>x. streams s t = (streams s t)\<lparr>stream_offset := x\<rparr>" by (rule exI [of _ "stream_offset (streams s t)"]) simp
  ultimately show ?thesis
    unfolding stream_step_def using usb_frame_stream [OF usb_frame_upd(2)] assms by (simp add: usbsimps same_endpoint_refl)
qed

text \<open>A packet that is done and not the last one leaves the transfer waiting.\<close>

lemma handled_waits:
  assumes "stream_waits e t n i (Suc h) s" "0 < h"
  defines "s' \<equiv> upd_tr t (\<lambda>t. t\<lparr>remaining_packets_to_handle := remaining_packets_to_handle t - 1\<rparr>) s"
  shows "usb_check_for_transfer_completion cb c e s' = Some s'" "stream_waits e t n i h s'" "stream_step e t s s'"
    "mem s' = mem s" "csw s' = csw s" "streams s' = streams s"
proof -
  have nz: "remaining_packets_to_handle (transfers s t) \<noteq> 0" using assms(1) by (auto simp: stream_waits_def stream_going_def)
  have h: "unat (remaining_packets_to_handle (transfers s' t)) = h"
    using assms(1) unat_pred(1) [OF nz] by (simp add: s'_def usbsimps stream_waits_def stream_going_def)
  show waits: "stream_waits e t n i h s'"
    using assms(1) h by (simp add: stream_waits_def stream_going_def s'_def usbsimps) (simp add: upd_tr_def)
  show "usb_check_for_transfer_completion cb c e s' = Some s'"
    using waits \<open>0 < h\<close> by (auto simp: usb_check_for_transfer_completion_def stream_waits_def stream_going_def Let_def)
  show "stream_step e t s s'" unfolding s'_def by (rule stream_step_upd_tr) simp
qed (simp_all add: s'_def upd_tr_def)


text \<open>A packet inside a chunk.\<close>

lemma packet_inside:
  fixes s :: "('d, 'z) picoboot_state_scheme"
  assumes s: "stream_waits e t n i (n - i) s" and i: "Suc (i mod q) < q" "Suc i < n" and pk: "full_packet (usbc env) pk"
    and st: "chunked_stream (streams s t) q"
    and bs: "length bs = 64 * (i mod q)" "mem_read (mem s) (chunk_buffer (streams s t)) (length bs) = bs"
    and apart: "buffers_apart (usbc env) (endpoints s e) (streams s t)"
  shows "\<exists>s'. receive_packet (callbacks env (Suc k)) (usbc env) e pk s = Some s' \<and> stream_waits e t n (Suc i) (n - Suc i) s' \<and>
     stream_step e t s s' \<and> csw s' = packet_counted (stream_functions (streams s t)) (csw s) \<and>
     mem_read (mem s') (chunk_buffer (streams s t)) (length bs + 64) = bs @ payload pk \<and>
     same_outside (stream_memory (usbc env) (endpoints s e) (streams s t)) (mem s) (mem s')"
proof -
  note p = pk [unfolded full_packet_def]
  obtain x where x: "stream_packet e t n i (n - i) x" "stream_step e t s x" "csw x = csw s" "streams x = streams s"
    "mem_read (mem x) (chunk_buffer (streams s t)) (length bs + 64) = bs @ payload pk"
    "same_outside (stream_memory (usbc env) (endpoints s e) (streams s t)) (mem s) (mem x)"
    and run: "\<forall>cb cb'. cb_on_packet cb Usb_Stream_Packet_Handler e = usb_stream_packet_packet_handler cb' (stream_calls env) (usbc env) e \<longrightarrow>
       usb_handle_transfer cb (usbc env) (unat (ep_num (endpoints s e))) False (fst pk)
           (packet_arrives (usbc env) e (fst pk) (fst (snd pk)) (payload pk) s) =
         do {
           (async, s2) \<leftarrow> (if out_chunk_len (streams s t) \<noteq> 0
               then sc_on_chunk (stream_calls env) (stream_functions (streams s t)) (out_chunk_len (streams s t)) x
               else Some (False, x));
           s3 \<leftarrow> (if async then Some s2 else usb_stream_packet_handler_complete cb' (stream_calls env) (usbc env) t s2);
           if completed (transfers s3 t) then Some s3
           else usb_check_for_transfer_completion cb (usbc env) e
                  (upd_tr t (\<lambda>t. t\<lparr>remaining_packets_to_handle := remaining_packets_to_handle t - 1\<rparr>) s3)
         }"
    using packet_received [OF s _ conjunct1 [OF p] conjunct2 [OF p] st bs apart, where which = "fst pk" and env = env] i(2) by auto
  have o: "unat (stream_offset (streams s t)) = 64 * i" "unat (transfer_length (streams s t)) = 64 * n"
    using s by (simp_all add: stream_waits_def stream_going_def)
  then have "64 * i < unat (transfer_length (streams s t))" using i(2) by simp
  from out_chunk_len_at [OF st o(1) refl this] have "unat (out_chunk_len (streams s t)) = 0" using i by (simp add: o(2))
  then have zero: "out_chunk_len (streams s t) = 0" by (simp add: unat_eq_0)
  obtain y where y: "usb_stream_packet_handler_complete (callbacks env k) (stream_calls env) (usbc env) t x = Some y" "stream_step e t x y"
    "stream_waits e t n (Suc i) (n - i) y" "mem y = mem x" "csw y = packet_counted (stream_functions (streams x t)) (csw x)"
    using packet_complete_waits [OF x(1), of "callbacks env k" env "usbc env"] i by auto
  have ni: "n - i = Suc (n - Suc i)" "0 < n - Suc i" using i by simp_all
  note h = handled_waits [OF y(3) [unfolded ni(1)] ni(2)]
  have "\<not> completed (transfers y t)" using y(3) by (simp add: stream_waits_def stream_going_def)
  then have "receive_packet (callbacks env (Suc k)) (usbc env) e pk s =
      Some (upd_tr t (\<lambda>t. t\<lparr>remaining_packets_to_handle := remaining_packets_to_handle t - 1\<rparr>) y)"
    using run [rule_format, OF dispatch_stream] y(1) h(1) by (simp add: receive_packet_def zero del: callbacks.simps)
  then show ?thesis
    using h(2-5) x(3-6) y(4,5) stream_step_trans [OF stream_step_trans [OF x(2) y(2)] h(3)] by auto
qed

lemma packets_inside:
  fixes s :: "('d, 'z) picoboot_state_scheme"
  assumes "stream_waits e t n i (n - i) s" "i mod q + length pks < q" "i + length pks < n" "\<forall>pk \<in> set pks. full_packet (usbc env) pk"
    and "chunked_stream (streams s t) q"
    and "length bs = 64 * (i mod q)" "mem_read (mem s) (chunk_buffer (streams s t)) (length bs) = bs"
    and "buffers_apart (usbc env) (endpoints s e) (streams s t)"
  shows "\<exists>s'. receive_packets (callbacks env (Suc k)) (usbc env) e pks s = Some s' \<and>
     stream_waits e t n (i + length pks) (n - (i + length pks)) s' \<and> stream_step e t s s' \<and>
     csw s' = (packet_counted (stream_functions (streams s t)) ^^ length pks) (csw s) \<and>
     mem_read (mem s') (chunk_buffer (streams s t)) (length bs + 64 * length pks) = bs @ concat (map payload pks) \<and>
     same_outside (stream_memory (usbc env) (endpoints s e) (streams s t)) (mem s) (mem s')"
  using assms
proof (induction pks arbitrary: s i bs)
  case Nil
  then show ?case by (intro exI [of _ s]) (simp add: stream_step_refl same_outside_refl)
next
  case (Cons pk pks)
  let ?c = "usbc env"
  have pk: "full_packet ?c pk" "Suc (i mod q) < q" "Suc i < n" "\<forall>pk \<in> set pks. full_packet ?c pk" using Cons.prems by simp_all
  have len: "length (payload pk) = 64" using pk(1) by (simp add: full_packet_def)
  from packet_inside [OF Cons.prems(1) pk(2,3,1) Cons.prems(5-8), of k] obtain s1 where
    s1: "receive_packet (callbacks env (Suc k)) ?c e pk s = Some s1" "stream_waits e t n (Suc i) (n - Suc i) s1"
     "stream_step e t s s1" "csw s1 = packet_counted (stream_functions (streams s t)) (csw s)"
     "mem_read (mem s1) (chunk_buffer (streams s t)) (length bs + 64) = bs @ payload pk"
     "same_outside (stream_memory ?c (endpoints s e) (streams s t)) (mem s) (mem s1)" by blast
  note keep = stream_step_keeps [OF s1(3)]
  have m: "Suc i mod q = Suc (i mod q)" using pk(2) by (simp add: mod_Suc)
  have "Suc i mod q + length pks < q" "Suc i + length pks < n" "chunked_stream (streams s1 t) q"
    "length (bs @ payload pk) = 64 * (Suc i mod q)" "mem_read (mem s1) (chunk_buffer (streams s1 t)) (length (bs @ payload pk)) = bs @ payload pk"
    "buffers_apart ?c (endpoints s1 e) (streams s1 t)"
    using Cons.prems s1(5) by (simp_all add: keep m len)
  from Cons.IH [OF s1(2) this(1,2) pk(4) this(3-6)] obtain s' where
    s': "receive_packets (callbacks env (Suc k)) ?c e pks s1 = Some s'"
     "stream_waits e t n (Suc i + length pks) (n - (Suc i + length pks)) s'" "stream_step e t s1 s'"
     "csw s' = (packet_counted (stream_functions (streams s t)) ^^ length pks) (csw s1)"
     "mem_read (mem s') (chunk_buffer (streams s t)) (length bs + 64 + 64 * length pks) = bs @ payload pk @ concat (map payload pks)"
     "same_outside (stream_memory ?c (endpoints s e) (streams s t)) (mem s1) (mem s')"
    by (auto simp: keep len)
  show ?case
    using s1(1,4) s' stream_step_trans [OF s1(3) s'(3)] same_outside_trans [OF s1(6) s'(6)]
    by (intro exI [of _ s']) (simp add: algebra_simps funpow_swap1 del: callbacks.simps)
qed


subsection \<open>The end of a chunk\<close>

text \<open>The packets of one chunk: whole chunks, and what is left for the last one.\<close>

definition chunk_packets :: "nat \<Rightarrow> nat \<Rightarrow> nat \<Rightarrow> nat \<Rightarrow> bool" where
  "chunk_packets n q i k \<longleftrightarrow> i mod q = 0 \<and> 0 < k \<and> i + k \<le> n \<and> (k = q \<or> k < q \<and> i + k = n)"

text \<open>
  The packets of a chunk arrive: the chunk function is called with all of them in the chunk buffer, in order;
  what follows depends on what it answers.
\<close>

lemma chunk_received:
  fixes s :: "('d, 'z) picoboot_state_scheme"
  assumes "stream_waits e t n i (n - i) s" "chunk_packets n q i (length pks)" "\<forall>pk \<in> set pks. full_packet (usbc env) pk"
    and st: "chunked_stream (streams s t) q" and "buffers_apart (usbc env) (endpoints s e) (streams s t)"
  defines "j \<equiv> i + length pks - 1"
  shows "\<exists>x. stream_packet e t n j (n - j) x \<and> stream_step e t s x \<and>
     csw x = (packet_counted (stream_functions (streams s t)) ^^ (length pks - 1)) (csw s) \<and>
     mem_read (mem x) (chunk_buffer (streams s t)) (64 * length pks) = concat (map payload pks) \<and>
     same_outside (stream_memory (usbc env) (endpoints s e) (streams s t)) (mem s) (mem x) \<and>
     receive_packets (callbacks env (Suc k)) (usbc env) e pks s =
       do {
         (async, s2) \<leftarrow> sc_on_chunk (stream_calls env) (stream_functions (streams s t)) (word_of_nat (64 * length pks)) x;
         s3 \<leftarrow> (if async then Some s2 else usb_stream_packet_handler_complete (callbacks env k) (stream_calls env) (usbc env) t s2);
         if completed (transfers s3 t) then Some s3
         else usb_check_for_transfer_completion (callbacks env (Suc k)) (usbc env) e
                (upd_tr t (\<lambda>t. t\<lparr>remaining_packets_to_handle := remaining_packets_to_handle t - 1\<rparr>) s3)
       }"
proof -
  let ?c = "usbc env" and ?st = "streams s t"
  note ch = assms(2) [unfolded chunk_packets_def]
  obtain qs pk where pks: "pks = qs @ [pk]" using ch by (metis append_butlast_last_id length_greater_0_conv)
  have j: "j = i + length qs" "j < n" by (use ch in \<open>simp_all add: j_def pks\<close>)
  have a: "i mod q + length qs < q" "i + length qs < n" "\<forall>pk \<in> set qs. full_packet ?c pk" "length ([] :: u8 list) = 64 * (i mod q)"
    "mem_read (mem s) (chunk_buffer ?st) (length ([] :: u8 list)) = []" using ch assms(3) by (auto simp: pks)
  from packets_inside [OF assms(1) a(1-3) st a(4,5) assms(5), of k] obtain s1 where
    s1: "receive_packets (callbacks env (Suc k)) ?c e qs s = Some s1" "stream_waits e t n j (n - j) s1" "stream_step e t s s1"
     "csw s1 = (packet_counted (stream_functions ?st) ^^ length qs) (csw s)"
     "mem_read (mem s1) (chunk_buffer ?st) (64 * length qs) = concat (map payload qs)"
     "same_outside (stream_memory ?c (endpoints s e) ?st) (mem s) (mem s1)"
    by (auto simp: j(1))
  note keep = stream_step_keeps [OF s1(3)]
  have pk: "length (payload pk) = 64" "ctrl_length ?c (fst (snd pk)) 64" using assms(3) by (auto simp: pks full_packet_def)
  have jq: "j mod q = length qs" using ch a(1) by (simp add: j(1) mod_add_left_eq [symmetric])
  have len: "length (concat (map payload qs)) = 64 * length qs"
    using a(3) by (induction qs) (auto simp: full_packet_def)
  have b: "chunked_stream (streams s1 t) q" "length (concat (map payload qs)) = 64 * (j mod q)"
    "mem_read (mem s1) (chunk_buffer (streams s1 t)) (length (concat (map payload qs))) = concat (map payload qs)"
    "buffers_apart ?c (endpoints s1 e) (streams s1 t)" using s1(5) st assms(5) by (simp_all add: keep jq len)
  obtain x where x: "stream_packet e t n j (n - j) x" "stream_step e t s1 x" "csw x = csw s1" "streams x = streams s1"
    "mem_read (mem x) (chunk_buffer ?st) (64 * length qs + 64) = concat (map payload qs) @ payload pk"
    "same_outside (stream_memory ?c (endpoints s e) ?st) (mem s1) (mem x)"
    and run: "\<forall>cb cb'. cb_on_packet cb Usb_Stream_Packet_Handler e = usb_stream_packet_packet_handler cb' (stream_calls env) ?c e \<longrightarrow>
       usb_handle_transfer cb ?c (unat (ep_num (endpoints s1 e))) False (fst pk)
           (packet_arrives ?c e (fst pk) (fst (snd pk)) (payload pk) s1) =
         do {
           (async, s2) \<leftarrow> (if out_chunk_len (streams s1 t) \<noteq> 0
               then sc_on_chunk (stream_calls env) (stream_functions (streams s1 t)) (out_chunk_len (streams s1 t)) x
               else Some (False, x));
           s3 \<leftarrow> (if async then Some s2 else usb_stream_packet_handler_complete cb' (stream_calls env) ?c t s2);
           if completed (transfers s3 t) then Some s3
           else usb_check_for_transfer_completion cb ?c e
                  (upd_tr t (\<lambda>t. t\<lparr>remaining_packets_to_handle := remaining_packets_to_handle t - 1\<rparr>) s3)
         }"
    using packet_received [OF s1(2) j(2) pk b, where which = "fst pk" and env = env] by (auto simp: keep len)
  have o: "unat (stream_offset (streams s1 t)) = 64 * j" "unat (transfer_length (streams s1 t)) = 64 * n"
    using s1(2) by (simp_all add: stream_waits_def stream_going_def)
  then have "64 * j < unat (transfer_length (streams s1 t))" using j(2) by simp
  note len_at = out_chunk_len_at [OF b(1) o(1) refl this, unfolded o(2) jq]
  have u: "unat (out_chunk_len (streams s1 t)) = 64 * length pks"
  proof (cases "n = Suc j")
    case True
    have "n = i + length pks" by (simp add: True j(1) pks)
    then have "n mod q = length pks mod q" using ch mod_add_left_eq [of i q "length pks"] by simp
    then have "64 * n mod (64 * q) = 64 * (length pks mod q)" by simp
    then show ?thesis using ch len_at True by (cases "length pks = q") (simp_all add: pks)
  next
    case False
    then have "q = length pks" "\<not> 64 * n \<le> 64 * j + 64" using ch j by (auto simp: pks)
    then show ?thesis using len_at by (simp add: pks)
  qed
  have "out_chunk_len (streams s1 t) = word_of_nat (unat (out_chunk_len (streams s1 t)))" by simp
  then have cl: "out_chunk_len (streams s1 t) = word_of_nat (64 * length pks)" unfolding u .
  have cz: "out_chunk_len (streams s1 t) \<noteq> 0" using u by (auto simp: pks)
  have "receive_packets (callbacks env (Suc k)) ?c e pks s = receive_packet (callbacks env (Suc k)) ?c e pk s1"
    by (cases "receive_packet (callbacks env (Suc k)) ?c e pk s1") (simp_all add: pks receive_packets_append s1(1) del: callbacks.simps)
  then show ?thesis
    using run [rule_format, OF dispatch_stream] x cz s1(4) stream_step_trans [OF s1(3) x(2)] same_outside_trans [OF s1(6) x(6)]
    by (intro exI [of _ x]) (simp add: receive_packet_def pks cl keep algebra_simps del: callbacks.simps)
qed


subsection \<open>After the chunk function\<close>

text \<open>The chunk function leaves the endpoint, the transfer and the stream alone.\<close>

definition usb_same :: "('d, 'z) stream_state_scheme \<Rightarrow> ('d, 'z) stream_state_scheme \<Rightarrow> bool" where
  "usb_same s s' \<longleftrightarrow> endpoints s' = endpoints s \<and> transfers s' = transfers s \<and> streams s' = streams s \<and>
     endpoint_table s' = endpoint_table s"

lemma stream_packet_same:
  assumes "stream_packet e t n i h s" "usb_same s s'"
  shows "stream_packet e t n i h s'"
proof -
  have "find_ep k d s' = find_ep k d s" for k d using assms(2) by (simp add: usb_same_def find_ep_def)
  then show ?thesis using assms by (simp add: stream_packet_def stream_going_def usb_same_def)
qed

text \<open>The transfer has ended: no transfer, all buffers taken back.\<close>

definition stream_ended :: "ep_id \<Rightarrow> transfer_id \<Rightarrow> ('d, 'z) stream_state_scheme \<Rightarrow> bool" where
  "stream_ended e t s \<longleftrightarrow>
     current_transfer (endpoints s e) = None \<and> \<not> ep_in (endpoints s e) \<and> halt_state (endpoints s e) = HS_NONE \<and>
     double_buffered (endpoints s e) \<and> find_ep (unat (ep_num (endpoints s e))) False s = Some e \<and>
     unat (owned_buffer_count (endpoints s e)) = 2 \<and> completed (transfers s t)"

text \<open>What ending a transfer changes: the completed transfer is no longer the one of the endpoint.\<close>

definition transfer_over :: "ep_id \<Rightarrow> transfer_id \<Rightarrow> ('d, 'z) usb_state_scheme \<Rightarrow> ('d, 'z) usb_state_scheme" where
  "transfer_over e t s = upd_ep e (\<lambda>ep. ep\<lparr>current_transfer := None\<rparr>) (upd_tr t (\<lambda>t. t\<lparr>completed := True\<rparr>) s)"

lemma transfer_over_proj:
  "endpoints (transfer_over e t s) = (endpoints s)(e := (endpoints s e)\<lparr>current_transfer := None\<rparr>)"
  "transfers (transfer_over e t s) = (transfers s)(t := (transfers s t)\<lparr>completed := True\<rparr>)"
  "mem (transfer_over e t s) = mem s" "find_ep k d (transfer_over e t s) = find_ep k d s"
  by (simp_all add: transfer_over_def upd_ep_def upd_tr_def find_ep_def)

lemma transfer_over_frame: "usb_frame s (transfer_over e t s)"
  unfolding transfer_over_def by (intro usb_frame_into usb_frame_refl)

lemma completion_calls:
  assumes "current_transfer (endpoints s e) = Some t" "halt_state (endpoints s e) = HS_NONE"
    "remaining_packets_to_handle (transfers s t) = 0" "\<not> outstanding_packet (transfers s t)"
    "on_complete (transfers s t) \<noteq> No_Complete"
  shows "usb_check_for_transfer_completion cb c e s = cb_on_complete cb (on_complete (transfers s t)) e t (transfer_over e t s)"
  using assms by (simp add: usb_check_for_transfer_completion_def Let_def transfer_over_def usbsimps)

text \<open>The chunk function was done at once.\<close>

lemma chunk_done_at_once:
  assumes x: "stream_packet e t n j (n - j) x"
  shows "\<exists>y. usb_stream_packet_handler_complete cb' (stream_calls env) c t x = Some y \<and> \<not> completed (transfers y t) \<and>
     (let z = upd_tr t (\<lambda>t. t\<lparr>remaining_packets_to_handle := remaining_packets_to_handle t - 1\<rparr>) y
      in stream_step e t x z \<and> mem z = mem x \<and> csw z = packet_counted (stream_functions (streams x t)) (csw x) \<and>
         (if Suc j < n then stream_waits e t n (Suc j) (n - Suc j) z \<and> usb_check_for_transfer_completion cb c e z = Some z
          else on_complete (transfers x t) \<noteq> No_Complete \<longrightarrow> stream_ended e t (transfer_over e t z) \<and>
            usb_check_for_transfer_completion cb c e z =
              cb_on_complete cb (on_complete (transfers x t)) e t (transfer_over e t z)))"
proof -
  have jn: "j < n" "n - j = Suc (n - Suc j)" using x by (auto simp: stream_packet_def)
  obtain y where y: "usb_stream_packet_handler_complete cb' (stream_calls env) c t x = Some y" "stream_step e t x y"
    "stream_waits e t n (Suc j) (n - j) y" "mem y = mem x" "csw y = packet_counted (stream_functions (streams x t)) (csw x)"
    using packet_complete_waits [OF x, of cb' env c] jn by auto
  let ?z = "upd_tr t (\<lambda>t. t\<lparr>remaining_packets_to_handle := remaining_packets_to_handle t - 1\<rparr>) y"
  have oc: "on_complete (transfers y t) = on_complete (transfers x t)" using y(2) by (simp add: stream_step_def)
  have nc: "\<not> completed (transfers y t)" using y(3) by (simp add: stream_waits_def stream_going_def)
  show ?thesis
  proof (cases "Suc j < n")
    case True
    then have "0 < n - Suc j" by simp
    note h = handled_waits [OF y(3) [unfolded jn(2)] this]
    show ?thesis
      using y nc True h stream_step_trans [OF y(2) h(3)] by (intro exI [of _ y]) (simp add: Let_def)
  next
    case False
    then have n: "n = Suc j" using jn by simp
    note d = y(3) [unfolded stream_waits_def stream_going_def]
    have "remaining_packets_to_handle (transfers y t) \<noteq> 0" using d n by auto
    then have h: "remaining_packets_to_handle (transfers y t) - 1 = 0"
      using d n unat_pred(1) [of "remaining_packets_to_handle (transfers y t)"] by (simp add: unat_eq_0 [symmetric])
    have f: "stream_step e t y ?z" by (rule stream_step_upd_tr) simp
    have "stream_ended e t (transfer_over e t ?z)"
      using d n by (simp add: stream_ended_def transfer_over_proj usbsimps)
    moreover have zp: "current_transfer (endpoints ?z e) = Some t" "halt_state (endpoints ?z e) = HS_NONE"
      "remaining_packets_to_handle (transfers ?z t) = 0" "\<not> outstanding_packet (transfers ?z t)"
      "on_complete (transfers ?z t) = on_complete (transfers x t)" using d h by (simp_all add: usbsimps oc)
    have "usb_check_for_transfer_completion cb c e ?z = cb_on_complete cb (on_complete (transfers x t)) e t (transfer_over e t ?z)"
      if "on_complete (transfers x t) \<noteq> No_Complete"
      using completion_calls [OF zp(1-4), of cb c] that by (simp add: zp(5))
    moreover have "mem ?z = mem y" "csw ?z = csw y" by (simp_all add: upd_tr_def)
    ultimately show ?thesis
      using y nc False stream_step_trans [OF y(2) f] by (intro exI [of _ y]) (simp add: Let_def)
  qed
qed


text \<open>The chunk function goes on in the background: the packet stays outstanding until it is told that the chunk is done.\<close>

lemma chunk_left_outstanding:
  assumes x: "stream_packet e t n j (n - j) x"
  defines "z \<equiv> upd_tr t (\<lambda>t. t\<lparr>remaining_packets_to_handle := remaining_packets_to_handle t - 1\<rparr>) x"
  shows "\<not> completed (transfers x t)" "usb_check_for_transfer_completion cb c e z = Some z"
    "stream_packet e t n j (n - Suc j) z" "stream_step e t x z" "mem z = mem x" "csw z = csw x" "streams z = streams x"
proof -
  note d = x [unfolded stream_packet_def stream_going_def]
  show "\<not> completed (transfers x t)" using d by simp
  have "remaining_packets_to_handle (transfers x t) \<noteq> 0" using d by auto
  note h = unat_pred(1) [OF this]
  show "stream_packet e t n j (n - Suc j) z"
    using d h by (simp add: stream_packet_def stream_going_def z_def usbsimps) (simp add: upd_tr_def)
  show "usb_check_for_transfer_completion cb c e z = Some z"
    using d by (simp add: usb_check_for_transfer_completion_def z_def usbsimps Let_def)
  show "stream_step e t x z" unfolding z_def by (rule stream_step_upd_tr) simp
qed (simp_all add: z_def upd_tr_def)

lemma packet_finished_step: "stream_step e t s (packet_finished e t s)"
  unfolding stream_step_def using packet_finished_frame [of s e t]
  by (auto simp: packet_finished_proj same_endpoint_refl)

lemma last_chunk_done:
  assumes s: "stream_packet e t (Suc j) j 0 s" and oc: "on_complete (transfers s t) \<noteq> No_Complete"
  shows "stream_ended e t (transfer_over e t (packet_finished e t s))"
    "cb_on_complete cb (on_complete (transfers s t)) e t (transfer_over e t (packet_finished e t s)) = Some r \<Longrightarrow>
     completed (transfers r t) \<Longrightarrow> usb_stream_packet_handler_complete cb (stream_calls env) c t s = Some r"
proof -
  note d = s [unfolded stream_packet_def stream_going_def]
  have f: "find_ep k b (packet_finished e t s) = find_ep k b s" for k b by (simp add: find_ep_def packet_finished_proj)
  show "stream_ended e t (transfer_over e t (packet_finished e t s))"
    using d by (simp add: stream_ended_def transfer_over_proj packet_finished_proj f)
  assume r: "cb_on_complete cb (on_complete (transfers s t)) e t (transfer_over e t (packet_finished e t s)) = Some r" "completed (transfers r t)"
  have p: "stream_ep (streams s t) = e" "\<not> ep_in (endpoints s e)" "buf_valid (current_hw_buffer (endpoints s e))"
    "buf_data_len (current_hw_buffer (endpoints s e)) = 64" "current_transfer (endpoints s e) = Some t" using d by simp_all
  have z: "current_transfer (endpoints (packet_finished e t s) e) = Some t" "halt_state (endpoints (packet_finished e t s) e) = HS_NONE"
    "remaining_packets_to_handle (transfers (packet_finished e t s) t) = 0" "\<not> outstanding_packet (transfers (packet_finished e t s) t)"
    "on_complete (transfers (packet_finished e t s) t) \<noteq> No_Complete"
    using d oc by (simp_all add: packet_finished_proj unat_eq_0)
  have "usb_check_for_transfer_completion cb c e (packet_finished e t s) = Some r"
    using completion_calls [OF z, of cb c] r(1) by (simp add: packet_finished_proj)
  then show "usb_stream_packet_handler_complete cb (stream_calls env) c t s = Some r"
    unfolding handler_complete_unfold [OF p] using r(2) by simp
qed

end
