(* ===== verification/Sector_Write.thy ===== *)
theory Sector_Write
  imports Stream_Out
begin

section \<open>Writing sectors over USB\<close>

text \<open>
  The WRITE(10) command of the mass storage class from its command block to its status: the command starts the sector
  stream, eight packets make a sector that is given to the virtual disk, and the last sector is followed by
  the command status wrapper.
\<close>

subsection \<open>The part of the state that belongs to the disk\<close>

text \<open>Everything below the USB library, but for the memory and the activity pin, which every packet changes.\<close>

definition disk_part :: "('d, 'z) vd_state_scheme \<Rightarrow> 'd vd_state" where
  "disk_part s = (vd_state.truncate s)\<lparr>gpio_out := 0, mem := \<lambda>_. 0\<rparr>"

lemma disk_part_usb [simp]:
  "disk_part (s\<lparr>endpoints := x1\<rparr>) = disk_part s" "disk_part (s\<lparr>transfers := x2\<rparr>) = disk_part s"
  "disk_part (s\<lparr>buf_ctrl := x3\<rparr>) = disk_part s" "disk_part (upd_tr t f s) = disk_part s" "disk_part (upd_ep e g s) = disk_part s"
  "disk_part (write_buf_ctrl e w v s) = disk_part s"
  by (simp_all add: disk_part_def vd_state.defs upd_tr_def upd_ep_def write_buf_ctrl_def Let_def)

lemma disk_part_vd [simp]:
  "disk_part (s\<lparr>gpio_out := x4\<rparr>) = disk_part s" "disk_part (s\<lparr>mem := x5\<rparr>) = disk_part s"
  by (simp_all add: disk_part_def vd_state.defs)

lemma disk_part_msc [simp]:
  "disk_part (s\<lparr>streams := y1\<rparr>) = disk_part s"  "disk_part (upd_stream t h s) = disk_part s"
  by (simp_all add: disk_part_def vd_state.defs upd_stream_def)

lemma disk_part_csw [simp]:
  "disk_part (s\<lparr>csw := x1\<rparr>) = disk_part s" "disk_part (s\<lparr>request_sense := x2\<rparr>) = disk_part s"
  "disk_part (s\<lparr>data_phase_length := x3\<rparr>) = disk_part s" "disk_part (s\<lparr>stall_direction_before_csw := x4\<rparr>) = disk_part s"
  "disk_part (s\<lparr>send_csw_on_unstall := x5\<rparr>) = disk_part s" "disk_part (s\<lparr>msc_async_token := x6\<rparr>) = disk_part s"
  "disk_part (s\<lparr>msc_sector_lba := x7\<rparr>) = disk_part s"
  by (simp_all add: disk_part_def vd_state.defs)

lemma disk_part_frame: "usb_frame s s' \<Longrightarrow> disk_part s' = disk_part s" "stream_frame s s' \<Longrightarrow> disk_part s' = disk_part s"
  by (auto simp: usb_frame_def stream_frame_def)

lemma disk_part_proj:
  "the_uf2_info (disk_part z) = the_uf2_info z" "virtual_disk_queue (disk_part z) = virtual_disk_queue z"
  "rebooting (disk_part z) = rebooting z" "flash (disk_part z) = flash z" "flash_funcs (disk_part z) = flash_funcs z"
  "picoboot_queue (disk_part z) = picoboot_queue z" "last_mutation_source (disk_part z) = last_mutation_source z"
  "wd_scratch (disk_part z) = wd_scratch z"
  by (simp_all add: disk_part_def vd_state.defs)

lemma disk_part_eq:
  assumes "disk_part s' = disk_part s"
  shows "the_uf2_info s' = the_uf2_info s" "virtual_disk_queue s' = virtual_disk_queue s" "rebooting s' = rebooting s"
    "flash s' = flash s" "flash_funcs s' = flash_funcs s" "picoboot_queue s' = picoboot_queue s"
    "last_mutation_source s' = last_mutation_source s" "wd_scratch s' = wd_scratch s"
  using disk_part_proj [of s] disk_part_proj [of s'] assms by simp_all

subsection \<open>The command starts the stream\<close>

text \<open>The interface between commands: one buffer is given for the next command block, and the answer has a buffer.\<close>

definition msc_idle :: "('d, 'e) msc_env_scheme \<Rightarrow> ('d, 'z) msc_state_scheme \<Rightarrow> bool" where
  "msc_idle env s \<longleftrightarrow>
     (let ep = endpoints s Msc_Out; tr = transfers s Msc_Cmd_Transfer
      in current_transfer ep = Some Msc_Cmd_Transfer \<and> \<not> ep_in ep \<and> halt_state ep = HS_NONE \<and> double_buffered ep \<and>
         find_ep (unat (ep_num ep)) False s = Some Msc_Out \<and> default_transfer ep = Some Msc_Cmd_Transfer \<and>
         \<not> buf_valid (current_hw_buffer ep) \<and> owned_buffer_count ep = 1 \<and>
         tr_type tr = Msc_Cmd_Packet \<and> on_complete tr = No_Complete \<and> remaining_packets_to_submit tr = 0 \<and>
         remaining_packets_to_handle tr = 1 \<and> \<not> outstanding_packet tr \<and> \<not> packet_queued tr \<and> \<not> completed tr) \<and>
     can_answer (endpoints s Msc_In) \<and> find_ep (unat (ep_num (endpoints s Msc_In))) True s = Some Msc_In \<and>
     block (sector_buf env) 512 \<inter> block (take_addr (usbc env) (endpoints s Msc_Out) 0) 128 = {}"

text \<open>The stream of a WRITE(10) of \<open>n div 8\<close> sectors, waiting for packet \<open>i\<close>.\<close>

definition sector_stream :: "('d, 'e) msc_env_scheme \<Rightarrow> ('d, 'z) msc_state_scheme \<Rightarrow> bool" where
  "sector_stream env s \<longleftrightarrow>
     (let st = streams s Msc_Sector_Transfer
      in stream_functions st = Msc_Sector_Funcs \<and> chunk_buffer st = sector_buf env \<and> chunk_size st = 512 \<and>
         chunked_stream st 8 \<and> buffers_apart (usbc env) (endpoints s Msc_Out) st) \<and>
     on_complete (transfers s Msc_Sector_Transfer) = Tf_data_phase_complete \<and>
     default_transfer (endpoints s Msc_Out) = Some Msc_Cmd_Transfer \<and>
     tr_type (transfers s Msc_Cmd_Transfer) = Msc_Cmd_Packet \<and>
     can_answer (endpoints s Msc_In) \<and> stall_direction_before_csw s = SCSI_DIR_NONE"

text \<open>A command block for WRITE(10) of \<open>n\<close> sectors, with the length and the direction that belong to it.\<close>

definition write_cbw :: "scsi_cbw \<Rightarrow> nat \<Rightarrow> bool" where
  "write_cbw cbw n \<longleftrightarrow> cbw_valid 31 cbw \<and> cbw_cb cbw 0 = 0x2a \<and> cbw_flags cbw = 0 \<and> 0 < n \<and>
     unat (cb_blocks cbw) = n \<and> unat (data_transfer_length cbw) = 512 * n"

lemma cb_blocks_less: "unat (cb_blocks cbw) < 65536"
proof -
  have "cb_blocks cbw = take_bit 16 (cb_blocks cbw)"
    unfolding cb_blocks_def by (rule bit_word_eqI) (auto simp: bit_simps dest: bit_imp_le_length)
  then have "unat (cb_blocks cbw) = take_bit 16 (unat (cb_blocks cbw))" by (metis unsigned_take_bit_eq)
  also have "take_bit 16 (unat (cb_blocks cbw)) < 2 ^ 16" by (rule take_bit_nat_less_exp)
  finally show ?thesis by simp
qed

text \<open>A packet that arrives on an idle OUT endpoint is the current packet of the function that handles it.\<close>

definition packet_current :: "usb_consts \<Rightarrow> ep_id \<Rightarrow> transfer_id \<Rightarrow> usb_packet \<Rightarrow> ('d, 'z) usb_state_scheme \<Rightarrow> ('d, 'z) usb_state_scheme" where
  "packet_current c e t pk s =
     upd_tr t (\<lambda>t. t\<lparr>outstanding_packet := True\<rparr>)
       (upd_ep e (\<lambda>ep. ep\<lparr>owned_buffer_count := owned_buffer_count ep + 1, current_take_buffer := fst pk\<rparr>)
         (packet_arrives c e (fst pk) (fst (snd pk)) (payload pk) s))"

lemma packet_current_handled:
  assumes "current_transfer (endpoints s e) = Some t" "\<not> ep_in (endpoints s e)" "\<not> outstanding_packet (transfers s t)"
    "find_ep (unat (ep_num (endpoints s e))) False s = Some e"
  shows "receive_packet cb c e pk s =
    do {
      s3 \<leftarrow> cb_on_packet cb (tr_type (transfers s t)) e (packet_current c e t pk s);
      if completed (transfers s3 t) then Some s3
      else usb_check_for_transfer_completion cb c e
             (upd_tr t (\<lambda>t. t\<lparr>remaining_packets_to_handle := remaining_packets_to_handle t - 1\<rparr>) s3)
    }"
proof -
  let ?s0 = "packet_arrives c e (fst pk) (fst (snd pk)) (payload pk) s"
  have s0: "endpoints ?s0 = endpoints s" "transfers ?s0 = transfers s" "find_ep k False ?s0 = find_ep k False s" for k
    by (simp_all add: packet_arrives_def find_ep_def usbsimps)
  have two: "upd_ep e f (upd_ep e g ?s0) = upd_ep e (\<lambda>ep. f (g ep)) ?s0" for f g by (simp add: upd_ep_def)
  show ?thesis
    using assms by (simp add: receive_packet_def usb_handle_transfer_def usb_call_on_packet_def usbsimps s0 two packet_current_def)
qed

lemma packet_current_proj:
  "endpoints (packet_current c e t pk s) = (endpoints s)(e := (endpoints s e)
     \<lparr>owned_buffer_count := owned_buffer_count (endpoints s e) + 1, current_take_buffer := fst pk\<rparr>)"
  "transfers (packet_current c e t pk s) = (transfers s)(t := (transfers s t)\<lparr>outstanding_packet := True\<rparr>)"
  "mem (packet_current c e t pk s) = mem_write (mem s) (take_addr c (endpoints s e) (fst pk)) (payload pk)"
  "read_buf_ctrl e (unat (fst pk)) (packet_current c e t pk s) = fst (snd pk)"
  "endpoint_table (packet_current c e t pk s) = endpoint_table s"
  by (simp_all add: packet_current_def packet_arrives_def upd_ep_def upd_tr_def write_buf_ctrl_def Let_def read_buf_ctrl_def)

lemma packet_current_buffer:
  assumes "\<not> ep_in (endpoints s e)" "\<not> buf_valid (current_hw_buffer (endpoints s e))"
    "ctrl_length c (fst (snd pk)) n"
  defines "b \<equiv> \<lparr>buf_data = take_addr c (endpoints s e) (fst pk), buf_data_len = word_of_nat n,
     buf_data_max = ucast (buffer_size (endpoints s e)), buf_valid = True\<rparr>"
  shows "usb_current_packet_buffer c e (packet_current c e t pk s) =
    (b, upd_ep e (\<lambda>ep. ep\<lparr>current_hw_buffer := b\<rparr>) (packet_current c e t pk s))"
  using assms by (simp add: usb_current_packet_buffer_def Let_def packet_current_proj ctrl_length_def take_addr_def)


text \<open>The command sets up the stream and chains it to the command transfer.\<close>

definition stream_started :: "('d, 'e) msc_env_scheme \<Rightarrow> scsi_cbw \<Rightarrow> ('d, 'z) msc_state_scheme \<Rightarrow> ('d, 'z) msc_state_scheme" where
  "stream_started env cbw z =
     usb_chain_transfer Msc_Out Msc_Sector_Transfer
       (usb_stream_setup_transfer Msc_Sector_Transfer Msc_Sector_Funcs (sector_buf env) 512
         (data_transfer_length cbw div 64 * 64) Tf_data_phase_complete
         ((upd_stream Msc_Sector_Transfer (\<lambda>st. st\<lparr>stream_ep := Msc_Out\<rparr>) z)
            \<lparr>msc_sector_lba := cb_lba cbw, stall_direction_before_csw := SCSI_DIR_NONE,
             data_phase_length := data_transfer_length cbw, msc_async_token := msc_async_token z + 1\<rparr>))"

lemma write_lengths:
  assumes "write_cbw cbw n"
  shows "data_transfer_length cbw = cb_blocks cbw * 512" "data_transfer_length cbw div 64 \<noteq> 0"
    "unat (data_transfer_length cbw div 64 * 64) = 512 * n" "n < 65536"
proof -
  have n: "unat (cb_blocks cbw) = n" "unat (data_transfer_length cbw) = 512 * n" "0 < n" using assms by (simp_all add: write_cbw_def)
  show less: "n < 65536" using cb_blocks_less [of cbw] n(1) by simp
  have "unat (cb_blocks cbw * 512) = 512 * n" using less by (simp add: unat_word_ariths n(1))
  then show "data_transfer_length cbw = cb_blocks cbw * 512" by (simp add: word_unat_eq_iff n(2))
  have d: "unat (data_transfer_length cbw div 64) = 8 * n" by (simp add: unat_div n(2))
  then show "data_transfer_length cbw div 64 \<noteq> 0" using n(3) by auto
  show "unat (data_transfer_length cbw div 64 * 64) = 512 * n" using less by (simp add: unat_word_ariths n(2))
qed

lemma write_command_accepted:
  assumes "write_cbw cbw n"
  shows "scsi_command cb env cbw z = Some (stream_started env cbw z)"
proof -
  note l = write_lengths [OF assms]
  have c: "cbw_cb cbw 0 = 0x2a" "scsi_dir cbw = SCSI_DIR_OUT" using assms by (simp_all add: write_cbw_def scsi_dir_def)
  have "cb_blocks cbw * 512 \<noteq> 0" using l(2) unfolding l(1) by auto
  then show ?thesis
    using l(2) unfolding l(1)
    by (simp add: scsi_command_def c scsi_handle_read_or_write_command_def scsi_read_or_write_blocks_def Let_def
        msc_init_for_di_or_do_def di_or_do_plan_def l(1) stream_started_def upd_stream_def)
qed


lemma stream_started_proj:
  assumes "write_cbw cbw n"
  shows "endpoints (stream_started env cbw z) = (endpoints z)(Msc_Out := (endpoints z Msc_Out)\<lparr>chain_transfer := Some Msc_Sector_Transfer\<rparr>)"
    "\<And>t. t \<noteq> Msc_Sector_Transfer \<Longrightarrow> transfers (stream_started env cbw z) t = transfers z t"
    "\<exists>m. transfers (stream_started env cbw z) Msc_Sector_Transfer = \<lparr>tr_type = Usb_Stream_Packet_Handler,
       on_complete = Tf_data_phase_complete, remaining_packets_to_submit = m, remaining_packets_to_handle = m,
       outstanding_packet = False, packet_queued = False, started = False, completed = False\<rparr> \<and> unat m = 8 * n"
    "stream_ep (streams (stream_started env cbw z) Msc_Sector_Transfer) = Msc_Out"
    "stream_functions (streams (stream_started env cbw z) Msc_Sector_Transfer) = Msc_Sector_Funcs"
    "chunk_buffer (streams (stream_started env cbw z) Msc_Sector_Transfer) = sector_buf env"
    "chunk_size (streams (stream_started env cbw z) Msc_Sector_Transfer) = 512"
    "stream_offset (streams (stream_started env cbw z) Msc_Sector_Transfer) = 0"
    "unat (transfer_length (streams (stream_started env cbw z) Msc_Sector_Transfer)) = 512 * n"
    "mem (stream_started env cbw z) = mem z" "csw (stream_started env cbw z) = csw z"
    "stall_direction_before_csw (stream_started env cbw z) = SCSI_DIR_NONE" "msc_sector_lba (stream_started env cbw z) = cb_lba cbw"
    "endpoint_table (stream_started env cbw z) = endpoint_table z" "disk_part (stream_started env cbw z) = disk_part z"
proof -
  note l = write_lengths [OF assms]
  have m: "unat ((data_transfer_length cbw div 64 * 64 + 63) div 64) = 8 * n"
    using l(3,4) by (simp add: unat_div unat_word_ariths)
  note d = stream_started_def usb_chain_transfer_def usb_stream_setup_transfer_def usb_grow_transfer_def usb_reset_transfer_def
    upd_stream_def upd_tr_def upd_ep_def
  show "endpoints (stream_started env cbw z) = (endpoints z)(Msc_Out := (endpoints z Msc_Out)\<lparr>chain_transfer := Some Msc_Sector_Transfer\<rparr>)"
    "\<And>t. t \<noteq> Msc_Sector_Transfer \<Longrightarrow> transfers (stream_started env cbw z) t = transfers z t"
    "stream_ep (streams (stream_started env cbw z) Msc_Sector_Transfer) = Msc_Out"
    "stream_functions (streams (stream_started env cbw z) Msc_Sector_Transfer) = Msc_Sector_Funcs"
    "chunk_buffer (streams (stream_started env cbw z) Msc_Sector_Transfer) = sector_buf env"
    "chunk_size (streams (stream_started env cbw z) Msc_Sector_Transfer) = 512"
    "stream_offset (streams (stream_started env cbw z) Msc_Sector_Transfer) = 0"
    "unat (transfer_length (streams (stream_started env cbw z) Msc_Sector_Transfer)) = 512 * n"
    "mem (stream_started env cbw z) = mem z" "csw (stream_started env cbw z) = csw z"
    "stall_direction_before_csw (stream_started env cbw z) = SCSI_DIR_NONE" "msc_sector_lba (stream_started env cbw z) = cb_lba cbw"
    "endpoint_table (stream_started env cbw z) = endpoint_table z"
    using l(3) by (simp_all add: d fun_eq_iff)
  show "\<exists>m. transfers (stream_started env cbw z) Msc_Sector_Transfer = \<lparr>tr_type = Usb_Stream_Packet_Handler,
       on_complete = Tf_data_phase_complete, remaining_packets_to_submit = m, remaining_packets_to_handle = m,
       outstanding_packet = False, packet_queued = False, started = False, completed = False\<rparr> \<and> unat m = 8 * n"
    using m by (intro exI [of _ "(data_transfer_length cbw div 64 * 64 + 63) div 64"]) (simp add: d)
  show "disk_part (stream_started env cbw z) = disk_part z"
    by (simp add: stream_started_def usb_chain_transfer_def usb_stream_setup_transfer_def usb_grow_transfer_def usb_reset_transfer_def)
qed

text \<open>The status that a command starts with.\<close>

definition started_csw :: "scsi_cbw \<Rightarrow> scsi_csw" where
  "started_csw cbw = \<lparr>csw_sig = CSW_SIG, csw_tag = cbw_tag cbw, residue = data_transfer_length cbw, csw_status = CSW_STATUS_COMMAND_PASSED\<rparr>"


lemma packet_done_idle:
  assumes "current_transfer (endpoints s e) = Some t" "\<not> ep_in (endpoints s e)" "halt_state (endpoints s e) = HS_NONE"
    "remaining_packets_to_submit (transfers s t) = 0" "remaining_packets_to_handle (transfers s t) \<noteq> 0"
    "\<not> packet_queued (transfers s t)" "\<not> completed (transfers s t)"
  shows "usb_packet_done cb c e s = Some (upd_ep e (\<lambda>ep. ep\<lparr>current_hw_buffer := (current_hw_buffer ep)\<lparr>buf_valid := False\<rparr>\<rparr>)
     (upd_tr t (\<lambda>t. t\<lparr>outstanding_packet := False\<rparr>) s))"
proof -
  let ?s1 = "upd_tr t (\<lambda>t. t\<lparr>outstanding_packet := False\<rparr>) s"
  let ?s3 = "upd_ep e (\<lambda>ep. ep\<lparr>current_hw_buffer := (current_hw_buffer ep)\<lparr>buf_valid := False\<rparr>\<rparr>) ?s1"
  have "\<not> may_give e ?s3" using assms by (simp add: may_give_def usbsimps)
  then show ?thesis
    using assms by (simp add: usb_packet_done_def usb_check_for_transfer_completion_def usbsimps Let_def give_as_many_stop)
qed

text \<open>The first two buffers are given when the stream is started.\<close>

lemma stream_starts:
  fixes v :: "('d, 'z) picoboot_state_scheme"
  assumes "current_transfer (endpoints v e) = None" "\<not> ep_in (endpoints v e)" "halt_state (endpoints v e) = HS_NONE"
    "double_buffered (endpoints v e)" "\<not> buf_valid (current_hw_buffer (endpoints v e))" "owned_buffer_count (endpoints v e) = 2"
    "find_ep (unat (ep_num (endpoints v e))) False v = Some e"
    "transfers v t = \<lparr>tr_type = Usb_Stream_Packet_Handler, on_complete = f, remaining_packets_to_submit = m,
       remaining_packets_to_handle = m, outstanding_packet = False, packet_queued = False, started = False, completed = False\<rparr>"
    "unat m = n" "stream_ep (streams v t) = e" "stream_offset (streams v t) = 0" "unat (transfer_length (streams v t)) = 64 * n"
    "2 \<le> n"
  shows "\<exists>s'. usb_start_transfer cb c e t v = Some s' \<and> stream_waits e t n 0 n s' \<and> usb_frame v s' \<and>
     (\<forall>e'. e' \<noteq> e \<longrightarrow> endpoints s' e' = endpoints v e') \<and> (\<forall>t'. t' \<noteq> t \<longrightarrow> transfers s' t' = transfers v t') \<and>
     on_complete (transfers s' t) = f \<and> dpram_buffer_offset (endpoints s' e) = dpram_buffer_offset (endpoints v e) \<and>
     default_transfer (endpoints s' e) = default_transfer (endpoints v e)"
proof -
  define u where "u = upd_tr t (\<lambda>t. t\<lparr>started := True\<rparr>) (upd_ep e (\<lambda>ep. ep\<lparr>current_transfer := Some t, chain_transfer := None\<rparr>) v)"
  have u: "endpoints u e = (endpoints v e)\<lparr>current_transfer := Some t, chain_transfer := None\<rparr>"
    "transfers u t = (transfers v t)\<lparr>started := True\<rparr>" "\<And>e'. e' \<noteq> e \<Longrightarrow> endpoints u e' = endpoints v e'"
    "\<And>t'. t' \<noteq> t \<Longrightarrow> transfers u t' = transfers v t'" "streams u = streams v" "endpoint_table u = endpoint_table v"
    by (simp_all add: u_def usbsimps) (simp_all add: upd_tr_def upd_ep_def)
  have "\<not> ep_in (endpoints u e)" "halt_state (endpoints u e) = HS_NONE" "current_transfer (endpoints u e) = Some t"
    "\<not> buf_valid (current_hw_buffer (endpoints u e))" using assms by (simp_all add: u)
  from give_as_many_out_shape [OF this, of cb c] obtain s' W R k where
    s': "usb_give_as_many_buffers_as_possible cb c e u = Some s'" "usb_frame u s'"
     "same_endpoint (endpoints u e) (endpoints s' e)" "\<forall>e'. e' \<noteq> e \<longrightarrow> endpoints s' e' = endpoints u e'"
     "\<forall>t'. t' \<noteq> t \<longrightarrow> transfers s' t' = transfers u t'"
     "current_hw_buffer (endpoints s' e) = current_hw_buffer (endpoints u e)"
     "transfers s' t = (transfers u t)\<lparr>remaining_packets_to_submit := R\<rparr>"
     "k = min (unat (owned_buffer_count (endpoints u e))) (unat (remaining_packets_to_submit (transfers u t)))"
     "owned_buffer_count (endpoints s' e) = W" "unat W + k = unat (owned_buffer_count (endpoints u e))"
     "unat R + k = unat (remaining_packets_to_submit (transfers u t))" by blast
  have k: "k = 2" using s'(8) assms(6,8,9,13) by (simp add: u)
  have "unat W = 0" "unat R = n - 2" using s'(10,11) assms(6,8,9) by (simp_all add: u k)
  moreover have "streams s' = streams v" "endpoint_table s' = endpoint_table v" using s'(2) by (auto simp: usb_frame_def u)
  moreover have "find_ep i False s' = find_ep i False v" for i by (simp add: find_ep_def calculation)
  ultimately have waits: "stream_waits e t n 0 n s'"
    unfolding stream_waits_def stream_going_def same_endpoint_proj [OF s'(3)]
    using assms s'(6,7,9) by (simp add: u)
  have "usb_frame v u" unfolding u_def by (intro usb_frame_into usb_frame_refl)
  then have frame: "usb_frame v s'" by (rule usb_frame_trans [OF _ s'(2)])
  show ?thesis
    using s' waits frame same_endpoint_proj [OF s'(3)] assms(8)
    by (intro exI [of _ s']) (simp add: usb_start_transfer_def u_def [symmetric] u)
qed


lemma dispatch_command: "cb_on_packet (callbacks env (Suc k)) Msc_Cmd_Packet e = msc_cmd_packet (callbacks env k) env e"
  by (simp add: callbacks_over_def fun_eq_iff)

lemma write_started:
  fixes s :: "('d, 'z) picoboot_state_scheme"
  assumes idle: "msc_idle env s" and ctrl: "ctrl_length (usbc env) (fst (snd pk)) 31"
  defines "a \<equiv> take_addr (usbc env) (endpoints s Msc_Out) (fst pk)"
  assumes cbw: "cbw = scsi_cbw_at (mem_write (mem s) a (payload pk)) a" "write_cbw cbw n"
  shows "\<exists>s'. receive_packet (callbacks env (Suc k)) (usbc env) Msc_Out pk s = Some s' \<and>
     stream_waits Msc_Out Msc_Sector_Transfer (8 * n) 0 (8 * n) s' \<and> sector_stream env s' \<and>
     csw s' = started_csw cbw \<and> msc_sector_lba s' = cb_lba cbw \<and> mem s' = mem_write (mem s) a (payload pk) \<and>
     disk_part s' = disk_part s \<and> endpoints s' Msc_In = endpoints s Msc_In \<and> endpoint_table s' = endpoint_table s \<and>
     take_addr (usbc env) (endpoints s' Msc_Out) = take_addr (usbc env) (endpoints s Msc_Out)"
proof -
  let ?c = "usbc env" and ?cb = "callbacks env k" and ?ep = "endpoints s Msc_Out"
  note d = idle [unfolded msc_idle_def Let_def]
  define y where "y = packet_current ?c Msc_Out Msc_Cmd_Transfer pk s"
  define b where "b = \<lparr>buf_data = a, buf_data_len = word_of_nat 31, buf_data_max = ucast (buffer_size ?ep), buf_valid = True\<rparr>"
  define y1 where "y1 = upd_ep Msc_Out (\<lambda>ep. ep\<lparr>current_hw_buffer := b\<rparr>) y"
  define z where "z = y1\<lparr>csw := started_csw cbw,
     request_sense := (request_sense y1)\<lparr>rs_key := SK_OK, rs_asc := 0, rs_ascq := 0\<rparr>\<rparr>"
  define w where "w = stream_started env cbw z"
  define v where "v = upd_ep Msc_Out (\<lambda>ep. ep\<lparr>current_hw_buffer := (current_hw_buffer ep)\<lparr>buf_valid := False\<rparr>\<rparr>)
     (upd_tr Msc_Cmd_Transfer (\<lambda>t. t\<lparr>outstanding_packet := False\<rparr>) w)"
  define u where "u = upd_tr Msc_Cmd_Transfer (\<lambda>t. t\<lparr>remaining_packets_to_handle := remaining_packets_to_handle t - 1\<rparr>) v"
  have y: "mem y = mem_write (mem s) a (payload pk)"
    "endpoints y = (endpoints s)(Msc_Out := ?ep\<lparr>owned_buffer_count := 2, current_take_buffer := fst pk\<rparr>)"
    "transfers y = (transfers s)(Msc_Cmd_Transfer := (transfers s Msc_Cmd_Transfer)\<lparr>outstanding_packet := True\<rparr>)"
    "endpoint_table y = endpoint_table s"
    using d by (simp_all add: y_def packet_current_proj a_def)
  have "disk_part y = disk_part s" by (simp add: y_def packet_current_def packet_arrives_def)
  then have z: "disk_part z = disk_part s" "mem z = mem y" "csw z = started_csw cbw" "transfers z = transfers y"
    "endpoints z = (endpoints s)(Msc_Out := ?ep\<lparr>owned_buffer_count := 2, current_take_buffer := fst pk, current_hw_buffer := b\<rparr>)"
    "endpoint_table z = endpoint_table s"
    by (simp_all add: z_def y1_def y) (simp_all add: upd_ep_def y)
  have buf: "usb_current_packet_buffer ?c Msc_Out y = (b, y1)"
    using packet_current_buffer [OF _ _ ctrl, of s Msc_Out Msc_Cmd_Transfer] d by (simp only: y1_def y_def b_def a_def simp_thms)
  have y1: "mem y1 = mem_write (mem s) a (payload pk)" "buf_data b = a" "buf_data_len b = 31"
    by (simp_all add: y1_def usbsimps y b_def)
  have "cbw_valid 31 cbw" "cbw_cb cbw 0 \<noteq> 3" using cbw(2) by (simp_all add: write_cbw_def)
  then have internal: "msc_cmd_packet_internal ?cb env Msc_Out y = Some w"
    using write_command_accepted [OF cbw(2), of ?cb env z] 
    by (simp add: msc_cmd_packet_internal_def buf Let_def y1 cbw(1) [symmetric] z_def started_csw_def w_def)
  note wp = stream_started_proj [OF cbw(2), where env = env and z = z, folded w_def]
  have w: "current_transfer (endpoints w Msc_Out) = Some Msc_Cmd_Transfer" "\<not> ep_in (endpoints w Msc_Out)"
    "halt_state (endpoints w Msc_Out) = HS_NONE" "remaining_packets_to_submit (transfers w Msc_Cmd_Transfer) = 0"
    "remaining_packets_to_handle (transfers w Msc_Cmd_Transfer) \<noteq> 0" "\<not> packet_queued (transfers w Msc_Cmd_Transfer)"
    "\<not> completed (transfers w Msc_Cmd_Transfer)"
    using d by (simp_all add: wp z y)
  have run: "msc_cmd_packet ?cb env Msc_Out y = Some v"
    by (simp add: msc_cmd_packet_def internal packet_done_idle [OF w] v_def)
  have u: "endpoints u = (endpoints s)(Msc_Out := ?ep\<lparr>owned_buffer_count := 2, current_take_buffer := fst pk,
      chain_transfer := Some Msc_Sector_Transfer, current_hw_buffer := b\<lparr>buf_valid := False\<rparr>\<rparr>)"
    "transfers u Msc_Cmd_Transfer = (transfers s Msc_Cmd_Transfer)\<lparr>remaining_packets_to_handle := 0\<rparr>"
    "transfers u Msc_Sector_Transfer = transfers w Msc_Sector_Transfer" "streams u = streams w" "mem u = mem y" "csw u = csw w"
    "endpoint_table u = endpoint_table s" "stall_direction_before_csw u = SCSI_DIR_NONE" "msc_sector_lba u = cb_lba cbw"
    "disk_part u = disk_part s"
    using d by (simp_all add: u_def v_def usbsimps wp z y) (simp_all add: upd_ep_def upd_tr_def wp z y)
  define x where "x = transfer_over Msc_Out Msc_Cmd_Transfer u"
  have chk: "usb_check_for_transfer_completion (callbacks env (Suc k)) ?c Msc_Out u =
      usb_start_transfer (callbacks env (Suc k)) ?c Msc_Out Msc_Sector_Transfer x"
    using d by (simp add: usb_check_for_transfer_completion_def Let_def u x_def transfer_over_def usbsimps del: callbacks.simps)
  obtain m where m: "transfers w Msc_Sector_Transfer = \<lparr>tr_type = Usb_Stream_Packet_Handler,
       on_complete = Tf_data_phase_complete, remaining_packets_to_submit = m, remaining_packets_to_handle = m,
       outstanding_packet = False, packet_queued = False, started = False, completed = False\<rparr>" "unat m = 8 * n"
    using wp(3) by blast
  have xs: "endpoints x Msc_Out = (endpoints u Msc_Out)\<lparr>current_transfer := None\<rparr>"
    "transfers x Msc_Sector_Transfer = transfers w Msc_Sector_Transfer" "streams x = streams w" "find_ep i False x = find_ep i False s" for i
    by (simp_all add: x_def transfer_over_proj u find_ep_def) (simp_all add: transfer_over_def upd_ep_def upd_tr_def u)
  have n: "2 \<le> 8 * n" using cbw(2) by (simp add: write_cbw_def)
  have "current_transfer (endpoints x Msc_Out) = None" "\<not> ep_in (endpoints x Msc_Out)" "halt_state (endpoints x Msc_Out) = HS_NONE"
    "double_buffered (endpoints x Msc_Out)" "\<not> buf_valid (current_hw_buffer (endpoints x Msc_Out))"
    "owned_buffer_count (endpoints x Msc_Out) = 2" "find_ep (unat (ep_num (endpoints x Msc_Out))) False x = Some Msc_Out"
    "transfers x Msc_Sector_Transfer = \<lparr>tr_type = Usb_Stream_Packet_Handler,
       on_complete = Tf_data_phase_complete, remaining_packets_to_submit = m, remaining_packets_to_handle = m,
       outstanding_packet = False, packet_queued = False, started = False, completed = False\<rparr>"
    "unat m = 8 * n" "stream_ep (streams x Msc_Sector_Transfer) = Msc_Out" "stream_offset (streams x Msc_Sector_Transfer) = 0"
    "unat (transfer_length (streams x Msc_Sector_Transfer)) = 64 * (8 * n)"
    using d m by (simp_all add: xs u wp)
  from stream_starts [OF this n, of "callbacks env (Suc k)" ?c] obtain s' where
    s': "usb_start_transfer (callbacks env (Suc k)) ?c Msc_Out Msc_Sector_Transfer x = Some s'"
      "stream_waits Msc_Out Msc_Sector_Transfer (8 * n) 0 (8 * n) s'" "usb_frame x s'" "\<forall>e'. e' \<noteq> Msc_Out \<longrightarrow> endpoints s' e' = endpoints x e'"
      "\<forall>t'. t' \<noteq> Msc_Sector_Transfer \<longrightarrow> transfers s' t' = transfers x t'" "on_complete (transfers s' Msc_Sector_Transfer) = Tf_data_phase_complete"
      "dpram_buffer_offset (endpoints s' Msc_Out) = dpram_buffer_offset (endpoints x Msc_Out)"
      "default_transfer (endpoints s' Msc_Out) = default_transfer (endpoints x Msc_Out)" by blast
  have "usb_frame u s'" unfolding x_def by (rule usb_frame_trans [OF transfer_over_frame s'(3) [unfolded x_def]])
  then obtain E T B where f: "s' = u\<lparr>endpoints := E, transfers := T, buf_ctrl := B\<rparr>" by (auto simp: usb_frame_def)
  have addr: "take_addr ?c (endpoints s' Msc_Out) = take_addr ?c ?ep"
    using s'(7) by (simp add: take_addr_def fun_eq_iff xs u)
  have fs: "streams s' = streams w" "mem s' = mem y" "csw s' = started_csw cbw" "msc_sector_lba s' = cb_lba cbw"
    "stall_direction_before_csw s' = SCSI_DIR_NONE" "disk_part s' = disk_part s" "endpoint_table s' = endpoint_table s"
    using u wp(11) z(3) by (simp_all add: f)
  have "chunked_stream (streams w Msc_Sector_Transfer) 8"
    using write_lengths(4) [OF cbw(2)] unfolding chunked_stream_def
    by (intro conjI exI [of _ 3]) (simp_all add: wp)
  then have "sector_stream env s'"
    unfolding sector_stream_def Let_def buffers_apart_def addr
    using d s' xs u by (simp add: fs wp x_def transfer_over_proj)
  moreover have "\<not> completed (transfers v Msc_Cmd_Transfer)" using d by (simp add: v_def usbsimps wp z y)
  then have "receive_packet (callbacks env (Suc k)) ?c Msc_Out pk s = Some s'"
    using packet_current_handled [of s Msc_Out Msc_Cmd_Transfer "callbacks env (Suc k)" ?c pk] d run chk s'(1)
    by (simp add: y_def [symmetric] dispatch_command u_def [symmetric] del: callbacks.simps)
  moreover have "endpoints s' Msc_In = endpoints s Msc_In" using s'(4) by (simp add: x_def transfer_over_proj u)
  ultimately show ?thesis using s'(2) fs addr by (intro exI [of _ s']) (simp add: y del: callbacks.simps)
qed


subsection \<open>A sector is given to the disk\<close>

text \<open>What a block write may change.\<close>

definition disk_frame :: "('d, 'z) vd_state_scheme \<Rightarrow> ('d, 'z) vd_state_scheme \<Rightarrow> bool" where
  "disk_frame s s' \<longleftrightarrow> (\<exists>M Q U. s' = s\<lparr>mem := M, virtual_disk_queue := Q, the_uf2_info := U\<rparr>)"

lemma disk_frameI: "s' = s\<lparr>mem := M, virtual_disk_queue := Q, the_uf2_info := U\<rparr> \<Longrightarrow> disk_frame s s'"
  unfolding disk_frame_def by ((rule exI)+, assumption)

lemma disk_frame_refl: "disk_frame s s"
  by (rule disk_frameI [where M = "mem s" and Q = "virtual_disk_queue s" and U = "the_uf2_info s"]) simp

lemma disk_frame_trans: "disk_frame s s1 \<Longrightarrow> disk_frame s1 s2 \<Longrightarrow> disk_frame s s2"
  unfolding disk_frame_def by (elim exE, simp, (rule exI)+, rule refl)

lemma disk_frame_upd: "disk_frame s (s\<lparr>mem := M, the_uf2_info := U\<rparr>)" "disk_frame s (s\<lparr>the_uf2_info := U\<rparr>)"
  by (rule disk_frameI [where M = M and Q = "virtual_disk_queue s" and U = U], simp)
    (rule disk_frameI [where M = "mem s" and Q = "virtual_disk_queue s" and U = U], simp)

lemma disk_frame_start: "disk_frame s (snd (start_uf2_transfer env ram fl b s))"
  by (auto simp: start_uf2_transfer_def Let_def intro: disk_frame_upd disk_frame_trans [OF disk_frame_upd(1) disk_frame_upd(2)])

lemma disk_frame_reset: "disk_frame s (vd_reset s)"
  unfolding vd_reset_def by (rule disk_frame_upd)

lemma disk_frame_update: "disk_frame s (snd (update_current_uf2_info env buf b token s))"
proof -
  let ?ram = "uf2_addr_ram (plat env) b" and ?fa = "uf2_addr_flash (plat env) b"
  obtain fits j where j: "(if num_blocks (the_uf2_info s) \<noteq> uf2_num_blocks b
      then start_uf2_transfer env ?ram ?fa b s else (True, s)) = (fits, j)" by (rule prod.exhaust)
  have start: "disk_frame s j"
    using j disk_frame_start [of s env ?ram ?fa b] disk_frame_refl by (auto split: if_split_asm)
  show ?thesis
    unfolding update_current_uf2_info_def Let_def j
    using disk_frame_trans [OF start disk_frame_reset] start disk_frame_reset [of s] disk_frame_trans [OF start disk_frame_upd(2)]
    by simp
qed

lemma disk_frame_erase: "disk_frame s (erase_on_first_write s)"
  by (simp add: erase_on_first_write_def Let_def disk_frame_upd disk_frame_refl)

lemma disk_frame_page: "disk_frame s (snd (write_uf2_page env s))"
proof -
  define s1 where "s1 = s\<lparr>the_uf2_info := (the_uf2_info s)\<lparr>lowest_addr :=
     update_lowest (plat env) (transfer_addr (next_task (the_uf2_info s))) (lowest_addr (the_uf2_info s))\<rparr>\<rparr>"
  define s2 where "s2 = (if uf2_ram (the_uf2_info s) then s1 else erase_on_first_write s1)"
  have "disk_frame s s1" unfolding s1_def by (rule disk_frame_upd)
  then have s2: "disk_frame s s2" using disk_frame_trans [OF _ disk_frame_erase] by (auto simp: s2_def)
  show ?thesis
  proof (cases "fst (write_uf2_page env s)")
    case False
    then show ?thesis by (auto simp: write_uf2_page_def Let_def disk_frame_refl split: if_splits prod.splits)
  next
    case True
    then have "disk_frame s2 (snd (write_uf2_page env s))"
      by (auto simp: write_uf2_page_def Let_def s1_def [symmetric] s2_def [symmetric] queue_task_def set_queue_def
          get_queue_def intro!: disk_frameI split: if_splits)
    then show ?thesis by (rule disk_frame_trans [OF s2])
  qed
qed

lemma disk_frame_write: "disk_frame s (snd (vd_write_block env token lba buf s))"
proof -
  obtain ok j where j: "update_current_uf2_info env buf (uf2_block_at (plat env) (mem s) buf) token s = (ok, j)" by (rule prod.exhaust)
  have "disk_frame s j" using disk_frame_update [of s env buf "uf2_block_at (plat env) (mem s) buf" token] by (simp add: j)
  then show ?thesis
    using disk_frame_trans [OF _ disk_frame_page] by (auto simp: vd_write_block_def Let_def j disk_frame_refl split: bool.split)
qed

lemma disk_frame_usb:
  fixes s :: "('d, 'z) stream_state_scheme"
  assumes "disk_frame s s'"
  shows "usb_same s s'"
  using assms by (auto simp: disk_frame_def usb_same_def)

subsection \<open>The status\<close>

text \<open>The status wrapper has been given to the controller.\<close>

definition status_sent :: "('d, 'e) msc_env_scheme \<Rightarrow> usb_endpoint \<Rightarrow> scsi_csw \<Rightarrow> ('d, 'z) msc_state_scheme \<Rightarrow> bool" where
  "status_sent env ep w s \<longleftrightarrow>
     mem_read (mem s) (give_addr (usbc env) ep) 13 = csw_bytes w \<and>
     read_buf_ctrl Msc_In (unat (current_give_buffer ep)) s = give_buffer_val (usbc env) ep 13 \<and>
     answer_given ep Msc_Cmd_Response_Transfer (endpoints s Msc_In) \<and>
     transfers s Msc_Cmd_Response_Transfer = \<lparr>tr_type = Current_Packet_Only, on_complete = Tf_wait_command,
       remaining_packets_to_submit = 0, remaining_packets_to_handle = 1, outstanding_packet = False, packet_queued = False,
       started = True, completed = False\<rparr>"

lemma dispatch_data_phase: "cb_on_complete (callbacks env (Suc k)) Tf_data_phase_complete e t = msc_data_phase_complete (callbacks env k) (usbc env)"
  by (simp add: callbacks_over_def fun_eq_iff)

lemma find_ep_cong: "endpoint_table s' = endpoint_table s \<Longrightarrow> find_ep num d s' = find_ep num d s"
  by (simp add: find_ep_def)

lemma stream_status:
  fixes s :: "('d, 'z) picoboot_state_scheme"
  assumes "stream_ended Msc_Out t s" "can_answer (endpoints s Msc_In)" "stall_direction_before_csw s = SCSI_DIR_NONE"
    "t \<noteq> Msc_Cmd_Response_Transfer"
  shows "\<exists>s'. cb_on_complete (callbacks env (Suc (Suc k))) Tf_data_phase_complete e t s = Some s' \<and>
     status_sent env (endpoints s Msc_In) (csw s) s' \<and> stream_ended Msc_Out t s' \<and> disk_part s' = disk_part s \<and>
     same_outside (block (give_addr (usbc env) (endpoints s Msc_In)) 13) (mem s) (mem s') \<and>
     endpoints s' Msc_Out = endpoints s Msc_Out \<and> transfers s' Msc_Cmd_Transfer = transfers s Msc_Cmd_Transfer \<and>
     endpoint_table s' = endpoint_table s"
proof -
  obtain s' M E T B where s': "msc_send_csw (callbacks env (Suc k)) (usbc env) s = Some s'"
    "mem_read (mem s') (give_addr (usbc env) (endpoints s Msc_In)) 13 = csw_bytes (csw s)"
    "read_buf_ctrl Msc_In (unat (current_give_buffer (endpoints s Msc_In))) s' = give_buffer_val (usbc env) (endpoints s Msc_In) 13"
    "\<forall>e'. e' \<noteq> Msc_In \<longrightarrow> endpoints s' e' = endpoints s e'"
    "\<forall>t'. t' \<noteq> Msc_Cmd_Response_Transfer \<longrightarrow> transfers s' t' = transfers s t'"
    "answer_given (endpoints s Msc_In) Msc_Cmd_Response_Transfer (endpoints s' Msc_In)"
    "transfers s' Msc_Cmd_Response_Transfer = \<lparr>tr_type = Current_Packet_Only, on_complete = Tf_wait_command,
       remaining_packets_to_submit = 0, remaining_packets_to_handle = 1, outstanding_packet = False, packet_queued = False,
       started = True, completed = False\<rparr>"
    "\<forall>x. 13 \<le> unat (x - give_addr (usbc env) (endpoints s Msc_In)) \<longrightarrow> mem s' x = mem s x"
    "s' = s\<lparr>mem := M, endpoints := E, transfers := T, buf_ctrl := B, send_csw_on_unstall := False\<rparr>"
    using send_csw_ok [OF assms(2), of env k] by blast
  have "disk_part s' = disk_part s" "endpoint_table s' = endpoint_table s" by (simp_all add: s'(9))
  moreover have "stream_ended Msc_Out t s'"
    using assms(1,4) s'(4,5) find_ep_cong [OF calculation(2)] by (simp add: stream_ended_def)
  moreover have "same_outside (block (give_addr (usbc env) (endpoints s Msc_In)) 13) (mem s) (mem s')"
    using s'(8) by (simp add: same_outside_def block_def)
  ultimately show ?thesis
    using s'(1-7) assms(3)
    by (intro exI [of _ s']) (simp add: dispatch_data_phase msc_data_phase_complete_def status_sent_def del: callbacks.simps)
qed


subsection \<open>A sector arrives\<close>

text \<open>The sector stream goes on with the same buffers and the same functions.\<close>

lemma sector_stream_step:
  assumes "stream_step Msc_Out Msc_Sector_Transfer s s'" "sector_stream env s"
  shows "sector_stream env s'"
proof -
  have s: "\<forall>e'. e' \<noteq> Msc_Out \<longrightarrow> endpoints s' e' = endpoints s e'" "\<forall>t'. t' \<noteq> Msc_Sector_Transfer \<longrightarrow> transfers s' t' = transfers s t'"
    "stream_frame s s'" "same_endpoint (endpoints s Msc_Out) (endpoints s' Msc_Out)"
    using assms(1) by (auto simp: stream_step_def)
  have "stall_direction_before_csw s' = stall_direction_before_csw s" using s(3) by (auto simp: stream_frame_def)
  moreover have "default_transfer (endpoints s' Msc_Out) = default_transfer (endpoints s Msc_Out)"
    by (rule same_endpoint_proj [OF s(4)])
  ultimately show ?thesis
    using assms(2) s(1,2) stream_step_keeps [OF assms(1)] by (simp add: sector_stream_def Let_def)
qed

lemma sector_stream_same:
  assumes "disk_frame s s'" "sector_stream env s"
  shows "sector_stream env s'"
  using assms by (auto simp: disk_frame_def sector_stream_def Let_def)

text \<open>The token and the sector number count up, and the sector is in the buffer.\<close>

lemma sector_arrives:
  fixes s :: "('d, 'z) picoboot_state_scheme"
  assumes waits: "stream_waits Msc_Out Msc_Sector_Transfer n i (n - i) s" and st: "sector_stream env s"
    and i: "i mod 8 = 0" "n mod 8 = 0" "i < n" and pks: "length pks = 8" "\<forall>pk \<in> set pks. full_packet (usbc env) pk"
  shows "\<exists>x. mem_read (mem x) (sector_buf env) 512 = concat (map payload pks) \<and>
     same_outside (stream_memory (usbc env) (endpoints s Msc_Out) (streams s Msc_Sector_Transfer)) (mem s) (mem x) \<and>
     disk_part x = disk_part s \<and> msc_async_token x = msc_async_token s + 1 \<and> msc_sector_lba x = msc_sector_lba s + 1 \<and>
     csw x = (packet_counted Msc_Sector_Funcs ^^ 7) (csw s) \<and>
     stream_packet Msc_Out Msc_Sector_Transfer n (i + 7) (n - (i + 7)) x \<and> sector_stream env x \<and>
     endpoints x Msc_In = endpoints s Msc_In \<and> endpoint_table x = endpoint_table s \<and>
     take_addr (usbc env) (endpoints x Msc_Out) = take_addr (usbc env) (endpoints s Msc_Out) \<and>
     receive_packets (callbacks env (Suc k)) (usbc env) Msc_Out pks s =
       do {
         let (async, s2) = vd_write_block env (msc_async_token s + 1) (msc_sector_lba s) (sector_buf env) x;
         s3 \<leftarrow> (if async then Some s2
               else usb_stream_packet_handler_complete (callbacks env k) (stream_calls env) (usbc env) Msc_Sector_Transfer s2);
         if completed (transfers s3 Msc_Sector_Transfer) then Some s3
         else usb_check_for_transfer_completion (callbacks env (Suc k)) (usbc env) Msc_Out
                (upd_tr Msc_Sector_Transfer (\<lambda>t. t\<lparr>remaining_packets_to_handle := remaining_packets_to_handle t - 1\<rparr>) s3)
       }"
proof -
  let ?c = "usbc env" and ?t = Msc_Sector_Transfer
  note d = st [unfolded sector_stream_def Let_def]
  have "8 dvd n - i" using i by (simp add: dvd_diff_nat mod_eq_0_iff_dvd)
  then have "8 \<le> n - i" using i(3) by (intro dvd_imp_le) simp_all
  then have le: "i + 8 \<le> n" using i(3) by simp
  then have ch: "chunk_packets n 8 i (length pks)" using i by (simp add: chunk_packets_def pks)
  have c8: "chunked_stream (streams s ?t) 8" "buffers_apart ?c (endpoints s Msc_Out) (streams s ?t)" using d by simp_all
  have e: "stream_functions (streams s ?t) = Msc_Sector_Funcs" "chunk_buffer (streams s ?t) = sector_buf env"
    "i + 8 - 1 = i + 7" "(8 :: nat) - 1 = 7" "64 * 8 = (512 :: nat)" "word_of_nat 512 = (512 :: u32)" using d by simp_all
  obtain x0 where x0: "stream_packet Msc_Out ?t n (i + 7) (n - (i + 7)) x0" "stream_step Msc_Out ?t s x0"
    "csw x0 = (packet_counted Msc_Sector_Funcs ^^ 7) (csw s)"
    "mem_read (mem x0) (sector_buf env) 512 = concat (map payload pks)"
    "same_outside (stream_memory ?c (endpoints s Msc_Out) (streams s ?t)) (mem s) (mem x0)"
    and run: "receive_packets (callbacks env (Suc k)) ?c Msc_Out pks s =
       do {
         (async, s2) \<leftarrow> sc_on_chunk (stream_calls env) Msc_Sector_Funcs 512 x0;
         s3 \<leftarrow> (if async then Some s2 else usb_stream_packet_handler_complete (callbacks env k) (stream_calls env) ?c ?t s2);
         if completed (transfers s3 ?t) then Some s3
         else usb_check_for_transfer_completion (callbacks env (Suc k)) ?c Msc_Out
                (upd_tr ?t (\<lambda>t. t\<lparr>remaining_packets_to_handle := remaining_packets_to_handle t - 1\<rparr>) s3)
       }"
    using chunk_received [OF waits ch pks(2) c8, of k, unfolded pks(1) e] by blast
  define x where "x = x0\<lparr>msc_async_token := msc_async_token s + 1, msc_sector_lba := msc_sector_lba s + 1\<rparr>"
  have "msc_async_token x0 = msc_async_token s" "msc_sector_lba x0 = msc_sector_lba s"
    using x0(2) by (auto simp: stream_step_def stream_frame_def)
  moreover have "\<not> ep_in (endpoints x0 Msc_Out)" "stream_ep (streams x0 ?t) = Msc_Out"
    using x0(1) by (simp_all add: stream_packet_def stream_going_def)
  ultimately have chunk: "sc_on_chunk (stream_calls env) Msc_Sector_Funcs 512 x0 =
      Some (vd_write_block env (msc_async_token s + 1) (msc_sector_lba s) (sector_buf env) x)"
    by (simp add: stream_calls_def msc_on_sector_stream_chunk_def Let_def x_def)
  have same: "usb_same x0 x" "sector_stream env x0" by (auto simp: usb_same_def x_def sector_stream_step [OF x0(2) st])
  have sx: "sector_stream env x" using same(2) by (simp add: x_def sector_stream_def Let_def)
  have "disk_part x0 = disk_part s" using x0(2) by (simp add: stream_step_def disk_part_frame(2))
  moreover have "endpoint_table x0 = endpoint_table s" using x0(2) by (auto simp: stream_step_def stream_frame_def)
  moreover have "dpram_buffer_offset (endpoints x0 Msc_Out) = dpram_buffer_offset (endpoints s Msc_Out)" "endpoints x0 Msc_In = endpoints s Msc_In"
    using x0(2) same_endpoint_proj(6) [of "endpoints s Msc_Out" "endpoints x0 Msc_Out"] by (simp_all add: stream_step_def)
  ultimately show ?thesis
    using x0(3-5) stream_packet_same [OF x0(1) same(1)] sx run chunk
    by (intro exI [of _ x]) (simp add: x_def take_addr_def fun_eq_iff split_def Let_def del: callbacks.simps)
qed


subsection \<open>After a sector\<close>

text \<open>
  When the disk is done with a sector in a state \<open>s\<close>, the stream waits for the next one, or the status is sent;
  the disk itself is as it was left.
\<close>

definition sector_taken :: "('d, 'e) msc_env_scheme \<Rightarrow> nat \<Rightarrow> nat \<Rightarrow> ('d, 'z) msc_state_scheme \<Rightarrow> ('d, 'z) msc_state_scheme \<Rightarrow> bool" where
  "sector_taken env n i s s' \<longleftrightarrow> disk_part s' = disk_part s \<and>
     (let w = packet_counted Msc_Sector_Funcs (csw s)
      in if i < n then stream_waits Msc_Out Msc_Sector_Transfer n i (n - i) s' \<and> stream_step Msc_Out Msc_Sector_Transfer s s' \<and>
           sector_stream env s' \<and> mem s' = mem s \<and> csw s' = w
         else stream_ended Msc_Out Msc_Sector_Transfer s' \<and> status_sent env (endpoints s Msc_In) w s' \<and>
           same_outside (block (give_addr (usbc env) (endpoints s Msc_In)) 13) (mem s) (mem s') \<and>
           default_transfer (endpoints s' Msc_Out) = Some Msc_Cmd_Transfer \<and> tr_type (transfers s' Msc_Cmd_Transfer) = Msc_Cmd_Packet \<and>
           endpoint_table s' = endpoint_table s \<and>
           take_addr (usbc env) (endpoints s' Msc_Out) = take_addr (usbc env) (endpoints s Msc_Out))"

lemma sector_taken_at_once:
  fixes x :: "('d, 'z) picoboot_state_scheme"
  assumes x: "stream_packet Msc_Out Msc_Sector_Transfer n (i + 7) (n - (i + 7)) x" and st: "sector_stream env x"
  shows "\<exists>s'. do {
       s3 \<leftarrow> usb_stream_packet_handler_complete (callbacks env (Suc k)) (stream_calls env) (usbc env) Msc_Sector_Transfer x;
       if completed (transfers s3 Msc_Sector_Transfer) then Some s3
       else usb_check_for_transfer_completion (callbacks env (Suc (Suc k))) (usbc env) Msc_Out
              (upd_tr Msc_Sector_Transfer (\<lambda>t. t\<lparr>remaining_packets_to_handle := remaining_packets_to_handle t - 1\<rparr>) s3)
     } = Some s' \<and> sector_taken env n (i + 8) x s'"
proof -
  let ?t = Msc_Sector_Transfer
  note d = st [unfolded sector_stream_def Let_def]
  have f: "stream_functions (streams x ?t) = Msc_Sector_Funcs" "on_complete (transfers x ?t) = Tf_data_phase_complete"
    "Suc (i + 7) = i + 8" using d by simp_all
  obtain y z where y: "usb_stream_packet_handler_complete (callbacks env (Suc k)) (stream_calls env) (usbc env) ?t x = Some y"
    "\<not> completed (transfers y ?t)" "z = upd_tr ?t (\<lambda>t. t\<lparr>remaining_packets_to_handle := remaining_packets_to_handle t - 1\<rparr>) y"
    "stream_step Msc_Out ?t x z" "mem z = mem x" "csw z = packet_counted Msc_Sector_Funcs (csw x)"
    "if i + 8 < n then stream_waits Msc_Out ?t n (i + 8) (n - (i + 8)) z \<and>
         usb_check_for_transfer_completion (callbacks env (Suc (Suc k))) (usbc env) Msc_Out z = Some z
       else stream_ended Msc_Out ?t (transfer_over Msc_Out ?t z) \<and>
         usb_check_for_transfer_completion (callbacks env (Suc (Suc k))) (usbc env) Msc_Out z =
           cb_on_complete (callbacks env (Suc (Suc k))) Tf_data_phase_complete Msc_Out ?t (transfer_over Msc_Out ?t z)"
    using chunk_done_at_once [OF x, of "callbacks env (Suc k)" env "usbc env" "callbacks env (Suc (Suc k))", unfolded f Let_def]
    by (auto simp del: callbacks.simps)
  have sz: "sector_stream env z" by (rule sector_stream_step [OF y(4) st])
  have "stream_frame x z" using y(4) by (simp add: stream_step_def)
  then have dz: "disk_part z = disk_part x" by (rule disk_part_frame)
  show ?thesis
  proof (cases "i + 8 < n")
    case True
    then show ?thesis using y sz dz by (intro exI [of _ z]) (simp add: sector_taken_def Let_def del: callbacks.simps)
  next
    case False
    let ?z = "transfer_over Msc_Out ?t z"
    have zp: "endpoints ?z Msc_In = endpoints x Msc_In" "csw ?z = csw z" "stall_direction_before_csw ?z = SCSI_DIR_NONE" "mem ?z = mem x"
      "disk_part ?z = disk_part x"
      using y(4,5) sz dz by (simp_all add: transfer_over_proj stream_step_def sector_stream_def)
        (simp_all add: transfer_over_def upd_ep_def upd_tr_def)
    have "endpoint_table z = endpoint_table x" using \<open>stream_frame x z\<close> by (auto simp: stream_frame_def)
    then have zq: "endpoint_table ?z = endpoint_table x" "default_transfer (endpoints ?z Msc_Out) = Some Msc_Cmd_Transfer"
      "tr_type (transfers ?z Msc_Cmd_Transfer) = Msc_Cmd_Packet"
      "take_addr (usbc env) (endpoints ?z Msc_Out) = take_addr (usbc env) (endpoints x Msc_Out)"
      using y(4) sz same_endpoint_proj(6) [of "endpoints x Msc_Out" "endpoints z Msc_Out"]
      by (simp_all add: transfer_over_def upd_ep_def upd_tr_def sector_stream_def take_addr_def stream_step_def fun_eq_iff)
    have "stream_ended Msc_Out ?t ?z" "can_answer (endpoints ?z Msc_In)" using y(7) False d by (simp_all add: zp)
    from stream_status [OF this zp(3), of env k Msc_Out] obtain s' where
      "cb_on_complete (callbacks env (Suc (Suc k))) Tf_data_phase_complete Msc_Out ?t ?z = Some s'"
      "status_sent env (endpoints x Msc_In) (csw z) s'" "stream_ended Msc_Out ?t s'" "disk_part s' = disk_part x"
      "same_outside (block (give_addr (usbc env) (endpoints x Msc_In)) 13) (mem x) (mem s')"
      "endpoints s' Msc_Out = endpoints ?z Msc_Out" "transfers s' Msc_Cmd_Transfer = transfers ?z Msc_Cmd_Transfer"
      "endpoint_table s' = endpoint_table ?z"
      by (auto simp: zp simp del: callbacks.simps)
    then show ?thesis using y False zq by (intro exI [of _ s']) (simp add: sector_taken_def Let_def del: callbacks.simps)
  qed
qed


lemma sector_taken_later:
  fixes x :: "('d, 'z) picoboot_state_scheme"
  assumes x: "stream_packet Msc_Out Msc_Sector_Transfer n (i + 7) (n - (i + 8)) x" and st: "sector_stream env x" and n: "i + 8 \<le> n"
  shows "\<exists>s'. usb_stream_chunk_done (callbacks env (Suc (Suc k))) (stream_calls env) (usbc env) Msc_Sector_Transfer x = Some s' \<and>
     sector_taken env n (i + 8) x s'"
proof -
  let ?t = Msc_Sector_Transfer and ?cb = "callbacks env (Suc (Suc k))"
  note d = st [unfolded sector_stream_def Let_def]
  have f: "stream_functions (streams x ?t) = Msc_Sector_Funcs" "on_complete (transfers x ?t) = Tf_data_phase_complete"
    "Suc (i + 7) = i + 8" using d by simp_all
  show ?thesis
  proof (cases "i + 8 < n")
    case True
    then have "0 < n - (i + 8)" by simp
    from packet_complete_waits [OF x this, of ?cb env "usbc env", unfolded f] obtain s' where
      s': "usb_stream_packet_handler_complete ?cb (stream_calls env) (usbc env) ?t x = Some s'" "stream_step Msc_Out ?t x s'"
        "stream_waits Msc_Out ?t n (i + 8) (n - (i + 8)) s'" "mem s' = mem x" "csw s' = packet_counted Msc_Sector_Funcs (csw x)" by blast
    have "disk_part s' = disk_part x" using s'(2) by (simp add: stream_step_def disk_part_frame(2))
    then show ?thesis
      using s' sector_stream_step [OF s'(2) st] True
      by (intro exI [of _ s']) (simp add: usb_stream_chunk_done_def sector_taken_def Let_def del: callbacks.simps)
  next
    case False
    then have n': "n = Suc (i + 7)" "n - (i + 8) = 0" using n by simp_all
    let ?z = "transfer_over Msc_Out ?t (packet_finished Msc_Out ?t x)"
    have "on_complete (transfers x ?t) \<noteq> No_Complete" by (simp add: f)
    note last = last_chunk_done [OF x [unfolded n'(2), unfolded n'(1)] this, unfolded f(2)]
    have zp: "endpoints ?z Msc_In = endpoints x Msc_In" "csw ?z = packet_counted Msc_Sector_Funcs (csw x)"
      "stall_direction_before_csw ?z = SCSI_DIR_NONE" "mem ?z = mem x" "disk_part ?z = disk_part x"
      using d disk_part_frame(1) [OF transfer_over_frame [of "packet_finished Msc_Out ?t x" Msc_Out ?t]]
        disk_part_frame(2) [OF packet_finished_frame [of x Msc_Out ?t]]
      by (simp_all add: transfer_over_proj packet_finished_proj)
        (simp_all add: transfer_over_def packet_finished_def upd_ep_def upd_tr_def f gpio_clr_mask_def upd_stream_def)
    have zq: "endpoint_table ?z = endpoint_table x" "default_transfer (endpoints ?z Msc_Out) = Some Msc_Cmd_Transfer"
      "tr_type (transfers ?z Msc_Cmd_Transfer) = Msc_Cmd_Packet"
      "take_addr (usbc env) (endpoints ?z Msc_Out) = take_addr (usbc env) (endpoints x Msc_Out)"
      using d by (simp_all add: transfer_over_proj packet_finished_proj take_addr_def fun_eq_iff)
        (simp add: transfer_over_def upd_ep_def upd_tr_def packet_finished_proj)
    have "can_answer (endpoints ?z Msc_In)" using d by (simp add: zp)
    from stream_status [OF last(1) this zp(3), of env k Msc_Out] obtain s' where
      s': "cb_on_complete ?cb Tf_data_phase_complete Msc_Out ?t ?z = Some s'"
      "status_sent env (endpoints x Msc_In) (packet_counted Msc_Sector_Funcs (csw x)) s'" "stream_ended Msc_Out ?t s'" "disk_part s' = disk_part x"
      "same_outside (block (give_addr (usbc env) (endpoints x Msc_In)) 13) (mem x) (mem s')"
      "endpoints s' Msc_Out = endpoints ?z Msc_Out" "transfers s' Msc_Cmd_Transfer = transfers ?z Msc_Cmd_Transfer"
      "endpoint_table s' = endpoint_table ?z"
      by (auto simp: zp simp del: callbacks.simps)
    have "completed (transfers s' ?t)" using s'(3) by (simp add: stream_ended_def)
    from last(2) [OF s'(1) this] show ?thesis
      using s' False zq by (intro exI [of _ s']) (simp add: usb_stream_chunk_done_def sector_taken_def Let_def del: callbacks.simps)
  qed
qed


subsection \<open>The host takes the status\<close>

lemma dispatch_wait_command: "cb_on_complete (callbacks env (Suc k)) Tf_wait_command e t = tf_wait_command (callbacks env k) (usbc env)"
  by (simp add: callbacks_over_def fun_eq_iff)

lemma status_taken:
  fixes s :: "('d, 'z) picoboot_state_scheme"
  assumes "status_sent env ep w s" "stream_ended Msc_Out Msc_Sector_Transfer s" "can_answer ep"
    "default_transfer (endpoints s Msc_Out) = Some Msc_Cmd_Transfer" "tr_type (transfers s Msc_Cmd_Transfer) = Msc_Cmd_Packet"
    "find_ep (unat (ep_num ep)) True s = Some Msc_In"
    "block (sector_buf env) 512 \<inter> block (take_addr (usbc env) (endpoints s Msc_Out) 0) 128 = {}"
  shows "\<exists>s'. usb_handle_transfer (callbacks env (Suc (Suc k))) (usbc env) (unat (ep_num ep)) True which s = Some s' \<and>
     msc_idle env s' \<and> disk_part s' = disk_part s \<and> mem s' = mem s"
proof -
  note sent = assms(1) [unfolded status_sent_def answer_given_def] and ended = assms(2) [unfolded stream_ended_def]
    and can = assms(3) [unfolded can_answer_def]
  have "find_ep (unat (ep_num ep)) True s = Some Msc_In" "ep_in (endpoints s Msc_In)" "halt_state (endpoints s Msc_In) = HS_NONE"
    "current_transfer (endpoints s Msc_In) = Some Msc_Cmd_Response_Transfer"
    "remaining_packets_to_submit (transfers s Msc_Cmd_Response_Transfer) = 0"
    "remaining_packets_to_handle (transfers s Msc_Cmd_Response_Transfer) = 1"
    "\<not> outstanding_packet (transfers s Msc_Cmd_Response_Transfer)" "\<not> completed (transfers s Msc_Cmd_Response_Transfer)"
    "on_complete (transfers s Msc_Cmd_Response_Transfer) \<noteq> No_Complete"
    using sent can assms(6) by simp_all
  from single_in_answered [OF this, of "callbacks env (Suc (Suc k))" "usbc env" which] obtain s1 where
    s1: "usb_handle_transfer (callbacks env (Suc (Suc k))) (usbc env) (unat (ep_num ep)) True which s =
        tf_wait_command (callbacks env (Suc k)) (usbc env) s1" "usb_frame s s1"
      "endpoints s1 Msc_In = (endpoints s Msc_In)\<lparr>owned_buffer_count := owned_buffer_count (endpoints s Msc_In) + 1,
        current_take_buffer := which, current_transfer := None\<rparr>"
      "\<forall>e'. e' \<noteq> Msc_In \<longrightarrow> endpoints s1 e' = endpoints s e'"
      "transfers s1 Msc_Cmd_Transfer = transfers s Msc_Cmd_Transfer"
    using sent by (auto simp: dispatch_wait_command simp del: callbacks.simps)
  let ?ep = "endpoints s1 Msc_Out"
  have o: "?ep = endpoints s Msc_Out" using s1(4) by simp
  have two: "owned_buffer_count ?ep = ep_buffer_count ?ep" using ended by (simp add: o ep_buffer_count_def word_unat_eq_iff)
  have p: "\<not> ep_in ?ep" "halt_state ?ep = HS_NONE" "initial_packet_count Msc_Cmd_Packet = 1"
    using ended by (simp_all add: o)
  obtain s' H P W G where s': "usb_reset_and_start_transfer (callbacks env (Suc k)) (usbc env) Msc_Out Msc_Cmd_Transfer Msc_Cmd_Packet
      No_Complete s1 = Some s'" "unat (owned_buffer_count (endpoints s' Msc_Out)) + 1 = unat (ep_buffer_count ?ep)" "usb_frame s1 s'"
      "endpoints s' Msc_In = endpoints s1 Msc_In"
      "endpoints s' Msc_Out = ?ep\<lparr>current_transfer := Some Msc_Cmd_Transfer, chain_transfer := None, halt_state := HS_NONE,
        first_buffer_after_reset := False, next_pid := P, current_hw_buffer := H\<lparr>buf_valid := False\<rparr>, owned_buffer_count := W,
        current_give_buffer := G\<rparr>"
      "transfers s' Msc_Cmd_Transfer = \<lparr>tr_type = Msc_Cmd_Packet, on_complete = No_Complete, remaining_packets_to_submit = 0,
        remaining_packets_to_handle = 1, outstanding_packet = False, packet_queued = False, started = True, completed = False\<rparr>"
    using start_out [OF p(1,2) two p(3), of "callbacks env (Suc k)" "usbc env" Msc_Cmd_Transfer No_Complete] by blast
  have run: "usb_handle_transfer (callbacks env (Suc (Suc k))) (usbc env) (unat (ep_num ep)) True which s = Some s'"
    using s'(1) p ended assms(4,5)
    by (simp add: s1(1,5) o tf_wait_command_def usb_start_default_transfer_if_not_already_running_or_halted_def
        start_default_transfer_def del: callbacks.simps)
  have W: "W = 1" using s'(2) ended by (simp add: s'(5) o ep_buffer_count_def word_unat_eq_iff)
  have frame: "usb_frame s s'" by (rule usb_frame_trans [OF s1(2) s'(3)])
  have "find_ep i d s' = find_ep i d s" for i d
    by (rule find_ep_cong) (rule usb_frame_same [OF frame])
  moreover have "take_addr (usbc env) (endpoints s' Msc_Out) 0 = take_addr (usbc env) (endpoints s Msc_Out) 0"
    by (simp add: take_addr_def s'(5) o)
  ultimately have "msc_idle env s'"
    using ended assms(4,6,7) sent can by (simp add: msc_idle_def Let_def s'(4-6) o W s1(3) can_answer_def)
  then show ?thesis
    using run disk_part_frame(1) [OF frame] usb_frame_same(1) [OF frame] by (intro exI [of _ s']) (simp del: callbacks.simps)
qed


subsection \<open>Sectors that the disk does not act on\<close>

text \<open>The packets of a sector, and the contents of sectors that are not blocks of a download.\<close>

definition sector_packets :: "usb_consts \<Rightarrow> usb_packet list \<Rightarrow> bool" where
  "sector_packets c pks \<longleftrightarrow> length pks = 8 \<and> (\<forall>pk \<in> set pks. full_packet c pk)"

abbreviation sector_data :: "usb_packet list \<Rightarrow> u8 list" where
  "sector_data pks \<equiv> concat (map payload pks)"

definition not_uf2 :: "('d, 'e) msc_env_scheme \<Rightarrow> u8 list \<Rightarrow> bool" where
  "not_uf2 env bs \<longleftrightarrow> (\<forall>m. mem_read m (sector_buf env) 512 = bs \<longrightarrow>
     \<not> uf2_accepted (plat env) (uf2_block_at (plat env) m (sector_buf env)))"

text \<open>The memory that a write uses: the sector buffer, the packet buffers and the status.\<close>

definition write_memory :: "('d, 'e) msc_env_scheme \<Rightarrow> ('d, 'z) msc_state_scheme \<Rightarrow> u32 set" where
  "write_memory env s = block (sector_buf env) 512 \<union> block (take_addr (usbc env) (endpoints s Msc_Out) 0) 128 \<union>
     block (give_addr (usbc env) (endpoints s Msc_In)) 13"

lemma same_outside_mono: "same_outside A m m' \<Longrightarrow> A \<subseteq> B \<Longrightarrow> same_outside B m m'"
  by (auto simp: same_outside_def)

lemma stream_write_memory:
  "sector_stream env s \<Longrightarrow> stream_memory (usbc env) (endpoints s Msc_Out) (streams s Msc_Sector_Transfer) \<subseteq> write_memory env s"
  by (auto simp: sector_stream_def Let_def stream_memory_def write_memory_def)

lemma csw_counted: "(packet_counted Msc_Sector_Funcs ^^ k) w = w\<lparr>residue := residue w - 64 * word_of_nat k\<rparr>"
  by (induction k) (simp_all add: packet_counted_def algebra_simps)

text \<open>The write has ended with its status; the interface is between commands once the host has taken it.\<close>

definition write_over :: "('d, 'e) msc_env_scheme \<Rightarrow> ('d, 'z) msc_state_scheme \<Rightarrow> ('d, 'z) msc_state_scheme \<Rightarrow> bool" where
  "write_over env s s' \<longleftrightarrow> stream_ended Msc_Out Msc_Sector_Transfer s' \<and>
     default_transfer (endpoints s' Msc_Out) = Some Msc_Cmd_Transfer \<and> tr_type (transfers s' Msc_Cmd_Transfer) = Msc_Cmd_Packet \<and>
     endpoint_table s' = endpoint_table s \<and> take_addr (usbc env) (endpoints s' Msc_Out) = take_addr (usbc env) (endpoints s Msc_Out)"

lemma sector_ignored:
  fixes s :: "('d, 'z) picoboot_state_scheme"
  assumes "stream_waits Msc_Out Msc_Sector_Transfer n i (n - i) s" "sector_stream env s" "i mod 8 = 0" "n mod 8 = 0" "i < n"
    "sector_packets (usbc env) pks" "not_uf2 env (sector_data pks)"
  shows "\<exists>x s'. receive_packets (callbacks env (Suc (Suc k))) (usbc env) Msc_Out pks s = Some s' \<and> sector_taken env n (i + 8) x s' \<and>
     disk_part x = disk_part s \<and> same_outside (write_memory env s) (mem s) (mem x) \<and> endpoints x Msc_In = endpoints s Msc_In \<and>
     csw x = (packet_counted Msc_Sector_Funcs ^^ 7) (csw s) \<and>
     take_addr (usbc env) (endpoints x Msc_Out) = take_addr (usbc env) (endpoints s Msc_Out) \<and> endpoint_table x = endpoint_table s"
proof -
  have pks: "length pks = 8" "\<forall>pk \<in> set pks. full_packet (usbc env) pk" using assms(6) by (simp_all add: sector_packets_def)
  from sector_arrives [OF assms(1-5) pks, of "Suc k"] obtain x where
    x: "mem_read (mem x) (sector_buf env) 512 = sector_data pks"
     "same_outside (stream_memory (usbc env) (endpoints s Msc_Out) (streams s Msc_Sector_Transfer)) (mem s) (mem x)"
     "disk_part x = disk_part s" "csw x = (packet_counted Msc_Sector_Funcs ^^ 7) (csw s)"
     "stream_packet Msc_Out Msc_Sector_Transfer n (i + 7) (n - (i + 7)) x" "sector_stream env x"
     "endpoints x Msc_In = endpoints s Msc_In" "take_addr (usbc env) (endpoints x Msc_Out) = take_addr (usbc env) (endpoints s Msc_Out)"
     "endpoint_table x = endpoint_table s"
     and run: "receive_packets (callbacks env (Suc (Suc k))) (usbc env) Msc_Out pks s =
       do {
         let (async, s2) = vd_write_block env (msc_async_token s + 1) (msc_sector_lba s) (sector_buf env) x;
         s3 \<leftarrow> (if async then Some s2
               else usb_stream_packet_handler_complete (callbacks env (Suc k)) (stream_calls env) (usbc env) Msc_Sector_Transfer s2);
         if completed (transfers s3 Msc_Sector_Transfer) then Some s3
         else usb_check_for_transfer_completion (callbacks env (Suc (Suc k))) (usbc env) Msc_Out
                (upd_tr Msc_Sector_Transfer (\<lambda>t. t\<lparr>remaining_packets_to_handle := remaining_packets_to_handle t - 1\<rparr>) s3)
       }" by blast
  have "vd_write_block env (msc_async_token s + 1) (msc_sector_lba s) (sector_buf env) x = (False, x)"
    using x(1) assms(7) by (simp add: vd_write_block_def not_uf2_def)
  moreover from sector_taken_at_once [OF x(5,6), of k] obtain s' where
    "do {
       s3 \<leftarrow> usb_stream_packet_handler_complete (callbacks env (Suc k)) (stream_calls env) (usbc env) Msc_Sector_Transfer x;
       if completed (transfers s3 Msc_Sector_Transfer) then Some s3
       else usb_check_for_transfer_completion (callbacks env (Suc (Suc k))) (usbc env) Msc_Out
              (upd_tr Msc_Sector_Transfer (\<lambda>t. t\<lparr>remaining_packets_to_handle := remaining_packets_to_handle t - 1\<rparr>) s3)
     } = Some s'" "sector_taken env n (i + 8) x s'" by blast
  ultimately show ?thesis
    using x run same_outside_mono [OF x(2) stream_write_memory [OF assms(2)]]
    by (intro exI [of _ x] exI [of _ s']) (simp del: callbacks.simps)
qed


lemma sector_taken_waits:
  fixes x :: "('d, 'z) picoboot_state_scheme"
  assumes "sector_taken env n i x s'" "i < n"
  shows "stream_waits Msc_Out Msc_Sector_Transfer n i (n - i) s'" "sector_stream env s'" "mem s' = mem x" "disk_part s' = disk_part x"
    "csw s' = packet_counted Msc_Sector_Funcs (csw x)" "endpoints s' Msc_In = endpoints x Msc_In" "endpoint_table s' = endpoint_table x"
    "take_addr (usbc env) (endpoints s' Msc_Out) = take_addr (usbc env) (endpoints x Msc_Out)" "write_memory env s' = write_memory env x"
proof -
  show "stream_waits Msc_Out Msc_Sector_Transfer n i (n - i) s'" "sector_stream env s'" "mem s' = mem x" "disk_part s' = disk_part x"
    "csw s' = packet_counted Msc_Sector_Funcs (csw x)"
    using assms by (simp_all add: sector_taken_def Let_def)
  have "stream_step Msc_Out Msc_Sector_Transfer x s'" using assms by (simp add: sector_taken_def Let_def)
  then show "endpoints s' Msc_In = endpoints x Msc_In" "endpoint_table s' = endpoint_table x"
    "take_addr (usbc env) (endpoints s' Msc_Out) = take_addr (usbc env) (endpoints x Msc_Out)"
    using same_endpoint_proj(6) [of "endpoints x Msc_Out" "endpoints s' Msc_Out"]
    by (auto simp: stream_step_def stream_frame_def take_addr_def)
  then show "write_memory env s' = write_memory env x" by (simp add: write_memory_def)
qed

lemma sector_taken_over:
  fixes x :: "('d, 'z) picoboot_state_scheme"
  assumes "sector_taken env n i x s'" "\<not> i < n"
  shows "status_sent env (endpoints x Msc_In) (packet_counted Msc_Sector_Funcs (csw x)) s'" "write_over env x s'"
    "disk_part s' = disk_part x" "same_outside (write_memory env x) (mem x) (mem s')"
  using assms by (auto simp: sector_taken_def Let_def write_over_def write_memory_def elim: same_outside_mono)

lemma write_over_from:
  assumes "write_over env x s'" "endpoint_table x = endpoint_table s"
    "take_addr (usbc env) (endpoints x Msc_Out) = take_addr (usbc env) (endpoints s Msc_Out)"
  shows "write_over env s s'"
  using assms by (simp add: write_over_def)

lemma ordinary_sectors:
  fixes s :: "('d, 'z) picoboot_state_scheme"
  assumes "stream_waits Msc_Out Msc_Sector_Transfer n i (n - i) s" "sector_stream env s" "i mod 8 = 0" "n = i + 8 * length css" "css \<noteq> []"
    "\<forall>pks \<in> set css. sector_packets (usbc env) pks \<and> not_uf2 env (sector_data pks)"
  shows "\<exists>s'. receive_packets (callbacks env (Suc (Suc k))) (usbc env) Msc_Out (concat css) s = Some s' \<and>
     status_sent env (endpoints s Msc_In) ((packet_counted Msc_Sector_Funcs ^^ (8 * length css)) (csw s)) s' \<and>
     write_over env s s' \<and> disk_part s' = disk_part s \<and> same_outside (write_memory env s) (mem s) (mem s')"
  using assms
proof (induction css arbitrary: i s)
  case (Cons pks css)
  let ?w = "\<lambda>j. (packet_counted Msc_Sector_Funcs ^^ j)"
  have n: "n mod 8 = 0" using Cons.prems(3,4) by presburger
  have i: "i < n" using Cons.prems(4) by simp
  obtain x s1 where x: "receive_packets (callbacks env (Suc (Suc k))) (usbc env) Msc_Out pks s = Some s1" "sector_taken env n (i + 8) x s1"
     "disk_part x = disk_part s" "same_outside (write_memory env s) (mem s) (mem x)" "endpoints x Msc_In = endpoints s Msc_In"
     "csw x = ?w 7 (csw s)" "take_addr (usbc env) (endpoints x Msc_Out) = take_addr (usbc env) (endpoints s Msc_Out)"
     "endpoint_table x = endpoint_table s"
    using sector_ignored [OF Cons.prems(1-3) n i, of pks k] Cons.prems(6) by auto
  have wm: "write_memory env x = write_memory env s" by (simp add: write_memory_def x(5,7))
  have w8: "packet_counted Msc_Sector_Funcs (csw x) = ?w 8 (csw s)" by (simp add: x(6) eval_nat_numeral)
  show ?case
  proof (cases "css = []")
    case True
    then have "\<not> i + 8 < n" using Cons.prems(4) by simp
    note o = sector_taken_over [OF x(2) this]
    show ?thesis
      using o(1,3) same_outside_trans [OF x(4) o(4) [unfolded wm]] write_over_from [OF o(2) x(8,7)]
      by (intro exI [of _ s1]) (simp add: True x(1,3,5) w8 del: callbacks.simps funpow.simps)
  next
    case False
    then have "i + 8 < n" using Cons.prems(4) by (cases css) simp_all
    note t = sector_taken_waits [OF x(2) this]
    have "(i + 8) mod 8 = 0" "n = i + 8 + 8 * length css" using Cons.prems(3,4) by simp_all
    from Cons.IH [OF t(1,2) this False] Cons.prems(6) obtain s' where
      s': "receive_packets (callbacks env (Suc (Suc k))) (usbc env) Msc_Out (concat css) s1 = Some s'"
        "status_sent env (endpoints s Msc_In) (?w (8 * length css) (csw s1)) s'" "write_over env s1 s'" "disk_part s' = disk_part s1"
        "same_outside (write_memory env s) (mem s1) (mem s')"
      by (auto simp: t(6,9) x(5) wm simp del: callbacks.simps)
    have "?w (8 * length css) (csw s1) = ?w (8 * length (pks # css)) (csw s)"
      by (simp add: t(5) w8 funpow_add [symmetric, THEN fun_cong, simplified] add.commute del: funpow.simps)
    then show ?thesis
      using s' same_outside_trans [OF x(4) s'(5) [unfolded t(3)]]
        write_over_from [OF s'(3), of s] x t
      by (intro exI [of _ s']) (simp add: receive_packets_append del: callbacks.simps funpow.simps)
  qed
qed simp


subsection \<open>A write of ordinary sectors\<close>

text \<open>The command packet: a command block wrapper of 31 bytes.\<close>

definition command_packet :: "usb_consts \<Rightarrow> usb_packet \<Rightarrow> bool" where
  "command_packet c pk \<longleftrightarrow> length (payload pk) = 31 \<and> ctrl_length c (fst (snd pk)) 31"

definition received_cbw :: "('d, 'e) msc_env_scheme \<Rightarrow> usb_packet \<Rightarrow> ('d, 'z) msc_state_scheme \<Rightarrow> scsi_cbw" where
  "received_cbw env pk s =
     (let a = take_addr (usbc env) (endpoints s Msc_Out) (fst pk) in scsi_cbw_at (mem_write (mem s) a (payload pk)) a)"

text \<open>The status of a command that has passed with all of its data.\<close>

definition passed_csw :: "scsi_cbw \<Rightarrow> scsi_csw" where
  "passed_csw cbw = \<lparr>csw_sig = CSW_SIG, csw_tag = cbw_tag cbw, residue = 0, csw_status = CSW_STATUS_COMMAND_PASSED\<rparr>"

lemma all_counted:
  assumes "write_cbw cbw n"
  shows "(packet_counted Msc_Sector_Funcs ^^ (8 * n)) (started_csw cbw) = passed_csw cbw"
proof -
  have "unat (64 * word_of_nat (8 * n) :: u32) = 512 * n" using write_lengths(4) [OF assms] by (simp add: unat_word_ariths unat_of_nat)
  then have "data_transfer_length cbw = 64 * word_of_nat (8 * n)"
    using assms by (simp only: word_unat_eq_iff write_cbw_def)
  then show ?thesis by (simp add: csw_counted started_csw_def passed_csw_def del: funpow.simps)
qed

lemma command_memory:
  assumes "command_packet (usbc env) pk"
  shows "same_outside (write_memory env s) m (mem_write m (take_addr (usbc env) (endpoints s Msc_Out) (fst pk)) (payload pk))"
proof (rule same_outside_write [OF same_outside_refl])
  fix j assume j: "j < length (payload pk)"
  have "take_addr (usbc env) (endpoints s Msc_Out) (fst pk) + word_of_nat j \<in> block (take_addr (usbc env) (endpoints s Msc_Out) 0) 128"
    using take_addr_block [of j "usbc env" "endpoints s Msc_Out" "fst pk"] j assms by (simp add: command_packet_def)
  then show "take_addr (usbc env) (endpoints s Msc_Out) (fst pk) + word_of_nat j \<in> write_memory env s" by (simp add: write_memory_def)
qed (use assms in \<open>simp add: command_packet_def\<close>)

lemma ordinary_write_ok:
  fixes s :: "('d, 'z) picoboot_state_scheme"
  assumes idle: "msc_idle env s" and pk: "command_packet (usbc env) pk" "write_cbw (received_cbw env pk s) (length css)"
    and css: "\<forall>pks \<in> set css. sector_packets (usbc env) pks \<and> not_uf2 env (sector_data pks)"
  shows "\<exists>s'. receive_packets (callbacks env (Suc (Suc k))) (usbc env) Msc_Out (pk # concat css) s = Some s' \<and>
     status_sent env (endpoints s Msc_In) (passed_csw (received_cbw env pk s)) s' \<and>
     disk_part s' = disk_part s \<and> same_outside (write_memory env s) (mem s) (mem s') \<and>
     (\<exists>s2. usb_handle_transfer (callbacks env (Suc (Suc k))) (usbc env) (unat (ep_num (endpoints s Msc_In))) True which s' = Some s2 \<and>
        msc_idle env s2 \<and> disk_part s2 = disk_part s \<and> mem s2 = mem s')"
proof -
  let ?n = "8 * length css"
  have "ctrl_length (usbc env) (fst (snd pk)) 31" using pk(1) by (simp add: command_packet_def)
  from write_started [OF idle this received_cbw_def [unfolded Let_def] pk(2), of "Suc k"] obtain s1 where
    s1: "receive_packet (callbacks env (Suc (Suc k))) (usbc env) Msc_Out pk s = Some s1"
     "stream_waits Msc_Out Msc_Sector_Transfer ?n 0 ?n s1" "sector_stream env s1" "csw s1 = started_csw (received_cbw env pk s)"
     "mem s1 = mem_write (mem s) (take_addr (usbc env) (endpoints s Msc_Out) (fst pk)) (payload pk)" "disk_part s1 = disk_part s"
     "endpoints s1 Msc_In = endpoints s Msc_In" "endpoint_table s1 = endpoint_table s"
     "take_addr (usbc env) (endpoints s1 Msc_Out) = take_addr (usbc env) (endpoints s Msc_Out)" by blast
  have wm: "write_memory env s1 = write_memory env s" by (simp add: write_memory_def s1(7,9))
  have ne: "css \<noteq> []" using pk(2) by (auto simp: write_cbw_def)
  have "stream_waits Msc_Out Msc_Sector_Transfer ?n 0 (?n - 0) s1" using s1(2) by simp
  from ordinary_sectors [OF this s1(3) _ _ ne css, of k] obtain s' where
    s': "receive_packets (callbacks env (Suc (Suc k))) (usbc env) Msc_Out (concat css) s1 = Some s'"
     "status_sent env (endpoints s Msc_In) (passed_csw (received_cbw env pk s)) s'" "write_over env s1 s'" "disk_part s' = disk_part s"
     "same_outside (write_memory env s) (mem s1) (mem s')"
    by (auto simp: s1(4,6,7) wm all_counted [OF pk(2)] simp del: callbacks.simps funpow.simps)
  note o = s'(3) [unfolded write_over_def s1(8,9)]
  have "find_ep (unat (ep_num (endpoints s Msc_In))) True s' = Some Msc_In"
    using find_ep_cong [of s' s] idle o by (simp add: msc_idle_def)
  moreover have "block (sector_buf env) 512 \<inter> block (take_addr (usbc env) (endpoints s' Msc_Out) 0) 128 = {}"
    using idle o by (simp add: msc_idle_def)
  moreover have "can_answer (endpoints s Msc_In)" using idle by (simp add: msc_idle_def)
  ultimately obtain s2 where
    "usb_handle_transfer (callbacks env (Suc (Suc k))) (usbc env) (unat (ep_num (endpoints s Msc_In))) True which s' = Some s2"
    "msc_idle env s2" "disk_part s2 = disk_part s" "mem s2 = mem s'"
    using status_taken [OF s'(2), of k which] o s'(4) by auto
  then show ?thesis
    using s1(1) s'(1,2,4) same_outside_trans [OF command_memory [OF pk(1), of s "mem s", folded s1(5)] s'(5)]
    by (intro exI [of _ s']) (simp del: callbacks.simps)
qed

end
