(* ===== verification/Ram_Download.thy ===== *)
theory Ram_Download
  imports Sector_Write
begin

section \<open>Downloading a program to RAM\<close>

text \<open>
  A UF2 download to the main RAM from the first sector to the reboot: the blocks arrive as sectors of a WRITE(10),
  the worker copies each to its target, and the completion of the last one arms the watchdog with the lowest address.
\<close>

subsection \<open>The bitmap of received blocks\<close>

abbreviation ram_bitmap :: "('d, 'e) vd_env_scheme \<Rightarrow> u32 set" where
  "ram_bitmap env \<equiv> block (uf2_valid_ram_blocks env) 160"

lemma bit_word_inside:
  assumes "n < 1280" "j < 4"
  shows "bit_word_addr base n + word_of_nat j \<in> block base 160"
proof -
  have "unat n < 1280" using assms(1) by (simp add: word_less_nat_alt)
  then have "unat n div 32 < 40" by (intro less_mult_imp_div_less) simp
  then have "4 * (unat n div 32) + j < 160" using assms(2) by linarith
  then have "unat (4 * (n div 32)) + j < 160" by (simp only: unat_bit_word)
  then show ?thesis unfolding bit_word_addr_def by (rule in_block_offset) simp
qed

lemma received_same:
  assumes "num_blocks (the_uf2_info s') = num_blocks (the_uf2_info s)" "valid_blocks (the_uf2_info s') = valid_blocks (the_uf2_info s)"
    "num_blocks (the_uf2_info s) \<le> 1280" "same_outside A (mem s) (mem s')" "A \<inter> block (valid_blocks (the_uf2_info s)) 160 = {}"
  shows "received s' = received s"
proof -
  let ?b = "valid_blocks (the_uf2_info s)"
  have "bitset_test (mem s') ?b n = bitset_test (mem s) ?b n" if "n < num_blocks (the_uf2_info s)" for n
  proof -
    have n: "n < 1280" using that assms(3) by simp
    have "mem_read (mem s') (bit_word_addr ?b n) 4 = mem_read (mem s) (bit_word_addr ?b n) 4"
      by (rule mem_read_outside [OF assms(4)]) (use bit_word_inside [OF n] assms(5) in blast)
    then show ?thesis unfolding bitset_test_def using rd32_cong by metis
  qed
  then show ?thesis by (auto simp: received_def assms(1,2))
qed

lemma uf2_inv_same:
  assumes "the_uf2_info s' = the_uf2_info s" "received s' = received s"
  shows "uf2_inv env s' = uf2_inv env s"
  using assms by (simp add: uf2_inv_def)

lemma bitset_set_outside:
  assumes "n < 1280"
  shows "same_outside (block base 160) m (bitset_set m base n)"
  unfolding bitset_set_def Let_def wr32_def
  using bit_word_inside [OF assms] by (intro same_outside_write [OF same_outside_refl]) (simp_all add: le32_def)

lemma clear_bitset_outside: "same_outside (block base 160) m (clear_bitset base 1280 m)"
  unfolding clear_bitset_def by (intro same_outside_write [OF same_outside_refl]) (simp_all add: in_block)


subsection \<open>A block for RAM is queued\<close>

text \<open>The main RAM; its addresses are no flash addresses, as those of the XIP RAM are.\<close>

definition main_ram :: "platform \<Rightarrow> u32 \<Rightarrow> bool" where
  "main_ram p a \<longleftrightarrow> SRAM_BASE p \<le> a \<and> unat a + 256 \<le> unat (SRAM_END p)"

lemma main_ram_range:
  assumes "rp2040_map p" "main_ram p a"
  shows "0x20000000 \<le> unat a" "unat a + 256 \<le> 0x20042000"
  using assms by (simp_all add: main_ram_def rp2040_map_def word_le_nat_alt)

lemma main_ram_classes:
  assumes "rp2040_map p" "main_ram p a" "j \<le> 256"
  shows "is_address_ram p (a + word_of_nat j)" "j \<noteq> 0 \<Longrightarrow> \<not> is_address_flash p (a + word_of_nat j)"
proof -
  note r = main_ram_range [OF assms(1,2)]
  have j: "unat (word_of_nat j :: u32) = j" using assms(3) by (intro unat_of_nat_small) simp
  then have "unat (a + word_of_nat j) = unat a + j" using r assms(3) by (subst unat_plus_noof) simp_all
  then show "is_address_ram p (a + word_of_nat j)" "j \<noteq> 0 \<Longrightarrow> \<not> is_address_flash p (a + word_of_nat j)"
    using r assms(1,3) by (simp_all add: is_address_ram_def is_address_flash_def rp2040_map_def word_le_nat_alt)
qed

lemma main_ram_block:
  assumes "rp2040_map (plat env)" "main_ram (plat env) (target_addr b)"
  shows "uf2_addr_ram (plat env) b" "\<not> uf2_addr_flash (plat env) b"
  using main_ram_classes [OF assms, of 0] main_ram_classes [OF assms, of 255]
  by (simp_all add: uf2_addr_ram_def uf2_addr_flash_def)

lemma write_uf2_page_ram:
  assumes "uf2_ram (the_uf2_info s)" "\<not> bitset_test (mem s) (valid_blocks (the_uf2_info s)) (block_no (the_uf2_info s))"
    "callback (next_task (the_uf2_info s)) = Write_uf2_page_complete"
  shows "write_uf2_page env s =
    (True, s\<lparr>the_uf2_info := (the_uf2_info s)
        \<lparr>valid_block_count := valid_block_count (the_uf2_info s) + 1,
         lowest_addr := update_lowest (plat env) (transfer_addr (next_task (the_uf2_info s))) (lowest_addr (the_uf2_info s)),
         next_task := (next_task (the_uf2_info s))\<lparr>check_last_mutation_source := True\<rparr>\<rparr>,
       mem := bitset_set (mem s) (valid_blocks (the_uf2_info s)) (block_no (the_uf2_info s)),
       virtual_disk_queue := (virtual_disk_queue s)\<lparr>queued_task := next_task (the_uf2_info s), full := True\<rparr>\<rparr>)"
proof -
  have "(next_task (the_uf2_info s))\<lparr>callback := Write_uf2_page_complete\<rparr> = next_task (the_uf2_info s)"
    using assms(3) by simp
  then show ?thesis using assms(1,2) by (simp add: write_uf2_page_def Let_def queue_task_def set_queue_def get_queue_def)
qed

text \<open>The state in which a block has been queued.\<close>

definition block_queued :: "('d, 'e) vd_env_scheme \<Rightarrow> u32 \<Rightarrow> u32 \<Rightarrow> uf2_block \<Rightarrow> ('d, 'z) vd_state_scheme \<Rightarrow> ('d, 'z) vd_state_scheme \<Rightarrow> bool" where
  "block_queued env token buf b s s1 \<longleftrightarrow>
     (\<exists>M U. s1 = s\<lparr>mem := M, the_uf2_info := U, virtual_disk_queue := (virtual_disk_queue s)
         \<lparr>queued_task := block_task env buf b token\<lparr>task_type := AT_WRITE\<rparr>, full := True\<rparr>\<rparr> \<and>
       same_outside (ram_bitmap env) (mem s) M \<and> uf2_ram U \<and> num_blocks U = uf2_num_blocks b \<and> uf2_token U = token \<and>
       valid_blocks U = uf2_valid_ram_blocks env \<and>
       lowest_addr U = update_lowest (plat env) (target_addr b)
         (if num_blocks (the_uf2_info s) \<noteq> uf2_num_blocks b then 0xffffffff else lowest_addr (the_uf2_info s)))"

lemma ram_block_queued:
  assumes b: "uf2_accepted (plat env) (uf2_block_at (plat env) (mem s) buf)" "b = uf2_block_at (plat env) (mem s) buf"
      "main_ram (plat env) (target_addr b)" "uf2_block_no b < uf2_num_blocks b" "uf2_num_blocks b \<le> 1280"
    and env: "rp2040_map (plat env)" and s: "\<not> disable (virtual_disk_queue s)"
    and new: "num_blocks (the_uf2_info s) = uf2_num_blocks b \<longrightarrow>
      uf2_inv env s \<and> uf2_ram (the_uf2_info s) \<and> uf2_block_no b \<notin> received s"
  shows "\<exists>s1. vd_write_block env token lba buf s = (True, s1) \<and> block_queued env token buf b s s1 \<and> uf2_inv env s1 \<and>
    received s1 = insert (uf2_block_no b) (if num_blocks (the_uf2_info s) = uf2_num_blocks b then received s else {})"
proof -
  let ?renew = "num_blocks (the_uf2_info s) \<noteq> uf2_num_blocks b"
  note cls = main_ram_block [OF env b(3)]
  obtain fits j where j: "(if ?renew then start_uf2_transfer env True False b s else (True, s)) = (fits, j)" by (rule prod.exhaust)
  define k where "k = j\<lparr>the_uf2_info := prepare_next_task env buf b AT_WRITE token (the_uf2_info j)\<rparr>"
  have nz: "uf2_num_blocks b \<noteq> 0" using b(4) by auto
  have jp: "fits \<and> uf2_ram (the_uf2_info j) \<and> num_blocks (the_uf2_info j) = uf2_num_blocks b \<and>
      valid_blocks (the_uf2_info j) = uf2_valid_ram_blocks env \<and>
      lowest_addr (the_uf2_info j) = (if ?renew then 0xffffffff else lowest_addr (the_uf2_info s)) \<and>
      same_outside (ram_bitmap env) (mem s) (mem j) \<and> virtual_disk_queue j = virtual_disk_queue s"
  proof (cases ?renew)
    case True
    then show ?thesis
      using j b(5) clear_bitset_outside [of "uf2_valid_ram_blocks env" "mem s"]
      by (auto simp: start_uf2_transfer_def Let_def zero_uf2_info_def MAX_RAM_UF2_BLOCKS_def split: if_splits)
  next
    case False
    then have "j = s" "fits" using j by auto
    moreover have "valid_blocks (the_uf2_info s) = uf2_valid_ram_blocks env"
      using new False nz by (simp add: uf2_inv_def Let_def)
    ultimately show ?thesis using False new by (simp add: same_outside_refl)
  qed
  have jx: "\<exists>M U. j = s\<lparr>mem := M, the_uf2_info := U\<rparr>"
  proof (cases ?renew)
    case False
    then have "j = s" using j by simp
    then show ?thesis by (intro exI [of _ "mem s"] exI [of _ "the_uf2_info s"]) simp
  qed (use j in \<open>auto simp: start_uf2_transfer_def Let_def split: if_splits\<close>)
  have rec: "uf2_inv env j \<and> received j = (if ?renew then {} else received s)"
    using start_uf2_transfer_inv [of env True False b s fits j, OF _ env] j jp new by (auto split: if_splits)
  have upd: "update_current_uf2_info env buf b token s = (True, k)"
    using j jp cls nz s b(4) by (simp add: update_current_uf2_info_def Let_def k_def)
  have "uf2_block_no b \<notin> received j" using rec new by auto
  then have nb: "\<not> bitset_test (mem k) (valid_blocks (the_uf2_info k)) (block_no (the_uf2_info k))"
    using jp b(4) by (simp add: received_def k_def prepare_next_task_def)
  have task: "next_task (the_uf2_info k) = block_task env buf b token\<lparr>task_type := AT_WRITE\<rparr>"
    by (simp add: k_def prepare_next_task_def reset_task_def block_task_def zero_task_def)
  then have cb: "callback (next_task (the_uf2_info k)) = Write_uf2_page_complete" by (simp add: block_task_def)
  have kp: "uf2_ram (the_uf2_info k)" "mem k = mem j" "valid_blocks (the_uf2_info k) = uf2_valid_ram_blocks env"
    "block_no (the_uf2_info k) = uf2_block_no b" "num_blocks (the_uf2_info k) = uf2_num_blocks b" "uf2_token (the_uf2_info k) = token"
    "lowest_addr (the_uf2_info k) = lowest_addr (the_uf2_info j)" "virtual_disk_queue k = virtual_disk_queue s"
    using jp by (simp_all add: k_def prepare_next_task_def)
  have "uf2_block_no b < 1280" using b(4,5) by simp
  note mark = bitset_set_outside [OF this, of "uf2_valid_ram_blocks env" "mem j"]
  have run': "vd_write_block env token lba buf s = write_uf2_page env k"
    using upd b(1,2) by (simp add: vd_write_block_def Let_def)
  note run = run' [unfolded write_uf2_page_ram [OF kp(1) nb cb]]
  obtain M U where "j = s\<lparr>mem := M, the_uf2_info := U\<rparr>" using jx by blast
  then have kj: "k = s\<lparr>mem := mem j, the_uf2_info := the_uf2_info k\<rparr>" by (simp add: k_def)
  have tgt: "transfer_addr (next_task (the_uf2_info k)) = target_addr b" by (simp add: task block_task_def)
  let ?U = "(the_uf2_info k)\<lparr>valid_block_count := valid_block_count (the_uf2_info k) + 1,
         lowest_addr := update_lowest (plat env) (transfer_addr (next_task (the_uf2_info k))) (lowest_addr (the_uf2_info k)),
         next_task := (next_task (the_uf2_info k))\<lparr>check_last_mutation_source := True\<rparr>\<rparr>"
  let ?M = "bitset_set (mem j) (uf2_valid_ram_blocks env) (uf2_block_no b)"
  let ?s1 = "s\<lparr>mem := ?M, the_uf2_info := ?U, virtual_disk_queue := (virtual_disk_queue s)
         \<lparr>queued_task := block_task env buf b token\<lparr>task_type := AT_WRITE\<rparr>, full := True\<rparr>\<rparr>"
  have "vd_write_block env token lba buf s = (True, ?s1)"
    unfolding run kp(2-4,8) task [symmetric] by (subst kj) simp
  moreover have "block_queued env token buf b s ?s1"
    unfolding block_queued_def using jp kp same_outside_trans [OF _ mark] tgt by (intro exI [of _ ?M] exI [of _ ?U]) simp
  moreover have "received k = received j" "uf2_inv env k"
    using rec by (simp_all add: uf2_inv_def received_def k_def prepare_next_task_def Let_def)
  moreover have w: "write_uf2_page env k = (True, ?s1)" using calculation(1) run' by simp
  moreover have "block_no (the_uf2_info k) < num_blocks (the_uf2_info k)" using b(4) kp(4,5) by simp
  ultimately show ?thesis
    using write_uf2_page_new [OF w _ env] write_uf2_page_inv [OF w _ env] kp(4) rec by (intro exI [of _ ?s1]) simp
qed


subsection \<open>The worker copies a block\<close>

text \<open>The state after the worker has copied a block; the table of flash functions may have been put back to the one of the ROM.\<close>

definition block_copied :: "('d, 'e) vd_env_scheme \<Rightarrow> async_task \<Rightarrow> ('d, 'z) vd_state_scheme \<Rightarrow> ('d, 'z) vd_state_scheme \<Rightarrow> bool" where
  "block_copied env t s s' \<longleftrightarrow>
     (\<exists>F. s' = s\<lparr>virtual_disk_queue := (virtual_disk_queue s)\<lparr>full := False\<rparr>, last_mutation_source := task_source t,
        flash_funcs := F, mem := mem_write (mem s) (transfer_addr t) (mem_read (mem s) (task_data t) 256), worker_task := t\<rparr>)"

lemma execute_block:
  assumes "\<not> watchdog_rebooting s" "rp2040_map (plat be)" "main_ram (plat be) (transfer_addr t)"
    "task_type t = AT_WRITE" "data_length t = 256" "\<not> check_last_mutation_source t"
  shows "\<exists>F. execute_task_body be user eject t s = Some (0, s\<lparr>last_mutation_source := task_source t, flash_funcs := F,
     mem := mem_write (mem s) (transfer_addr t) (mem_read (mem s) (task_data t) 256)\<rparr>)"
proof -
  have "is_address_ram (plat be) (transfer_addr t)" "is_address_ram (plat be) (transfer_addr t + 256)"
    using main_ram_classes(1) [OF assms(2,3), of 0] main_ram_classes(1) [OF assms(2,3), of 256] by simp_all
  then have acc: "access_check be t = Inr True" using assms(5) by (simp add: access_check_def Let_def)
  have ok: "PICOBOOT_OK (plat be) = 0" using assms(2) by (simp add: rp2040_map_def)
  have skip: "vectorize_phase be t k = Some (None, k)" "exclusive_phase be eject t k = Some (None, k)"
    "exit_xip_phase be user t k = Some (None, k)" "exec_phase user t k = Some (None, k)" "erase_phase be user t k = Some (None, k)"
    "read_phase be user True t k = Some (None, k)" "enter_xip_phase be user t k = Some (None, k)"
    "mutation_phase be t k = Some (None, k\<lparr>last_mutation_source := task_source t\<rparr>)" for k :: "('a, 'b) async_state_scheme"
    using assms(4,6) by (simp_all add: vectorize_phase_def exclusive_phase_def exit_xip_phase_def exec_phase_def erase_phase_def
        read_phase_def enter_xip_phase_def mutation_phase_def)
  define F where "F = (if max (flash_funcs s) (transfer_addr t) < min (flash_funcs s + sizeof_flash_funcs) (transfer_addr t + data_length t)
    then default_flash_funcs be else flash_funcs s)"
  have "write_phase be user True t (s\<lparr>last_mutation_source := task_source t\<rparr>) = Some (None, s\<lparr>last_mutation_source := task_source t,
     flash_funcs := F, mem := mem_write (mem s) (transfer_addr t) (mem_read (mem s) (task_data t) 256)\<rparr>)"
    using assms(4,5) by (simp add: write_phase_def Let_def F_def)
  then have "execute_task_body be user eject t s = Some (0, s\<lparr>last_mutation_source := task_source t, flash_funcs := F,
     mem := mem_write (mem s) (transfer_addr t) (mem_read (mem s) (task_data t) 256)\<rparr>)"
    using assms(1,4) by (simp add: execute_task_body_def skip transfer_phase_def acc ok)
  then show ?thesis by blast
qed

lemma worker_round_block:
  fixes s :: "('d, 'z) picoboot_state_scheme" and token buf :: u32
  assumes env: "rp2040_map (plat env)" "main_ram (plat env) (target_addr b)"
    and s: "full (virtual_disk_queue s)" "\<not> disable (virtual_disk_queue s)" "\<not> watchdog_rebooting s"
  defines "t \<equiv> block_task env buf b token\<lparr>task_type := AT_WRITE\<rparr>"
  assumes t: "queued_task (virtual_disk_queue s) = t"
  shows "\<exists>s'. block_copied env t s s' \<and>
     worker_round (boot_env.truncate env) user eject (task_callbacks cb env) s =
       map_option (Pair True) (write_uf2_page_complete env (vd_async_complete cb (stream_calls env) (usbc env)) t s')"
proof -
  let ?be = "boot_env.truncate env"
  let ?s1 = "s\<lparr>virtual_disk_queue := (virtual_disk_queue s)\<lparr>full := False\<rparr>, worker_task := t\<rparr>"
  have be: "plat ?be = plat env" by (simp add: boot_env.truncate_def)
  have tp: "transfer_addr t = target_addr b" "task_type t = AT_WRITE" "data_length t = 256" "\<not> check_last_mutation_source t"
    "task_result t = 0" "callback t = Write_uf2_page_complete" "t\<lparr>task_result := 0\<rparr> = t"
    by (simp_all add: t_def block_task_def zero_task_def)
  have deq: "dequeue_task Virtual_Disk_Queue s = (Some t, s\<lparr>virtual_disk_queue := (virtual_disk_queue s)\<lparr>full := False\<rparr>\<rparr>)"
    using s(1) t by (simp add: dequeue_task_def get_queue_def set_queue_def)
  have "\<not> watchdog_rebooting ?s1" using s(3) by (simp add: watchdog_rebooting_def)
  from execute_block [OF this env(1) [folded be], of t user eject] env(2) tp
  obtain F where F: "execute_task_body ?be user eject t ?s1 = Some (0, ?s1\<lparr>last_mutation_source := task_source t, flash_funcs := F,
     mem := mem_write (mem ?s1) (transfer_addr t) (mem_read (mem ?s1) (task_data t) 256)\<rparr>)"
    by (auto simp: be)
  let ?s' = "s\<lparr>virtual_disk_queue := (virtual_disk_queue s)\<lparr>full := False\<rparr>, last_mutation_source := task_source t,
        flash_funcs := F, mem := mem_write (mem s) (transfer_addr t) (mem_read (mem s) (task_data t) 256), worker_task := t\<rparr>"
  have "block_copied env t s ?s'" by (auto simp: block_copied_def)
  moreover have "worker_round ?be user eject (task_callbacks cb env) s =
       map_option (Pair True) (write_uf2_page_complete env (vd_async_complete cb (stream_calls env) (usbc env)) t ?s')"
    using s(2) F by (simp add: worker_round_def deq execute_task_def get_queue_def task_callbacks_def Let_def tp)
  ultimately show ?thesis by blast
qed


subsection \<open>The completion of a block\<close>

lemma reboot_keeps:
  fixes s :: "('d, 'z) msc_state_scheme"
  assumes "watchdog_reboot rc pc sp d s = Some s'"
  shows "mem s' = mem s" "the_uf2_info s' = the_uf2_info s" "virtual_disk_queue s' = virtual_disk_queue s"
    "endpoints s' = endpoints s" "transfers s' = transfers s" "streams s' = streams s" "endpoint_table s' = endpoint_table s"
    "csw s' = csw s" "msc_async_token s' = msc_async_token s" "stall_direction_before_csw s' = stall_direction_before_csw s"
    "flash s' = flash s" "flash_funcs s' = flash_funcs s"
  using assms by (auto simp: watchdog_reboot_def watchdog_vector_def Let_def split: if_split_asm)

text \<open>The clock switch of a reboot ends.\<close>

definition clock_ends :: "runtime_consts \<Rightarrow> bool" where
  "clock_ends c \<longleftrightarrow> running_on_fpga c \<or>
     (\<exists>k. clk_ref_selected c k AND push_bit (CLOCKS_CLK_REF_CTRL_SRC_VALUE_XOSC_CLKSRC c) 1 \<noteq> 0)"

text \<open>
  The last block makes the watchdog start the program, one in RAM at the lowest address. \<open>s'\<close> is the state in which the mass storage class is told.
\<close>

definition rebooted_if_complete :: "('d, 'e) vd_env_scheme \<Rightarrow> ('d, 'z) vd_state_scheme \<Rightarrow> ('d, 'z) vd_state_scheme \<Rightarrow> bool" where
  "rebooted_if_complete env s s' \<longleftrightarrow>
     (if received s = {n. n < num_blocks (the_uf2_info s)}
      then watchdog_rebooting s' \<and>
        boot_vector s' = (let l = (if uf2_ram (the_uf2_info s) then lowest_addr (the_uf2_info s) else 0)
          in if l = 0 then None else Some (l OR 1, SRAM_END (plat env)))
      else s' = s)"

lemma block_completed:
  fixes s :: "('d, 'z) picoboot_state_scheme"
  assumes inv: "uf2_inv env s" "num_blocks (the_uf2_info s) \<noteq> 0"
    and t: "task_token t = uf2_token (the_uf2_info s)" "task_result t = 0" "task_token t = msc_async_token s"
    and clk: "clock_ends (rt env)"
  shows "\<exists>s'. write_uf2_page_complete env (vd_async_complete cb sc c) t s = usb_stream_chunk_done cb sc c Msc_Sector_Transfer s' \<and>
     rebooted_if_complete env s s' \<and> usb_same s s' \<and> mem s' = mem s \<and> the_uf2_info s' = the_uf2_info s \<and>
     virtual_disk_queue s' = virtual_disk_queue s \<and> csw s' = csw s \<and>
     stall_direction_before_csw s' = stall_direction_before_csw s \<and> flash s' = flash s \<and> flash_funcs s' = flash_funcs s"
proof -
  let ?u = "the_uf2_info s"
  let ?l = "if uf2_ram ?u then lowest_addr ?u else 0"
  let ?all = "received s = {n. n < num_blocks ?u}"
  have all: "?all \<longleftrightarrow> valid_block_count ?u = num_blocks ?u"
    using count_complete [OF inv(1,2)] by (auto simp: received_def)
  have told: "vd_async_complete cb sc c (task_token t) (task_result t) s' = usb_stream_chunk_done cb sc c Msc_Sector_Transfer s'"
    if "msc_async_token s' = msc_async_token s" for s'
    using that t by (simp add: vd_async_complete_def)
  show ?thesis
  proof (cases ?all)
    case True
    obtain s' where s': "watchdog_reboot (rt env) ?l (SRAM_END (plat env)) 1000 s = Some s'" "watchdog_rebooting s'"
      "boot_vector s' = (if ?l = 0 then None else Some (?l OR 1, SRAM_END (plat env)))"
      using watchdog_reboot_ok [OF clk [unfolded clock_ends_def]] by blast
    note keeps = reboot_keeps [OF s'(1)]
    have "write_uf2_page_complete env (vd_async_complete cb sc c) t s = usb_stream_chunk_done cb sc c Msc_Sector_Transfer s'"
      using s'(1) told [of s'] keeps True all t
      by (simp add: write_uf2_page_complete_def Let_def safe_reboot_def boot_env.truncate_def)
    then show ?thesis
      using True s'(2,3) keeps by (intro exI [of _ s']) (simp add: rebooted_if_complete_def usb_same_def Let_def)
  next
    case False
    then have "write_uf2_page_complete env (vd_async_complete cb sc c) t s = usb_stream_chunk_done cb sc c Msc_Sector_Transfer s"
      using told [of s] all by (simp add: write_uf2_page_complete_def Let_def)
    then show ?thesis using False by (intro exI [of _ s]) (simp add: rebooted_if_complete_def usb_same_def)
  qed
qed

subsection \<open>One sector of a download\<close>

text \<open>A sector with a UF2 block, whatever else the memory holds, and the data of the block.\<close>

definition uf2_sector :: "('d, 'e) msc_env_scheme \<Rightarrow> u8 list \<Rightarrow> uf2_block \<Rightarrow> bool" where
  "uf2_sector env bs b \<longleftrightarrow> uf2_accepted (plat env) b \<and>
     (\<forall>m. mem_read m (sector_buf env) 512 = bs \<longrightarrow> uf2_block_at (plat env) m (sector_buf env) = b)"

definition block_data :: "('d, 'e) vd_env_scheme \<Rightarrow> u8 list \<Rightarrow> u8 list" where
  "block_data env bs = take 256 (drop (unat (offsetof_uf2_data (plat env))) bs)"

lemma mem_read_part:
  assumes "k + n \<le> N"
  shows "mem_read m (a + word_of_nat k) n = take n (drop k (mem_read m a N))"
proof -
  have "mem_read m a N = mem_read m a k @ mem_read m (a + word_of_nat k) n @ mem_read m (a + word_of_nat (k + n)) (N - (k + n))"
    using mem_read_append [of m a k "N - k"] mem_read_append [of m "a + word_of_nat k" n "N - (k + n)"] assms
    by (simp add: algebra_simps)
  then show ?thesis by (simp add: mem_read_conv_map)
qed

text \<open>
  The state of a download of \<open>N\<close> blocks between two sectors: the blocks received so far and their lowest address;
  before the first block another download, or none, may be known.
\<close>

definition download_state :: "('d, 'e) vd_env_scheme \<Rightarrow> u32 \<Rightarrow> u32 set \<Rightarrow> u32 \<Rightarrow> ('d, 'z) vd_state_scheme \<Rightarrow> bool" where
  "download_state env N got lo s \<longleftrightarrow>
     \<not> disable (virtual_disk_queue s) \<and> \<not> watchdog_rebooting s \<and>
     (if num_blocks (the_uf2_info s) = N
      then uf2_inv env s \<and> uf2_ram (the_uf2_info s) \<and> received s = got \<and> lowest_addr (the_uf2_info s) = lo
      else got = {} \<and> lo = 0xffffffff)"

text \<open>The buffers and the bitmap are apart, and above the main RAM.\<close>

definition download_memory :: "('d, 'e) msc_env_scheme \<Rightarrow> ('d, 'z) msc_state_scheme \<Rightarrow> bool" where
  "download_memory env s \<longleftrightarrow> write_memory env s \<inter> ram_bitmap env = {} \<and>
     (\<forall>x \<in> write_memory env s \<union> ram_bitmap env. unat (SRAM_END (plat env)) \<le> unat x)"

lemma main_ram_apart:
  assumes "download_memory env s" "main_ram (plat env) a"
  shows "block a 256 \<inter> (write_memory env s \<union> ram_bitmap env) = {}"
proof -
  have "unat x < unat (SRAM_END (plat env))" if "x \<in> block a 256" for x
  proof -
    have l: "unat (x - a) < 256" using that by (simp add: block_def)
    have "unat a + 256 \<le> unat (SRAM_END (plat env))" using assms(2) by (simp add: main_ram_def)
    then have e: "unat a + unat (x - a) < unat (SRAM_END (plat env))" using l by linarith
    then have "unat (a + (x - a)) = unat a + unat (x - a)"
      using order_less_trans [OF e unat_u32_less] by (intro unat_plus_noof) simp
    then show ?thesis using e by simp
  qed
  then show ?thesis using assms(1) by (force simp: download_memory_def)
qed


text \<open>The packets of a sector arrive, and then the worker has its turn.\<close>

definition write_sector where
  "write_sector env user k pks s =
     do {
       s1 \<leftarrow> receive_packets (callbacks env k) (usbc env) Msc_Out pks s;
       map_option snd (worker_round (boot_env.truncate env) user msc_eject (task_callbacks (callbacks env k) env) s1)
     }"

text \<open>After a block: what the download knows, and whether it has made the watchdog start the program.\<close>

definition block_done :: "('d, 'e) vd_env_scheme \<Rightarrow> u32 \<Rightarrow> u32 set \<Rightarrow> u32 \<Rightarrow> ('d, 'z) vd_state_scheme \<Rightarrow> bool" where
  "block_done env N got lo s \<longleftrightarrow>
     \<not> disable (virtual_disk_queue s) \<and> uf2_inv env s \<and> uf2_ram (the_uf2_info s) \<and> num_blocks (the_uf2_info s) = N \<and>
     received s = got \<and> lowest_addr (the_uf2_info s) = lo \<and>
     (if got = {n. n < N}
      then watchdog_rebooting s \<and> boot_vector s = (if lo = 0 then None else Some (lo OR 1, SRAM_END (plat env)))
      else \<not> watchdog_rebooting s)"

lemma sector_stream_usb:
  assumes "sector_stream env s" "usb_same s s'" "stall_direction_before_csw s' = stall_direction_before_csw s"
  shows "sector_stream env s'"
  using assms by (simp add: sector_stream_def usb_same_def Let_def)

lemma usb_same_trans: "usb_same s s1 \<Longrightarrow> usb_same s1 s2 \<Longrightarrow> usb_same s s2"
  by (simp add: usb_same_def)

lemma sector_kept:
  assumes "download_state env N got lo s" "download_memory env s" "N \<noteq> 0" "N \<le> 1280"
    and "disk_part x = disk_part s" "same_outside (write_memory env s) (mem s) (mem x)"
  shows "num_blocks (the_uf2_info x) = N \<longrightarrow> uf2_inv env x \<and> uf2_ram (the_uf2_info x) \<and> received x = got"
    "num_blocks (the_uf2_info x) = N \<longrightarrow> lowest_addr (the_uf2_info x) = lo"
    "num_blocks (the_uf2_info x) \<noteq> N \<longrightarrow> got = {} \<and> lo = 0xffffffff" "\<not> disable (virtual_disk_queue x)"
    "watchdog_rebooting x = watchdog_rebooting s"
proof -
  note eq = disk_part_eq [OF assms(5)]
  show "num_blocks (the_uf2_info x) = N \<longrightarrow> uf2_inv env x \<and> uf2_ram (the_uf2_info x) \<and> received x = got"
  proof
    assume N: "num_blocks (the_uf2_info x) = N"
    then have d: "uf2_inv env s" "uf2_ram (the_uf2_info s)" "received s = got" using assms(1) eq by (simp_all add: download_state_def)
    then have v: "valid_blocks (the_uf2_info s) = uf2_valid_ram_blocks env"
      using N assms(3) by (simp add: uf2_inv_def Let_def eq)
    have "received x = received s"
      by (rule received_same [OF _ _ _ assms(6)]) (use assms(2,4) N eq in \<open>simp_all add: v download_memory_def\<close>)
    then show "uf2_inv env x \<and> uf2_ram (the_uf2_info x) \<and> received x = got" using d eq uf2_inv_same [of x s env] by simp
  qed
  show "num_blocks (the_uf2_info x) = N \<longrightarrow> lowest_addr (the_uf2_info x) = lo"
    "num_blocks (the_uf2_info x) \<noteq> N \<longrightarrow> got = {} \<and> lo = 0xffffffff" "\<not> disable (virtual_disk_queue x)"
    "watchdog_rebooting x = watchdog_rebooting s"
    using assms(1) by (simp_all add: download_state_def eq watchdog_rebooting_def)
qed


text \<open>
  The packets of a sector whose block the disk takes (\<open>x\<close> is the state in which it is asked) leave the stream waiting for
  the worker, in a state \<open>z\<close> with the memory, download and queue that the disk has made.
\<close>

definition sector_waiting where
  "sector_waiting env k pks n i s M U Q z \<longleftrightarrow>
     receive_packets (callbacks env k) (usbc env) Msc_Out pks s = Some z \<and>
     stream_packet Msc_Out Msc_Sector_Transfer n (i + 7) (n - (i + 8)) z \<and> sector_stream env z \<and>
     csw z = (packet_counted Msc_Sector_Funcs ^^ 7) (csw s) \<and> endpoints z Msc_In = endpoints s Msc_In \<and>
     endpoint_table z = endpoint_table s \<and> take_addr (usbc env) (endpoints z Msc_Out) = take_addr (usbc env) (endpoints s Msc_Out) \<and>
     msc_async_token z = msc_async_token s + 1 \<and> mem z = M \<and> the_uf2_info z = U \<and> virtual_disk_queue z = Q \<and>
     watchdog_rebooting z = watchdog_rebooting s \<and> flash z = flash s \<and> flash_funcs z = flash_funcs s"

lemma sector_given:
  fixes s :: "('d, 'z) picoboot_state_scheme"
  assumes stream: "stream_waits Msc_Out Msc_Sector_Transfer n i (n - i) s" "sector_stream env s" "i mod 8 = 0" "n mod 8 = 0" "i < n"
    and pks: "sector_packets (usbc env) pks"
  shows "\<exists>x :: ('d, 'z) picoboot_state_scheme. mem_read (mem x) (sector_buf env) 512 = sector_data pks \<and> same_outside (write_memory env s) (mem s) (mem x) \<and>
     disk_part x = disk_part s \<and>
     (\<forall>M U Q. vd_write_block env (msc_async_token s + 1) (msc_sector_lba s) (sector_buf env) x =
         (True, x\<lparr>mem := M, the_uf2_info := U, virtual_disk_queue := Q\<rparr>) \<longrightarrow>
       (\<exists>z. sector_waiting env (Suc (Suc k)) pks n i s M U Q z))"
proof -
  let ?t = Msc_Sector_Transfer and ?buf = "sector_buf env" and ?tok = "msc_async_token s + 1"
  have pk: "length pks = 8" "\<forall>pk \<in> set pks. full_packet (usbc env) pk" using pks by (simp_all add: sector_packets_def)
  from sector_arrives [OF stream pk, of "Suc k"] obtain x where
    x: "mem_read (mem x) ?buf 512 = sector_data pks"
     "same_outside (stream_memory (usbc env) (endpoints s Msc_Out) (streams s ?t)) (mem s) (mem x)"
     "disk_part x = disk_part s" "csw x = (packet_counted Msc_Sector_Funcs ^^ 7) (csw s)"
     "stream_packet Msc_Out ?t n (i + 7) (n - (i + 7)) x" "sector_stream env x"
     "endpoints x Msc_In = endpoints s Msc_In" "take_addr (usbc env) (endpoints x Msc_Out) = take_addr (usbc env) (endpoints s Msc_Out)"
     "endpoint_table x = endpoint_table s" "msc_async_token x = ?tok"
     and run: "receive_packets (callbacks env (Suc (Suc k))) (usbc env) Msc_Out pks s =
       do {
         let (async, s2) = vd_write_block env ?tok (msc_sector_lba s) ?buf x;
         s3 \<leftarrow> (if async then Some s2
               else usb_stream_packet_handler_complete (callbacks env (Suc k)) (stream_calls env) (usbc env) ?t s2);
         if completed (transfers s3 ?t) then Some s3
         else usb_check_for_transfer_completion (callbacks env (Suc (Suc k))) (usbc env) Msc_Out
                (upd_tr ?t (\<lambda>t. t\<lparr>remaining_packets_to_handle := remaining_packets_to_handle t - 1\<rparr>) s3)
       }" by blast
  have out: "same_outside (write_memory env s) (mem s) (mem x)" by (rule same_outside_mono [OF x(2) stream_write_memory [OF stream(2)]])
  note eq = disk_part_eq [OF x(3)]
  have "\<exists>z. sector_waiting env (Suc (Suc k)) pks n i s M U Q z"
    if w: "vd_write_block env ?tok (msc_sector_lba s) ?buf x = (True, x\<lparr>mem := M, the_uf2_info := U, virtual_disk_queue := Q\<rparr>)" for M U Q
  proof -
    let ?x1 = "x\<lparr>mem := M, the_uf2_info := U, virtual_disk_queue := Q\<rparr>"
    have same: "usb_same x ?x1" by (simp add: usb_same_def)
    define z where "z = upd_tr ?t (\<lambda>t. t\<lparr>remaining_packets_to_handle := remaining_packets_to_handle t - 1\<rparr>) ?x1"
    note left = chunk_left_outstanding [OF stream_packet_same [OF x(5) same], folded z_def]
    have "receive_packets (callbacks env (Suc (Suc k))) (usbc env) Msc_Out pks s = Some z"
      using run left(1,2) by (simp add: w z_def [symmetric] del: callbacks.simps)
    moreover have "sector_stream env ?x1" by (rule sector_stream_usb [OF x(6) same]) simp
    then have "sector_stream env z" by (rule sector_stream_step [OF left(4)])
    moreover have "endpoints z = endpoints x" "endpoint_table z = endpoint_table x" "mem z = M" "csw z = csw x" "msc_async_token z = ?tok"
      "the_uf2_info z = U" "watchdog_rebooting z = watchdog_rebooting x" "virtual_disk_queue z = Q" "flash z = flash x" "flash_funcs z = flash_funcs x"
      by (simp_all add: z_def x(10) upd_tr_def watchdog_rebooting_def)
    moreover have "watchdog_rebooting x = watchdog_rebooting s" by (simp add: eq watchdog_rebooting_def)
    moreover have "n - Suc (i + 7) = n - (i + 8)" by simp
    ultimately show ?thesis
      using left(3) x eq by (intro exI [of _ z]) (simp add: sector_waiting_def del: callbacks.simps funpow.simps)
  qed
  then show ?thesis using x(1,3) out by (intro exI [of _ x]) blast
qed


text \<open>The packets of a block leave its task queued, and the stream waiting for it.\<close>

lemma sector_queued:
  fixes s :: "('d, 'z) picoboot_state_scheme"
  assumes stream: "stream_waits Msc_Out Msc_Sector_Transfer n i (n - i) s" "sector_stream env s" "i mod 8 = 0" "n mod 8 = 0" "i < n"
    and pks: "sector_packets (usbc env) pks" "uf2_sector env (sector_data pks) b"
    and b: "main_ram (plat env) (target_addr b)" "uf2_block_no b < uf2_num_blocks b" "uf2_num_blocks b \<le> 1280"
    and env: "rp2040_map (plat env)"
    and d: "download_state env (uf2_num_blocks b) got lo s" "uf2_block_no b \<notin> got" "download_memory env s"
  shows "\<exists>z. receive_packets (callbacks env (Suc (Suc k))) (usbc env) Msc_Out pks s = Some z \<and>
     stream_packet Msc_Out Msc_Sector_Transfer n (i + 7) (n - (i + 8)) z \<and> sector_stream env z \<and>
     csw z = (packet_counted Msc_Sector_Funcs ^^ 7) (csw s) \<and> endpoints z Msc_In = endpoints s Msc_In \<and>
     endpoint_table z = endpoint_table s \<and> take_addr (usbc env) (endpoints z Msc_Out) = take_addr (usbc env) (endpoints s Msc_Out) \<and>
     same_outside (write_memory env s \<union> ram_bitmap env) (mem s) (mem z) \<and> mem_read (mem z) (sector_buf env) 512 = sector_data pks \<and>
     full (virtual_disk_queue z) \<and> \<not> disable (virtual_disk_queue z) \<and> \<not> watchdog_rebooting z \<and>
     queued_task (virtual_disk_queue z) = block_task env (sector_buf env) b (msc_async_token z)\<lparr>task_type := AT_WRITE\<rparr> \<and>
     uf2_inv env z \<and> uf2_ram (the_uf2_info z) \<and> num_blocks (the_uf2_info z) = uf2_num_blocks b \<and>
     valid_blocks (the_uf2_info z) = uf2_valid_ram_blocks env \<and> uf2_token (the_uf2_info z) = msc_async_token z \<and>
     received z = insert (uf2_block_no b) got \<and> lowest_addr (the_uf2_info z) = update_lowest (plat env) (target_addr b) lo"
proof -
  let ?N = "uf2_num_blocks b" and ?buf = "sector_buf env" and ?tok = "msc_async_token s + 1"
  obtain x :: "('d, 'z) picoboot_state_scheme" where
    x: "mem_read (mem x) ?buf 512 = sector_data pks" "same_outside (write_memory env s) (mem s) (mem x)" "disk_part x = disk_part s"
     and given: "\<And>M U Q. vd_write_block env ?tok (msc_sector_lba s) ?buf x =
         (True, x\<lparr>mem := M, the_uf2_info := U, virtual_disk_queue := Q\<rparr>) \<Longrightarrow>
       \<exists>z. sector_waiting env (Suc (Suc k)) pks n i s M U Q z"
    using sector_given [OF stream pks(1), of k] by blast
  have blk: "uf2_accepted (plat env) (uf2_block_at (plat env) (mem x) ?buf)" "b = uf2_block_at (plat env) (mem x) ?buf"
    using pks(2) x(1) by (simp_all add: uf2_sector_def)
  have N: "?N \<noteq> 0" using b(2) by auto
  note kept = sector_kept [OF d(1,3) N b(3) x(3,2)]
  have new: "num_blocks (the_uf2_info x) = ?N \<longrightarrow> uf2_inv env x \<and> uf2_ram (the_uf2_info x) \<and> uf2_block_no b \<notin> received x"
    using kept(1) d(2) by blast
  from ram_block_queued [OF blk b env kept(4) new, of ?tok "msc_sector_lba s"] obtain x1 where
    x1: "vd_write_block env ?tok (msc_sector_lba s) ?buf x = (True, x1)" "block_queued env ?tok ?buf b x x1" "uf2_inv env x1"
      "received x1 = insert (uf2_block_no b) (if num_blocks (the_uf2_info x) = ?N then received x else {})" by blast
  obtain M U where
    u: "x1 = x\<lparr>mem := M, the_uf2_info := U, virtual_disk_queue := (virtual_disk_queue x)
         \<lparr>queued_task := block_task env ?buf b ?tok\<lparr>task_type := AT_WRITE\<rparr>, full := True\<rparr>\<rparr>"
       "same_outside (ram_bitmap env) (mem x) M" "uf2_ram U" "num_blocks U = ?N" "uf2_token U = ?tok" "valid_blocks U = uf2_valid_ram_blocks env"
       "lowest_addr U = update_lowest (plat env) (target_addr b) (if num_blocks (the_uf2_info x) \<noteq> ?N then 0xffffffff else lowest_addr (the_uf2_info x))"
    using x1(2) unfolding block_queued_def by blast
  from given [OF x1(1) [unfolded u(1)]] obtain z where
    z: "receive_packets (callbacks env (Suc (Suc k))) (usbc env) Msc_Out pks s = Some z"
      "stream_packet Msc_Out Msc_Sector_Transfer n (i + 7) (n - (i + 8)) z" "sector_stream env z"
      "csw z = (packet_counted Msc_Sector_Funcs ^^ 7) (csw s)" "endpoints z Msc_In = endpoints s Msc_In"
      "endpoint_table z = endpoint_table s" "take_addr (usbc env) (endpoints z Msc_Out) = take_addr (usbc env) (endpoints s Msc_Out)"
      "msc_async_token z = ?tok" "mem z = M" "the_uf2_info z = U" "watchdog_rebooting z = watchdog_rebooting s"
      "virtual_disk_queue z = (virtual_disk_queue x)\<lparr>queued_task := block_task env ?buf b ?tok\<lparr>task_type := AT_WRITE\<rparr>, full := True\<rparr>"
    unfolding sector_waiting_def by blast
  have zr: "received z = received x1" "uf2_inv env z = uf2_inv env x1" by (simp_all add: received_def uf2_inv_def z u(1))
  moreover have "mem_read M ?buf 512 = sector_data pks"
  proof -
    have "?buf + word_of_nat j \<in> write_memory env s" if "j < 512" for j
      using that in_block [of j 512 ?buf] by (simp add: write_memory_def)
    then have "mem_read M ?buf 512 = mem_read (mem x) ?buf 512"
      using d(3) by (intro mem_read_outside [OF u(2)]) (auto simp: download_memory_def)
    then show ?thesis by (simp add: x(1))
  qed
  moreover have "same_outside (write_memory env s \<union> ram_bitmap env) (mem s) M"
    by (rule same_outside_trans [OF same_outside_mono [OF x(2)] same_outside_mono [OF u(2)]]) auto
  moreover have "received z = insert (uf2_block_no b) got" using kept(1,3) x1(4) by (auto simp: zr)
  moreover have "lowest_addr U = update_lowest (plat env) (target_addr b) lo" using kept(2,3) u(7) by auto
  ultimately show ?thesis
    using z kept(4) d(1) u x1(3)
    by (intro exI [of _ z]) (simp add: download_state_def del: callbacks.simps funpow.simps)
qed


text \<open>When the worker has told the stream, the sector is taken.\<close>

lemma sector_finished:
  fixes s :: "('d, 'z) picoboot_state_scheme"
  assumes stream: "i mod 8 = 0" "n mod 8 = 0" "i < n"
    and rec: "receive_packets (callbacks env (Suc (Suc k))) (usbc env) Msc_Out pks s = Some z"
      "stream_packet Msc_Out Msc_Sector_Transfer n (i + 7) (n - (i + 8)) z" "sector_stream env z"
    and work: "worker_round (boot_env.truncate env) user msc_eject (task_callbacks (callbacks env (Suc (Suc k))) env) z =
       map_option (Pair True) (usb_stream_chunk_done (callbacks env (Suc (Suc k))) (stream_calls env) (usbc env) Msc_Sector_Transfer y)"
    and same: "usb_same z y" "stall_direction_before_csw y = stall_direction_before_csw z"
  shows "\<exists>s2. write_sector env user (Suc (Suc k)) pks s = Some s2 \<and> sector_taken env n (i + 8) y s2"
proof -
  have st: "sector_stream env y" by (rule sector_stream_usb [OF rec(3) same])
  have "8 dvd n - i" using stream by (simp add: dvd_diff_nat mod_eq_0_iff_dvd)
  then have "8 \<le> n - i" using stream(3) by (intro dvd_imp_le) simp_all
  then have "i + 8 \<le> n" using stream(3) by simp
  then obtain s2 where s2: "usb_stream_chunk_done (callbacks env (Suc (Suc k))) (stream_calls env) (usbc env) Msc_Sector_Transfer y = Some s2"
    "sector_taken env n (i + 8) y s2"
    using sector_taken_later [OF stream_packet_same [OF rec(2) same(1)] st, of k] by blast
  moreover have "write_sector env user (Suc (Suc k)) pks s = Some s2"
    by (simp add: write_sector_def rec(1) work s2(1) del: callbacks.simps)
  ultimately show ?thesis by blast
qed


lemma sector_downloaded:
  fixes s :: "('d, 'z) picoboot_state_scheme"
  assumes stream: "stream_waits Msc_Out Msc_Sector_Transfer n i (n - i) s" "sector_stream env s" "i mod 8 = 0" "n mod 8 = 0" "i < n"
    and pks: "sector_packets (usbc env) pks" "uf2_sector env (sector_data pks) b"
    and b: "main_ram (plat env) (target_addr b)" "uf2_block_no b < uf2_num_blocks b" "uf2_num_blocks b \<le> 1280"
    and env: "rp2040_map (plat env)" "clock_ends (rt env)" "unat (offsetof_uf2_data (plat env)) + 256 \<le> 512"
    and d: "download_state env (uf2_num_blocks b) got lo s" "uf2_block_no b \<notin> got" "download_memory env s"
  shows "\<exists>y s2. write_sector env user (Suc (Suc k)) pks s = Some s2 \<and> sector_taken env n (i + 8) y s2 \<and>
     csw y = (packet_counted Msc_Sector_Funcs ^^ 7) (csw s) \<and> endpoints y Msc_In = endpoints s Msc_In \<and>
     endpoint_table y = endpoint_table s \<and> take_addr (usbc env) (endpoints y Msc_Out) = take_addr (usbc env) (endpoints s Msc_Out) \<and>
     same_outside (write_memory env s \<union> ram_bitmap env \<union> block (target_addr b) 256) (mem s) (mem y) \<and>
     mem_read (mem y) (target_addr b) 256 = block_data env (sector_data pks) \<and>
     block_done env (uf2_num_blocks b) (insert (uf2_block_no b) got) (update_lowest (plat env) (target_addr b) lo) y"
proof -
  let ?cb = "callbacks env (Suc (Suc k))" and ?buf = "sector_buf env" and ?a = "target_addr b" and ?t = Msc_Sector_Transfer
  from sector_queued [OF stream pks b env(1) d, of k] obtain z where
    z: "receive_packets ?cb (usbc env) Msc_Out pks s = Some z"
     "stream_packet Msc_Out ?t n (i + 7) (n - (i + 8)) z" "sector_stream env z"
     "csw z = (packet_counted Msc_Sector_Funcs ^^ 7) (csw s)" "endpoints z Msc_In = endpoints s Msc_In"
     "endpoint_table z = endpoint_table s" "take_addr (usbc env) (endpoints z Msc_Out) = take_addr (usbc env) (endpoints s Msc_Out)"
    and zm: "same_outside (write_memory env s \<union> ram_bitmap env) (mem s) (mem z)" "mem_read (mem z) ?buf 512 = sector_data pks"
    and zq: "full (virtual_disk_queue z)" "\<not> disable (virtual_disk_queue z)" "\<not> watchdog_rebooting z"
     "queued_task (virtual_disk_queue z) = block_task env ?buf b (msc_async_token z)\<lparr>task_type := AT_WRITE\<rparr>"
    and zu: "uf2_inv env z" "uf2_ram (the_uf2_info z)" "num_blocks (the_uf2_info z) = uf2_num_blocks b"
     "valid_blocks (the_uf2_info z) = uf2_valid_ram_blocks env" "uf2_token (the_uf2_info z) = msc_async_token z"
     "received z = insert (uf2_block_no b) got" "lowest_addr (the_uf2_info z) = update_lowest (plat env) ?a lo" by blast
  define t where "t = block_task env ?buf b (msc_async_token z)\<lparr>task_type := AT_WRITE\<rparr>"
  have tp: "transfer_addr t = ?a" "task_data t = ?buf + offsetof_uf2_data (plat env)" "task_token t = msc_async_token z" "task_result t = 0"
    by (simp_all add: t_def block_task_def zero_task_def)
  from worker_round_block [OF env(1) b(1) zq, of user msc_eject ?cb] obtain y0 where
    "block_copied env t z y0" and work: "worker_round (boot_env.truncate env) user msc_eject (task_callbacks ?cb env) z =
       map_option (Pair True) (write_uf2_page_complete env (vd_async_complete ?cb (stream_calls env) (usbc env)) t y0)"
    unfolding t_def by blast
  then obtain F where y0: "y0 = z\<lparr>virtual_disk_queue := (virtual_disk_queue z)\<lparr>full := False\<rparr>, last_mutation_source := task_source t,
        flash_funcs := F, mem := mem_write (mem z) (transfer_addr t) (mem_read (mem z) (task_data t) 256), worker_task := t\<rparr>"
    unfolding block_copied_def by blast
  have yp: "the_uf2_info y0 = the_uf2_info z" "msc_async_token y0 = msc_async_token z" "usb_same z y0" "csw y0 = csw z"
    "stall_direction_before_csw y0 = stall_direction_before_csw z" "watchdog_rebooting y0 = watchdog_rebooting z"
    "mem y0 = mem_write (mem z) ?a (mem_read (mem z) (task_data t) 256)" "virtual_disk_queue y0 = (virtual_disk_queue z)\<lparr>full := False\<rparr>"
    by (simp_all add: y0 usb_same_def watchdog_rebooting_def tp)
  have N: "uf2_num_blocks b \<noteq> 0" using b(2) by auto
  have wr: "same_outside (block ?a 256) (mem z) (mem y0)"
    unfolding yp(7) by (rule same_outside_write [OF same_outside_refl]) (simp_all add: in_block)
  have "received y0 = received z"
    by (rule received_same [OF _ _ _ wr]) (use main_ram_apart [OF d(3) b(1)] b(3) in \<open>auto simp: yp zu\<close>)
  then have rec: "received y0 = insert (uf2_block_no b) got" and inv: "uf2_inv env y0"
    using zu(1,6) uf2_inv_same [OF yp(1), of env] by simp_all
  have "num_blocks (the_uf2_info y0) \<noteq> 0" "task_token t = uf2_token (the_uf2_info y0)"
    "task_token t = msc_async_token y0" using N zu tp by (simp_all add: yp)
  from block_completed [OF inv this(1,2) tp(4) this(3) env(2), of ?cb "stream_calls env" "usbc env"] obtain y where
    y: "write_uf2_page_complete env (vd_async_complete ?cb (stream_calls env) (usbc env)) t y0 =
        usb_stream_chunk_done ?cb (stream_calls env) (usbc env) ?t y"
     "rebooted_if_complete env y0 y" "usb_same y0 y" "mem y = mem y0" "the_uf2_info y = the_uf2_info y0"
     "virtual_disk_queue y = virtual_disk_queue y0" "csw y = csw y0" "stall_direction_before_csw y = stall_direction_before_csw y0" by blast
  note same = usb_same_trans [OF yp(3) y(3)]
  have "stall_direction_before_csw y = stall_direction_before_csw z" by (simp add: y yp)
  from sector_finished [OF stream(3-5) z(1-3) work [unfolded y(1)] same this] obtain s2 where
    run: "write_sector env user (Suc (Suc k)) pks s = Some s2" and taken: "sector_taken env n (i + 8) y s2" by blast
  have "offsetof_uf2_data (plat env) = word_of_nat (unat (offsetof_uf2_data (plat env)))" by simp
  then have bs: "mem_read (mem z) (task_data t) 256 = block_data env (sector_data pks)"
    using mem_read_part [OF env(3), of "mem z" ?buf] by (simp add: tp block_data_def zm(2))
  have len: "length (block_data env (sector_data pks)) = 256" by (simp add: bs [symmetric])
  then have data: "mem_read (mem y) ?a 256 = block_data env (sector_data pks)"
    unfolding y(4) yp(7) bs by (rule mem_read_write_same) simp
  have out: "same_outside (write_memory env s \<union> ram_bitmap env \<union> block ?a 256) (mem s) (mem y)"
    unfolding y(4) by (rule same_outside_trans [OF same_outside_mono [OF zm(1)] same_outside_mono [OF wr]]) auto
  have rb: "received y = received y0" by (simp add: received_def y)
  have "block_done env (uf2_num_blocks b) (insert (uf2_block_no b) got) (update_lowest (plat env) ?a lo) y"
  proof (cases "insert (uf2_block_no b) got = {n. n < uf2_num_blocks b}")
    case True
    then show ?thesis using y(2) zq(2) zu(2,3,7) inv uf2_inv_same [OF y(5) rb, of env]
      by (simp add: block_done_def rb rec y(5,6) yp(1,8) rebooted_if_complete_def Let_def)
  next
    case False
    then have "y = y0" using y(2) by (simp add: rebooted_if_complete_def rec yp(1) zu(3))
    then show ?thesis using False zq(2,3) zu(2,3,7) inv by (simp add: block_done_def rec yp(1,6,8))
  qed
  then show ?thesis
    using run taken same z(4-7) data out
    by (intro exI [of _ y] exI [of _ s2]) (simp add: yp y usb_same_def del: callbacks.simps funpow.simps)
qed


subsection \<open>All sectors of a download\<close>

fun write_sectors where
  "write_sectors env user k [] s = Some s"
| "write_sectors env user k (pks # css) s = Option.bind (write_sector env user k pks s) (write_sectors env user k css)"

text \<open>The blocks of a program in main RAM, in any order.\<close>

definition ram_image :: "platform \<Rightarrow> u32 \<Rightarrow> uf2_block list \<Rightarrow> bool" where
  "ram_image p N bs \<longleftrightarrow> distinct (map uf2_block_no bs) \<and>
     (\<forall>b \<in> set bs. uf2_num_blocks b = N \<and> uf2_block_no b < N \<and> main_ram p (target_addr b)) \<and>
     (\<forall>b \<in> set bs. \<forall>b' \<in> set bs. b \<noteq> b' \<longrightarrow> block (target_addr b) 256 \<inter> block (target_addr b') 256 = {})"

definition image_memory :: "uf2_block list \<Rightarrow> u32 set" where
  "image_memory bs = (\<Union>b \<in> set bs. block (target_addr b) 256)"

text \<open>The packets of the sectors, and the data of their blocks in memory.\<close>

definition block_sectors :: "('d, 'e) msc_env_scheme \<Rightarrow> usb_packet list list \<Rightarrow> uf2_block list \<Rightarrow> bool" where
  "block_sectors env css bs \<longleftrightarrow> list_all2 (\<lambda>pks b. sector_packets (usbc env) pks \<and> uf2_sector env (sector_data pks) b) css bs"

definition blocks_loaded :: "('d, 'e) msc_env_scheme \<Rightarrow> usb_packet list list \<Rightarrow> uf2_block list \<Rightarrow> memory \<Rightarrow> bool" where
  "blocks_loaded env css bs m \<longleftrightarrow>
     list_all2 (\<lambda>pks b. mem_read m (target_addr b) 256 = block_data env (sector_data pks)) css bs"

lemma read_block_outside:
  assumes "same_outside A m m'" "block a 256 \<inter> A = {}"
  shows "mem_read m' a 256 = mem_read m a 256"
  by (rule mem_read_outside [OF assms(1)]) (use in_block [of _ 256 a] assms(2) in fastforce)

lemma blocks_loaded_outside:
  assumes "blocks_loaded env css bs m" "same_outside A m m'" "image_memory bs \<inter> A = {}"
  shows "blocks_loaded env css bs m'"
  using assms(1) unfolding blocks_loaded_def
proof (rule list.rel_mono_strong)
  fix pks b assume "b \<in> set bs" "mem_read m (target_addr b) 256 = block_data env (sector_data pks)"
  then show "mem_read m' (target_addr b) 256 = block_data env (sector_data pks)"
    using read_block_outside [OF assms(2), of "target_addr b"] assms(3) by (auto simp: image_memory_def)
qed

lemma block_done_later:
  assumes "block_done env N got lo y" "disk_part s = disk_part y" "same_outside A (mem y) (mem s)" "A \<inter> ram_bitmap env = {}"
    "N \<noteq> 0" "N \<le> 1280"
  shows "block_done env N got lo s"
proof -
  note eq = disk_part_eq [OF assms(2)]
  have "valid_blocks (the_uf2_info y) = uf2_valid_ram_blocks env"
    using assms(1,5) by (simp add: block_done_def uf2_inv_def Let_def)
  then have "received s = received y"
    using assms(1,4,6) by (intro received_same [OF _ _ _ assms(3)]) (simp_all add: eq block_done_def)
  moreover have "boot_vector s = boot_vector y" "watchdog_rebooting s = watchdog_rebooting y"
    by (simp_all add: eq boot_vector_def watchdog_rebooting_def)
  ultimately show ?thesis using assms(1) eq uf2_inv_same [of s y env] by (simp add: block_done_def)
qed


lemma update_next: "block_done env N got lo y \<Longrightarrow> got \<noteq> {n. n < N} \<Longrightarrow> download_state env N got lo y"
  by (simp add: block_done_def download_state_def)

lemma ram_image_Cons:
  assumes "ram_image p N (b # bs)"
  shows "uf2_num_blocks b = N" "uf2_block_no b < N" "main_ram p (target_addr b)" "ram_image p N bs"
    "uf2_block_no b \<notin> uf2_block_no ` set bs" "block (target_addr b) 256 \<inter> image_memory bs = {}"
proof -
  show "uf2_num_blocks b = N" "uf2_block_no b < N" "main_ram p (target_addr b)" "ram_image p N bs"
    and no: "uf2_block_no b \<notin> uf2_block_no ` set bs"
    using assms by (simp_all add: ram_image_def)
  have "block (target_addr b) 256 \<inter> block (target_addr c) 256 = {}" if "c \<in> set bs" for c
  proof -
    have "b \<noteq> c" using no that by auto
    then show ?thesis using assms that by (simp add: ram_image_def)
  qed
  then show "block (target_addr b) 256 \<inter> image_memory bs = {}" by (simp add: image_memory_def Int_UN_distrib)
qed

lemma download_sectors:
  fixes s :: "('d, 'z) picoboot_state_scheme"
  assumes "stream_waits Msc_Out Msc_Sector_Transfer n i (n - i) s" "sector_stream env s" "i mod 8 = 0" "n = i + 8 * length css" "css \<noteq> []"
    and "block_sectors env css bs" "ram_image (plat env) N bs" "N \<le> 1280" "\<forall>b \<in> set bs. uf2_block_no b \<notin> got"
    and "download_state env N got lo s" "download_memory env s"
    and env: "rp2040_map (plat env)" "clock_ends (rt env)" "unat (offsetof_uf2_data (plat env)) + 256 \<le> 512"
  shows "\<exists>s'. write_sectors env user (Suc (Suc k)) css s = Some s' \<and>
     status_sent env (endpoints s Msc_In) ((packet_counted Msc_Sector_Funcs ^^ (8 * length css)) (csw s)) s' \<and>
     write_over env s s' \<and> blocks_loaded env css bs (mem s') \<and>
     same_outside (write_memory env s \<union> ram_bitmap env \<union> image_memory bs) (mem s) (mem s') \<and>
     block_done env N (got \<union> uf2_block_no ` set bs) (fold (\<lambda>b. update_lowest (plat env) (target_addr b)) bs lo) s'"
  using assms(1-11)
proof (induction css arbitrary: i s bs got lo)
  case (Cons pks css)
  obtain b bs' where bs: "bs = b # bs'" "sector_packets (usbc env) pks" "uf2_sector env (sector_data pks) b" "block_sectors env css bs'"
    using Cons.prems(6) unfolding block_sectors_def by (auto simp: list_all2_Cons1)
  have img: "uf2_num_blocks b = N" "uf2_block_no b < N" "main_ram (plat env) (target_addr b)" "ram_image (plat env) N bs'"
    "uf2_block_no b \<notin> uf2_block_no ` set bs'" "block (target_addr b) 256 \<inter> image_memory bs' = {}"
    using ram_image_Cons [OF Cons.prems(7) [unfolded bs(1)]] by simp_all
  have N: "N \<noteq> 0" using img(2) by auto
  have n: "n mod 8 = 0" using Cons.prems(3,4) by presburger
  have i: "i < n" using Cons.prems(4) by simp
  let ?w = "\<lambda>j. (packet_counted Msc_Sector_Funcs ^^ j)" and ?W = "write_memory env s"
  let ?got = "insert (uf2_block_no b) got" and ?lo = "update_lowest (plat env) (target_addr b) lo"
  have "uf2_block_no b \<notin> got" using Cons.prems(9) by (simp add: bs(1))
  from sector_downloaded [OF Cons.prems(1-3) n i bs(2,3) img(3), unfolded img(1), OF img(2) Cons.prems(8) env Cons.prems(10) this Cons.prems(11),
      of user k] obtain y s1 where
    y: "write_sector env user (Suc (Suc k)) pks s = Some s1" "sector_taken env n (i + 8) y s1" "csw y = ?w 7 (csw s)"
      "endpoints y Msc_In = endpoints s Msc_In" "endpoint_table y = endpoint_table s"
      "take_addr (usbc env) (endpoints y Msc_Out) = take_addr (usbc env) (endpoints s Msc_Out)"
      "same_outside (?W \<union> ram_bitmap env \<union> block (target_addr b) 256) (mem s) (mem y)"
      "mem_read (mem y) (target_addr b) 256 = block_data env (sector_data pks)" "block_done env N ?got ?lo y"
    by blast
  have wm: "write_memory env y = ?W" by (simp add: write_memory_def y(4,6))
  have w8: "packet_counted Msc_Sector_Funcs (csw y) = ?w 8 (csw s)" by (simp add: y(3) eval_nat_numeral)
  have apart: "block (target_addr b) 256 \<inter> (?W \<union> ram_bitmap env) = {}" "?W \<inter> ram_bitmap env = {}"
    using main_ram_apart [OF Cons.prems(11) img(3)] Cons.prems(11) by (simp_all add: download_memory_def)
  show ?case
  proof (cases "css = []")
    case True
    then have "\<not> i + 8 < n" using Cons.prems(4) by simp
    note o = sector_taken_over [OF y(2) this]
    have bs': "bs' = []" using bs(4) True by (simp add: block_sectors_def)
    have "block_done env N ?got ?lo s1"
      by (rule block_done_later [OF y(9) o(3) o(4) [unfolded wm] apart(2) N Cons.prems(8)])
    moreover have "mem_read (mem s1) (target_addr b) 256 = block_data env (sector_data pks)"
      using read_block_outside [OF o(4) [unfolded wm], of "target_addr b"] apart(1) by (simp add: Int_Un_distrib y(8))
    moreover have "same_outside (?W \<union> ram_bitmap env \<union> block (target_addr b) 256) (mem s) (mem s1)"
      by (rule same_outside_trans [OF y(7) same_outside_mono [OF o(4) [unfolded wm]]]) auto
    ultimately show ?thesis
      using y(1,4) o(1) write_over_from [OF o(2) y(5,6)]
      by (intro exI [of _ s1]) (simp add: True bs(1) bs' w8 blocks_loaded_def image_memory_def del: callbacks.simps funpow.simps)
  next
    case False
    then have "i + 8 < n" using Cons.prems(4) by (cases css) simp_all
    note t = sector_taken_waits [OF y(2) this]
    have i8: "(i + 8) mod 8 = 0" "n = i + 8 + 8 * length css" using Cons.prems(3,4) by simp_all
    have bd: "block_done env N ?got ?lo s1"
      by (rule block_done_later [OF y(9) t(4) _ apart(2) N Cons.prems(8)]) (simp add: t(3) same_outside_refl)
    obtain c where c: "c \<in> set bs'" using bs(4) False by (cases bs') (auto simp: block_sectors_def)
    have later: "\<forall>c \<in> set bs'. uf2_block_no c \<notin> ?got"
    proof
      fix c assume c: "c \<in> set bs'"
      then have "uf2_block_no c \<noteq> uf2_block_no b" using img(5) by (metis imageI)
      then show "uf2_block_no c \<notin> ?got" using Cons.prems(9) c by (simp add: bs(1))
    qed
    have "uf2_block_no c < N" using img(4) c by (simp add: ram_image_def)
    moreover have "uf2_block_no c \<notin> ?got" using later c by blast
    ultimately have "?got \<noteq> {n. n < N}" by blast
    then have ds: "download_state env N ?got ?lo s1" by (rule update_next [OF bd])
    have dm: "download_memory env s1" using Cons.prems(11) by (simp add: download_memory_def t(9) wm)
    from Cons.IH [OF t(1,2) i8 False bs(4) img(4) Cons.prems(8) later ds dm] obtain s' where
      s': "write_sectors env user (Suc (Suc k)) css s1 = Some s'"
        "status_sent env (endpoints s Msc_In) (?w (8 * length css) (csw s1)) s'" "write_over env s1 s'" "blocks_loaded env css bs' (mem s')"
        "same_outside (?W \<union> ram_bitmap env \<union> image_memory bs') (mem s1) (mem s')"
        "block_done env N (?got \<union> uf2_block_no ` set bs') (fold (\<lambda>b. update_lowest (plat env) (target_addr b)) bs' ?lo) s'"
      by (auto simp: t(6,9) y(4) wm simp del: callbacks.simps)
    have "?w (8 * length css) (csw s1) = ?w (8 * length (pks # css)) (csw s)"
      by (simp add: t(5) w8 funpow_add [symmetric, THEN fun_cong, simplified] add.commute del: funpow.simps)
    moreover have "mem_read (mem s') (target_addr b) 256 = block_data env (sector_data pks)"
      using read_block_outside [OF s'(5), of "target_addr b"] apart(1) img(6) by (simp add: Int_Un_distrib y(8) t(3))
    moreover have "same_outside (?W \<union> ram_bitmap env \<union> image_memory bs) (mem s) (mem s')"
      by (rule same_outside_trans [OF same_outside_mono [OF y(7)] same_outside_mono [OF s'(5) [unfolded t(3)]]])
        (auto simp: image_memory_def bs(1))
    ultimately show ?thesis
      using s'(1,2,4,6) y(1) write_over_from [OF s'(3), of s] t(7,8) y(5,6)
      by (intro exI [of _ s']) (simp add: bs(1) blocks_loaded_def del: callbacks.simps funpow.simps)
  qed
qed simp


subsection \<open>The whole download\<close>

lemma card_below: "card {n :: u32. n < N} = unat N"
proof -
  have "m \<in> unat ` {n. n < N}" if "m < unat N" for m
  proof -
    have "m < 2 ^ 32" using order_less_trans [OF that unat_u32_less] by simp
    then have "unat (word_of_nat m :: u32) = m" by (intro unat_of_nat_small) simp
    then show ?thesis using that by (intro image_eqI [of _ _ "word_of_nat m"]) (simp_all add: word_less_nat_alt)
  qed
  then have "unat ` {n. n < N} = {..<unat N}" by (auto simp: word_less_nat_alt)
  then show ?thesis using card_image [of unat "{n. n < N}"] by (simp add: inj_on_def word_unat_eq_iff)
qed

lemma numbers_complete:
  assumes "distinct (map uf2_block_no bs)" "\<forall>b \<in> set bs. uf2_block_no b < N" "length bs = unat N"
  shows "uf2_block_no ` set bs = {n. n < N}"
proof (rule card_subset_eq)
  show "uf2_block_no ` set bs \<subseteq> {n. n < N}" using assms(2) by auto
  have "card (uf2_block_no ` set bs) = length bs"
    using assms(1) distinct_card [of "map uf2_block_no bs"] by simp
  then show "card (uf2_block_no ` set bs) = card {n. n < N}" by (simp add: assms(3) card_below)
qed simp

lemma lowest_in_main_ram:
  assumes "\<forall>a \<in> set as. SRAM_BASE p \<le> a" "SRAM_BASE p \<le> lo"
  shows "fold (update_lowest p) as lo = Min (insert lo (set as))"
proof -
  have "fold (update_lowest p) as lo = fold min as lo"
    using assms
  proof (induction as arbitrary: lo)
    case (Cons a as)
    have "update_lowest p a lo = min a lo" "SRAM_BASE p \<le> min a lo"
      using Cons.prems by (auto simp: update_lowest_def Let_def min_def)
    then show ?case using Cons by simp
  qed simp
  also have "\<dots> = Min (set (lo # as))" by (rule Min.set_eq_fold [symmetric])
  finally show ?thesis by simp
qed

lemma image_entry:
  assumes "ram_image p N bs" "rp2040_map p" "bs \<noteq> []"
  shows "fold (\<lambda>b. update_lowest p (target_addr b)) bs 0xffffffff = Min (target_addr ` set bs)" "Min (target_addr ` set bs) \<noteq> 0"
proof -
  have base: "SRAM_BASE p = 0x20000000" using assms(2) by (simp add: rp2040_map_def)
  have ram: "\<forall>a \<in> target_addr ` set bs. SRAM_BASE p \<le> a" using assms(1) by (auto simp: ram_image_def main_ram_def)
  have ne: "target_addr ` set bs \<noteq> {}" "finite (target_addr ` set bs)" using assms(3) by simp_all
  have "fold (\<lambda>b. update_lowest p (target_addr b)) bs 0xffffffff = fold (update_lowest p) (map target_addr bs) 0xffffffff"
    by (simp add: fold_map comp_def)
  also have "\<dots> = Min (insert 0xffffffff (target_addr ` set bs))"
    using lowest_in_main_ram [of "map target_addr bs" p "0xffffffff"] ram by (simp add: base)
  also have "\<dots> = Min (target_addr ` set bs)"
  proof -
    have "(- 1 :: u32) = 0xffffffff" by simp
    then have "Min (target_addr ` set bs) \<le> 0xffffffff"
      using word_order.extremum [of "Min (target_addr ` set bs)"] by (simp only:)
    then show ?thesis unfolding Min_insert [OF ne(2,1)] by (rule min.absorb2)
  qed
  finally show "fold (\<lambda>b. update_lowest p (target_addr b)) bs 0xffffffff = Min (target_addr ` set bs)" .
  have "SRAM_BASE p \<le> Min (target_addr ` set bs)" using ram ne by simp
  then show "Min (target_addr ` set bs) \<noteq> 0" by (auto simp: base)
qed

lemma ram_download_ok:
  fixes s :: "('d, 'z) picoboot_state_scheme"
  assumes idle: "msc_idle env s" and pk: "command_packet (usbc env) pk" "write_cbw (received_cbw env pk s) (length css)"
    and image: "block_sectors env css bs" "ram_image (plat env) N bs" "length bs = unat N" "N \<le> 1280"
    and s: "num_blocks (the_uf2_info s) \<noteq> N" "\<not> disable (virtual_disk_queue s)" "\<not> watchdog_rebooting s" "download_memory env s"
    and env: "rp2040_map (plat env)" "clock_ends (rt env)" "unat (offsetof_uf2_data (plat env)) + 256 \<le> 512"
  shows "\<exists>s1 s'. receive_packet (callbacks env (Suc (Suc k))) (usbc env) Msc_Out pk s = Some s1 \<and>
     write_sectors env user (Suc (Suc k)) css s1 = Some s' \<and> blocks_loaded env css bs (mem s') \<and>
     same_outside (write_memory env s \<union> ram_bitmap env \<union> image_memory bs) (mem s) (mem s') \<and>
     status_sent env (endpoints s Msc_In) (passed_csw (received_cbw env pk s)) s' \<and>
     watchdog_rebooting s' \<and> boot_vector s' = Some (Min (target_addr ` set bs) OR 1, SRAM_END (plat env))"
proof -
  let ?n = "8 * length css" and ?W = "write_memory env s"
  have "ctrl_length (usbc env) (fst (snd pk)) 31" using pk(1) by (simp add: command_packet_def)
  from write_started [OF idle this received_cbw_def [unfolded Let_def] pk(2), of "Suc k"] obtain s1 where
    s1: "receive_packet (callbacks env (Suc (Suc k))) (usbc env) Msc_Out pk s = Some s1"
     "stream_waits Msc_Out Msc_Sector_Transfer ?n 0 ?n s1" "sector_stream env s1" "csw s1 = started_csw (received_cbw env pk s)"
     "mem s1 = mem_write (mem s) (take_addr (usbc env) (endpoints s Msc_Out) (fst pk)) (payload pk)" "disk_part s1 = disk_part s"
     "endpoints s1 Msc_In = endpoints s Msc_In" "endpoint_table s1 = endpoint_table s"
     "take_addr (usbc env) (endpoints s1 Msc_Out) = take_addr (usbc env) (endpoints s Msc_Out)" by blast
  have wm: "write_memory env s1 = ?W" by (simp add: write_memory_def s1(7,9))
  have ne: "css \<noteq> []" using pk(2) by (auto simp: write_cbw_def)
  note eq = disk_part_eq [OF s1(6)]
  have ds: "download_state env N {} 0xffffffff s1" using s(1-3) by (simp add: download_state_def eq watchdog_rebooting_def)
  have dm: "download_memory env s1" using s(4) by (simp add: download_memory_def wm)
  have w0: "stream_waits Msc_Out Msc_Sector_Transfer ?n 0 (?n - 0) s1" "(0 :: nat) mod 8 = 0" "?n = 0 + 8 * length css" using s1(2) by simp_all
  have "\<forall>b \<in> set bs. uf2_block_no b \<notin> {}" by simp
  from download_sectors [OF w0(1) s1(3) w0(2,3) ne image(1,2,4) this ds dm env, of user k] obtain s' where
    s': "write_sectors env user (Suc (Suc k)) css s1 = Some s'"
     "status_sent env (endpoints s Msc_In) (passed_csw (received_cbw env pk s)) s'" "blocks_loaded env css bs (mem s')"
     "same_outside (?W \<union> ram_bitmap env \<union> image_memory bs) (mem s1) (mem s')"
     "block_done env N (uf2_block_no ` set bs) (fold (\<lambda>b. update_lowest (plat env) (target_addr b)) bs 0xffffffff) s'"
    by (auto simp: s1(4,7) wm all_counted [OF pk(2)] simp del: callbacks.simps funpow.simps)
  have "bs \<noteq> []" using image(1) ne by (auto simp: block_sectors_def)
  note entry = image_entry [OF image(2) env(1) this]
  have "watchdog_rebooting s' \<and> boot_vector s' = Some (Min (target_addr ` set bs) OR 1, SRAM_END (plat env))"
    using s'(5) numbers_complete [OF _ _ image(3)] image(2) entry by (simp add: block_done_def ram_image_def)
  moreover have "same_outside (?W \<union> ram_bitmap env \<union> image_memory bs) (mem s) (mem s')"
    by (rule same_outside_trans [OF same_outside_mono [OF command_memory [OF pk(1), of s "mem s", folded s1(5)]] s'(4)]) auto
  ultimately show ?thesis
    using s1(1) s'(1-3) by (intro exI [of _ s1] exI [of _ s']) (simp del: callbacks.simps)
qed

end
