(* ===== verification/Write_Properties.thy ===== *)
theory Write_Properties
  imports Ram_Download Usb_Properties
begin

section \<open>Properties of writes\<close>

text \<open>
  Whole WRITE(10) commands as the host sees them: ordinary sectors, which the disk accepts and drops, and a program for
  RAM, which is loaded and started; each with a concrete command, its packets spelled out.
\<close>

text \<open>
  C10. A WRITE(10) of any number of sectors that are no UF2 blocks for this chip takes all its packets and is answered with
  status passed and residue zero. It changes nothing of the disk, the download or the flash, and no memory but the sector
  buffer, the packet buffers and the status; when the host takes the status the interface waits for the next command.
\<close>

theorem ordinary_write:
  fixes s :: "('d, 'z) picoboot_state_scheme"
  assumes "msc_idle env s" "command_packet (usbc env) pk" "write_cbw (received_cbw env pk s) (length css)"
    "\<forall>pks \<in> set css. sector_packets (usbc env) pks \<and> not_uf2 env (sector_data pks)"
  shows "\<exists>s'. receive_packets (callbacks env (Suc (Suc k))) (usbc env) Msc_Out (pk # concat css) s = Some s' \<and>
     status_sent env (endpoints s Msc_In) (passed_csw (received_cbw env pk s)) s' \<and>
     disk_part s' = disk_part s \<and> same_outside (write_memory env s) (mem s) (mem s') \<and>
     (\<exists>s2. usb_handle_transfer (callbacks env (Suc (Suc k))) (usbc env) (unat (ep_num (endpoints s Msc_In))) True which s' = Some s2 \<and>
        msc_idle env s2 \<and> disk_part s2 = disk_part s \<and> mem s2 = mem s')"
  using assms by (rule ordinary_write_ok)

text \<open>
  C2. Writing a UF2 file for main RAM loads and starts it: when the blocks of a download, in any order and not known
  before, arrive as the sectors of a WRITE(10), and the worker has its turn after each sector, then the data of every
  block is at its target address, the command is answered with status passed and residue zero, and the watchdog is
  set to start the chip at the lowest of the addresses with the stack at the end of RAM. No other memory is changed
  but the buffers and the bitmap of the download.
\<close>

theorem ram_download_boots:
  fixes s :: "('d, 'z) picoboot_state_scheme"
  assumes "msc_idle env s" "command_packet (usbc env) pk" "write_cbw (received_cbw env pk s) (length css)"
    and "block_sectors env css bs" "ram_image (plat env) N bs" "length bs = unat N" "N \<le> 1280"
    and "num_blocks (the_uf2_info s) \<noteq> N" "\<not> disable (virtual_disk_queue s)" "\<not> watchdog_rebooting s" "download_memory env s"
    and "rp2040_map (plat env)" "clock_ends (rt env)" "unat (offsetof_uf2_data (plat env)) + 256 \<le> 512"
  shows "\<exists>s1 s'. receive_packet (callbacks env (Suc (Suc k))) (usbc env) Msc_Out pk s = Some s1 \<and>
     write_sectors env user (Suc (Suc k)) css s1 = Some s' \<and> blocks_loaded env css bs (mem s') \<and>
     same_outside (write_memory env s \<union> ram_bitmap env \<union> image_memory bs) (mem s) (mem s') \<and>
     status_sent env (endpoints s Msc_In) (passed_csw (received_cbw env pk s)) s' \<and>
     watchdog_rebooting s' \<and> boot_vector s' = Some (Min (target_addr ` set bs) OR 1, SRAM_END (plat env))"
  using assms by (rule ram_download_ok)

subsection \<open>Downloads to the XIP RAM\<close>

text \<open>
  The states that blocks for the XIP RAM alone lead to: \<open>_uf2_info.lowest_addr\<close> starts as \<open>0xffffffff\<close>, which counts as
  an address of main RAM, and no address of the XIP RAM is preferred to that.
\<close>

inductive xip_run :: "('d, 'e) vd_env_scheme \<Rightarrow> ('d, 'z) vd_state_scheme \<Rightarrow> bool" for env where
  fresh: "num_blocks (the_uf2_info s) = 0 \<Longrightarrow> xip_run env s"
| written: "xip_run env s \<Longrightarrow> target_addr (uf2_block_at (plat env) (mem s) buf) < SRAM_BASE (plat env) \<Longrightarrow>
    xip_run env (snd (vd_write_block env token lba buf s))"
| reset: "xip_run env s \<Longrightarrow> xip_run env (vd_reset s)"
| arrive: "xip_run env s \<Longrightarrow> xip_run env (s\<lparr>mem := m\<rparr>)"

lemma xip_lowest_update:
  assumes "update_current_uf2_info env buf b token s = (ok, k)" "num_blocks (the_uf2_info s) \<noteq> 0 \<Longrightarrow> lowest_addr (the_uf2_info s) = 0xffffffff"
    "num_blocks (the_uf2_info k) \<noteq> 0"
  shows "lowest_addr (the_uf2_info k) = 0xffffffff"
  using assms
  by (auto simp: update_current_uf2_info_def start_uf2_transfer_def prepare_next_task_def vd_reset_def zero_uf2_info_def Let_def
      split: if_split_asm)

lemma xip_lowest_page:
  assumes "transfer_addr (next_task (the_uf2_info s)) < SRAM_BASE (plat env)" "lowest_addr (the_uf2_info s) = 0xffffffff"
    "rp2040_map (plat env)"
  shows "lowest_addr (the_uf2_info (snd (write_uf2_page env s))) = 0xffffffff"
  using assms
  by (auto simp: write_uf2_page_def Let_def update_lowest_def erase_on_first_write_def queue_task_def set_queue_def rp2040_map_def
      split: if_splits)

lemma xip_lowest:
  assumes "xip_run env s" "rp2040_map (plat env)"
  shows "num_blocks (the_uf2_info s) \<noteq> 0 \<longrightarrow> lowest_addr (the_uf2_info s) = 0xffffffff"
  using assms(1)
proof induction
  case (written s buf token lba)
  let ?b = "uf2_block_at (plat env) (mem s) buf"
  obtain ok k where k: "update_current_uf2_info env buf ?b token s = (ok, k)" by (rule prod.exhaust)
  have low: "lowest_addr (the_uf2_info k) = 0xffffffff" if "num_blocks (the_uf2_info k) \<noteq> 0"
    using xip_lowest_update [OF k _ that] written.IH by blast
  show ?case
  proof (cases "uf2_accepted (plat env) ?b \<and> ok")
    case True
    then have "update_current_uf2_info env buf ?b token s = (True, k)" using k by simp
    note ok = update_current_uf2_info_ok [OF this]
    have "transfer_addr (next_task (the_uf2_info k)) = target_addr ?b" using ok by (auto simp: block_task_def)
    moreover have "num_blocks (the_uf2_info k) \<noteq> 0" using ok by auto
    ultimately show ?thesis
      using xip_lowest_page [of k env] written.hyps(2) low assms(2) k True by (simp add: vd_write_block_def Let_def)
  next
    case False
    then show ?thesis using k low written.IH by (auto simp: vd_write_block_def Let_def split: bool.split)
  qed
qed (simp_all add: vd_reset_def)


subsection \<open>Concrete commands\<close>

lemma word_at:
  assumes "mem_read m a n = bs" "take 4 (drop k bs) = le32 w" "k + 4 \<le> n"
  shows "rd32 m (a + word_of_nat k) = w"
  using mem_read_part [OF assms(3), of m a] assms(1,2) by (intro rd32_le32) simp

text \<open>WRITE(10) of some sectors, and the same in a packet.\<close>

definition example_write_bytes :: "nat \<Rightarrow> u8 list" where
  "example_write_bytes n = le32 0x43425355 @ le32 7 @ le32 (512 * word_of_nat n) @ [0, 0, 10] @
     [0x2a, 0, 0, 0, 0, 5, 0, 0, word_of_nat n, 0, 0, 0, 0, 0, 0, 0]"

definition example_write_packet :: "nat \<Rightarrow> usb_packet" where
  "example_write_packet n = (0, 0x1f, example_write_bytes n)"

definition example_sector :: "u8 list \<Rightarrow> usb_packet list" where
  "example_sector bs = map (\<lambda>i. (word_of_nat (i mod 2), 64, take 64 (drop (64 * i) bs))) [0..<8]"

lemma example_sector_data:
  assumes "length bs = 512"
  shows "sector_data (example_sector bs) = bs"
proof -
  have "concat (map (\<lambda>i. take 64 (drop (64 * i) bs)) [0..<n]) = take (64 * n) bs" for n
    by (induction n) (simp_all add: take_add [of "64 * _" 64, symmetric] add.commute)
  from this [of 8] show ?thesis using assms by (simp add: example_sector_def comp_def)
qed


definition example_write_env :: "unit picoboot_env" where
  "example_write_env = boot_example_env\<lparr>uf2_valid_ram_blocks := 0x50100800\<rparr>"

lemma example_write_env:
  "usbc example_write_env = rp2040_usb" "sector_buf example_write_env = 0x50100400" "plat example_write_env = rp2040"
  "rt example_write_env = example_runtime" "uf2_valid_ram_blocks example_write_env = 0x50100800"
  by (simp_all add: example_write_env_def boot_example_env_def picoboot_env.defs msc_env.defs vd_env.defs example_vd_env_def
      boot_env.defs example_env_def)

lemma example_sector_packets: "length bs = 512 \<Longrightarrow> sector_packets rp2040_usb (example_sector bs)"
  by (auto simp: sector_packets_def example_sector_def full_packet_def ctrl_length_def rp2040_usb_def)

text \<open>The device between commands: the buffers of the endpoints at 0x50100180 and 0x50100200.\<close>

definition example_idle :: "unit boot_state" where
  "example_idle = example_boot_state\<lparr>
     endpoints := (\<lambda>_. zero_usb_endpoint)(
       Msc_In := zero_usb_endpoint\<lparr>ep_num := 1, ep_in := True, owned_buffer_count := 1, dpram_buffer_offset := 0x200\<rparr>,
       Msc_Out := zero_usb_endpoint\<lparr>ep_num := 2, double_buffered := True, owned_buffer_count := 1, dpram_buffer_offset := 0x180,
         current_transfer := Some Msc_Cmd_Transfer, default_transfer := Some Msc_Cmd_Transfer\<rparr>),
     transfers := (\<lambda>_. zero_usb_transfer)(Msc_Cmd_Transfer := zero_usb_transfer\<lparr>tr_type := Msc_Cmd_Packet,
       remaining_packets_to_handle := 1, started := True\<rparr>),
     endpoint_table := [1 \<mapsto> Msc_In, 2 \<mapsto> Msc_Out]\<rparr>"

lemma block_apart: "unat (b - a) \<ge> n \<Longrightarrow> unat (a - b) \<ge> k \<Longrightarrow> n + k < 2 ^ 32 \<Longrightarrow> block a n \<inter> block b k = {}"
proof -
  assume l: "unat (b - a) \<ge> n" "unat (a - b) \<ge> k" "n + k < 2 ^ 32"
  have sub: "unat (p - q) = unat p - unat q" if "unat q \<le> unat p" for p q :: u32 using that by (simp add: unat_sub_if')
  have False if "unat (x - a) < n" "unat (x - b) < k" for x
  proof (cases "unat (x - b) \<le> unat (x - a)")
    case True
    have "x - a - (x - b) = b - a" by simp
    then show False using sub [OF True] that l by simp
  next
    case False
    then have le: "unat (x - a) \<le> unat (x - b)" by simp
    have "x - b - (x - a) = a - b" by simp
    then show False using sub [OF le] that l by simp
  qed
  then show ?thesis by (auto simp: block_def)
qed

lemma example_idle_ok: "msc_idle example_write_env example_idle"
  by (simp add: msc_idle_def Let_def example_idle_def find_ep_def can_answer_def zero_usb_endpoint_def zero_usb_transfer_def
      take_addr_def example_write_env rp2040_usb_def block_apart)

lemma example_write_cbw:
  fixes s :: "('d, 'z) picoboot_state_scheme"
  assumes "cbw = received_cbw env (example_write_packet n) s" "usbc env = rp2040_usb" "n \<in> {1, 17}"
  shows "command_packet rp2040_usb (example_write_packet n)" "write_cbw cbw n" "cbw_tag cbw = 7"
proof -
  show "command_packet rp2040_usb (example_write_packet n)"
    by (simp add: command_packet_def example_write_packet_def example_write_bytes_def ctrl_length_def rp2040_usb_def le32_def)
  let ?a = "take_addr rp2040_usb (endpoints s Msc_Out) 0" and ?bs = "example_write_bytes n"
  let ?m = "mem_write (mem s) ?a ?bs"
  have len: "length ?bs = 31" by (simp add: example_write_bytes_def le32_def)
  have m: "mem_read ?m ?a 31 = ?bs" by (rule mem_read_write_same) (simp_all add: len)
  have w: "rd32 ?m (?a + word_of_nat k) = w" if "take 4 (drop k ?bs) = le32 w" "k + 4 \<le> 31" for k w
    by (rule word_at [OF m that])
  have byte: "?m (?a + word_of_nat k) = ?bs ! k" if "k < 31" for k
    by (rule mem_write_at) (use that in \<open>simp_all add: len\<close>)
  have cbw: "cbw = scsi_cbw_at ?m ?a"
    by (simp add: assms(1,2) received_cbw_def Let_def example_write_packet_def)
  have f: "cbw_sig cbw = 0x43425355" "cbw_tag cbw = 7" "data_transfer_length cbw = 512 * word_of_nat n"
    using w [of 0] w [of 4] w [of 8] by (simp_all add: cbw scsi_cbw_at_def example_write_bytes_def le32_def)
  moreover have "cbw_flags cbw = 0" "cbw_lun cbw = 0" "cb_length cbw = 10"
    using byte [of 12] byte [of 13] byte [of 14] by (simp_all add: cbw scsi_cbw_at_def example_write_bytes_def le32_def)
  moreover have "cbw_cb cbw i = ?bs ! (15 + i)" if "i < 16" for i
    using byte [of "15 + i"] that by (simp add: cbw scsi_cbw_at_def algebra_simps)
  ultimately show "write_cbw cbw n"
    using assms(3) by (elim insertE; simp add: write_cbw_def cbw_valid_def cb_blocks_def example_write_bytes_def le32_def)
  show "cbw_tag cbw = 7" by (rule f)
qed


text \<open>A sector of zeros is no UF2 block.\<close>

lemma example_zeros: "not_uf2 example_write_env (replicate 512 0)"
proof -
  have "\<not> uf2_accepted rp2040 (uf2_block_at rp2040 m 0x50100400)" if "mem_read m 0x50100400 512 = replicate 512 0" for m
  proof -
    have "rd32 m (0x50100400 + word_of_nat 0) = 0" by (rule word_at [OF that]) (simp_all add: le32_def numeral_eq_Suc)
    then show ?thesis by (simp add: uf2_accepted_def rp2040_def)
  qed
  then show ?thesis by (simp add: not_uf2_def example_write_env)
qed

theorem ordinary_write_witness:
  "\<exists>s'. receive_packets (callbacks example_write_env (Suc (Suc 0))) rp2040_usb Msc_Out
       (example_write_packet 1 # example_sector (replicate 512 0)) example_idle = Some s' \<and>
     mem_read (mem s') 0x50100200 13 = [0x55, 0x53, 0x42, 0x53, 7, 0, 0, 0, 0, 0, 0, 0, 0] \<and> disk_part s' = disk_part example_idle"
proof -
  let ?css = "[example_sector (replicate 512 0)]" and ?cbw = "received_cbw example_write_env (example_write_packet 1) example_idle"
  have "(1 :: nat) \<in> {1, 17}" by simp
  note cbw = example_write_cbw [where s = example_idle, OF refl example_write_env(1) this]
  have "\<forall>pks \<in> set ?css. sector_packets rp2040_usb pks \<and> not_uf2 example_write_env (sector_data pks)"
    using example_sector_packets example_sector_data example_zeros by simp
  from ordinary_write [where env = example_write_env and k = 0, OF example_idle_ok, unfolded example_write_env, OF cbw(1) _ this] cbw(2) obtain s' where
    "receive_packets (callbacks example_write_env (Suc (Suc 0))) rp2040_usb Msc_Out (example_write_packet 1 # concat ?css) example_idle = Some s'"
    "status_sent example_write_env (endpoints example_idle Msc_In) (passed_csw ?cbw) s'" "disk_part s' = disk_part example_idle"
    by auto
  moreover have "give_addr rp2040_usb (endpoints example_idle Msc_In) = 0x50100200"
    by (simp add: give_addr_def example_idle_def rp2040_usb_def zero_usb_endpoint_def)
  moreover have "csw_bytes (passed_csw ?cbw) = [0x55, 0x53, 0x42, 0x53, 7, 0, 0, 0, 0, 0, 0, 0, 0]"
    by (simp add: csw_bytes_def passed_csw_def cbw(3) [unfolded One_nat_def] le32_def)
  ultimately show ?thesis by (auto simp: status_sent_def example_write_env)
qed

text \<open>A sector with a block of a download, for any number, count and target.\<close>

definition example_payload :: "u8 list" where
  "example_payload = (replicate 4 0xff @ replicate 244 0 @ replicate 4 0x5a) @ le32 0x29928e70"

lemma length_example_payload [simp]: "length example_payload = 256"
  by (simp add: example_payload_def)

definition example_uf2_bytes :: "u32 \<Rightarrow> u32 \<Rightarrow> u32 \<Rightarrow> u8 list" where
  "example_uf2_bytes n N a = (le32 0x0A324655 @ le32 0x9E5D5157 @ le32 0x2000 @ le32 a @ le32 256 @ le32 n @ le32 N @
     le32 0xe48bff56) @ example_payload @ replicate 220 0 @ le32 0x0AB16F30"

definition example_uf2_block :: "u32 \<Rightarrow> u32 \<Rightarrow> u32 \<Rightarrow> uf2_block" where
  "example_uf2_block n N a = \<lparr>magic_start0 = 0x0A324655, magic_start1 = 0x9E5D5157, uf2_flags = 0x2000, target_addr = a,
     payload_size = 256, uf2_block_no = n, uf2_num_blocks = N, file_size = 0xe48bff56, magic_end = 0x0AB16F30\<rparr>"

lemma example_uf2_length: "length (example_uf2_bytes n N a) = 512"
  by (simp add: example_uf2_bytes_def le32_def)

lemma example_uf2_data: "plat env = rp2040 \<Longrightarrow> block_data env (example_uf2_bytes n N a) = example_payload"
  by (simp add: block_data_def example_uf2_bytes_def le32_def rp2040_def)

lemma example_uf2_sector:
  assumes "plat env = rp2040" "sector_buf env = 0x50100400"
  shows "uf2_sector env (example_uf2_bytes n N a) (example_uf2_block n N a)"
proof -
  let ?bs = "example_uf2_bytes n N a"
  have "uf2_block_at rp2040 m 0x50100400 = example_uf2_block n N a" if m: "mem_read m 0x50100400 512 = ?bs" for m
  proof -
    have w: "rd32 m (0x50100400 + word_of_nat k) = w" if "take 4 (drop k ?bs) = le32 w" "k + 4 \<le> 512" for k w
      by (rule word_at [OF m that])
    have "rd32 m 0x50100400 = 0x0A324655" "rd32 m 0x50100404 = 0x9E5D5157" "rd32 m 0x50100408 = 0x2000"
      "rd32 m 0x5010040c = a" "rd32 m 0x50100410 = 256" "rd32 m 0x50100414 = n" "rd32 m 0x50100418 = N"
      "rd32 m 0x5010041c = 0xe48bff56" "rd32 m 0x501005fc = 0x0AB16F30"
      using w [of 0] w [of 4] w [of 8] w [of 12] w [of 16] w [of 20] w [of 24] w [of 28] w [of 508]
      by (simp_all add: example_uf2_bytes_def le32_def)
    then show ?thesis by (simp add: rp2040_def example_uf2_block_def)
  qed
  then show ?thesis
    by (simp add: uf2_sector_def assms) (simp add: uf2_accepted_def example_uf2_block_def rp2040_def)
qed

text \<open>A download of one block to the start of RAM.\<close>

abbreviation "example_ram_bytes \<equiv> example_uf2_bytes 0 1 0x20000000"
abbreviation "example_ram_block \<equiv> example_uf2_block 0 1 0x20000000"

lemma example_image: "ram_image rp2040 1 [example_ram_block]"
  by (simp add: ram_image_def main_ram_def example_uf2_block_def rp2040_def)

lemma example_download_memory: "download_memory example_write_env example_idle"
proof -
  have m: "write_memory example_write_env example_idle = block 0x50100400 512 \<union> block 0x50100180 128 \<union> block 0x50100200 13"
    by (simp add: write_memory_def example_write_env take_addr_def give_addr_def example_idle_def rp2040_usb_def zero_usb_endpoint_def)
  have "0x20042000 \<le> unat x" if "x \<in> block a n" "0x50000000 \<le> unat a" "unat a < 0x60000000" "n \<le> 4096" for x a :: u32 and n
  proof -
    have l: "unat (x - a) < 4096" using that(1,4) by (simp add: block_def)
    then have "unat (a + (x - a)) = unat a + unat (x - a)" using that(3) by (intro unat_plus_noof) simp
    then show ?thesis using that(2) by simp
  qed
  then show ?thesis
    by (auto simp: download_memory_def m example_write_env rp2040_def Int_Un_distrib2 block_apart)
qed

theorem ram_download_boots_witness:
  "\<exists>s1 s'. receive_packet (callbacks example_write_env (Suc (Suc 0))) rp2040_usb Msc_Out (example_write_packet 1) example_idle = Some s1 \<and>
     write_sectors example_write_env (\<lambda>_ _ _. None) (Suc (Suc 0)) [example_sector example_ram_bytes] s1 = Some s' \<and>
     mem_read (mem s') 0x20000000 256 = example_payload \<and> watchdog_rebooting s' \<and> boot_vector s' = Some (0x20000001, 0x20042000)"
proof -
  let ?css = "[example_sector example_ram_bytes]" and ?bs = "[example_ram_block]"
  have "(1 :: nat) \<in> {1, 17}" by simp
  note cbw = example_write_cbw [where s = example_idle, OF refl example_write_env(1) this]
  have "write_cbw (received_cbw example_write_env (example_write_packet 1) example_idle) (length ?css)" using cbw(2) by simp
  moreover have "block_sectors example_write_env ?css ?bs"
    by (simp add: block_sectors_def example_write_env example_sector_packets example_uf2_length example_sector_data example_uf2_sector)
  moreover have "length ?bs = unat (1 :: u32)" "(1 :: u32) \<le> 1280" by simp_all
  moreover have "num_blocks (the_uf2_info example_idle) \<noteq> 1" "\<not> disable (virtual_disk_queue example_idle)" "\<not> watchdog_rebooting example_idle"
    by (simp_all add: example_idle_def example_boot_state_def example_vd_state_def example_state_def picoboot_state.defs msc_state.defs
        stream_state.defs usb_state.defs vd_state.defs async_state.defs zero_uf2_info_def watchdog_rebooting_def reset_hw_def)
  moreover have "rp2040_map rp2040" "clock_ends example_runtime"
    using example_runtime_selected by (auto simp: rp2040_map_rp2040 clock_ends_def)
  moreover have "unat (offsetof_uf2_data rp2040) + 256 \<le> 512" by (simp add: rp2040_def)
  ultimately obtain s1 s' where
    "receive_packet (callbacks example_write_env (Suc (Suc 0))) rp2040_usb Msc_Out (example_write_packet 1) example_idle = Some s1"
    "write_sectors example_write_env (\<lambda>_ _ _. None) (Suc (Suc 0)) ?css s1 = Some s'" "blocks_loaded example_write_env ?css ?bs (mem s')"
    "watchdog_rebooting s'" "boot_vector s' = Some (Min (target_addr ` set ?bs) OR 1, SRAM_END rp2040)"
    using ram_download_boots [where env = example_write_env and k = 0 and user = "\<lambda>_ _ _. None" and s = example_idle and N = 1,
        OF example_idle_ok, unfolded example_write_env, OF cbw(1)] example_image example_download_memory by blast
  then show ?thesis
    by (auto simp: blocks_loaded_def example_sector_data example_uf2_length
        example_uf2_data [OF example_write_env(3)]) (simp_all add: example_uf2_block_def rp2040_def)
qed


text \<open>The same block with a target in the XIP RAM.\<close>

definition example_xip_state :: "unit vd_state" where
  "example_xip_state = example_vd_state\<lparr>mem := wr32 example_uf2_memory 0x300c 0x15000000\<rparr>"

lemma example_xip_block:
  "uf2_block_at rp2040 (mem example_xip_state) 0x3000 =
     (uf2_block_at rp2040 example_uf2_memory 0x3000)\<lparr>target_addr := 0x15000000\<rparr>"
  by (simp add: rp2040_def example_xip_state_def example_uf2_memory_def memsimps)


end
