(* ===== verification/Boot_Flash.thy ===== *)
theory Boot_Flash
  imports Boot_Example
begin

section \<open>The search for a second stage\<close>

text \<open>
  \<open>_flash_boot\<close> against what the chip answers: how often the first 256 bytes are read, in
  which clock mode, and what is left in memory when the second stage is entered.
\<close>

text \<open>The image the chip answers with, the chip after the read, and the checksum of an image.\<close>

definition boot2_read :: "'d spi_env \<Rightarrow> 'd \<Rightarrow> u8 list \<times> 'd" where
  "boot2_read env d = transaction env d ([FLASHCMD_READ_DATA, 0, 0, 0] @ replicate 256 0)"

definition boot2_image :: "'d spi_env \<Rightarrow> 'd \<Rightarrow> u8 list" where
  "boot2_image env d = drop 4 (fst (boot2_read env d))"

definition boot2_valid :: "u8 list \<Rightarrow> bool" where
  "boot2_valid img \<longleftrightarrow> le32 (crc32_small (take 252 img) 0xffffffff) = drop 252 img"

definition chip_after_reads :: "'d spi_env \<Rightarrow> nat \<Rightarrow> 'd \<Rightarrow> 'd" where
  "chip_after_reads env n d = ((\<lambda>d. snd (boot2_read env d)) ^^ n) d"

text \<open>The chip when the first read starts, from the one at power-up: connected, and out of execute in place.\<close>

definition chip_out_of_xip :: "'d spi_env \<Rightarrow> 'd \<Rightarrow> 'd" where
  "chip_out_of_xip env d0 =
     (let d = exit_clocks_seen env (exit_clocks_seen env (chip_select env (chip_select env d0 OUTOVER_NORMAL) OUTOVER_HIGH))
      in chip_select env (chip_select env
           (snd (exchange_all env (chip_select env d OUTOVER_LOW) [0xff, 0xff])) OUTOVER_HIGH) OUTOVER_NORMAL)"

lemma length_boot2_image [simp]: "length (boot2_image env d) = 256"
  by (simp add: boot2_image_def boot2_read_def transaction_def case_prod_beta)

lemma chip_after_reads_Suc: "chip_after_reads env n (snd (boot2_read env d)) = chip_after_reads env (Suc n) d"
  unfolding chip_after_reads_def funpow_Suc_right comp_apply ..

lemma le32_eq_iff: "le32 v = le32 w \<longleftrightarrow> v = w"
proof
  assume "le32 v = le32 w"
  then have "rd32 (mem_write (\<lambda>_. 0) 0 (le32 v)) 0 = rd32 (mem_write (\<lambda>_. 0) 0 (le32 w)) 0" by simp
  then show "v = w" using rd32_wr32_same by (simp add: wr32_def)
qed simp

text \<open>The clock mode is the part of \<open>ctrlr0\<close> that an attempt sets; reads keep the whole configuration.\<close>

definition clock_mode :: "boot_consts \<Rightarrow> nat \<Rightarrow> u32 \<Rightarrow> u32" where
  "clock_mode bc n w = (w AND NOT (SSI_CTRLR0_SCPH_BITS bc OR SSI_CTRLR0_SCPOL_BITS bc)) OR
     push_bit (SSI_CTRLR0_SCPH_LSB bc) (word_of_nat n AND 3)"

definition in_clock_mode :: "boot_consts \<Rightarrow> nat \<Rightarrow> u32 \<Rightarrow> bool" where
  "in_clock_mode bc n c \<longleftrightarrow> (\<exists>w. c = clock_mode bc n w)"

lemma select_clock_mode_ok:
  assumes "idle h" "quiet env"
  shows "idle (select_clock_mode bc env n h)" "chip (select_clock_mode bc env n h) = chip h"
    "ctrlr0 (select_clock_mode bc env n h) = clock_mode bc n (ctrlr0 h)"
  using assms by (simp_all add: select_clock_mode_def write_ssienr_def tick_quiet Let_def idle_def clock_mode_def)

lemma ctrlr0_tick: "ctrlr0 (tick env h) = ctrlr0 h"
  using hw_config_tick [of env h] by (simp add: hw_config_def)

lemma read_data_config:
  assumes "flash_read_data env a n h = Some (r, h')"
  shows "ctrlr0 h' = ctrlr0 h"
proof -
  have w: "hw_config (fold (write_dr0 env) bs k) = hw_config k" for bs k by (induction bs arbitrary: k) simp_all
  have "hw_config h' = hw_config h"
    using assms by (auto simp: flash_read_data_def flash_put_get_def put_cmd_addr_fold w dest: hw_config_put_get_loop split: option.splits)
  then show ?thesis by (simp add: hw_config_def)
qed

lemma read_boot2_ok:
  assumes "idle h" "fair env" "quiet env"
  shows "\<exists>h'. flash_read_data env 0 256 h = Some (boot2_image env (chip h), h') \<and> idle h' \<and>
     chip h' = snd (boot2_read env (chip h)) \<and> ctrlr0 h' = ctrlr0 h"
proof -
  have "flash_read_data env 0 256 h = spi_command env (cmd_addr FLASHCMD_READ_DATA 0) None True 256 h"
    by (simp add: flash_read_data_def put_cmd_addr_fold spi_command_def)
  moreover have "cmd_addr FLASHCMD_READ_DATA 0 = [FLASHCMD_READ_DATA, 0, 0, 0]" by (simp add: cmd_addr_def)
  moreover have "length [FLASHCMD_READ_DATA, 0, 0, 0] = 4" by simp
  ultimately obtain h' where h': "flash_read_data env 0 256 h = Some (boot2_image env (chip h), h')" "idle h'"
    "chip h' = snd (boot2_read env (chip h))"
    using spi.command_rx [of h env "[FLASHCMD_READ_DATA, 0, 0, 0]" 256] assms
    unfolding boot2_image_def boot2_read_def by (auto simp: eval_nat_numeral(1-3))
  then show ?thesis using read_data_config by blast
qed

text \<open>One attempt.\<close>

definition same_but_boot2 :: "u32 \<Rightarrow> memory \<Rightarrow> memory \<Rightarrow> bool" where
  "same_but_boot2 a m m' \<longleftrightarrow> (\<forall>x. 256 \<le> unat (x - a) \<longrightarrow> m' x = m x)"

lemma boot2_attempt_ok:
  assumes "idle (flash s)" "fair (spi env)" "quiet (spi env)"
  defines "img \<equiv> boot2_image (spi env) (chip (flash s))"
  shows "\<exists>s'. boot2_attempt env bc n s = Some (boot2_valid img, s') \<and> idle (flash s') \<and>
     chip (flash s') = snd (boot2_read (spi env) (chip (flash s))) \<and>
     ctrlr0 (flash s') = clock_mode bc n (ctrlr0 (flash s)) \<and>
     mem_read (mem s') (BOOT2_BASE (plat env)) 256 = img \<and> same_but_boot2 (BOOT2_BASE (plat env)) (mem s) (mem s')"
proof -
  let ?b = "BOOT2_BASE (plat env)" and ?h = "select_clock_mode bc (spi env) n (flash s)"
  note sel = select_clock_mode_ok [OF assms(1,3), of bc n]
  from read_boot2_ok [OF sel(1) assms(2,3)] obtain h' where
    h': "flash_read_data (spi env) 0 256 ?h = Some (img, h')" "idle h'"
      "chip h' = snd (boot2_read (spi env) (chip (flash s)))" "ctrlr0 h' = clock_mode bc n (ctrlr0 (flash s))"
    unfolding sel(2,3) img_def by blast
  define m where "m = mem_write (mem s) ?b img"
  have len: "length img = 256" by (simp add: img_def)
  have all: "mem_read m ?b 256 = img" by (simp add: m_def mem_read_write_same len)
  have "mem_read m ?b 252 @ mem_read m (?b + 252) 4 = img" using mem_read_append [of m ?b 252 4] all by simp
  then have parts: "mem_read m ?b 252 = take 252 img" "mem_read m (?b + 252) 4 = drop 252 img"
    by (metis append_eq_conv_conj length_mem_read)+
  have "boot2_valid img \<longleftrightarrow> crc32_small (mem_read m ?b 252) 0xffffffff = rd32 m (?b + 252)"
    unfolding boot2_valid_def parts(2) [symmetric] le32_rd32 [symmetric] le32_eq_iff parts(1) ..
  moreover have "same_but_boot2 ?b (mem s) m" by (simp add: same_but_boot2_def m_def mem_write_other len)
  ultimately show ?thesis
    using h' all by (simp add: boot2_attempt_def Let_def m_def)
qed

text \<open>The attempts from the \<open>k\<close>-th on.\<close>

lemma boot2_loop_ok:
  assumes "fair (spi env)" "quiet (spi env)" "idle (flash s)" "k \<le> 128"
  shows "\<exists>n s'. boot2_loop env bc k s = Some (n, s') \<and> k \<le> n \<and> n \<le> 128 \<and> idle (flash s') \<and>
     (\<forall>j < n - k. \<not> boot2_valid (boot2_image (spi env) (chip_after_reads (spi env) j (chip (flash s))))) \<and>
     (n < 128 \<longrightarrow> boot2_valid (boot2_image (spi env) (chip_after_reads (spi env) (n - k) (chip (flash s)))) \<and>
        mem_read (mem s') (BOOT2_BASE (plat env)) 256 =
          boot2_image (spi env) (chip_after_reads (spi env) (n - k) (chip (flash s))) \<and>
        in_clock_mode bc n (ctrlr0 (flash s'))) \<and>
     same_but_boot2 (BOOT2_BASE (plat env)) (mem s) (mem s')"
  using assms(3,4)
proof (induction "128 - k" arbitrary: k s)
  case 0
  then have "boot2_loop env bc k s = Some (k, s)" by (subst boot2_loop.simps) simp
  then show ?case using 0 by (intro exI [of _ k] exI [of _ s]) (simp add: same_but_boot2_def)
next
  case (Suc m)
  then have k: "k < 128" "m = 128 - (k + 1)" "k + 1 \<le> 128" by simp_all
  let ?d = "chip (flash s)"
  from boot2_attempt_ok [OF Suc.prems(1) assms(1,2)] obtain s1 where
    s1: "boot2_attempt env bc k s = Some (boot2_valid (boot2_image (spi env) ?d), s1)" "idle (flash s1)"
      "chip (flash s1) = snd (boot2_read (spi env) ?d)" "ctrlr0 (flash s1) = clock_mode bc k (ctrlr0 (flash s))"
      "mem_read (mem s1) (BOOT2_BASE (plat env)) 256 = boot2_image (spi env) ?d"
      "same_but_boot2 (BOOT2_BASE (plat env)) (mem s) (mem s1)"
    by blast
  show ?case
  proof (cases "boot2_valid (boot2_image (spi env) ?d)")
    case True
    then have "boot2_loop env bc k s = Some (k, s1)" using k(1) by (simp add: boot2_loop.simps [of env bc k s] s1(1))
    then show ?thesis
      using True s1 k(1) by (intro exI [of _ k] exI [of _ s1]) (auto simp: chip_after_reads_def in_clock_mode_def)
  next
    case False
    then have step: "boot2_loop env bc k s = boot2_loop env bc (k + 1) s1"
      using k(1) by (subst boot2_loop.simps) (simp add: s1(1))
    from Suc.hyps(1) [OF k(2) s1(2) k(3)] obtain n s' where
      n: "boot2_loop env bc (k + 1) s1 = Some (n, s')" "k + 1 \<le> n" "n \<le> 128" "idle (flash s')"
        "\<And>j. j < n - (k + 1) \<Longrightarrow> \<not> boot2_valid (boot2_image (spi env) (chip_after_reads (spi env) (Suc j) ?d))"
        "n < 128 \<longrightarrow> boot2_valid (boot2_image (spi env) (chip_after_reads (spi env) (Suc (n - (k + 1))) ?d)) \<and>
           mem_read (mem s') (BOOT2_BASE (plat env)) 256 =
             boot2_image (spi env) (chip_after_reads (spi env) (Suc (n - (k + 1))) ?d) \<and>
           in_clock_mode bc n (ctrlr0 (flash s'))"
        "same_but_boot2 (BOOT2_BASE (plat env)) (mem s1) (mem s')"
      unfolding s1(3) chip_after_reads_Suc by blast
    have "Suc (n - (k + 1)) = n - k" using n(2) by simp
    moreover have "\<not> boot2_valid (boot2_image (spi env) (chip_after_reads (spi env) j ?d))" if "j < n - k" for j
    proof (cases j)
      case (Suc i)
      then show ?thesis using n(5) [of i] that by simp
    qed (use False in \<open>simp add: chip_after_reads_def\<close>)
    moreover have "same_but_boot2 (BOOT2_BASE (plat env)) (mem s) (mem s')"
      using s1(6) n(7) by (simp add: same_but_boot2_def)
    ultimately show ?thesis
      unfolding step using n(1-4,6) by (intro exI [of _ n] exI [of _ s']) auto
  qed
qed

lemma flash_boot_ok:
  assumes "fair (spi env)" "quiet (spi env)" "tx_fifo (flash s) = []" "shift_reg (flash s) = None"
  shows "\<exists>n r s'. flash_boot env bc s = Some (r, s') \<and> n \<le> 128 \<and>
     (\<forall>j < n. \<not> boot2_valid (boot2_image (spi env)
        (chip_after_reads (spi env) j (chip_out_of_xip (spi env) (chip (flash s)))))) \<and>
     r = (if n < 128 then Some (BOOT2_BASE (plat env) + 1) else None) \<and>
     (n < 128 \<longrightarrow> boot2_valid (mem_read (mem s') (BOOT2_BASE (plat env)) 256) \<and>
        mem_read (mem s') (BOOT2_BASE (plat env)) 256 = boot2_image (spi env)
          (chip_after_reads (spi env) n (chip_out_of_xip (spi env) (chip (flash s)))) \<and>
        in_clock_mode bc n (ctrlr0 (flash s'))) \<and>
     same_but_boot2 (BOOT2_BASE (plat env)) (mem s) (mem s')"
proof -
  let ?h0 = "connect_internal_flash (ssi env) (spi env) (flash s)"
  have h0: "tx_fifo ?h0 = []" "shift_reg ?h0 = None" "\<not> inover_low ?h0" "chip ?h0 = chip_select (spi env) (chip (flash s)) OUTOVER_NORMAL"
    using assms by (simp_all add: connect_internal_flash_def tick_quiet Let_def)
  from flash_exit_xip_ok [OF h0(1-3) assms(1,2), of "ssi env"] obtain h where
    h: "flash_exit_xip (ssi env) (spi env) ?h0 = Some h" "idle h" "chip h = chip_out_of_xip (spi env) (chip (flash s))"
    unfolding h0(4) chip_out_of_xip_def Let_def by blast
  from boot2_loop_ok [OF assms(1,2), of "s\<lparr>flash := h\<rparr>" 0 bc] obtain n s' where
    n: "boot2_loop env bc 0 (s\<lparr>flash := h\<rparr>) = Some (n, s')" "n \<le> 128" "idle (flash s')"
      "\<forall>j < n. \<not> boot2_valid (boot2_image (spi env)
        (chip_after_reads (spi env) j (chip_out_of_xip (spi env) (chip (flash s)))))"
      "n < 128 \<longrightarrow> boot2_valid (mem_read (mem s') (BOOT2_BASE (plat env)) 256) \<and>
        mem_read (mem s') (BOOT2_BASE (plat env)) 256 = boot2_image (spi env)
          (chip_after_reads (spi env) n (chip_out_of_xip (spi env) (chip (flash s)))) \<and>
        in_clock_mode bc n (ctrlr0 (flash s'))"
      "same_but_boot2 (BOOT2_BASE (plat env)) (mem s) (mem s')"
    using h(2) unfolding h(3) [symmetric] by auto
  have "ctrlr0 (flash_flush_cache c e k) = ctrlr0 k" for c e and k :: "'a flash_hw"
    by (simp add: flash_flush_cache_def flash_cs_force_def Let_def ctrlr0_tick)
  then show ?thesis
    using n h(1) by (intro exI [of _ n]) (auto simp: flash_boot_def)
qed

text \<open>C6. The search for a second stage ends, after at most 128 reads, and its outcome is decided by what the chip answers:
  the first read whose checksum matches is entered (with the thumb bit), with exactly that image in
  the last 256 bytes of memory and the controller in the clock mode of that attempt, the number of the
  attempt modulo four; if none of the 128 matches there is no second stage. Apart from the 256 bytes, memory is untouched either way.\<close>

theorem flash_boot_second_stage:
  assumes "fair (spi env)" "quiet (spi env)" "tx_fifo (flash s) = []" "shift_reg (flash s) = None"
  shows "\<exists>n r s'. flash_boot env bc s = Some (r, s') \<and> n \<le> 128 \<and>
     (\<forall>j < n. \<not> boot2_valid (boot2_image (spi env)
        (chip_after_reads (spi env) j (chip_out_of_xip (spi env) (chip (flash s)))))) \<and>
     r = (if n < 128 then Some (BOOT2_BASE (plat env) + 1) else None) \<and>
     (n < 128 \<longrightarrow> boot2_valid (mem_read (mem s') (BOOT2_BASE (plat env)) 256) \<and>
        mem_read (mem s') (BOOT2_BASE (plat env)) 256 = boot2_image (spi env)
          (chip_after_reads (spi env) n (chip_out_of_xip (spi env) (chip (flash s)))) \<and>
        in_clock_mode bc n (ctrlr0 (flash s'))) \<and>
     same_but_boot2 (BOOT2_BASE (plat env)) (mem s) (mem s')"
  by (rule flash_boot_ok [OF assms])

text \<open>
  A chip that answers every byte with zero: the checksum of zeros is not zero, so there is no second
  stage, and the search gives up after 128 attempts.
\<close>

definition zero_env :: "unit spi_env" where
  "zero_env = not_env\<lparr>exchange := \<lambda>d b. (0, ())\<rparr>"

lemma zero_transaction: "transaction zero_env d bs = (replicate (length bs) 0, ())"
proof -
  have "exchange_all zero_env d bs = (replicate (length bs) 0, ())" for d
    by (induction bs arbitrary: d) (simp_all add: zero_env_def)
  then show ?thesis by (simp add: transaction_def)
qed

lemma zeros_invalid: "\<not> boot2_valid (replicate 256 0)"
proof
  assume v: "boot2_valid (replicate 256 0)"
  have "le32 0 = replicate 4 0" by (simp add: le32_def eval_nat_numeral)
  then have "le32 (crc32_small (replicate 252 0) 0xffffffff) = le32 0" using v by (simp add: boot2_valid_def)
  then show False using crc32_small_zeros [of 252 "0xffffffff"] by (simp add: le32_eq_iff)
qed

theorem flash_boot_second_stage_witness:
  "\<exists>s'. flash_boot (example_env\<lparr>spi := zero_env\<rparr>) example_boot_consts example_boot_state = Some (None, s')"
proof -
  let ?env = "example_env\<lparr>spi := zero_env\<rparr>" and ?bc = "example_boot_consts"
  have "boot2_image zero_env d = replicate 256 0" for d
    by (simp add: boot2_image_def boot2_read_def zero_transaction)
  then have invalid: "\<not> boot2_valid (boot2_image (spi ?env) d)" for d by (simp add: zeros_invalid)
  have "flash example_boot_state = idle_hw ()"
    by (simp add: example_boot_state_def example_vd_state_def example_state_def picoboot_state.defs
        msc_state.defs stream_state.defs usb_state.defs vd_state.defs async_state.defs)
  then have idle: "tx_fifo (flash example_boot_state) = []" "shift_reg (flash example_boot_state) = None"
    by (simp_all add: idle_hw_def)
  have "fair zero_env" "quiet zero_env" by (auto simp: zero_env_def fair_def quiet_def not_env_def)
  then obtain n r s' where
    "flash_boot ?env ?bc example_boot_state = Some (r, s')" "n \<le> 128"
      "r = (if n < 128 then Some (BOOT2_BASE (plat ?env) + 1) else None)"
      "n < 128 \<longrightarrow> boot2_valid (mem_read (mem s') (BOOT2_BASE (plat ?env)) 256) \<and>
         mem_read (mem s') (BOOT2_BASE (plat ?env)) 256 = boot2_image (spi ?env)
          (chip_after_reads (spi ?env) n (chip_out_of_xip (spi ?env) (chip (flash example_boot_state))))"
    using flash_boot_second_stage [where env = ?env and bc = ?bc, OF _ _ idle] by auto
  then show ?thesis using invalid by fastforce
qed

section \<open>Rebooting into the bootloader\<close>

lemma watchdog_reboot_scratch:
  "watchdog_reboot c pc sp d r = Some r' \<Longrightarrow> wd_scratch r' 0 = wd_scratch r 0 \<and> wd_scratch r' 1 = wd_scratch r 1"
  by (auto simp: watchdog_reboot_def watchdog_vector_def Let_def split: if_split_asm bind_splits)

text \<open>C38. The ROM function that user code calls to get into the bootloader arms the watchdog for 10 milliseconds with a boot
  vector to the bootloader's second entry point, on a fresh stack; and after the reset, when nothing but the scratch
  registers is left, that entry point starts the bootloader with the activity LED and the interface mask that the caller asked for.\<close>

theorem reset_usb_boot_arguments:
  assumes "running_on_fpga (rt env) \<or>
    (\<exists>k. clk_ref_selected (rt env) k AND push_bit (CLOCKS_CLK_REF_CTRL_SRC_VALUE_XOSC_CLKSRC (rt env)) 1 \<noteq> 0)"
  shows "\<exists>s'. reset_usb_boot env bc pin_mask disable_mask s = Some s' \<and> watchdog_rebooting s' \<and>
     boot_vector s' = (if usb_boot_reboot_wrapper bc = 0 then None
       else Some (usb_boot_reboot_wrapper bc OR 1, SRAM_END (plat env))) \<and> wd_load s' = 10000 \<and>
     (\<forall>cb s2. wd_scratch s2 = wd_scratch s' \<longrightarrow>
        usb_boot_reboot cb env bc s2 = usb_boot cb env bc pin_mask disable_mask s2)"
proof -
  let ?s = "s\<lparr>wd_scratch := (wd_scratch s)(0 := pin_mask, 1 := disable_mask)\<rparr>"
  obtain s' where s': "watchdog_reboot (rt env) (usb_boot_reboot_wrapper bc) (SRAM_END (plat env)) 10 ?s = Some s'"
    "watchdog_rebooting s'" "boot_vector s' = (if usb_boot_reboot_wrapper bc = 0 then None
       else Some (usb_boot_reboot_wrapper bc OR 1, SRAM_END (plat env)))" "wd_load s' = 10 * 1000"
    using watchdog_reboot_ok [OF assms, of "usb_boot_reboot_wrapper bc" "SRAM_END (plat env)" 10 ?s] by blast
  have "wd_scratch s' 0 = pin_mask" "wd_scratch s' 1 = disable_mask" using watchdog_reboot_scratch [OF s'(1)] by simp_all
  then show ?thesis using s' by (intro exI [of _ s']) (simp add: reset_usb_boot_def usb_boot_reboot_def)
qed

theorem reset_usb_boot_arguments_witness:
  "\<exists>s'. reset_usb_boot boot_example_env example_boot_consts 0x2000000 1 example_boot_state = Some s' \<and>
     boot_vector s' = Some (0x2401, SRAM_END rp2040) \<and>
     usb_boot_reboot (callbacks boot_example_env 0) boot_example_env example_boot_consts s' =
       usb_boot (callbacks boot_example_env 0) boot_example_env example_boot_consts 0x2000000 1 s'"
proof -
  have "plat boot_example_env = rp2040"
    by (simp add: boot_example_env_def picoboot_env.defs msc_env.defs vd_env.defs example_vd_env_def boot_env.defs example_env_def)
  moreover have "usb_boot_reboot_wrapper example_boot_consts = 0x2401" by (simp add: example_boot_consts_def)
  moreover have "clk_ref_selected example_runtime 9 AND push_bit (CLOCKS_CLK_REF_CTRL_SRC_VALUE_XOSC_CLKSRC example_runtime) 1 \<noteq> 0"
    by (simp add: example_runtime_def)
  ultimately show ?thesis
    using reset_usb_boot_arguments [of boot_example_env example_boot_consts "0x2000000" 1 example_boot_state]
    unfolding rt_boot_example by fastforce
qed

end
