(* ===== verification/Nor_Flash.thy ===== *)
theory Nor_Flash
  imports Boot_Flash
begin

section \<open>A NOR flash chip behind the port\<close>

text \<open>
  What the data sheets of serial NOR flash chips say of the commands that the ROM sends: after a write enable, page program
  clears bits of a page and sector erase sets those of a sector, both busy for some polls of the status register; a read
  answers with the cells; the sequence of \<open>flash_exit_xip\<close> leaves any read mode. With it, what the functions of \<open>program_flash_generic.c\<close> do to the
  contents of the chip.
\<close>

subsection \<open>The chip\<close>

definition program_page :: "u32 \<Rightarrow> u8 list \<Rightarrow> memory \<Rightarrow> memory" where
  "program_page a bs m = (\<lambda>x. if unat (x - a) < length bs then m x AND bs ! unat (x - a) else m x)"

definition erase_sector :: "u32 \<Rightarrow> memory \<Rightarrow> memory" where
  "erase_sector a m = (\<lambda>x. if unat (x - a) < 4096 then 0xff else m x)"

text \<open>A write command, preceded by a write enable, and the effect that it has once the chip is no longer busy.\<close>

definition write_effect ::
    "'d spi_env \<Rightarrow> ('d \<Rightarrow> memory) \<Rightarrow> ('d \<Rightarrow> bool) \<Rightarrow> u8 list \<Rightarrow> (memory \<Rightarrow> memory) \<Rightarrow> 'd \<Rightarrow> bool" where
  "write_effect env content ready bs f d \<longleftrightarrow>
     (\<exists>n. let d1 = snd (transaction env (snd (transaction env d [FLASHCMD_WRITE_ENABLE])) bs);
              d2 = status_polls (transaction env) (Suc n) d1
          in busy_for (transaction env) n d1 \<and> ready d2 \<and> content d2 = f (content d))"

text \<open>
  \<open>attached d\<close>: a chip in any mode; \<open>ready d\<close>: it takes commands; \<open>content d\<close>: its cells, by 24-bit address.
\<close>

definition nor_chip :: "'d spi_env \<Rightarrow> ('d \<Rightarrow> memory) \<Rightarrow> ('d \<Rightarrow> bool) \<Rightarrow> ('d \<Rightarrow> bool) \<Rightarrow> bool" where
  "nor_chip env content attached ready \<longleftrightarrow>
     (\<forall>d. ready d \<longrightarrow> attached d) \<and>
     (\<forall>d. attached d \<longrightarrow> ready (chip_out_of_xip env d) \<and> content (chip_out_of_xip env d) = content d) \<and>
     (\<forall>d a n. ready d \<longrightarrow> a < 0x1000000 \<longrightarrow> unat a + n \<le> 2 ^ 24 \<longrightarrow>
        (let (r, d1) = transaction env d (cmd_addr FLASHCMD_READ_DATA a @ replicate n 0)
         in drop 4 r = mem_read (content d) a n \<and> ready d1 \<and> content d1 = content d)) \<and>
     (\<forall>d a bs. ready d \<longrightarrow> a < 0x1000000 \<longrightarrow> a AND 255 = 0 \<longrightarrow> length bs = 256 \<longrightarrow>
        write_effect env content ready (cmd_addr FLASHCMD_PAGE_PROGRAM a @ bs) (program_page a bs) d) \<and>
     (\<forall>d a. ready d \<longrightarrow> a < 0x1000000 \<longrightarrow> a AND 4095 = 0 \<longrightarrow>
        write_effect env content ready (cmd_addr FLASHCMD_SECTOR_ERASE a) (erase_sector a) d)"

subsection \<open>The functions on the contents\<close>

text \<open>The port is idle, and behind it is a chip that takes commands.\<close>

definition flash_ready :: "('d \<Rightarrow> bool) \<Rightarrow> 'd flash_hw \<Rightarrow> bool" where
  "flash_ready ready h \<longleftrightarrow> idle h \<and> ready (chip h)"

lemma page_program_content:
  assumes "nor_chip env content attached ready" "fair env" "quiet env" "flash_ready ready h"
    "a < 0x1000000" "a AND 255 = 0" "length bs = 256"
  shows "\<exists>h'. flash_page_program env a bs h = Some h' \<and> flash_ready ready h' \<and>
     content (chip h') = program_page a bs (content (chip h))"
proof -
  have h: "idle h" "ready (chip h)" using assms(4) by (simp_all add: flash_ready_def)
  then have "write_effect env content ready (cmd_addr FLASHCMD_PAGE_PROGRAM a @ bs) (program_page a bs) (chip h)"
    using assms by (simp add: nor_chip_def)
  then obtain n where
    n: "busy_for (transaction env) n (snd (transaction env (snd (transaction env (chip h) [FLASHCMD_WRITE_ENABLE]))
          (cmd_addr FLASHCMD_PAGE_PROGRAM a @ take 256 bs)))"
      "ready (status_polls (transaction env) (Suc n) (snd (transaction env (snd (transaction env (chip h) [FLASHCMD_WRITE_ENABLE]))
          (cmd_addr FLASHCMD_PAGE_PROGRAM a @ take 256 bs))))"
      "content (status_polls (transaction env) (Suc n) (snd (transaction env (snd (transaction env (chip h) [FLASHCMD_WRITE_ENABLE]))
          (cmd_addr FLASHCMD_PAGE_PROGRAM a @ take 256 bs)))) = program_page a bs (content (chip h))"
    using assms(7) unfolding write_effect_def Let_def by auto
  show ?thesis
    using flash_page_program_ok [OF h(1) assms(2,3) _ refl n(1)] assms(7) n(2,3) by (auto simp: flash_ready_def simp del: status_polls.simps)
qed

lemma sector_erase_content:
  assumes "nor_chip env content attached ready" "fair env" "quiet env" "flash_ready ready h" "a < 0x1000000" "a AND 4095 = 0"
  shows "\<exists>h'. flash_sector_erase env a h = Some h' \<and> flash_ready ready h' \<and>
     content (chip h') = erase_sector a (content (chip h))"
proof -
  have h: "idle h" "ready (chip h)" using assms(4) by (simp_all add: flash_ready_def)
  then have "write_effect env content ready (cmd_addr FLASHCMD_SECTOR_ERASE a) (erase_sector a) (chip h)"
    using assms by (simp add: nor_chip_def)
  then obtain n where
    n: "busy_for (transaction env) n (snd (transaction env (snd (transaction env (chip h) [FLASHCMD_WRITE_ENABLE]))
          (cmd_addr FLASHCMD_SECTOR_ERASE a)))"
      "ready (status_polls (transaction env) (Suc n) (snd (transaction env (snd (transaction env (chip h) [FLASHCMD_WRITE_ENABLE]))
          (cmd_addr FLASHCMD_SECTOR_ERASE a))))"
      "content (status_polls (transaction env) (Suc n) (snd (transaction env (snd (transaction env (chip h) [FLASHCMD_WRITE_ENABLE]))
          (cmd_addr FLASHCMD_SECTOR_ERASE a)))) = erase_sector a (content (chip h))"
    unfolding write_effect_def Let_def by auto
  show ?thesis
    using flash_user_erase_ok [OF h(1) assms(2,3) refl n(1)] n(2,3)
    by (auto simp: flash_ready_def flash_sector_erase_def simp del: status_polls.simps)
qed

text \<open>The port is at rest, in whatever mode, and so may the chip be.\<close>

definition flash_attached :: "('d \<Rightarrow> bool) \<Rightarrow> 'd flash_hw \<Rightarrow> bool" where
  "flash_attached attached h \<longleftrightarrow> tx_fifo h = [] \<and> shift_reg h = None \<and> attached (chip h)"

lemma exit_xip_content:
  assumes "nor_chip env content attached ready" "fair env" "quiet env" "flash_attached attached h"
  shows "\<exists>h'. flash_exit_xip c env (connect_internal_flash c env h) = Some h' \<and> flash_ready ready h' \<and>
     content (chip h') = content (chip h)"
proof -
  let ?h0 = "connect_internal_flash c env h"
  have h: "tx_fifo h = []" "shift_reg h = None" "attached (chip h)" using assms(4) by (simp_all add: flash_attached_def)
  have h0: "tx_fifo ?h0 = []" "shift_reg ?h0 = None" "\<not> inover_low ?h0" "chip ?h0 = chip_select env (chip h) OUTOVER_NORMAL"
    using h assms(3) by (simp_all add: connect_internal_flash_def tick_quiet Let_def)
  from flash_exit_xip_ok [OF h0(1-3) assms(2,3), of c] obtain h' where
    "flash_exit_xip c env ?h0 = Some h'" "idle h'" "chip h' = chip_out_of_xip env (chip h)"
    unfolding h0(4) chip_out_of_xip_def Let_def by blast
  then show ?thesis using assms(1) h(3) by (auto simp: nor_chip_def flash_ready_def)
qed


text \<open>The search for a second stage enters what the first page of the chip holds.\<close>

lemma boot2_image_content:
  assumes "nor_chip env content attached ready" "attached d"
  shows "boot2_image env (chip_out_of_xip env d) = mem_read (content d) 0 256"
proof -
  let ?d = "chip_out_of_xip env d"
  have r: "ready ?d" "content ?d = content d" using assms by (simp_all add: nor_chip_def)
  have "let (r, d1) = transaction env ?d (cmd_addr FLASHCMD_READ_DATA 0 @ replicate 256 0)
    in drop 4 r = mem_read (content ?d) 0 256 \<and> ready d1 \<and> content d1 = content ?d"
  proof -
    have "(0 :: u32) < 0x1000000" "unat (0 :: u32) + 256 \<le> 2 ^ 24" by simp_all
    then show ?thesis using assms(1) r(1) unfolding nor_chip_def by blast
  qed
  moreover have "cmd_addr FLASHCMD_READ_DATA 0 = [FLASHCMD_READ_DATA, 0, 0, 0]" by (simp add: cmd_addr_def)
  ultimately show ?thesis by (simp add: boot2_image_def boot2_read_def r(2) case_prod_beta)
qed

lemma flash_boot_content:
  assumes "nor_chip (spi env) content attached ready" "fair (spi env)" "quiet (spi env)" "flash_attached attached (flash s)"
    and "boot2_valid (mem_read (content (chip (flash s))) 0 256)"
  shows "\<exists>s'. flash_boot env bc s = Some (Some (BOOT2_BASE (plat env) + 1), s') \<and>
     mem_read (mem s') (BOOT2_BASE (plat env)) 256 = mem_read (content (chip (flash s))) 0 256"
proof -
  have h: "tx_fifo (flash s) = []" "shift_reg (flash s) = None" "attached (chip (flash s))"
    using assms(4) by (simp_all add: flash_attached_def)
  note img = boot2_image_content [OF assms(1) h(3)]
  from flash_boot_ok [OF assms(2,3) h(1,2), of bc] obtain n r s' where
    n: "flash_boot env bc s = Some (r, s')" "\<forall>j < n. \<not> boot2_valid (boot2_image (spi env)
        (chip_after_reads (spi env) j (chip_out_of_xip (spi env) (chip (flash s)))))"
      "r = (if n < 128 then Some (BOOT2_BASE (plat env) + 1) else None)"
      "n < 128 \<longrightarrow> mem_read (mem s') (BOOT2_BASE (plat env)) 256 = boot2_image (spi env)
          (chip_after_reads (spi env) n (chip_out_of_xip (spi env) (chip (flash s))))" by blast
  have "n = 0"
  proof (rule ccontr)
    assume "n \<noteq> 0"
    then have "\<not> boot2_valid (boot2_image (spi env) (chip_out_of_xip (spi env) (chip (flash s))))"
      using n(2) [rule_format, of 0] by (simp add: chip_after_reads_def)
    then show False using assms(5) by (simp add: img)
  qed
  then show ?thesis using n img by (auto simp: chip_after_reads_def)
qed

end
