(* ===== verification/Flash_Download.thy ===== *)
theory Flash_Download
  imports Ram_Download Nor_Flash
begin

section \<open>Downloading a program to flash\<close>

text \<open>
  A UF2 download to flash from the first sector to the reboot, down to the cells of the chip: what the task of a block does
  to them, which blocks erase their sector first, and what a whole file leaves in the chip.
\<close>

subsection \<open>The task of a block\<close>

text \<open>The flash that the commands with their 24-bit addresses reach, in whole pages; \<open>flash_offset\<close> is what the chip sees.\<close>

definition flash_offset :: "platform \<Rightarrow> u32 \<Rightarrow> u32" where
  "flash_offset p a = a - XIP_MAIN_BASE p"

definition main_flash :: "platform \<Rightarrow> u32 \<Rightarrow> bool" where
  "main_flash p a \<longleftrightarrow> XIP_MAIN_BASE p \<le> a \<and> flash_offset p a < 0x1000000 \<and> a AND 255 = 0"

definition sector_of :: "u32 \<Rightarrow> u32" where
  "sector_of a = a AND NOT 4095"

definition block_type :: "bool \<Rightarrow> bool \<Rightarrow> u8" where
  "block_type x e = AT_WRITE OR (if x then AT_EXIT_XIP else 0) OR (if e then AT_FLASH_ERASE else 0)"

lemma unat_sector: "unat (sector_of a) = 4096 * (unat a div 4096)"
proof -
  have whole: "take_bit 32 (unat a) = unat a" by (rule take_bit_nat_eq_self) simp
  have "sector_of a = a AND NOT (mask 12)" by (simp add: sector_of_def mask_eq_exp_minus_1)
  moreover have "a AND NOT (mask 12) = push_bit 12 (drop_bit 12 a)" by (rule bit_word_eqI) (auto simp: bit_simps)
  ultimately have "unat (sector_of a) = unat (push_bit 12 (drop_bit 12 a))" by (simp only:)
  also have "\<dots> = take_bit 32 (4096 * (unat a div 4096))"
    by (simp only: unsigned_push_bit_eq unsigned_drop_bit_eq)
      (simp add: push_bit_eq_mult drop_bit_eq_div mult.commute whole)
  finally have "unat (sector_of a) = take_bit 32 (4096 * (unat a div 4096))" .
  moreover have "4096 * (unat a div 4096) \<le> unat a" by simp
  then have "4096 * (unat a div 4096) < 2 ^ 32" by (rule order_le_less_trans) simp
  ultimately show ?thesis by (simp add: take_bit_eq_mod)
qed

lemma and_255: "a AND 255 = 0 \<longleftrightarrow> unat a mod 256 = 0" for a :: u32
proof -
  have "a AND 255 = take_bit 8 a" by (simp add: take_bit_eq_mask mask_eq_exp_minus_1)
  then have "unat (a AND 255) = take_bit 8 (unat a)" by (simp only: unsigned_take_bit_eq)
  then have "unat (a AND 255) = unat a mod 256" by (simp add: take_bit_eq_mod)
  then show ?thesis by (metis unat_eq_zero)
qed

lemma and_4095: "a AND 4095 = 0 \<longleftrightarrow> unat a mod 4096 = 0" for a :: u32
proof -
  have "a AND 4095 = take_bit 12 a" by (simp add: take_bit_eq_mask mask_eq_exp_minus_1)
  then have "unat (a AND 4095) = take_bit 12 (unat a)" by (simp only: unsigned_take_bit_eq)
  then have "unat (a AND 4095) = unat a mod 4096" by (simp add: take_bit_eq_mod)
  then show ?thesis by (metis unat_eq_zero)
qed

lemma main_flash_range:
  assumes "rp2040_map p" "main_flash p a"
  shows "unat (flash_offset p a) = unat a - 0x10000000" "0x10000000 \<le> unat a" "unat a < 0x11000000"
    "unat a mod 256 = 0"
proof -
  have b: "XIP_MAIN_BASE p = 0x10000000" using assms(1) by (simp add: rp2040_map_def)
  show le: "0x10000000 \<le> unat a" using assms(2) by (simp add: main_flash_def b word_le_nat_alt)
  then show o: "unat (flash_offset p a) = unat a - 0x10000000" by (simp add: flash_offset_def b unat_sub_if')
  have "unat (flash_offset p a) < 0x1000000" using assms(2) by (simp add: main_flash_def word_less_nat_alt)
  then show "unat a < 0x11000000" using o le by linarith
  show "unat a mod 256 = 0" using assms(2) by (simp add: main_flash_def and_255)
qed

lemma whole_pages: "m mod 256 = 0 \<Longrightarrow> m < 4096 \<Longrightarrow> m + 256 \<le> (4096 :: nat)"
  by presburger

lemma sector_offset:
  assumes "rp2040_map p" "main_flash p a"
  shows "flash_offset p (sector_of a) = sector_of (flash_offset p a)" "0x10000000 \<le> unat (sector_of a)"
    "unat (sector_of a) \<le> unat a" "unat a + 256 \<le> unat (sector_of a) + 4096"
proof -
  note r = main_flash_range [OF assms]
  have b: "XIP_MAIN_BASE p = 0x10000000" using assms(1) by (simp add: rp2040_map_def)
  have "(0x10000000 :: nat) div 4096 \<le> unat a div 4096" using r(2) by (rule div_le_mono)
  then show l: "0x10000000 \<le> unat (sector_of a)" by (simp add: unat_sector)
  show "unat (sector_of a) \<le> unat a" by (simp add: unat_sector)
  have "unat a mod 4096 mod 256 = 0" using r(4) by (simp add: mod_mod_cancel)
  then have "unat a mod 4096 + 256 \<le> 4096" by (intro whole_pages) simp_all
  moreover have "unat a = unat (sector_of a) + unat a mod 4096" by (simp add: unat_sector)
  ultimately show "unat a + 256 \<le> unat (sector_of a) + 4096" by simp
  have "unat (flash_offset p (sector_of a)) = unat (sector_of a) - 0x10000000"
    using l by (simp add: flash_offset_def b unat_sub_if')
  also have "\<dots> = 4096 * ((unat a - 0x10000000) div 4096)"
  proof -
    have "unat a = (unat a - 0x10000000) + 65536 * 4096" using r(2) by simp
    then have "unat a div 4096 = (unat a - 0x10000000) div 4096 + 65536" by (metis add.commute div_mult_self1 zero_neq_numeral)
    then show ?thesis by (simp add: unat_sector)
  qed
  also have "\<dots> = unat (sector_of (flash_offset p a))" by (simp add: unat_sector r(1))
  finally show "flash_offset p (sector_of a) = sector_of (flash_offset p a)" by (simp add: word_unat_eq_iff)
qed

lemma main_flash_classes:
  assumes "rp2040_map p" "main_flash p a" "j \<le> 4096"
  shows "is_address_flash p (a + word_of_nat j)" "\<not> is_address_ram p (a + word_of_nat j)"
    "is_address_flash p (sector_of a + word_of_nat j)"
proof -
  note r = main_flash_range [OF assms(1,2)] and q = sector_offset [OF assms(1,2)]
  have j: "unat (word_of_nat j :: u32) = j" using assms(3) by (intro unat_of_nat_small) simp
  have "unat (a + word_of_nat j) = unat a + j" using r assms(3) j by (subst unat_plus_noof) simp_all
  then show "is_address_flash p (a + word_of_nat j)" "\<not> is_address_ram p (a + word_of_nat j)"
    using r assms(1,3) by (simp_all add: is_address_ram_def is_address_flash_def rp2040_map_def word_le_nat_alt)
  have "unat (sector_of a + word_of_nat j) = unat (sector_of a) + j" using r q assms(3) j by (subst unat_plus_noof) simp_all
  then show "is_address_flash p (sector_of a + word_of_nat j)"
    using r q assms(1,3) by (simp add: is_address_flash_def rp2040_map_def word_le_nat_alt)
qed

lemma main_flash_block:
  assumes "rp2040_map (plat env)" "main_flash (plat env) (target_addr b)"
  shows "uf2_addr_flash (plat env) b" "\<not> uf2_addr_ram (plat env) b" "target_addr b AND 255 = 0"
  using main_flash_classes [OF assms, of 0] main_flash_classes [OF assms, of 255] assms(2)
  by (simp_all add: uf2_addr_ram_def uf2_addr_flash_def main_flash_def)


text \<open>What the task of a block does to the chip: \<open>x\<close> leaves XIP first, \<open>e\<close> erases the sector.\<close>

definition block_written :: "bool \<Rightarrow> u32 \<Rightarrow> u8 list \<Rightarrow> memory \<Rightarrow> memory" where
  "block_written e a bs m = program_page a bs (if e then erase_sector (sector_of a) m else m)"

lemma exit_xip_step:
  fixes s :: "('d, 'z) async_state_scheme"
  assumes chip: "nor_chip (spi be) content attached ready" "fair (spi be)" "quiet (spi be)" "flash_attached attached (flash s)"
    and rom: "uses_rom_table be s"
  shows "\<exists>h. exit_xip_phase be user t s = Some (None, if task_type t AND AT_EXIT_XIP \<noteq> 0 then gpio_setup (rt be) s\<lparr>flash := h\<rparr> else s) \<and>
     flash_ready ready h \<and> content (chip h) = content (chip (flash s))"
proof -
  obtain h where h: "flash_exit_xip (ssi be) (spi be) (connect_internal_flash (ssi be) (spi be) (flash s)) = Some h" "flash_ready ready h"
    "content (chip h) = content (chip (flash s))" using exit_xip_content [OF chip] by blast
  then show ?thesis
    by (intro exI [of _ h]) (simp add: exit_xip_phase_def via_rom_table [OF rom] do_flash_exit_xip_def check_ret_def
        gpio_setup_def gpio_funcsel_def)
qed

lemma erase_step:
  fixes s :: "('d, 'z) async_state_scheme"
  assumes chip: "nor_chip (spi be) content attached ready" "fair (spi be)" "quiet (spi be)" "flash_ready ready (flash s)"
    and rom: "uses_rom_table be s" and env: "rp2040_map (plat be)"
    and t: "task_type t AND AT_FLASH_ERASE \<noteq> 0" "erase_addr t = sector_of a" "erase_size t = 4096" "main_flash (plat be) a"
  shows "\<exists>h. erase_phase be user t s = Some (None, s\<lparr>flash := h\<rparr>) \<and> flash_ready ready h \<and>
     content (chip h) = erase_sector (sector_of (flash_offset (plat be) a)) (content (chip (flash s)))"
proof -
  let ?b = "sector_of a" and ?o = "sector_of (flash_offset (plat be) a)"
  note q = sector_offset [OF env t(4)] and r = main_flash_range [OF env t(4)]
  have "unat ?o \<le> unat (flash_offset (plat be) a)" by (simp add: unat_sector)
  also have "\<dots> < 0x1000000" using r by simp
  finally have o: "?o < 0x1000000" by (simp add: word_less_nat_alt)
  have al: "?o AND 4095 = 0" "?b AND 4095 = 0" by (simp_all add: and_4095 unat_sector)
  obtain h where h: "flash_sector_erase (spi be) ?o (flash s) = Some h" "flash_ready ready h"
    "content (chip h) = erase_sector ?o (content (chip (flash s)))" using sector_erase_content [OF chip o al(1)] by blast
  have "unat (?b + 4096) = unat ?b + 4096" using q(3) r(3) by (subst unat_plus_noof) simp_all
  then have lt: "?b < ?b + 4096" by (simp add: word_less_nat_alt)
  have ok: "PICOBOOT_OK (plat be) = 0" using env by (simp add: rp2040_map_def)
  have one: "do_flash_erase_sector be ?b s = Some (0, s\<lparr>flash := h\<rparr>)"
    using h(1) q(1) by (simp add: do_flash_erase_sector_def flash_offset_def)
  have "erase_range_loop be user ?b (?b + 4096) 0 s = erase_range_loop be user (?b + 4096) (?b + 4096) 0 (s\<lparr>flash := h\<rparr>)"
    by (subst erase_range_loop.simps) (simp add: lt via_rom_table [OF rom] one)
  also have "\<dots> = Some (0, s\<lparr>flash := h\<rparr>)" by (subst erase_range_loop.simps) simp
  finally have "do_flash_erase_range be user ?b 4096 s = Some (0, s\<lparr>flash := h\<rparr>)" by (simp add: do_flash_erase_range_def ok)
  moreover have "is_address_flash (plat be) ?b" "is_address_flash (plat be) (?b + 4096)"
    using main_flash_classes(3) [OF env t(4), of 0] main_flash_classes(3) [OF env t(4), of 4096] by simp_all
  ultimately show ?thesis
    using t(1-3) al(2) h by (intro exI [of _ h]) (simp add: erase_phase_def via_rom_table [OF rom] check_ret_def)
qed

lemma program_step:
  fixes s :: "('d, 'z) async_state_scheme"
  assumes chip: "nor_chip (spi be) content attached ready" "fair (spi be)" "quiet (spi be)" "flash_ready ready (flash s)"
    and rom: "uses_rom_table be s" and env: "rp2040_map (plat be)"
    and t: "task_type t AND AT_WRITE \<noteq> 0" "task_type t AND AT_READ = 0" "task_type t AND AT_ENTER_CMD_XIP = 0"
      "data_length t = 256" "main_flash (plat be) (transfer_addr t)"
  shows "\<exists>h. transfer_phase be user t s = Some (None, s\<lparr>flash := h\<rparr>) \<and> flash_ready ready h \<and>
     content (chip h) = program_page (flash_offset (plat be) (transfer_addr t)) (mem_read (mem s) (task_data t) 256) (content (chip (flash s)))"
proof -
  let ?a = "transfer_addr t" and ?bs = "mem_read (mem s) (task_data t) 256"
  let ?o = "flash_offset (plat be) ?a"
  note r = main_flash_range [OF env t(5)]
  have "XIP_MAIN_BASE (plat be) = 0x10000000" using env by (simp add: rp2040_map_def)
  have o: "?o < 0x1000000" using t(5) by (simp add: main_flash_def)
  have "unat ?a - 0x10000000 = unat ?a - 256 * 0x100000" by simp
  then have "(unat ?a - 0x10000000) mod 256 = 0" using r(2,4) by presburger
  then have al: "?o AND 255 = 0" by (simp add: and_255 r(1))
  have len: "length ?bs = 256" by simp
  obtain h where h: "flash_page_program (spi be) ?o ?bs (flash s) = Some h" "flash_ready ready h"
    "content (chip h) = program_page ?o ?bs (content (chip (flash s)))" using page_program_content [OF chip o al len] by blast
  have one: "do_flash_page_program be ?a (task_data t) s = Some (0, s\<lparr>flash := h\<rparr>)"
    using h(1) by (simp add: do_flash_page_program_def flash_offset_def)
  have "is_address_flash (plat be) ?a" "is_address_flash (plat be) (?a + 256)" "\<not> is_address_ram (plat be) ?a"
    using main_flash_classes [OF env t(5), of 0] main_flash_classes [OF env t(5), of 256] by simp_all
  moreover have "?a AND 255 = 0" using t(5) by (simp add: main_flash_def)
  ultimately have acc: "access_check be t = Inr False" using t(1,4) by (simp add: access_check_def Let_def)
  have wr: "write_phase be user False t s = Some (None, s\<lparr>flash := h\<rparr>)"
    using t(1) by (simp add: write_phase_def via_rom_table [OF rom] one check_ret_def)
  have skip: "read_phase be user False t k = Some (None, k)" "enter_xip_phase be user t k = Some (None, k)" for k :: "('d, 'z) async_state_scheme"
    using t(2,3) by (simp_all add: read_phase_def enter_xip_phase_def)
  have "task_type t AND (AT_WRITE OR AT_READ) \<noteq> 0" using t(1) and_zero_sub [of "task_type t" "AT_WRITE OR AT_READ" AT_WRITE] by auto
  then have "transfer_phase be user t s = Some (None, s\<lparr>flash := h\<rparr>)"
    by (simp add: transfer_phase_def acc wr skip)
  then show ?thesis using h by blast
qed

lemma block_type_bits [simp]:
  "block_type x e AND AT_WRITE \<noteq> 0" "block_type x e AND AT_READ = 0" "block_type x e AND AT_ENTER_CMD_XIP = 0"
  "block_type x e AND AT_EXIT_XIP \<noteq> 0 \<longleftrightarrow> x" "block_type x e AND AT_FLASH_ERASE \<noteq> 0 \<longleftrightarrow> e"
  "block_type x e AND AT_VECTORIZE_FLASH = 0" "block_type x e AND AT_EXCLUSIVE = 0" "block_type x e AND AT_EXEC = 0"
  by (cases x; cases e; simp add: block_type_def)+

lemma execute_flash_block:
  fixes s :: "('d, 'z) async_state_scheme"
  assumes chip: "nor_chip (spi be) content attached ready" "fair (spi be)" "quiet (spi be)"
      "if x then flash_attached attached (flash s) else flash_ready ready (flash s)"
    and rom: "uses_rom_table be s" and env: "rp2040_map (plat be)" and s: "\<not> watchdog_rebooting s"
    and t: "task_type t = block_type x e" "data_length t = 256" "main_flash (plat be) (transfer_addr t)"
      "\<not> check_last_mutation_source t" "e \<longrightarrow> erase_addr t = sector_of (transfer_addr t) \<and> erase_size t = 4096"
  shows "\<exists>h. execute_task_body be user eject t s =
       Some (0, (if x then gpio_setup (rt be) s else s)\<lparr>last_mutation_source := task_source t, flash := h\<rparr>) \<and> flash_ready ready h \<and>
     content (chip h) = block_written e (flash_offset (plat be) (transfer_addr t)) (mem_read (mem s) (task_data t) 256) (content (chip (flash s)))"
proof -
  let ?a = "transfer_addr t" and ?o = "flash_offset (plat be) (transfer_addr t)" and ?m = "content (chip (flash s))"
  have ok: "PICOBOOT_OK (plat be) = 0" using env by (simp add: rp2040_map_def)
  obtain s1 where s1: "exit_xip_phase be user t s = Some (None, s1)" "flash_ready ready (flash s1)" "content (chip (flash s1)) = ?m"
    "s1 = (if x then gpio_setup (rt be) s\<lparr>flash := flash s1\<rparr> else s)"
  proof (cases x)
    case True
    then show thesis using exit_xip_step [where t = t and user = user, OF chip(1-3) _ rom] chip(4) t(1) that by auto
  next
    case False
    then show thesis using chip(4) t(1) that [of s] by (simp add: exit_xip_phase_def)
  qed
  define s2 where "s2 = s1\<lparr>last_mutation_source := task_source t\<rparr>"
  have mut: "mutation_phase be t s1 = Some (None, s2)"
    using t(1,4) and_zero_sub [of "task_type t" "AT_WRITE OR AT_FLASH_ERASE" AT_WRITE] by (auto simp: mutation_phase_def s2_def)
  have mem1: "mem s1 = mem s" "flash_funcs s1 = flash_funcs s" by (subst s1(4), simp)+
  have s2: "flash s2 = flash s1" "uses_rom_table be s2" "mem s2 = mem s" using rom by (simp_all add: s2_def uses_rom_table_def mem1)
  obtain h3 where h3: "erase_phase be user t s2 = Some (None, s2\<lparr>flash := h3\<rparr>)" "flash_ready ready h3"
    "content (chip h3) = (if e then erase_sector (sector_of ?o) ?m else ?m)"
  proof (cases e)
    case True
    then show thesis
      using erase_step [where t = t and user = user, OF chip(1-3) _ s2(2) env _ _ _ t(3)] s1(2,3) s2(1) t(1,5) that by auto
  next
    case False
    then show thesis using that [of "flash s2"] s1(2,3) t(1) by (simp add: erase_phase_def s2(1))
  qed
  have rom3: "uses_rom_table be (s2\<lparr>flash := h3\<rparr>)" using s2(2) by (simp add: uses_rom_table_def)
  obtain h where h: "transfer_phase be user t (s2\<lparr>flash := h3\<rparr>) = Some (None, s2\<lparr>flash := h\<rparr>)" "flash_ready ready h"
    "content (chip h) = program_page ?o (mem_read (mem s) (task_data t) 256) (content (chip h3))"
    using program_step [where t = t and user = user, OF chip(1-3) _ rom3 env _ _ _ t(2,3)] h3(2) t(1) by (auto simp: s2(3))
  have skip: "vectorize_phase be t k = Some (None, k)" "exclusive_phase be eject t k = Some (None, k)" "exec_phase user t k = Some (None, k)"
    for k :: "('d, 'z) async_state_scheme"
    using t(1) by (simp_all add: vectorize_phase_def exclusive_phase_def exec_phase_def)
  have "execute_task_body be user eject t s = Some (0, s2\<lparr>flash := h\<rparr>)"
    using s by (simp add: execute_task_body_def skip s1(1) mut h3(1) h(1) ok)
  moreover have "s2\<lparr>flash := h\<rparr> = (if x then gpio_setup (rt be) s else s)\<lparr>last_mutation_source := task_source t, flash := h\<rparr>"
    unfolding s2_def by (subst s1(4)) simp
  ultimately show ?thesis using h(2,3) h3(3) by (intro exI [of _ h]) (simp add: block_written_def)
qed


subsection \<open>The bitmaps of a flash download\<close>

abbreviation flash_bitmaps :: "('d, 'e) vd_env_scheme \<Rightarrow> u32 set" where
  "flash_bitmaps env \<equiv> block (FLASH_VALID_BLOCKS_BASE (plat env)) 16384"

text \<open>The bit of a block in the bitmap of erased sectors: sixteen blocks in a row share it, wherever they go.\<close>

definition uf2_page :: "u32 \<Rightarrow> u32" where
  "uf2_page n = n * 256 div FLASH_SECTOR_ERASE_SIZE"

lemma unat_uf2_page:
  assumes "n < 0x10000"
  shows "unat (uf2_page n) = unat n div 16" "unat (uf2_page n) < 4096"
proof -
  have n: "unat n < 0x10000" using assms by (simp add: word_less_nat_alt)
  then have "unat (n * 256) = unat n * 256" by (simp add: unat_word_ariths)
  then show p: "unat (uf2_page n) = unat n div 16" by (simp add: uf2_page_def unat_div_distrib)
  show "unat (uf2_page n) < 4096" unfolding p using n by (intro less_mult_imp_div_less) simp
qed

lemma bitset_test_lower_base:
  assumes "unat base + 4 * (unat k div 32) + 4 \<le> unat base'" "unat base' + 4 * (unat n div 32) + 4 \<le> 2 ^ 32"
  shows "bitset_test (bitset_set m base k) base' n = bitset_test m base' n"
proof -
  obtain a b where ab: "unat k div 32 = a" "unat n div 32 = b" by blast
  let ?x = "bit_word_addr base' n" and ?y = "bit_word_addr base k"
  note le = assms [unfolded ab]
  have x: "unat ?x = unat base' + 4 * b"
    unfolding bit_word_addr_def using le unat_bit_word(1) [of n] ab by (subst unat_plus_noof) simp_all
  have y: "unat ?y = unat base + 4 * a"
    unfolding bit_word_addr_def using le unat_bit_word(1) [of k] ab by (subst unat_plus_noof) simp_all
  have "unat (?x - ?y) = unat ?x - unat ?y" using unat_sub_if' [of ?x ?y] x y le by simp
  then have "4 \<le> unat (?x - ?y)" "unat (?x - ?y) + 4 \<le> 2 ^ 32" using x y le by linarith+
  then show ?thesis by (simp add: bitset_test_bit bitset_set_def Let_def rd32_wr32_other)
qed

text \<open>Where the bits are.\<close>

lemma bit_word_inside_region:
  assumes "unat a + 4 * (unat n div 32) + 4 \<le> k" "j < 4" "k \<le> 2 ^ 32"
  shows "bit_word_addr (base + a) n + word_of_nat j \<in> block base k"
proof -
  obtain w where w: "unat n div 32 = w" by blast
  have "(word_of_nat (unat a + 4 * w) :: u32) = word_of_nat (unat a) + word_of_nat (unat (4 * (n div 32) :: u32))"
    unfolding unat_bit_word(1) w by (rule of_nat_add)
  then have e: "word_of_nat (unat a + 4 * w) = a + 4 * (n div 32)" by (simp del: of_nat_add)
  have "bit_word_addr (base + a) n + word_of_nat j = base + word_of_nat (unat a + 4 * w + j)"
    unfolding of_nat_add [of "unat a + 4 * w"] e bit_word_addr_def by (simp add: add.assoc)
  then show ?thesis using in_block [of "unat a + 4 * w + j" k base] assms w by (simp add: add.assoc)
qed

lemma flash_bits:
  assumes "rp2040_map p" "j < 4"
  shows "n < 123360 \<Longrightarrow> bit_word_addr (FLASH_VALID_BLOCKS_BASE p) n + word_of_nat j \<in> block (FLASH_VALID_BLOCKS_BASE p) 16384"
    "unat q < 4096 \<Longrightarrow> bit_word_addr (FLASH_CLEARED_PAGES_BASE p) q + word_of_nat j \<in> block (FLASH_VALID_BLOCKS_BASE p) 16384"
proof -
  note b = flash_bitmap_sizes [OF assms(1)]
  show "bit_word_addr (FLASH_VALID_BLOCKS_BASE p) n + word_of_nat j \<in> block (FLASH_VALID_BLOCKS_BASE p) 16384" if "n < 123360"
  proof -
    have "unat n < 123360" using that by (simp add: word_less_nat_alt)
    then have "unat n div 32 < 3855" by (intro less_mult_imp_div_less) simp
    then show ?thesis using bit_word_inside_region [of 0 n 16384 j "FLASH_VALID_BLOCKS_BASE p"] assms(2) by simp
  qed
  show "bit_word_addr (FLASH_CLEARED_PAGES_BASE p) q + word_of_nat j \<in> block (FLASH_VALID_BLOCKS_BASE p) 16384" if "unat q < 4096"
  proof -
    have "unat q div 32 < 128" using that by (intro less_mult_imp_div_less) simp
    then show ?thesis using bit_word_inside_region [of "0x3c3c" q 16384 j "FLASH_VALID_BLOCKS_BASE p"] assms(2) by (simp add: b)
  qed
qed

lemma bitset_test_same:
  assumes "same_outside A m m'" "\<And>j. j < 4 \<Longrightarrow> bit_word_addr base n + word_of_nat j \<notin> A"
  shows "bitset_test m' base n = bitset_test m base n"
proof -
  have "mem_read m' (bit_word_addr base n) 4 = mem_read m (bit_word_addr base n) 4"
    by (rule mem_read_outside [OF assms(1)]) (rule assms(2))
  then show ?thesis unfolding bitset_test_def using rd32_cong by metis
qed

lemma bitset_set_outside_region:
  assumes "\<And>j. j < 4 \<Longrightarrow> bit_word_addr base n + word_of_nat j \<in> A"
  shows "same_outside A m (bitset_set m base n)"
  unfolding bitset_set_def Let_def wr32_def
  using assms by (intro same_outside_write [OF same_outside_refl]) (simp_all add: le32_def)


text \<open>The state of a flash download: what has been received, and which sectors count as erased.\<close>

definition flash_known :: "('d, 'e) vd_env_scheme \<Rightarrow> u32 set \<Rightarrow> ('d, 'z) vd_state_scheme \<Rightarrow> bool" where
  "flash_known env got s \<longleftrightarrow>
     uf2_inv env s \<and> \<not> uf2_ram (the_uf2_info s) \<and> num_blocks (the_uf2_info s) \<le> 0x10000 \<and> received s = got \<and>
     (\<forall>n < num_blocks (the_uf2_info s).
        bitset_test (mem s) (cleared_pages (the_uf2_info s)) (uf2_page n) \<longleftrightarrow> uf2_page n \<in> uf2_page ` got)"

lemma flash_known_bases:
  assumes "flash_known env got s" "num_blocks (the_uf2_info s) \<noteq> 0"
  shows "valid_blocks (the_uf2_info s) = FLASH_VALID_BLOCKS_BASE (plat env)"
    "cleared_pages (the_uf2_info s) = FLASH_CLEARED_PAGES_BASE (plat env)"
  using assms by (simp_all add: flash_known_def uf2_inv_def Let_def)

lemma flash_known_same:
  assumes "flash_known env got s" "the_uf2_info s' = the_uf2_info s" "same_outside A (mem s) (mem s')"
    "A \<inter> flash_bitmaps env = {}" "rp2040_map (plat env)"
  shows "flash_known env got s'"
proof -
  let ?u = "the_uf2_info s"
  have le: "num_blocks ?u \<le> 0x10000" using assms(1) by (simp add: flash_known_def)
  have bits: "bitset_test (mem s') (valid_blocks ?u) n = bitset_test (mem s) (valid_blocks ?u) n"
    "bitset_test (mem s') (cleared_pages ?u) (uf2_page n) = bitset_test (mem s) (cleared_pages ?u) (uf2_page n)"
    if "n < num_blocks ?u" for n
  proof -
    have n: "n < 0x10000" using that le by simp
    have "num_blocks ?u \<noteq> 0" using that by auto
    note b = flash_known_bases [OF assms(1) this]
    have "n < 123360" by (rule order_less_trans [OF n]) simp
    then show "bitset_test (mem s') (valid_blocks ?u) n = bitset_test (mem s) (valid_blocks ?u) n"
      unfolding b using flash_bits(1) [OF assms(5)] assms(4) by (intro bitset_test_same [OF assms(3)]) blast
    show "bitset_test (mem s') (cleared_pages ?u) (uf2_page n) = bitset_test (mem s) (cleared_pages ?u) (uf2_page n)"
      unfolding b using flash_bits(2) [OF assms(5)] unat_uf2_page(2) [OF n] assms(4) by (intro bitset_test_same [OF assms(3)]) blast
  qed
  have "received s' = received s" using bits(1) by (auto simp: received_def assms(2))
  then show ?thesis using assms(1) bits(2) uf2_inv_same [OF assms(2), of env] by (simp add: flash_known_def assms(2))
qed

text \<open>Renewing the download clears both bitmaps.\<close>

lemma flash_download_renewed:
  assumes "rp2040_map (plat env)" "uf2_num_blocks b \<le> 0x10000"
  shows "\<exists>M U. start_uf2_transfer env False True b s = (True, s\<lparr>mem := M, the_uf2_info := U\<rparr>) \<and>
     num_blocks U = uf2_num_blocks b \<and> same_outside (flash_bitmaps env) (mem s) M \<and>
     flash_known env {} (s\<lparr>mem := M, the_uf2_info := U\<rparr>)"
proof -
  note z = flash_bitmap_sizes [OF assms(1)]
  let ?M = "clear_bitset (FLASH_CLEARED_PAGES_BASE (plat env)) (FLASH_MAX_CLEARED_PAGES (plat env))
      (clear_bitset (FLASH_VALID_BLOCKS_BASE (plat env)) (FLASH_MAX_VALID_BLOCKS (plat env)) (mem s))"
  let ?U = "zero_uf2_info\<lparr>valid_blocks := FLASH_VALID_BLOCKS_BASE (plat env), max_valid_blocks := FLASH_MAX_VALID_BLOCKS (plat env),
      cleared_pages := FLASH_CLEARED_PAGES_BASE (plat env), max_cleared_pages := FLASH_MAX_CLEARED_PAGES (plat env),
      num_blocks := uf2_num_blocks b, lowest_addr := 0xffffffff\<rparr>"
  have "uf2_num_blocks b \<le> 123360" by (rule order_trans [OF assms(2)]) simp
  then have fits: "\<not> FLASH_MAX_VALID_BLOCKS (plat env) < uf2_num_blocks b" by (simp add: z not_less)
  have start: "start_uf2_transfer env False True b s = (True, s\<lparr>mem := ?M, the_uf2_info := ?U\<rparr>)"
    using fits by (simp add: start_uf2_transfer_def Let_def zero_uf2_info_def)
  have out: "same_outside (flash_bitmaps env) (mem s) ?M"
  proof -
    have r1: "same_outside (flash_bitmaps env) m (clear_bitset (FLASH_VALID_BLOCKS_BASE (plat env)) 123360 m)" for m
      unfolding clear_bitset_def by (intro same_outside_write [OF same_outside_refl]) (simp_all add: in_block)
    have r2: "same_outside (flash_bitmaps env) m (clear_bitset (FLASH_CLEARED_PAGES_BASE (plat env)) 7710 m)" for m
      unfolding clear_bitset_def
    proof (intro same_outside_write [OF same_outside_refl])
      fix j assume "j < length (replicate (unat (7710 :: u32) div 8) (0 :: u8))"
      then show "FLASH_CLEARED_PAGES_BASE (plat env) + word_of_nat j \<in> flash_bitmaps env"
        using in_block_offset [of "0x3c3c" j 16384 "FLASH_VALID_BLOCKS_BASE (plat env)"] by (simp add: z)
    qed simp
    show ?thesis unfolding z(2,4) by (rule same_outside_trans [OF r1 r2])
  qed
  let ?s = "s\<lparr>mem := ?M, the_uf2_info := ?U\<rparr>"
  have inv: "uf2_inv env ?s" "received ?s = {}"
    using start_uf2_transfer_inv [OF start assms(1)] by simp_all
  have "\<not> bitset_test ?M (FLASH_CLEARED_PAGES_BASE (plat env)) (uf2_page n)" if "n < uf2_num_blocks b" for n
  proof (rule bitset_test_zero)
    fix j :: nat assume j: "j < 4"
    have "n < 0x10000" using that assms(2) by simp
    then have q: "unat (uf2_page n) < 4096" by (rule unat_uf2_page)
    let ?base = "FLASH_CLEARED_PAGES_BASE (plat env)"
    have "clear_bitset ?base 4096 (\<lambda>_. 1) (bit_word_addr ?base (uf2_page n) + word_of_nat j) = 0"
      using q j by (intro clear_bitset_zero) simp_all
    then have "unat (bit_word_addr ?base (uf2_page n) + word_of_nat j - ?base) < 512"
      by (simp add: clear_bitset_def mem_write_zeros split: if_splits)
    then show "?M (bit_word_addr ?base (uf2_page n) + word_of_nat j) = 0"
      by (simp add: z(4) clear_bitset_def [of _ 7710] mem_write_zeros)
  qed
  then have "flash_known env {} ?s" using inv assms(2) by (simp add: flash_known_def zero_uf2_info_def)
  then show ?thesis using start out by (intro exI [of _ ?M] exI [of _ ?U]) simp
qed


subsection \<open>A block for flash is queued\<close>

definition flash_task :: "('d, 'e) vd_env_scheme \<Rightarrow> u32 \<Rightarrow> uf2_block \<Rightarrow> u32 \<Rightarrow> bool \<Rightarrow> bool \<Rightarrow> async_task" where
  "flash_task env buf b token x e = (block_task env buf b token)
     \<lparr>task_type := block_type x e, erase_addr := (if e then sector_of (target_addr b) else 0), erase_size := (if e then 4096 else 0)\<rparr>"

text \<open>The state in which a block has been queued; \<open>x\<close> when it is the first of the download, \<open>e\<close> when it erases.\<close>

definition flash_queued :: "('d, 'e) vd_env_scheme \<Rightarrow> u32 \<Rightarrow> u32 \<Rightarrow> uf2_block \<Rightarrow> bool \<Rightarrow> bool \<Rightarrow>
    ('d, 'z) vd_state_scheme \<Rightarrow> ('d, 'z) vd_state_scheme \<Rightarrow> bool" where
  "flash_queued env token buf b x e s s1 \<longleftrightarrow>
     (\<exists>M U. s1 = s\<lparr>mem := M, the_uf2_info := U, virtual_disk_queue := (virtual_disk_queue s)
         \<lparr>queued_task := flash_task env buf b token x e, full := True\<rparr>\<rparr> \<and>
       same_outside (flash_bitmaps env) (mem s) M \<and> num_blocks U = uf2_num_blocks b \<and> uf2_token U = token)"

lemma write_uf2_page_flash:
  assumes "\<not> uf2_ram (the_uf2_info s)" "callback (next_task (the_uf2_info s)) = Write_uf2_page_complete"
    "\<not> bitset_test (mem s) (valid_blocks (the_uf2_info s)) (block_no (the_uf2_info s))"
    and "e = (\<not> bitset_test (mem s) (cleared_pages (the_uf2_info s)) (uf2_page (block_no (the_uf2_info s))))"
    and "T = (next_task (the_uf2_info s))\<lparr>erase_addr := (if e then sector_of (transfer_addr (next_task (the_uf2_info s)))
           else erase_addr (next_task (the_uf2_info s))),
         erase_size := (if e then 4096 else erase_size (next_task (the_uf2_info s))),
         task_type := task_type (next_task (the_uf2_info s)) OR (if e then AT_FLASH_ERASE else 0)\<rparr>"
  shows "\<exists>U. write_uf2_page env s =
      (True, s\<lparr>the_uf2_info := U,
         mem := bitset_set (if e then bitset_set (mem s) (cleared_pages (the_uf2_info s)) (uf2_page (block_no (the_uf2_info s))) else mem s)
           (valid_blocks (the_uf2_info s)) (block_no (the_uf2_info s)),
         virtual_disk_queue := (virtual_disk_queue s)\<lparr>queued_task := T, full := True\<rparr>\<rparr>) \<and>
     num_blocks U = num_blocks (the_uf2_info s) \<and> uf2_token U = uf2_token (the_uf2_info s) \<and> \<not> uf2_ram U \<and>
     valid_blocks U = valid_blocks (the_uf2_info s) \<and> cleared_pages U = cleared_pages (the_uf2_info s)"
proof -
  have T: "T\<lparr>callback := Write_uf2_page_complete\<rparr> = T" using assms(2) by (simp add: assms(5))
  let ?k = "s\<lparr>the_uf2_info := (the_uf2_info s)\<lparr>lowest_addr := update_lowest (plat env) (transfer_addr (next_task (the_uf2_info s)))
      (lowest_addr (the_uf2_info s))\<rparr>\<rparr>"
  have next_T: "next_task (the_uf2_info (erase_on_first_write ?k)) = T"
    by (cases e) (use assms(4) in \<open>simp_all add: erase_on_first_write_def Let_def assms(5) uf2_page_def sector_of_def\<close>)
  have er: "erase_on_first_write ?k = ?k\<lparr>mem := (if e then bitset_set (mem s) (cleared_pages (the_uf2_info s)) (uf2_page (block_no (the_uf2_info s))) else mem s),
      the_uf2_info := (the_uf2_info ?k)\<lparr>next_task := T\<rparr>\<rparr>"
    using assms(4) next_T by (cases e) (simp_all add: erase_on_first_write_def Let_def uf2_page_def)
  show ?thesis
    using assms(1,3) T
    by (intro exI [of _ "(the_uf2_info ?k)\<lparr>valid_block_count := valid_block_count (the_uf2_info s) + 1,
          next_task := T\<lparr>check_last_mutation_source := True\<rparr>\<rparr>"], cases e)
      (simp_all add: write_uf2_page_def Let_def er queue_task_def set_queue_def get_queue_def)
qed


lemma flash_bits_set:
  assumes "rp2040_map (plat env)" "n < 0x10000" "k < 0x10000"
  defines "v \<equiv> FLASH_VALID_BLOCKS_BASE (plat env)" and "c \<equiv> FLASH_CLEARED_PAGES_BASE (plat env)"
  shows "bitset_test (bitset_set m v n) c (uf2_page k) = bitset_test m c (uf2_page k)"
    "bitset_test (bitset_set m c (uf2_page k)) v n = bitset_test m v n"
    "same_outside (flash_bitmaps env) m (bitset_set m v n)" "same_outside (flash_bitmaps env) m (bitset_set m c (uf2_page k))"
proof -
  note b = flash_bitmap_sizes [OF assms(1)]
  have n: "unat n < 0x10000" using assms(2) by (simp add: word_less_nat_alt)
  then have d: "unat n div 32 < 2048" by (intro less_mult_imp_div_less) simp
  have q: "unat (uf2_page k) < 4096" by (rule unat_uf2_page [OF assms(3)])
  then have "unat (uf2_page k) div 32 < 128" by (intro less_mult_imp_div_less) simp
  then show "bitset_test (bitset_set m v n) c (uf2_page k) = bitset_test m c (uf2_page k)"
    "bitset_test (bitset_set m c (uf2_page k)) v n = bitset_test m v n"
    using d by (simp_all add: v_def c_def b bitset_test_lower_base bitset_test_other_base)
  have "n < 123360" by (rule order_less_trans [OF assms(2)]) simp
  then show "same_outside (flash_bitmaps env) m (bitset_set m v n)"
    unfolding v_def by (intro bitset_set_outside_region flash_bits(1) [OF assms(1)])
  show "same_outside (flash_bitmaps env) m (bitset_set m c (uf2_page k))"
    unfolding c_def using q by (intro bitset_set_outside_region flash_bits(2) [OF assms(1)])
qed

lemma flash_block_queued:
  assumes b: "uf2_accepted (plat env) (uf2_block_at (plat env) (mem s) buf)" "b = uf2_block_at (plat env) (mem s) buf"
      "main_flash (plat env) (target_addr b)" "uf2_block_no b < uf2_num_blocks b" "uf2_num_blocks b \<le> 0x10000"
    and env: "rp2040_map (plat env)" and s: "\<not> disable (virtual_disk_queue s)"
    and known: "if num_blocks (the_uf2_info s) = uf2_num_blocks b then flash_known env got s else got = {}"
    and new: "uf2_block_no b \<notin> got"
  shows "\<exists>s1. vd_write_block env token lba buf s = (True, s1) \<and>
     flash_queued env token buf b (num_blocks (the_uf2_info s) \<noteq> uf2_num_blocks b) (uf2_page (uf2_block_no b) \<notin> uf2_page ` got) s s1 \<and>
     flash_known env (insert (uf2_block_no b) got) s1"
proof -
  let ?renew = "num_blocks (the_uf2_info s) \<noteq> uf2_num_blocks b" and ?n = "uf2_block_no b"
  let ?e = "uf2_page ?n \<notin> uf2_page ` got"
  note cls = main_flash_block [OF env b(3)]
  have nz: "uf2_num_blocks b \<noteq> 0" using b(4) by auto
  have n: "?n < 0x10000" using b(4,5) by simp
  obtain M U where j: "(if ?renew then start_uf2_transfer env False True b s else (True, s)) = (True, s\<lparr>mem := M, the_uf2_info := U\<rparr>)"
    "num_blocks U = uf2_num_blocks b" "same_outside (flash_bitmaps env) (mem s) M" "flash_known env got (s\<lparr>mem := M, the_uf2_info := U\<rparr>)"
  proof (cases ?renew)
    case True
    then show thesis using flash_download_renewed [OF env b(5), of s] known that by auto
  next
    case False
    have "s = s\<lparr>mem := mem s, the_uf2_info := the_uf2_info s\<rparr>" by simp
    then show thesis using False known that [of "the_uf2_info s" "mem s"] by (simp add: same_outside_refl)
  qed
  let ?j = "s\<lparr>mem := M, the_uf2_info := U\<rparr>"
  define V where "V = prepare_next_task env buf b (block_type ?renew False) token U"
  define k where "k = s\<lparr>mem := M, the_uf2_info := V\<rparr>"
  have ram: "\<not> uf2_ram U" using j(4) by (simp add: flash_known_def)
  have ty: "(if ?renew then AT_WRITE OR AT_EXIT_XIP else AT_WRITE) = block_type ?renew False" by (simp add: block_type_def)
  have upd: "update_current_uf2_info env buf b token s = (True, k)"
    using j(1,2) cls nz s b(4) ram ty by (simp add: update_current_uf2_info_def Let_def k_def V_def)
  have V: "num_blocks V = uf2_num_blocks b" "uf2_token V = token" "valid_blocks V = valid_blocks U" "cleared_pages V = cleared_pages U"
    "uf2_ram V = uf2_ram U" "block_no V = ?n" "next_task V = flash_task env buf b token ?renew False"
    using j(2) by (simp_all add: V_def prepare_next_task_def flash_task_def reset_task_def block_task_def zero_task_def)
  have "received k = received ?j" "uf2_inv env k = uf2_inv env ?j"
    by (simp_all add: uf2_inv_def received_def k_def V_def prepare_next_task_def Let_def)
  then have kk: "flash_known env got k" using j(4) by (simp add: flash_known_def k_def V_def prepare_next_task_def)
  have "num_blocks (the_uf2_info k) \<noteq> 0" using V nz by (simp add: k_def)
  note base = flash_known_bases [OF kk this]
  have bit: "\<not> bitset_test M (valid_blocks V) ?n" "bitset_test M (cleared_pages V) (uf2_page ?n) = (\<not> ?e)"
    using kk new b(4) by (auto simp: flash_known_def received_def k_def V)
  let ?T = "flash_task env buf b token ?renew ?e"
  have T: "?T = (next_task V)\<lparr>erase_addr := (if ?e then sector_of (transfer_addr (next_task V)) else erase_addr (next_task V)),
         erase_size := (if ?e then 4096 else erase_size (next_task V)),
         task_type := task_type (next_task V) OR (if ?e then AT_FLASH_ERASE else 0)\<rparr>"
    by (simp add: V flash_task_def block_task_def block_type_def)
  have kp: "mem k = M" "the_uf2_info k = V" "virtual_disk_queue k = virtual_disk_queue s" by (simp_all add: k_def)
  have "\<not> uf2_ram V" "callback (next_task V) = Write_uf2_page_complete" "?e = (\<not> bitset_test M (cleared_pages V) (uf2_page ?n))"
    using ram bit by (simp_all add: V flash_task_def block_task_def)
  from write_uf2_page_flash [of k ?e ?T env, unfolded kp V(6), OF this(1,2) bit(1) this(3) T] obtain W where
    w: "write_uf2_page env k = (True, k\<lparr>the_uf2_info := W,
         mem := bitset_set (if ?e then bitset_set M (cleared_pages V) (uf2_page ?n) else M) (valid_blocks V) ?n,
         virtual_disk_queue := (virtual_disk_queue s)\<lparr>queued_task := ?T, full := True\<rparr>\<rparr>)"
      "num_blocks W = num_blocks V" "uf2_token W = token" "\<not> uf2_ram W" "valid_blocks W = valid_blocks V" "cleared_pages W = cleared_pages V"
    unfolding V(2) by blast
  let ?M = "bitset_set (if ?e then bitset_set M (cleared_pages V) (uf2_page ?n) else M) (valid_blocks V) ?n"
  let ?s1 = "s\<lparr>mem := ?M, the_uf2_info := W, virtual_disk_queue := (virtual_disk_queue s)\<lparr>queued_task := ?T, full := True\<rparr>\<rparr>"
  have w1: "write_uf2_page env k = (True, ?s1)" using w(1) by (simp add: k_def)
  have run: "vd_write_block env token lba buf s = (True, ?s1)"
    using upd b(1,2) w1 by (simp add: vd_write_block_def Let_def)
  have base': "valid_blocks V = FLASH_VALID_BLOCKS_BASE (plat env)" "cleared_pages V = FLASH_CLEARED_PAGES_BASE (plat env)"
    using base by (simp_all add: k_def)
  note set = flash_bits_set [OF env]
  have "same_outside (flash_bitmaps env) M ?M"
    using set(3,4) [OF n n] same_outside_trans by (simp add: base') blast
  then have out: "same_outside (flash_bitmaps env) (mem s) ?M" by (rule same_outside_trans [OF j(3)])
  have queued: "flash_queued env token buf b ?renew ?e s ?s1"
    unfolding flash_queued_def using out w V by (intro exI [of _ ?M] exI [of _ W]) simp
  have pages: "bitset_test ?M (cleared_pages W) (uf2_page m) \<longleftrightarrow> uf2_page m \<in> uf2_page ` insert ?n got" if "m < uf2_num_blocks b" for m
  proof -
    have m: "m < 0x10000" using that b(5) by simp
    have old: "bitset_test M (cleared_pages V) (uf2_page m) \<longleftrightarrow> uf2_page m \<in> uf2_page ` got"
      using kk that by (simp add: flash_known_def k_def V)
    have "bitset_test ?M (cleared_pages W) (uf2_page m) =
        bitset_test (if ?e then bitset_set M (cleared_pages V) (uf2_page ?n) else M) (cleared_pages V) (uf2_page m)"
      using set(1) [OF n m] by (simp add: w(6) base')
    also have "\<dots> \<longleftrightarrow> uf2_page m \<in> uf2_page ` insert ?n got" using old by (cases ?e) (auto simp: bitset_test_set)
    finally show ?thesis .
  qed
  have "block_no (the_uf2_info k) < num_blocks (the_uf2_info k)" using b(4) by (simp add: k_def V)
  moreover have "received k = got" "uf2_inv env k" using kk by (simp_all add: flash_known_def)
  ultimately have "uf2_inv env ?s1" "received ?s1 = insert ?n got"
    using write_uf2_page_new [OF w1 _ env] write_uf2_page_inv [OF w1 _ env] by (simp_all add: k_def V)
  then have "flash_known env (insert ?n got) ?s1"
    using pages w(2,4) b(5) by (simp add: flash_known_def V)
  then show ?thesis using run queued by blast
qed


subsection \<open>The worker writes a block\<close>

text \<open>What a turn of the worker with the task of a block keeps: all but the flash, the pins and its own state.\<close>

definition worker_kept :: "('d, 'z) picoboot_state_scheme \<Rightarrow> ('d, 'z) picoboot_state_scheme \<Rightarrow> bool" where
  "worker_kept s s' \<longleftrightarrow> usb_same s s' \<and> mem s' = mem s \<and> the_uf2_info s' = the_uf2_info s \<and> csw s' = csw s \<and>
     stall_direction_before_csw s' = stall_direction_before_csw s \<and> msc_async_token s' = msc_async_token s \<and>
     flash_funcs s' = flash_funcs s \<and> watchdog_rebooting s' = watchdog_rebooting s \<and>
     virtual_disk_queue s' = (virtual_disk_queue s)\<lparr>full := False\<rparr>"

lemma gpio_setup_worker:
  fixes s :: "('d, 'z) picoboot_state_scheme" and c
  defines "s' \<equiv> gpio_setup c s"
  shows "endpoints s' = endpoints s" "transfers s' = transfers s" "streams s' = streams s" "endpoint_table s' = endpoint_table s"
    "mem s' = mem s" "the_uf2_info s' = the_uf2_info s" "csw s' = csw s" "stall_direction_before_csw s' = stall_direction_before_csw s"
    "msc_async_token s' = msc_async_token s" "flash_funcs s' = flash_funcs s" "rebooting s' = rebooting s"
    "virtual_disk_queue s' = virtual_disk_queue s"
  by (simp_all add: s'_def gpio_setup_def gpio_funcsel_def)

lemma worker_round_flash:
  fixes s :: "('d, 'z) picoboot_state_scheme"
  assumes chip: "nor_chip (spi env) content attached ready" "fair (spi env)" "quiet (spi env)"
      "if x then flash_attached attached (flash s) else flash_ready ready (flash s)"
    and rom: "uses_rom_table (boot_env.truncate env) s"
    and env: "rp2040_map (plat env)" "main_flash (plat env) (target_addr b)"
    and s: "full (virtual_disk_queue s)" "\<not> disable (virtual_disk_queue s)" "\<not> watchdog_rebooting s"
      "queued_task (virtual_disk_queue s) = flash_task env buf b token x e"
  shows "\<exists>s'. worker_round (boot_env.truncate env) user eject (task_callbacks cb env) s =
       map_option (Pair True) (write_uf2_page_complete env (vd_async_complete cb (stream_calls env) (usbc env)) (flash_task env buf b token x e) s') \<and>
     worker_kept s s' \<and> flash_ready ready (flash s') \<and>
     content (chip (flash s')) = block_written e (flash_offset (plat env) (target_addr b))
       (mem_read (mem s) (buf + offsetof_uf2_data (plat env)) 256) (content (chip (flash s)))"
proof -
  let ?be = "boot_env.truncate env"
  define t where "t = flash_task env buf b token x e"
  define s1 where "s1 = s\<lparr>virtual_disk_queue := (virtual_disk_queue s)\<lparr>full := False\<rparr>, worker_task := t\<rparr>"
  have be: "plat ?be = plat env" "spi ?be = spi env" "rt ?be = rt env" by (simp_all add: boot_env.truncate_def)
  have tp: "transfer_addr t = target_addr b" "task_type t = block_type x e" "data_length t = 256" "\<not> check_last_mutation_source t"
    "task_data t = buf + offsetof_uf2_data (plat env)" "e \<longrightarrow> erase_addr t = sector_of (transfer_addr t) \<and> erase_size t = 4096"
    "callback t = Write_uf2_page_complete" "t\<lparr>task_result := 0\<rparr> = t"
    by (simp_all add: t_def flash_task_def block_task_def zero_task_def)
  have s1: "flash s1 = flash s" "mem s1 = mem s" "\<not> watchdog_rebooting s1" "uses_rom_table ?be s1" "\<not> disable (virtual_disk_queue s1)"
    using s rom by (simp_all add: s1_def watchdog_rebooting_def uses_rom_table_def)
  have deq: "dequeue_task Virtual_Disk_Queue s = (Some t, s\<lparr>virtual_disk_queue := (virtual_disk_queue s)\<lparr>full := False\<rparr>\<rparr>)"
    using s(1,4) by (simp add: dequeue_task_def get_queue_def set_queue_def t_def)
  have env': "rp2040_map (plat ?be)" "main_flash (plat ?be) (transfer_addr t)" using env by (simp_all add: be tp)
  note chip' = chip [folded be(2) s1(1)]
  from execute_flash_block [OF chip' s1(4) env'(1) s1(3) tp(2,3) env'(2) tp(4,6), of user eject] obtain h where
    h: "execute_task_body ?be user eject t s1 =
       Some (0, (if x then gpio_setup (rt ?be) s1 else s1)\<lparr>last_mutation_source := task_source t, flash := h\<rparr>)" "flash_ready ready h"
     "content (chip h) = block_written e (flash_offset (plat env) (target_addr b)) (mem_read (mem s) (task_data t) 256) (content (chip (flash s)))"
    unfolding be tp(1) s1(1,2) by blast
  let ?s2 = "(if x then gpio_setup (rt ?be) s1 else s1)\<lparr>last_mutation_source := task_source t, flash := h, worker_task := t\<rparr>"
  have "execute_task ?be user eject (task_callbacks cb env) Virtual_Disk_Queue t s1 =
      task_callbacks cb env (t\<lparr>task_result := 0\<rparr>)
        ((if x then gpio_setup (rt ?be) s1 else s1)\<lparr>last_mutation_source := task_source t, flash := h, worker_task := t\<lparr>task_result := 0\<rparr>\<rparr>)"
    using s1(5) h(1) by (simp add: execute_task_def get_queue_def Let_def)
  then have "execute_task ?be user eject (task_callbacks cb env) Virtual_Disk_Queue t s1 = task_callbacks cb env t ?s2"
    unfolding tp(8) .
  then have "worker_round ?be user eject (task_callbacks cb env) s =
       map_option (Pair True) (write_uf2_page_complete env (vd_async_complete cb (stream_calls env) (usbc env)) t ?s2)"
    by (simp add: worker_round_def deq s1_def [symmetric] task_callbacks_def tp(7))
  moreover have "worker_kept s ?s2"
    by (simp add: worker_kept_def usb_same_def watchdog_rebooting_def gpio_setup_worker)
      (simp add: s1_def)
  moreover have "flash ?s2 = h" by simp
  ultimately show ?thesis using h(2,3) by (intro exI [of _ ?s2]) (simp add: t_def [symmetric] tp(5))
qed


subsection \<open>One sector of a flash download\<close>

text \<open>The table of flash functions, in RAM or in the ROM.\<close>

abbreviation table_memory :: "('d, 'z) async_state_scheme \<Rightarrow> u32 set" where
  "table_memory s \<equiv> block (flash_funcs s) 28"

text \<open>The buffers, the bitmaps in the XIP RAM and the table are apart.\<close>

definition flash_memory :: "('d, 'e) msc_env_scheme \<Rightarrow> ('d, 'z) msc_state_scheme \<Rightarrow> bool" where
  "flash_memory env s \<longleftrightarrow> write_memory env s \<inter> flash_bitmaps env = {} \<and>
     table_memory s \<inter> (write_memory env s \<union> flash_bitmaps env) = {}"

lemma rom_table_same:
  assumes "uses_rom_table be s" "flash_funcs s' = flash_funcs s" "same_outside A (mem s) (mem s')" "table_memory s \<inter> A = {}"
  shows "uses_rom_table be s'"
proof -
  have "mem_read (mem s') (flash_funcs s + 4 * word_of_nat n) 4 = mem_read (mem s) (flash_funcs s + 4 * word_of_nat n) 4"
    if "n \<in> {1..6}" for n
  proof (rule mem_read_outside [OF assms(3)])
    fix j :: nat assume j: "j < 4"
    have "unat (word_of_nat n :: u32) = n" using that by (intro unat_of_nat_small) simp
    then have "unat (4 * word_of_nat n :: u32) = 4 * n" using that by (simp add: unat_word_ariths)
    then show "flash_funcs s + 4 * word_of_nat n + word_of_nat j \<notin> A"
      using in_block_offset [of "4 * word_of_nat n" j 28 "flash_funcs s"] that j assms(4) by auto
  qed
  then have "rd32 (mem s') (flash_funcs s + 4 * word_of_nat n) = rd32 (mem s) (flash_funcs s + 4 * word_of_nat n)" if "n \<in> {1..6}" for n
    using rd32_cong that by blast
  then show ?thesis using assms(1) by (simp add: uses_rom_table_def assms(2))
qed

text \<open>
  The state of a flash download between two sectors: the blocks received so far. Before the first block another download, or
  none, may be known, and the chip may be in a read mode.
\<close>

definition flash_state where
  "flash_state env attached ready N got s \<longleftrightarrow>
     \<not> disable (virtual_disk_queue s) \<and> \<not> watchdog_rebooting s \<and> uses_rom_table (boot_env.truncate env) s \<and>
     (if num_blocks (the_uf2_info s) = N then flash_known env got s \<and> flash_ready ready (flash s)
      else got = {} \<and> flash_attached attached (flash s))"

text \<open>After a block: the chip waits for commands, and the last block has made the watchdog start the flash.\<close>

definition flash_done where
  "flash_done env ready N got s \<longleftrightarrow>
     \<not> disable (virtual_disk_queue s) \<and> uses_rom_table (boot_env.truncate env) s \<and>
     flash_known env got s \<and> num_blocks (the_uf2_info s) = N \<and> flash_ready ready (flash s) \<and>
     (if got = {n. n < N} then watchdog_rebooting s \<and> boot_vector s = None else \<not> watchdog_rebooting s)"

lemma flash_sector_written:
  fixes s :: "('d, 'z) picoboot_state_scheme"
  assumes stream: "stream_waits Msc_Out Msc_Sector_Transfer n i (n - i) s" "sector_stream env s" "i mod 8 = 0" "n mod 8 = 0" "i < n"
    and pks: "sector_packets (usbc env) pks" "uf2_sector env (sector_data pks) b"
    and b: "main_flash (plat env) (target_addr b)" "uf2_block_no b < uf2_num_blocks b" "uf2_num_blocks b \<le> 0x10000"
    and env: "rp2040_map (plat env)" "clock_ends (rt env)" "unat (offsetof_uf2_data (plat env)) + 256 \<le> 512"
    and chip: "nor_chip (spi env) content attached ready" "fair (spi env)" "quiet (spi env)"
    and d: "flash_state env attached ready (uf2_num_blocks b) got s" "uf2_block_no b \<notin> got" "flash_memory env s"
  defines "e \<equiv> uf2_page (uf2_block_no b) \<notin> uf2_page ` got"
  shows "\<exists>y s2. write_sector env user (Suc (Suc k)) pks s = Some s2 \<and> sector_taken env n (i + 8) y s2 \<and>
     csw y = (packet_counted Msc_Sector_Funcs ^^ 7) (csw s) \<and> endpoints y Msc_In = endpoints s Msc_In \<and>
     endpoint_table y = endpoint_table s \<and> take_addr (usbc env) (endpoints y Msc_Out) = take_addr (usbc env) (endpoints s Msc_Out) \<and>
     flash_funcs y = flash_funcs s \<and> same_outside (write_memory env s \<union> flash_bitmaps env) (mem s) (mem y) \<and>
     content (chip (flash y)) = block_written e (flash_offset (plat env) (target_addr b)) (block_data env (sector_data pks)) (content (chip (flash s))) \<and>
     flash_done env ready (uf2_num_blocks b) (insert (uf2_block_no b) got) y"
proof -
  let ?N = "uf2_num_blocks b" and ?buf = "sector_buf env" and ?tok = "msc_async_token s + 1" and ?n = "uf2_block_no b"
  let ?be = "boot_env.truncate env" and ?cb = "callbacks env (Suc (Suc k))" and ?W = "write_memory env s" and ?a = "target_addr b"
  let ?m = "content (chip (flash s))"
  have N: "?N \<noteq> 0" using b(2) by auto
  obtain x :: "('d, 'z) picoboot_state_scheme" where
    x: "mem_read (mem x) ?buf 512 = sector_data pks" "same_outside ?W (mem s) (mem x)" "disk_part x = disk_part s"
     and given: "\<And>M U Q. vd_write_block env ?tok (msc_sector_lba s) ?buf x =
         (True, x\<lparr>mem := M, the_uf2_info := U, virtual_disk_queue := Q\<rparr>) \<Longrightarrow>
       \<exists>z. sector_waiting env (Suc (Suc k)) pks n i s M U Q z"
    using sector_given [OF stream pks(1), of k] by blast
  note eq = disk_part_eq [OF x(3)]
  let ?x = "num_blocks (the_uf2_info x) \<noteq> ?N"
  have blk: "uf2_accepted (plat env) (uf2_block_at (plat env) (mem x) ?buf)" "b = uf2_block_at (plat env) (mem x) ?buf"
    using pks(2) x(1) by (simp_all add: uf2_sector_def)
  have apart: "?W \<inter> flash_bitmaps env = {}" using d(3) by (simp add: flash_memory_def)
  have idle: "\<not> disable (virtual_disk_queue x)" using d(1) by (simp add: flash_state_def eq)
  have known: "if num_blocks (the_uf2_info x) = ?N then flash_known env got x else got = {}"
    using d(1) flash_known_same [OF _ _ x(2) apart env(1), of got] by (simp add: flash_state_def eq split: if_splits)
  from flash_block_queued [OF blk b env(1) idle known d(2), of ?tok "msc_sector_lba s"] obtain x1 where
    x1: "vd_write_block env ?tok (msc_sector_lba s) ?buf x = (True, x1)" "flash_queued env ?tok ?buf b ?x e x x1"
      "flash_known env (insert ?n got) x1" unfolding e_def by blast
  define t where "t = flash_task env ?buf b ?tok ?x e"
  obtain M U where
    u: "x1 = x\<lparr>mem := M, the_uf2_info := U, virtual_disk_queue := (virtual_disk_queue x)\<lparr>queued_task := t, full := True\<rparr>\<rparr>"
      "same_outside (flash_bitmaps env) (mem x) M" "num_blocks U = ?N" "uf2_token U = ?tok"
    using x1(2) unfolding flash_queued_def t_def by blast
  from given [OF x1(1) [unfolded u(1)]] obtain z where
    z: "receive_packets ?cb (usbc env) Msc_Out pks s = Some z"
      "stream_packet Msc_Out Msc_Sector_Transfer n (i + 7) (n - (i + 8)) z" "sector_stream env z"
      "csw z = (packet_counted Msc_Sector_Funcs ^^ 7) (csw s)" "endpoints z Msc_In = endpoints s Msc_In"
      "endpoint_table z = endpoint_table s" "take_addr (usbc env) (endpoints z Msc_Out) = take_addr (usbc env) (endpoints s Msc_Out)"
      "msc_async_token z = ?tok" "mem z = M" "the_uf2_info z = U"
      "virtual_disk_queue z = (virtual_disk_queue x)\<lparr>queued_task := t, full := True\<rparr>"
      "watchdog_rebooting z = watchdog_rebooting s" "flash z = flash s" "flash_funcs z = flash_funcs s"
    unfolding sector_waiting_def by blast
  have out: "same_outside (?W \<union> flash_bitmaps env) (mem s) M"
    by (rule same_outside_trans [OF same_outside_mono [OF x(2)] same_outside_mono [OF u(2)]]) auto
  have zk: "flash_known env (insert ?n got) z"
    by (rule flash_known_same [OF x1(3) _ _ _ env(1), of _ "{}"]) (simp_all add: z u(1) same_outside_refl)
  have s_rom: "uses_rom_table ?be s" using d(1) by (simp add: flash_state_def)
  have rom: "uses_rom_table ?be z"
    by (rule rom_table_same [OF s_rom z(14), of "?W \<union> flash_bitmaps env"]) (use out d(3) z in \<open>auto simp: flash_memory_def\<close>)
  have "if ?x then flash_attached attached (flash z) else flash_ready ready (flash z)"
    using d(1) by (simp add: flash_state_def z(13) eq split: if_splits)
  from worker_round_flash [where e = e and buf = ?buf and token = ?tok and user = user and eject = msc_eject and cb = ?cb,
      OF chip this rom env(1) b(1)] idle d(1)
  obtain y0 where
    work: "worker_round ?be user msc_eject (task_callbacks ?cb env) z =
       map_option (Pair True) (write_uf2_page_complete env (vd_async_complete ?cb (stream_calls env) (usbc env)) t y0)"
    and y0: "worker_kept z y0" "flash_ready ready (flash y0)"
     "content (chip (flash y0)) = block_written e (flash_offset (plat env) ?a) (mem_read M (?buf + offsetof_uf2_data (plat env)) 256) ?m"
    by (auto simp: z flash_state_def t_def)
  have yk: "usb_same z y0" "mem y0 = M" "the_uf2_info y0 = U" "csw y0 = csw z"
     "stall_direction_before_csw y0 = stall_direction_before_csw z" "msc_async_token y0 = ?tok" "flash_funcs y0 = flash_funcs s"
     "watchdog_rebooting y0 = watchdog_rebooting s" "virtual_disk_queue y0 = (virtual_disk_queue z)\<lparr>full := False\<rparr>"
    using y0(1) by (simp_all add: worker_kept_def z)
  have y0k: "flash_known env (insert ?n got) y0"
    by (rule flash_known_same [OF zk _ _ _ env(1), of _ "{}"]) (simp_all add: yk z same_outside_refl)
  then have ki: "uf2_inv env y0" "\<not> uf2_ram U" "received y0 = insert ?n got" by (simp_all add: flash_known_def yk)
  have "num_blocks (the_uf2_info y0) \<noteq> 0" "task_token t = uf2_token (the_uf2_info y0)" "task_result t = 0" "task_token t = msc_async_token y0"
    using N u by (simp_all add: yk t_def flash_task_def block_task_def zero_task_def)
  from block_completed [OF ki(1) this env(2), of ?cb "stream_calls env" "usbc env"] obtain y where
    y: "write_uf2_page_complete env (vd_async_complete ?cb (stream_calls env) (usbc env)) t y0 =
        usb_stream_chunk_done ?cb (stream_calls env) (usbc env) Msc_Sector_Transfer y"
     "rebooted_if_complete env y0 y" "usb_same y0 y" "mem y = mem y0" "the_uf2_info y = the_uf2_info y0"
     "virtual_disk_queue y = virtual_disk_queue y0" "csw y = csw y0" "stall_direction_before_csw y = stall_direction_before_csw y0"
     "flash y = flash y0" "flash_funcs y = flash_funcs y0" by blast
  note same = usb_same_trans [OF yk(1) y(3)]
  have "stall_direction_before_csw y = stall_direction_before_csw z" by (simp add: y yk)
  from sector_finished [OF stream(3-5) z(1-3) work [unfolded y(1)] same this] obtain s2 where
    run: "write_sector env user (Suc (Suc k)) pks s = Some s2" "sector_taken env n (i + 8) y s2" by blast
  have yd: "flash_known env (insert ?n got) y"
    by (rule flash_known_same [OF y0k y(5) _ _ env(1), of "{}"]) (simp_all add: y same_outside_refl)
  have "?buf + word_of_nat j \<in> ?W" if "j < 512" for j using that in_block [of j 512 ?buf] by (simp add: write_memory_def)
  then have "mem_read M ?buf 512 = mem_read (mem x) ?buf 512" using apart by (intro mem_read_outside [OF u(2)]) auto
  moreover have "offsetof_uf2_data (plat env) = word_of_nat (unat (offsetof_uf2_data (plat env)))" by simp
  ultimately have bs: "mem_read M (?buf + offsetof_uf2_data (plat env)) 256 = block_data env (sector_data pks)"
    using mem_read_part [OF env(3), of M ?buf] by (simp add: block_data_def x(1))
  have yrom: "uses_rom_table ?be y" using rom by (simp add: uses_rom_table_def y(4,10) yk(2,7) z(9,14))
  have "flash_done env ready ?N (insert ?n got) y"
  proof (cases "insert ?n got = {n. n < ?N}")
    case True
    then show ?thesis using y(2) yd yrom y0(2) idle u(3) ki(2,3)
      by (simp add: flash_done_def rebooted_if_complete_def y(5,6,9) yk(3,9) z(11))
  next
    case False
    then have "y = y0" using y(2) u(3) ki(3) by (simp add: rebooted_if_complete_def yk(3))
    then show ?thesis using False yd yrom y0(2) idle u(3) d(1) by (simp add: flash_done_def flash_state_def yk(3,8,9) z(11))
  qed
  then show ?thesis
    using run same z(4-7) y0(3) out
    by (intro exI [of _ y] exI [of _ s2]) (simp add: yk y bs usb_same_def del: callbacks.simps funpow.simps)
qed


subsection \<open>All sectors of a flash download\<close>

text \<open>A UF2 file for the flash: whole pages, one for every block number, in any order.\<close>

definition flash_image :: "platform \<Rightarrow> u32 \<Rightarrow> uf2_block list \<Rightarrow> bool" where
  "flash_image p N bs \<longleftrightarrow> distinct (map uf2_block_no bs) \<and>
     (\<forall>b \<in> set bs. uf2_num_blocks b = N \<and> uf2_block_no b < N \<and> main_flash p (target_addr b))"

text \<open>
  What blocks with their data leave in the chip, after the block numbers \<open>got\<close>: a block is written after its sector is erased
  if it is the first of its sixteen block numbers, and over what is there otherwise.
\<close>

fun flash_after :: "platform \<Rightarrow> u32 set \<Rightarrow> (uf2_block \<times> u8 list) list \<Rightarrow> memory \<Rightarrow> memory" where
  "flash_after p got [] m = m"
| "flash_after p got ((b, bs) # r) m = flash_after p (insert (uf2_block_no b) got) r
     (block_written (uf2_page (uf2_block_no b) \<notin> uf2_page ` got) (flash_offset p (target_addr b)) bs m)"

definition sector_blocks :: "('d, 'e) vd_env_scheme \<Rightarrow> usb_packet list list \<Rightarrow> uf2_block list \<Rightarrow> (uf2_block \<times> u8 list) list" where
  "sector_blocks env css bs = zip bs (map (\<lambda>pks. block_data env (sector_data pks)) css)"

lemma flash_done_later:
  assumes "flash_done env ready N got y" "disk_part s = disk_part y" "same_outside A (mem y) (mem s)" "A \<inter> flash_bitmaps env = {}"
    "table_memory y \<inter> A = {}" "rp2040_map (plat env)"
  shows "flash_done env ready N got s"
proof -
  note eq = disk_part_eq [OF assms(2)]
  have "flash_known env got s" using assms(1) flash_known_same [OF _ eq(1) assms(3,4,6)] by (simp add: flash_done_def)
  moreover have "uses_rom_table (boot_env.truncate env) s"
    using assms(1) rom_table_same [OF _ eq(5) assms(3,5)] by (simp add: flash_done_def)
  moreover have "boot_vector s = boot_vector y" "watchdog_rebooting s = watchdog_rebooting y"
    by (simp_all add: eq boot_vector_def watchdog_rebooting_def)
  ultimately show ?thesis using assms(1) by (simp add: flash_done_def eq)
qed

lemma flash_next: "flash_done env ready N got y \<Longrightarrow> got \<noteq> {n. n < N} \<Longrightarrow> flash_state env attached ready N got y"
  by (simp add: flash_done_def flash_state_def)

lemma flash_sectors_written:
  fixes s :: "('d, 'z) picoboot_state_scheme"
  assumes "stream_waits Msc_Out Msc_Sector_Transfer n i (n - i) s" "sector_stream env s" "i mod 8 = 0" "n = i + 8 * length css" "css \<noteq> []"
    and "block_sectors env css bs" "flash_image (plat env) N bs" "N \<le> 0x10000" "\<forall>b \<in> set bs. uf2_block_no b \<notin> got"
    and "flash_state env attached ready N got s" "flash_memory env s"
    and env: "rp2040_map (plat env)" "clock_ends (rt env)" "unat (offsetof_uf2_data (plat env)) + 256 \<le> 512"
    and chip: "nor_chip (spi env) content attached ready" "fair (spi env)" "quiet (spi env)"
  shows "\<exists>s'. write_sectors env user (Suc (Suc k)) css s = Some s' \<and>
     status_sent env (endpoints s Msc_In) ((packet_counted Msc_Sector_Funcs ^^ (8 * length css)) (csw s)) s' \<and>
     write_over env s s' \<and> same_outside (write_memory env s \<union> flash_bitmaps env) (mem s) (mem s') \<and>
     content (chip (flash s')) = flash_after (plat env) got (sector_blocks env css bs) (content (chip (flash s))) \<and>
     flash_done env ready N (got \<union> uf2_block_no ` set bs) s'"
  using assms(1-11)
proof (induction css arbitrary: i s bs got)
  case (Cons pks css)
  obtain b bs' where bs: "bs = b # bs'" "sector_packets (usbc env) pks" "uf2_sector env (sector_data pks) b" "block_sectors env css bs'"
    using Cons.prems(6) unfolding block_sectors_def by (auto simp: list_all2_Cons1)
  have img: "uf2_num_blocks b = N" "uf2_block_no b < N" "main_flash (plat env) (target_addr b)" "flash_image (plat env) N bs'"
    "uf2_block_no b \<notin> uf2_block_no ` set bs'"
    using Cons.prems(7) by (simp_all add: bs(1) flash_image_def)
  have n: "n mod 8 = 0" using Cons.prems(3,4) by presburger
  have i: "i < n" using Cons.prems(4) by simp
  let ?w = "\<lambda>j. (packet_counted Msc_Sector_Funcs ^^ j)" and ?W = "write_memory env s" and ?got = "insert (uf2_block_no b) got"
  let ?m1 = "block_written (uf2_page (uf2_block_no b) \<notin> uf2_page ` got) (flash_offset (plat env) (target_addr b))
      (block_data env (sector_data pks)) (content (chip (flash s)))"
  have "uf2_block_no b \<notin> got" using Cons.prems(9) by (simp add: bs(1))
  from flash_sector_written [OF Cons.prems(1-3) n i bs(2,3) img(3), unfolded img(1), OF img(2) Cons.prems(8) env chip
      Cons.prems(10) this Cons.prems(11), of user k] obtain y s1 where
    y: "write_sector env user (Suc (Suc k)) pks s = Some s1" "sector_taken env n (i + 8) y s1" "csw y = ?w 7 (csw s)"
      "endpoints y Msc_In = endpoints s Msc_In" "endpoint_table y = endpoint_table s"
      "take_addr (usbc env) (endpoints y Msc_Out) = take_addr (usbc env) (endpoints s Msc_Out)" "flash_funcs y = flash_funcs s"
      "same_outside (?W \<union> flash_bitmaps env) (mem s) (mem y)" "content (chip (flash y)) = ?m1" "flash_done env ready N ?got y"
    by blast
  have wm: "write_memory env y = ?W" by (simp add: write_memory_def y(4,6))
  have w8: "packet_counted Msc_Sector_Funcs (csw y) = ?w 8 (csw s)" by (simp add: y(3) eval_nat_numeral)
  have apart: "?W \<inter> flash_bitmaps env = {}" "table_memory y \<inter> ?W = {}"
    using Cons.prems(11) by (simp_all add: flash_memory_def y(7) Int_Un_distrib)
  show ?case
  proof (cases "css = []")
    case True
    then have "\<not> i + 8 < n" using Cons.prems(4) by simp
    note o = sector_taken_over [OF y(2) this]
    have bs': "bs' = []" using bs(4) True by (simp add: block_sectors_def)
    have "flash_done env ready N ?got s1" by (rule flash_done_later [OF y(10) o(3) o(4) [unfolded wm] apart env(1)])
    moreover have "same_outside (?W \<union> flash_bitmaps env) (mem s) (mem s1)"
      by (rule same_outside_trans [OF y(8) same_outside_mono [OF o(4) [unfolded wm]]]) auto
    moreover have "flash s1 = flash y" by (rule disk_part_eq [OF o(3)])
    ultimately show ?thesis
      using y(1,4,9) o(1) write_over_from [OF o(2) y(5,6)]
      by (intro exI [of _ s1]) (simp add: True bs(1) bs' w8 sector_blocks_def del: callbacks.simps funpow.simps)
  next
    case False
    then have "i + 8 < n" using Cons.prems(4) by (cases css) simp_all
    note t = sector_taken_waits [OF y(2) this]
    have i8: "(i + 8) mod 8 = 0" "n = i + 8 + 8 * length css" using Cons.prems(3,4) by simp_all
    have fd: "flash_done env ready N ?got s1"
      by (rule flash_done_later [OF y(10) t(4) _ _ _ env(1), of "{}"]) (simp_all add: t(3) same_outside_refl)
    obtain c where c: "c \<in> set bs'" using bs(4) False by (cases bs') (auto simp: block_sectors_def)
    have later: "\<forall>c \<in> set bs'. uf2_block_no c \<notin> ?got"
      using img(5) Cons.prems(9) by (auto simp: bs(1)) (metis imageI)
    have "uf2_block_no c < N" using img(4) c by (simp add: flash_image_def)
    moreover have "uf2_block_no c \<notin> ?got" using later c by blast
    ultimately have "?got \<noteq> {n. n < N}" by blast
    then have ds: "flash_state env attached ready N ?got s1" by (rule flash_next [OF fd])
    have fs: "flash s1 = flash y" "flash_funcs s1 = flash_funcs s" using disk_part_eq [OF t(4)] y(7) by simp_all
    have dm: "flash_memory env s1" using Cons.prems(11) by (simp add: flash_memory_def t(9) wm fs(2))
    from Cons.IH [OF t(1,2) i8 False bs(4) img(4) Cons.prems(8) later ds dm] obtain s' where
      s': "write_sectors env user (Suc (Suc k)) css s1 = Some s'"
        "status_sent env (endpoints s Msc_In) (?w (8 * length css) (csw s1)) s'" "write_over env s1 s'"
        "same_outside (?W \<union> flash_bitmaps env) (mem s1) (mem s')"
        "content (chip (flash s')) = flash_after (plat env) ?got (sector_blocks env css bs') (content (chip (flash s1)))"
        "flash_done env ready N (?got \<union> uf2_block_no ` set bs') s'"
      by (auto simp: t(6,9) y(4) wm simp del: callbacks.simps)
    have "?w (8 * length css) (csw s1) = ?w (8 * length (pks # css)) (csw s)"
      by (simp add: t(5) w8 funpow_add [symmetric, THEN fun_cong, simplified] add.commute del: funpow.simps)
    moreover have "same_outside (?W \<union> flash_bitmaps env) (mem s) (mem s')"
      by (rule same_outside_trans [OF y(8) s'(4) [unfolded t(3)]])
    ultimately show ?thesis
      using s'(1,2,5,6) y(1,9) write_over_from [OF s'(3), of s] t(7,8) y(5,6)
      by (intro exI [of _ s']) (simp add: bs(1) fs sector_blocks_def del: callbacks.simps funpow.simps)
  qed
qed simp

end
