(* ===== verification/Flash_Image.thy ===== *)
theory Flash_Image
  imports Flash_Download
begin

section \<open>The image of a flash download\<close>

text \<open>
  What a whole UF2 file leaves in the cells of the chip: every page of a file whose groups of sixteen blocks are its sectors,
  and the pages that are lost where they are not.
\<close>

subsection \<open>What a whole file leaves in the chip\<close>

lemma aligned_cells:
  fixes a x :: u32
  assumes "unat a mod k = 0" "0 < k" "unat a + k \<le> 2 ^ 32"
  shows "unat (x - a) < k \<longleftrightarrow> unat x div k = unat a div k"
proof -
  have a: "unat a = k * (unat a div k)" using assms(1) by auto
  show ?thesis
  proof (cases "a \<le> x")
    case True
    then have le: "unat a \<le> unat x" "unat (x - a) = unat x - unat a" by (simp_all add: word_le_nat_alt unat_sub_if')
    have "unat x div k = (unat x - unat a) div k + unat a div k"
    proof -
      have "unat x = (unat x - unat a) + k * (unat a div k)" using le(1) a by simp
      then show ?thesis using assms(2) by (metis add.commute div_mult_self2 not_less_zero)
    qed
    then show ?thesis using assms(2) by (simp add: le(2) div_eq_0_iff)
  next
    case False
    then have lt: "unat x < unat a" "unat (x - a) = 2 ^ 32 + unat x - unat a" by (simp_all add: word_le_nat_alt not_le unat_sub_if')
    have "unat x < unat a div k * k" using lt(1) a by (simp add: mult.commute)
    then have "unat x div k < unat a div k" by (rule less_mult_imp_div_less)
    then show ?thesis using lt(2) assms(3) by simp
  qed
qed

text \<open>The page and the sector of a cell.\<close>

abbreviation page_of :: "u32 \<Rightarrow> nat" where
  "page_of x \<equiv> unat x div 256"

abbreviation sector_no :: "u32 \<Rightarrow> nat" where
  "sector_no x \<equiv> unat x div 4096"

lemma page_sector: "page_of x = page_of y \<Longrightarrow> sector_no x = sector_no y"
  using div_mult2_eq [of "unat x" 256 16] div_mult2_eq [of "unat y" 256 16] by simp

lemma written_cells:
  assumes "unat a mod 256 = 0" "unat a < 0x1000000" "length bs = 256"
  shows "block_written e a bs m x =
    (let old = (if e \<and> sector_no x = sector_no a then 0xff else m x) in if page_of x = page_of a then old AND bs ! unat (x - a) else old)"
proof -
  have "unat (sector_of a) mod 4096 = 0" "unat (sector_of a) + 4096 \<le> 2 ^ 32" "unat (sector_of a) div 4096 = sector_no a"
    using assms(2) by (simp_all add: unat_sector)
  then have s: "unat (x - sector_of a) < 4096 \<longleftrightarrow> sector_no x = sector_no a" using aligned_cells [of "sector_of a" 4096 x] by simp
  have p: "unat (x - a) < 256 \<longleftrightarrow> page_of x = page_of a" using aligned_cells [of a 256 x] assms(1,2) by simp
  show ?thesis by (simp add: block_written_def program_page_def erase_sector_def s p assms(3) Let_def)
qed

text \<open>
  In a file whose groups of sixteen block numbers are its sectors, every block has its data, the rest of its sectors is erased,
  and no other cell is touched.
\<close>

definition flash_aligned :: "platform \<Rightarrow> uf2_block list \<Rightarrow> bool" where
  "flash_aligned p bs \<longleftrightarrow> distinct (map (\<lambda>b. page_of (flash_offset p (target_addr b))) bs) \<and>
     (\<forall>b \<in> set bs. \<forall>c \<in> set bs. uf2_page (uf2_block_no b) = uf2_page (uf2_block_no c) \<longleftrightarrow>
        sector_no (flash_offset p (target_addr b)) = sector_no (flash_offset p (target_addr c)))"

definition flash_loaded :: "platform \<Rightarrow> (uf2_block \<times> u8 list) list \<Rightarrow> memory \<Rightarrow> memory \<Rightarrow> bool" where
  "flash_loaded p L m m' \<longleftrightarrow>
     (let off = (\<lambda>b. flash_offset p (target_addr b)); bs = fst ` set L
      in (\<forall>(b, d) \<in> set L. mem_read m' (off b) 256 = d) \<and>
         (\<forall>x. (\<exists>b \<in> bs. sector_no x = sector_no (off b)) \<and> (\<forall>b \<in> bs. page_of x \<noteq> page_of (off b)) \<longrightarrow> m' x = 0xff) \<and>
         (\<forall>x. (\<forall>b \<in> bs. sector_no x \<noteq> sector_no (off b)) \<longrightarrow> m' x = m x))"

lemma all_firsts: "(\<forall>(b, d) \<in> S. Q b) \<longleftrightarrow> (\<forall>b \<in> fst ` S. Q b)"
  by force

lemma some_first: "(\<exists>(b, d) \<in> S. Q b) \<longleftrightarrow> (\<exists>b \<in> fst ` S. Q b)"
  by force

lemma flash_after_cells:
  assumes "\<forall>(b, d) \<in> set L. unat (flash_offset p (target_addr b)) mod 256 = 0 \<and> unat (flash_offset p (target_addr b)) < 0x1000000 \<and> length d = 256"
    and "flash_aligned p (map fst L)"
    and "\<forall>(b, d) \<in> set L. uf2_page (uf2_block_no b) \<in> uf2_page ` got \<longrightarrow>
       (\<forall>x. page_of x = page_of (flash_offset p (target_addr b)) \<longrightarrow> m x = 0xff)"
  shows "\<forall>(b, d) \<in> set L. \<forall>x. page_of x = page_of (flash_offset p (target_addr b)) \<longrightarrow>
       flash_after p got L m x = d ! unat (x - flash_offset p (target_addr b))"
    "\<forall>x. (\<forall>(b, d) \<in> set L. page_of x \<noteq> page_of (flash_offset p (target_addr b))) \<longrightarrow>
       flash_after p got L m x =
         (if \<exists>(b, d) \<in> set L. sector_no x = sector_no (flash_offset p (target_addr b)) \<and> uf2_page (uf2_block_no b) \<notin> uf2_page ` got
          then 0xff else m x)"
proof -
  let ?o = "\<lambda>b. flash_offset p (target_addr b)"
  let ?P = "\<lambda>b. page_of (?o b)" and ?S = "\<lambda>b. sector_no (?o b)" and ?U = "\<lambda>b. uf2_page (uf2_block_no b)"
  have "(\<forall>(b, d) \<in> set L. \<forall>x. page_of x = ?P b \<longrightarrow> flash_after p got L m x = d ! unat (x - ?o b)) \<and>
    (\<forall>x. (\<forall>(b, d) \<in> set L. page_of x \<noteq> ?P b) \<longrightarrow> flash_after p got L m x =
       (if \<exists>(b, d) \<in> set L. sector_no x = ?S b \<and> ?U b \<notin> uf2_page ` got then 0xff else m x))"
    using assms
  proof (induction L arbitrary: got m)
    case (Cons bd L)
    obtain b d where bd: "bd = (b, d)" by (rule prod.exhaust)
    let ?e = "?U b \<notin> uf2_page ` got" and ?got = "insert (uf2_block_no b) got"
    define m1 where "m1 = block_written ?e (?o b) d m"
    have b: "unat (?o b) mod 256 = 0" "unat (?o b) < 0x1000000" "length d = 256" using Cons.prems(1) by (simp_all add: bd)
    note cell = written_cells [OF b, of ?e m, folded m1_def, unfolded Let_def]
    have ff: "(0xff :: u8) AND v = v" for v
    proof -
      have "(0xff :: u8) = - 1" by simp
      then show ?thesis by (simp only: and.left_neutral)
    qed
    have al: "?P b \<notin> ?P ` fst ` set L" "\<forall>c \<in> fst ` set L. ?U c = ?U b \<longleftrightarrow> ?S c = ?S b"
      using Cons.prems(2) by (simp_all add: bd flash_aligned_def image_image)
    have blocks: "c \<in> fst ` set L" if "(c, dd) \<in> set L" for c dd
      using image_eqI [OF _ that, of c fst] by simp
    have apart: "?P c \<noteq> ?P b" if "(c, dd) \<in> set L" for c dd
    proof
      assume "?P c = ?P b"
      from image_eqI [where f = ?P, OF this [symmetric] blocks [OF that]] show False using al(1) by contradiction
    qed
    have group: "?U c = ?U b \<longleftrightarrow> ?S c = ?S b" if "(c, dd) \<in> set L" for c dd using blocks [OF that] al(2) by blast
    have blank: "m x = 0xff" if "(c, dd) \<in> set L" "?U c \<in> uf2_page ` got" "page_of x = ?P c" for c dd x
      using Cons.prems(3) that by (auto simp: bd)
    have here: "m1 x = d ! unat (x - ?o b)" if x: "page_of x = ?P b" for x
    proof (cases ?e)
      case True
      then show ?thesis using x page_sector [OF x] by (simp add: cell ff)
    next
      case False
      then have "m x = 0xff" using Cons.prems(3) x by (simp add: bd)
      then show ?thesis using x False by (simp add: cell ff)
    qed
    have later: "m1 x = 0xff" if c: "(c, dd) \<in> set L" "?U c \<in> uf2_page ` ?got" "page_of x = ?P c" for c dd x
    proof (cases "?e \<and> ?U c = ?U b")
      case True
      then have "sector_no x = ?S b" using group [OF c(1)] page_sector [OF c(3)] by simp
      then show ?thesis using True c(3) apart [OF c(1)] by (simp add: cell)
    next
      case False
      then have g: "?U c \<in> uf2_page ` got" using c(2) by auto
      have "\<not> (?e \<and> sector_no x = ?S b)" using False group [OF c(1)] page_sector [OF c(3)] by simp
      then show ?thesis using blank [OF c(1) g c(3)] c(3) apart [OF c(1)] by (simp add: cell)
    qed
    have prem: "\<forall>(b, d) \<in> set L. unat (?o b) mod 256 = 0 \<and> unat (?o b) < 0x1000000 \<and> length d = 256" "flash_aligned p (map fst L)"
      "\<forall>(c, dd) \<in> set L. ?U c \<in> uf2_page ` ?got \<longrightarrow> (\<forall>x. page_of x = ?P c \<longrightarrow> m1 x = 0xff)"
      using Cons.prems(1,2) later by (auto simp: flash_aligned_def)
    have after: "flash_after p got (bd # L) m = flash_after p ?got L m1" by (simp add: bd m1_def)
    note IH = Cons.IH [OF prem]
    have IH1: "flash_after p ?got L m1 x = dd ! unat (x - ?o c)" if "(c, dd) \<in> set L" "page_of x = ?P c" for c dd x
      using IH that by blast
    have IH2: "flash_after p ?got L m1 x =
        (if \<exists>(c, dd) \<in> set L. sector_no x = ?S c \<and> ?U c \<notin> uf2_page ` ?got then 0xff else m1 x)"
      if "\<forall>(c, dd) \<in> set L. page_of x \<noteq> ?P c" for x using IH that by blast
    have one: "flash_after p ?got L m1 x = d ! unat (x - ?o b)" if x: "page_of x = ?P b" for x
    proof -
      have "\<forall>(c, dd) \<in> set L. page_of x \<noteq> ?P c" unfolding x using apart by fastforce
      moreover have "\<not> (\<exists>(c, dd) \<in> set L. sector_no x = ?S c \<and> ?U c \<notin> uf2_page ` ?got)"
        using group page_sector [OF x] by auto
      ultimately show ?thesis using IH2 here [OF x] by simp
    qed
    have two: "flash_after p ?got L m1 x =
        (if \<exists>(c, dd) \<in> set (bd # L). sector_no x = ?S c \<and> ?U c \<notin> uf2_page ` got then 0xff else m x)"
      if x: "\<forall>(c, dd) \<in> set (bd # L). page_of x \<noteq> ?P c" for x
    proof -
      have tail: "\<forall>(c, dd) \<in> set L. page_of x \<noteq> ?P c" and nb: "page_of x \<noteq> ?P b" using x by (simp_all add: bd)
      have m1x: "m1 x = (if ?e \<and> sector_no x = ?S b then 0xff else m x)" using nb by (simp add: cell)
      show ?thesis
      proof (cases "\<exists>(c, dd) \<in> set L. sector_no x = ?S c \<and> ?U c \<notin> uf2_page ` ?got")
        case True
        then have "\<exists>(c, dd) \<in> set (bd # L). sector_no x = ?S c \<and> ?U c \<notin> uf2_page ` got" by auto
        then show ?thesis using True IH2 [OF tail] by simp
      next
        case False
        have "(\<exists>(c, dd) \<in> set (bd # L). sector_no x = ?S c \<and> ?U c \<notin> uf2_page ` got) \<longleftrightarrow> ?e \<and> sector_no x = ?S b"
          using False group by (auto simp: bd)
        then show ?thesis using False IH2 [OF tail] m1x by simp
      qed
    qed
    show ?case unfolding after using IH1 one two by (auto simp: bd)
  qed simp
  then show "\<forall>(b, d) \<in> set L. \<forall>x. page_of x = ?P b \<longrightarrow> flash_after p got L m x = d ! unat (x - ?o b)"
    "\<forall>x. (\<forall>(b, d) \<in> set L. page_of x \<noteq> ?P b) \<longrightarrow> flash_after p got L m x =
       (if \<exists>(b, d) \<in> set L. sector_no x = ?S b \<and> ?U b \<notin> uf2_page ` got then 0xff else m x)"
    by blast+
qed

lemma flash_offset_page:
  assumes "rp2040_map p" "main_flash p a"
  shows "unat (flash_offset p a) mod 256 = 0" "unat (flash_offset p a) < 0x1000000"
proof -
  note r = main_flash_range [OF assms]
  have "unat a - 0x10000000 = unat a - 256 * 0x100000" by simp
  then show "unat (flash_offset p a) mod 256 = 0" using r(2,4) unfolding r(1) by presburger
  show "unat (flash_offset p a) < 0x1000000" using r by simp
qed

lemma flash_after_loaded:
  assumes "rp2040_map p" "flash_image p N (map fst L)" "flash_aligned p (map fst L)" "\<forall>d \<in> snd ` set L. length d = 256"
  shows "flash_loaded p L m (flash_after p {} L m)"
proof -
  let ?o = "\<lambda>b. flash_offset p (target_addr b)"
  have o: "\<forall>(b, d) \<in> set L. unat (?o b) mod 256 = 0 \<and> unat (?o b) < 0x1000000 \<and> length d = 256"
    using assms(2,4) flash_offset_page [OF assms(1)] by (fastforce simp: flash_image_def)
  have "\<forall>(b, d) \<in> set L. uf2_page (uf2_block_no b) \<in> uf2_page ` {} \<longrightarrow> (\<forall>x. page_of x = page_of (?o b) \<longrightarrow> m x = 0xff)" by simp
  note cells = flash_after_cells [OF o assms(3) this]
  have "mem_read (flash_after p {} L m) (?o b) 256 = d" if bd: "(b, d) \<in> set L" for b d
  proof (rule nth_equalityI)
    have ob: "unat (?o b) mod 256 = 0" "unat (?o b) < 0x1000000" "length d = 256" using o bd by auto
    then show "length (mem_read (flash_after p {} L m) (?o b) 256) = length d" by simp
    fix j assume "j < length (mem_read (flash_after p {} L m) (?o b) 256)"
    then have j: "j < 256" by simp
    have u: "unat (word_of_nat j :: u32) = j" using j by (intro unat_of_nat_small) simp
    then have "page_of (?o b + word_of_nat j) = page_of (?o b)"
      using aligned_cells [of "?o b" 256 "?o b + word_of_nat j"] ob j by simp
    then have "flash_after p {} L m (?o b + word_of_nat j) = d ! unat (?o b + word_of_nat j - ?o b)" using cells(1) bd by blast
    then show "mem_read (flash_after p {} L m) (?o b) 256 ! j = d ! j" using j u by (simp add: mem_read_conv_map)
  qed
  moreover have "flash_after p {} L m x = 0xff"
    if "\<exists>b \<in> fst ` set L. sector_no x = sector_no (?o b)" "\<forall>b \<in> fst ` set L. page_of x \<noteq> page_of (?o b)" for x
    using cells(2) [unfolded all_firsts some_first] that by simp
  moreover have "flash_after p {} L m x = m x" if ns: "\<forall>b \<in> fst ` set L. sector_no x \<noteq> sector_no (?o b)" for x
  proof -
    have "\<forall>b \<in> fst ` set L. page_of x \<noteq> page_of (?o b)"
    proof (intro ballI notI)
      fix b assume "b \<in> fst ` set L" "page_of x = page_of (?o b)"
      then show False using ns page_sector by blast
    qed
    then show ?thesis using cells(2) [unfolded all_firsts some_first] ns by simp
  qed
  ultimately show ?thesis unfolding flash_loaded_def Let_def by blast
qed


subsection \<open>The whole download\<close>

lemma flash_download_written:
  fixes s :: "('d, 'z) picoboot_state_scheme"
  assumes idle: "msc_idle env s" and pk: "command_packet (usbc env) pk" "write_cbw (received_cbw env pk s) (length css)"
    and image: "block_sectors env css bs" "flash_image (plat env) N bs" "length bs = unat N" "N \<le> 0x10000"
    and s: "num_blocks (the_uf2_info s) \<noteq> N" "\<not> disable (virtual_disk_queue s)" "\<not> watchdog_rebooting s" "flash_memory env s"
      "uses_rom_table (boot_env.truncate env) s"
    and chip: "nor_chip (spi env) content attached ready" "fair (spi env)" "quiet (spi env)" "flash_attached attached (flash s)"
    and env: "rp2040_map (plat env)" "clock_ends (rt env)" "unat (offsetof_uf2_data (plat env)) + 256 \<le> 512"
  shows "\<exists>s1 s'. receive_packet (callbacks env (Suc (Suc k))) (usbc env) Msc_Out pk s = Some s1 \<and>
     write_sectors env user (Suc (Suc k)) css s1 = Some s' \<and>
     content (chip (flash s')) = flash_after (plat env) {} (sector_blocks env css bs) (content (chip (flash s))) \<and>
     flash_ready ready (flash s') \<and>
     same_outside (write_memory env s \<union> flash_bitmaps env) (mem s) (mem s') \<and>
     status_sent env (endpoints s Msc_In) (passed_csw (received_cbw env pk s)) s' \<and> watchdog_rebooting s' \<and> boot_vector s' = None"
proof -
  let ?n = "8 * length css" and ?W = "write_memory env s"
  have "ctrl_length (usbc env) (fst (snd pk)) 31" using pk(1) by (simp add: command_packet_def)
  from write_started [OF idle this received_cbw_def [unfolded Let_def] pk(2), of "Suc k"] obtain s1 where
    s1: "receive_packet (callbacks env (Suc (Suc k))) (usbc env) Msc_Out pk s = Some s1"
     "stream_waits Msc_Out Msc_Sector_Transfer ?n 0 ?n s1" "sector_stream env s1" "csw s1 = started_csw (received_cbw env pk s)"
     "mem s1 = mem_write (mem s) (take_addr (usbc env) (endpoints s Msc_Out) (fst pk)) (payload pk)" "disk_part s1 = disk_part s"
     "endpoints s1 Msc_In = endpoints s Msc_In" "endpoint_table s1 = endpoint_table s"
     "take_addr (usbc env) (endpoints s1 Msc_Out) = take_addr (usbc env) (endpoints s Msc_Out)" by blast
  have wm: "write_memory env s1 = ?W" by (simp add: write_memory_def s1(7,9))
  have ne: "css \<noteq> []" using pk(2) by (auto simp: write_cbw_def)
  note eq = disk_part_eq [OF s1(6)] and out = command_memory [OF pk(1), of s "mem s", folded s1(5)]
  have "uses_rom_table (boot_env.truncate env) s1"
    by (rule rom_table_same [OF s(5) eq(5) out]) (use s(4) in \<open>auto simp: flash_memory_def\<close>)
  then have ds: "flash_state env attached ready N {} s1"
    using s(1-3) chip(4) by (simp add: flash_state_def eq watchdog_rebooting_def)
  have dm: "flash_memory env s1" using s(4) by (simp add: flash_memory_def wm eq(5))
  have w0: "stream_waits Msc_Out Msc_Sector_Transfer ?n 0 (?n - 0) s1" "(0 :: nat) mod 8 = 0" "?n = 0 + 8 * length css" using s1(2) by simp_all
  have "\<forall>b \<in> set bs. uf2_block_no b \<notin> {}" by simp
  from flash_sectors_written [OF w0(1) s1(3) w0(2,3) ne image(1,2,4) this ds dm env chip(1-3), of user k] obtain s' where
    s': "write_sectors env user (Suc (Suc k)) css s1 = Some s'"
     "status_sent env (endpoints s Msc_In) (passed_csw (received_cbw env pk s)) s'"
     "same_outside (?W \<union> flash_bitmaps env) (mem s1) (mem s')"
     "content (chip (flash s')) = flash_after (plat env) {} (sector_blocks env css bs) (content (chip (flash s)))"
     "flash_done env ready N (uf2_block_no ` set bs) s'"
    by (auto simp: s1(4,7) wm eq(4) all_counted [OF pk(2)] simp del: callbacks.simps funpow.simps)
  have all: "uf2_block_no ` set bs = {n. n < N}"
    using numbers_complete [OF _ _ image(3)] image(2) by (simp add: flash_image_def)
  have "same_outside (?W \<union> flash_bitmaps env) (mem s) (mem s')"
    by (rule same_outside_trans [OF same_outside_mono [OF out] s'(3)]) auto
  then show ?thesis
    using s1(1) s'(1,2,4,5) all by (intro exI [of _ s1] exI [of _ s']) (simp add: flash_done_def del: callbacks.simps)
qed

lemma sector_blocks_parts:
  assumes "block_sectors env css bs" "unat (offsetof_uf2_data (plat env)) + 256 \<le> 512"
  shows "map fst (sector_blocks env css bs) = bs" "\<forall>d \<in> snd ` set (sector_blocks env css bs). length d = 256"
proof -
  have len: "length css = length bs" using assms(1) by (auto simp: block_sectors_def dest: list_all2_lengthD)
  then show "map fst (sector_blocks env css bs) = bs" by (simp add: sector_blocks_def)
  have "length (block_data env (sector_data pks)) = 256" if "pks \<in> set css" for pks
  proof -
    have "sector_packets (usbc env) pks" using assms(1) that by (auto simp: block_sectors_def list_all2_conv_all_nth in_set_conv_nth)
    then have pk: "length pks = 8" "\<forall>pk \<in> set pks. length (payload pk) = 64" by (simp_all add: sector_packets_def full_packet_def)
    have "length (sector_data pks) = sum_list (map (\<lambda>_. 64) pks)"
      using pk(2) by (simp add: length_concat comp_def cong: map_cong)
    then have "length (sector_data pks) = 512" by (simp add: sum_list_triv pk(1))
    then show ?thesis using assms(2) by (simp add: block_data_def)
  qed
  then show "\<forall>d \<in> snd ` set (sector_blocks env css bs). length d = 256"
    by (auto simp: sector_blocks_def dest!: set_zip_rightD)
qed

text \<open>The page at the start of the flash.\<close>

lemma first_page:
  assumes "flash_loaded p (sector_blocks env css bs) m m'" "block_sectors env css bs"
    and "i < length bs" "target_addr (bs ! i) = XIP_MAIN_BASE p"
  shows "mem_read m' 0 256 = block_data env (sector_data (css ! i))"
proof -
  have len: "length css = length bs" using assms(2) by (auto simp: block_sectors_def dest: list_all2_lengthD)
  then have "(bs ! i, block_data env (sector_data (css ! i))) \<in> set (sector_blocks env css bs)"
    using assms(3) by (auto simp: sector_blocks_def set_zip)
  then show ?thesis using assms(1,4) by (auto simp: flash_loaded_def Let_def flash_offset_def)
qed

text \<open>And the boot path enters it.\<close>

lemma flash_download_ok:
  fixes s :: "('d, 'z) picoboot_state_scheme"
  assumes "msc_idle env s" "command_packet (usbc env) pk" "write_cbw (received_cbw env pk s) (length css)"
    and "block_sectors env css bs" "flash_image (plat env) N bs" "flash_aligned (plat env) bs" "length bs = unat N" "N \<le> 0x10000"
    and "num_blocks (the_uf2_info s) \<noteq> N" "\<not> disable (virtual_disk_queue s)" "\<not> watchdog_rebooting s" "flash_memory env s"
    and "uses_rom_table (boot_env.truncate env) s"
    and "nor_chip (spi env) content attached ready" "fair (spi env)" "quiet (spi env)" "flash_attached attached (flash s)"
    and "rp2040_map (plat env)" "clock_ends (rt env)" "unat (offsetof_uf2_data (plat env)) + 256 \<le> 512"
  shows "\<exists>s1 s'. receive_packet (callbacks env (Suc (Suc k))) (usbc env) Msc_Out pk s = Some s1 \<and>
     write_sectors env user (Suc (Suc k)) css s1 = Some s' \<and>
     flash_loaded (plat env) (sector_blocks env css bs) (content (chip (flash s))) (content (chip (flash s'))) \<and>
     same_outside (write_memory env s \<union> flash_bitmaps env) (mem s) (mem s') \<and>
     status_sent env (endpoints s Msc_In) (passed_csw (received_cbw env pk s)) s' \<and> watchdog_rebooting s' \<and> boot_vector s' = None \<and>
     attached (chip (flash s')) \<and>
     (\<forall>i < length bs. target_addr (bs ! i) = XIP_MAIN_BASE (plat env) \<longrightarrow>
        boot2_valid (block_data env (sector_data (css ! i))) \<longrightarrow>
        (\<forall>s2 :: ('d, 'y) boot_state_scheme. flash_attached attached (flash s2) \<longrightarrow> chip (flash s2) = chip (flash s') \<longrightarrow>
         (\<exists>s3. flash_boot (boot_env.truncate env) bc s2 = Some (Some (BOOT2_BASE (plat env) + 1), s3) \<and>
            mem_read (mem s3) (BOOT2_BASE (plat env)) 256 = block_data env (sector_data (css ! i)))))"
proof -
  let ?be = "boot_env.truncate env"
  have be: "plat ?be = plat env" "spi ?be = spi env" by (simp_all add: boot_env.truncate_def)
  obtain s1 s' where s': "receive_packet (callbacks env (Suc (Suc k))) (usbc env) Msc_Out pk s = Some s1"
     "write_sectors env user (Suc (Suc k)) css s1 = Some s'"
     "content (chip (flash s')) = flash_after (plat env) {} (sector_blocks env css bs) (content (chip (flash s)))"
     "same_outside (write_memory env s \<union> flash_bitmaps env) (mem s) (mem s')"
     "status_sent env (endpoints s Msc_In) (passed_csw (received_cbw env pk s)) s'" "watchdog_rebooting s'" "boot_vector s' = None"
     "flash_ready ready (flash s')"
    using flash_download_written [OF assms(1-5,7-20), of k user] by blast
  have "attached (chip (flash s'))" using s'(8) assms(14) by (simp add: flash_ready_def nor_chip_def)
  note parts = sector_blocks_parts [OF assms(4,20)]
  have loaded: "flash_loaded (plat env) (sector_blocks env css bs) (content (chip (flash s))) (content (chip (flash s')))"
    unfolding s'(3) using assms(5,6,18) parts by (intro flash_after_loaded [where N = N]) simp_all
  have "\<exists>s3. flash_boot ?be bc s2 = Some (Some (BOOT2_BASE (plat env) + 1), s3) \<and>
      mem_read (mem s3) (BOOT2_BASE (plat env)) 256 = block_data env (sector_data (css ! i))"
    if "i < length bs" "target_addr (bs ! i) = XIP_MAIN_BASE (plat env)" "boot2_valid (block_data env (sector_data (css ! i)))"
      "flash_attached attached (flash s2)" "chip (flash s2) = chip (flash s')" for i and s2 :: "('d, 'y) boot_state_scheme"
    using flash_boot_content [of ?be content attached ready s2 bc] assms(14-16) that first_page [OF loaded assms(4) that(1,2)]
    by (simp add: be)
  then show ?thesis using s' loaded \<open>attached (chip (flash s'))\<close> by (intro exI [of _ s1] exI [of _ s']) blast
qed


subsection \<open>A sector that is erased again\<close>

lemma flash_after_snoc:
  "flash_after p got (L @ [(c, d)]) m =
     block_written (uf2_page (uf2_block_no c) \<notin> uf2_page ` (got \<union> uf2_block_no ` fst ` set L)) (flash_offset p (target_addr c)) d
       (flash_after p got L m)"
proof (induction L arbitrary: got m)
  case (Cons bd L)
  then show ?case by (cases bd) simp
qed simp

lemma flash_download_loses_ok:
  fixes s :: "('d, 'z) picoboot_state_scheme"
  assumes idle: "msc_idle env s" and pk: "command_packet (usbc env) pk" "write_cbw (received_cbw env pk s) (length css)"
    and image: "block_sectors env css (xs @ [c])" "flash_image (plat env) N (xs @ [c])" "Suc (length xs) = unat N" "N \<le> 0x10000"
    and s: "num_blocks (the_uf2_info s) \<noteq> N" "\<not> disable (virtual_disk_queue s)" "\<not> watchdog_rebooting s" "flash_memory env s"
      "uses_rom_table (boot_env.truncate env) s"
    and chip: "nor_chip (spi env) content attached ready" "fair (spi env)" "quiet (spi env)" "flash_attached attached (flash s)"
    and env: "rp2040_map (plat env)" "clock_ends (rt env)" "unat (offsetof_uf2_data (plat env)) + 256 \<le> 512"
    and lost: "uf2_page (uf2_block_no c) \<notin> uf2_page ` uf2_block_no ` set xs" "b \<in> set xs"
      "sector_of (target_addr b) = sector_of (target_addr c)" "target_addr b \<noteq> target_addr c"
  shows "\<exists>s1 s'. receive_packet (callbacks env (Suc (Suc k))) (usbc env) Msc_Out pk s = Some s1 \<and>
     write_sectors env user (Suc (Suc k)) css s1 = Some s' \<and>
     status_sent env (endpoints s Msc_In) (passed_csw (received_cbw env pk s)) s' \<and> watchdog_rebooting s' \<and>
     mem_read (content (chip (flash s'))) (flash_offset (plat env) (target_addr b)) 256 = replicate 256 0xff"
proof -
  let ?o = "\<lambda>b. flash_offset (plat env) (target_addr b)" and ?m = "content (chip (flash s))"
  obtain s1 s' where s': "receive_packet (callbacks env (Suc (Suc k))) (usbc env) Msc_Out pk s = Some s1"
     "write_sectors env user (Suc (Suc k)) css s1 = Some s'"
     "content (chip (flash s')) = flash_after (plat env) {} (sector_blocks env css (xs @ [c])) ?m"
     "status_sent env (endpoints s Msc_In) (passed_csw (received_cbw env pk s)) s'" "watchdog_rebooting s'"
    using flash_download_written [OF idle pk image(1,2) _ image(4) s chip env, of k user] image(3) by auto
  obtain cs pks where cs: "css = cs @ [pks]" "block_sectors env cs xs"
    using image(1) by (auto simp: block_sectors_def list_all2_append2 list_all2_Cons2)
  then have len: "length cs = length xs" by (auto simp: block_sectors_def dest: list_all2_lengthD)
  let ?d = "block_data env (sector_data pks)"
  have L: "sector_blocks env css (xs @ [c]) = sector_blocks env cs xs @ [(c, ?d)]" by (simp add: sector_blocks_def cs(1) len)
  have "fst ` set (sector_blocks env cs xs) = set xs" using sector_blocks_parts(1) [OF cs(2) env(3)] by (metis set_map)
  then have final: "content (chip (flash s')) = block_written True (?o c) ?d (flash_after (plat env) {} (sector_blocks env cs xs) ?m)"
    using lost(1) by (simp add: s'(3) L flash_after_snoc)
  have main: "main_flash (plat env) (target_addr b)" "main_flash (plat env) (target_addr c)"
    using image(2) lost(2) by (simp_all add: flash_image_def)
  note o = flash_offset_page [OF env(1) main(1)] flash_offset_page [OF env(1) main(2)]
  have "length ?d = 256" using sector_blocks_parts(2) [OF image(1) env(3)] by (simp add: L)
  note cell = written_cells [OF o(3,4) this, of True]
  have "4096 * sector_no (?o b) = 4096 * sector_no (?o c)"
    using sector_offset(1) [OF env(1) main(1)] sector_offset(1) [OF env(1) main(2)] lost(3) unat_sector by metis
  then have sec: "sector_no (?o b) = sector_no (?o c)" by simp
  have "?o b \<noteq> ?o c" using lost(4) by (simp add: flash_offset_def)
  then have "unat (?o b) \<noteq> unat (?o c)" by (simp add: word_unat_eq_iff)
  moreover have "unat (?o b) = 256 * page_of (?o b)" "unat (?o c) = 256 * page_of (?o c)" using o(1,3) by auto
  ultimately have page: "page_of (?o b) \<noteq> page_of (?o c)" by metis
  have "content (chip (flash s')) (?o b + word_of_nat j) = 0xff" if j: "j < 256" for j
  proof -
    have "unat (word_of_nat j :: u32) = j" using j by (intro unat_of_nat_small) simp
    then have p: "page_of (?o b + word_of_nat j) = page_of (?o b)"
      using aligned_cells [of "?o b" 256 "?o b + word_of_nat j"] o(1,2) j by simp
    then show ?thesis using page sec page_sector [OF p] by (simp add: final cell)
  qed
  then have "mem_read (content (chip (flash s'))) (?o b) 256 = replicate 256 0xff"
    by (intro nth_equalityI) (simp_all add: mem_read_conv_map)
  then show ?thesis using s'(1,2,4,5) by (intro exI [of _ s1] exI [of _ s']) (simp del: callbacks.simps)
qed

end
