(* ===== verification/Flash_Properties.thy ===== *)
theory Flash_Properties
  imports Write_Properties Flash_Image
begin

section \<open>Properties of flash downloads\<close>

text \<open>
  UF2 downloads to flash from the host's packets to the cells of the chip and the second stage that the boot path enters,
  with a concrete NOR chip to run them on.
\<close>

subsection \<open>A concrete chip\<close>

text \<open>
  Its cells, the write enable latch, and the bytes that it has taken since it was selected; a command is executed when the
  select line goes up.
\<close>

record nor =
  cells :: memory
  write_enabled :: bool
  taken :: "u8 list"

definition nor_addr :: "u8 list \<Rightarrow> u32" where
  "nor_addr bs = push_bit 16 (ucast (bs ! 0)) OR push_bit 8 (ucast (bs ! 1)) OR ucast (bs ! 2)"

definition nor_answer :: "nor \<Rightarrow> u8" where
  "nor_answer d = (if taken d \<noteq> [] \<and> hd (taken d) = FLASHCMD_READ_DATA \<and> 4 \<le> length (taken d)
     then cells d (nor_addr (tl (taken d)) + word_of_nat (length (taken d) - 4)) else 0)"

definition nor_execute :: "nor \<Rightarrow> nor" where
  "nor_execute d =
     (let d' = d\<lparr>taken := []\<rparr>
      in case taken d of
           [] \<Rightarrow> d'
         | c # r \<Rightarrow>
             if c = FLASHCMD_WRITE_ENABLE then d'\<lparr>write_enabled := True\<rparr>
             else if c = FLASHCMD_PAGE_PROGRAM \<and> write_enabled d
               then d'\<lparr>write_enabled := False, cells := program_page (nor_addr r) (drop 3 r) (cells d)\<rparr>
             else if c = FLASHCMD_SECTOR_ERASE \<and> write_enabled d
               then d'\<lparr>write_enabled := False, cells := erase_sector (nor_addr r) (cells d)\<rparr>
             else d')"

definition nor_env :: "nor spi_env" where
  "nor_env = \<lparr>exchange = (\<lambda>d b. (nor_answer d, d\<lparr>taken := taken d @ [b]\<rparr>)),
     chip_select = (\<lambda>d v. case v of OUTOVER_LOW \<Rightarrow> d\<lparr>taken := []\<rparr> | OUTOVER_HIGH \<Rightarrow> nor_execute d | _ \<Rightarrow> d),
     shifts = (\<lambda>_. 1), abort_irq = (\<lambda>_. False), stack_bytes = (\<lambda>_. 0)\<rparr>"

definition nor_ready :: "nor \<Rightarrow> bool" where
  "nor_ready d \<longleftrightarrow> taken d = []"

lemma nor_env_ok: "fair nor_env" "quiet nor_env"
  by (auto simp: nor_env_def fair_def quiet_def)

lemma nor_exchange_all: "snd (exchange_all nor_env d bs) = d\<lparr>taken := taken d @ bs\<rparr>"
proof (induction bs arbitrary: d)
  case (Cons b bs)
  have "exchange nor_env d b = (nor_answer d, d\<lparr>taken := taken d @ [b]\<rparr>)" by (simp add: nor_env_def)
  then show ?case using Cons.IH by (simp add: Let_def case_prod_beta)
qed simp

lemma nor_transaction: "snd (transaction nor_env d bs) = nor_execute (d\<lparr>taken := bs\<rparr>)"
  using nor_exchange_all [of "d\<lparr>taken := []\<rparr>" bs] by (simp add: transaction_def case_prod_beta) (simp add: nor_env_def)

lemma nor_addr_cmd:
  assumes "a < 0x1000000"
  shows "cmd_addr c a = c # tl (cmd_addr c a)" "nor_addr (tl (cmd_addr c a) @ bs) = a" "length (tl (cmd_addr c a)) = 3"
proof -
  show "cmd_addr c a = c # tl (cmd_addr c a)" "length (tl (cmd_addr c a)) = 3" using cmd_addr_24bit [OF assms] by simp_all
  have "unat a < 2 ^ 24" using assms by (simp add: word_less_nat_alt)
  then have "take_bit 24 a = a" by (simp only: word_unat_eq_iff unsigned_take_bit_eq take_bit_nat_eq_self)
  then have high: "\<not> bit a n" if "24 \<le> n" for n using that by (metis bit_take_bit_iff not_le)
  have "nor_addr (tl (cmd_addr c a) @ bs) =
      push_bit 16 (ucast (ucast (drop_bit 16 a) :: u8)) OR push_bit 8 (ucast (ucast (drop_bit 8 a) :: u8)) OR ucast (ucast a :: u8)"
    by (simp add: nor_addr_def cmd_addr_def)
  also have "\<dots> = a"
  proof (rule bit_word_eqI)
    fix n assume "n < LENGTH(32)"
    then show "bit (push_bit 16 (ucast (ucast (drop_bit 16 a) :: u8)) OR push_bit 8 (ucast (ucast (drop_bit 8 a) :: u8)) OR
        ucast (ucast a :: u8) :: u32) n = bit a n"
      using high [of n] by (cases "24 \<le> n"; cases "16 \<le> n"; cases "8 \<le> n"; auto simp: bit_simps)
  qed
  finally show "nor_addr (tl (cmd_addr c a) @ bs) = a" .
qed

lemma nor_status: "status_of (transaction nor_env) d = 0"
  by (simp add: status_of_def transaction_def nor_env_def nor_answer_def)

lemma nor_read_bytes:
  assumes "taken d = cmd_addr FLASHCMD_READ_DATA a @ bs" "a < 0x1000000"
  shows "fst (exchange_all nor_env d (replicate n 0)) = mem_read (cells d) (a + word_of_nat (length bs)) n"
  using assms(1)
proof (induction n arbitrary: d bs)
  case (Suc n)
  note c = nor_addr_cmd [OF assms(2), of FLASHCMD_READ_DATA]
  have t: "taken d = FLASHCMD_READ_DATA # tl (cmd_addr FLASHCMD_READ_DATA a) @ bs" using Suc.prems c(1) by simp
  have len: "length (taken d) = 4 + length bs" using Suc.prems by simp
  have "nor_answer d = cells d (a + word_of_nat (length bs))" by (simp add: nor_answer_def len) (simp add: t c(2))
  moreover have "exchange nor_env d 0 = (nor_answer d, d\<lparr>taken := taken d @ [0]\<rparr>)" by (simp add: nor_env_def)
  moreover have "taken (d\<lparr>taken := taken d @ [0]\<rparr>) = cmd_addr FLASHCMD_READ_DATA a @ bs @ [0]" using Suc.prems by simp
  note Suc.IH [OF this]
  ultimately show ?case by (simp add: Let_def case_prod_beta algebra_simps)
qed simp

lemma nor_read:
  assumes "a < 0x1000000"
  shows "drop 4 (fst (transaction nor_env d (cmd_addr FLASHCMD_READ_DATA a @ replicate n 0))) = mem_read (cells d) a n"
    "snd (transaction nor_env d (cmd_addr FLASHCMD_READ_DATA a @ replicate n 0)) = d\<lparr>taken := []\<rparr>"
proof -
  let ?d = "chip_select nor_env d OUTOVER_LOW" and ?c = "cmd_addr FLASHCMD_READ_DATA a"
  have d: "?d = d\<lparr>taken := []\<rparr>" by (simp add: nor_env_def)
  have "fst (exchange_all nor_env ?d (?c @ replicate n 0)) =
      fst (exchange_all nor_env ?d ?c) @ fst (exchange_all nor_env (?d\<lparr>taken := taken ?d @ ?c\<rparr>) (replicate n 0))"
    by (simp add: exchange_all_append Let_def case_prod_beta nor_exchange_all)
  moreover have "fst (exchange_all nor_env (?d\<lparr>taken := taken ?d @ ?c\<rparr>) (replicate n 0)) = mem_read (cells d) a n"
    using nor_read_bytes [of "?d\<lparr>taken := taken ?d @ ?c\<rparr>" a "[]" n] assms by (simp add: d)
  ultimately show "drop 4 (fst (transaction nor_env d (?c @ replicate n 0))) = mem_read (cells d) a n"
    by (simp add: transaction_def case_prod_beta)
  show "snd (transaction nor_env d (?c @ replicate n 0)) = d\<lparr>taken := []\<rparr>"
    unfolding nor_transaction by (subst nor_addr_cmd(1) [OF assms]) (simp add: nor_execute_def Let_def)
qed

lemma nor_writes:
  assumes "a < 0x1000000"
  shows "snd (transaction nor_env (snd (transaction nor_env d [FLASHCMD_WRITE_ENABLE])) (cmd_addr FLASHCMD_PAGE_PROGRAM a @ bs)) =
      d\<lparr>write_enabled := False, taken := [], cells := program_page a bs (cells d)\<rparr>"
    "snd (transaction nor_env (snd (transaction nor_env d [FLASHCMD_WRITE_ENABLE])) (cmd_addr FLASHCMD_SECTOR_ERASE a)) =
      d\<lparr>write_enabled := False, taken := [], cells := erase_sector a (cells d)\<rparr>"
proof -
  have we: "snd (transaction nor_env d [FLASHCMD_WRITE_ENABLE]) = d\<lparr>write_enabled := True, taken := []\<rparr>"
    by (simp add: nor_transaction nor_execute_def Let_def)
  note c = nor_addr_cmd [OF assms]
  show "snd (transaction nor_env (snd (transaction nor_env d [FLASHCMD_WRITE_ENABLE])) (cmd_addr FLASHCMD_PAGE_PROGRAM a @ bs)) =
      d\<lparr>write_enabled := False, taken := [], cells := program_page a bs (cells d)\<rparr>"
    unfolding we nor_transaction by (subst c(1)) (simp add: nor_execute_def Let_def c(2,3))
  show "snd (transaction nor_env (snd (transaction nor_env d [FLASHCMD_WRITE_ENABLE])) (cmd_addr FLASHCMD_SECTOR_ERASE a)) =
      d\<lparr>write_enabled := False, taken := [], cells := erase_sector a (cells d)\<rparr>"
    unfolding we nor_transaction by (subst c(1)) (use c(2) [of _ "[]"] in \<open>simp add: nor_execute_def Let_def\<close>)
qed

lemma nor_write_effect:
  assumes "snd (transaction nor_env (snd (transaction nor_env d [FLASHCMD_WRITE_ENABLE])) bs) =
      d\<lparr>write_enabled := False, taken := [], cells := f (cells d)\<rparr>"
  shows "write_effect nor_env cells nor_ready bs f d"
  unfolding write_effect_def Let_def assms
  by (rule exI [of _ 0]) (simp add: nor_status, simp add: nor_transaction nor_execute_def nor_ready_def Let_def)

lemma nor_out_of_xip: "taken d = [] \<Longrightarrow> nor_ready (chip_out_of_xip nor_env d) \<and> cells (chip_out_of_xip nor_env d) = cells d"
  by (simp add: chip_out_of_xip_def exit_clocks_seen_def nor_exchange_all Let_def)
    (simp add: nor_env_def nor_execute_def nor_ready_def Let_def)

lemma nor_chip_nor: "nor_chip nor_env cells nor_ready nor_ready"
proof -
  have "drop 4 (fst (transaction nor_env d (cmd_addr FLASHCMD_READ_DATA a @ replicate n 0))) = mem_read (cells d) a n \<and>
      nor_ready (snd (transaction nor_env d (cmd_addr FLASHCMD_READ_DATA a @ replicate n 0))) \<and>
      cells (snd (transaction nor_env d (cmd_addr FLASHCMD_READ_DATA a @ replicate n 0))) = cells d"
    if "a < 0x1000000" for d a n by (simp add: nor_read [OF that] nor_ready_def)
  then show ?thesis
    unfolding nor_chip_def
    using nor_out_of_xip nor_write_effect [where f = "program_page a bs" for a bs, OF nor_writes(1)]
      nor_write_effect [where f = "erase_sector a" for a, OF nor_writes(2)]
    by (auto simp: nor_ready_def Let_def case_prod_beta)
qed

subsection \<open>The device with that chip\<close>

definition nor_write_env :: "nor picoboot_env" where
  "nor_write_env = boot_env.extend \<lparr>plat = rp2040, ssi = example_consts, rt = example_runtime, spi = nor_env,
     default_flash_funcs = 0x1000, rom_fn = rom_fn example_env\<rparr> (boot_env.more example_write_env)"

lemma nor_write_env:
  "plat nor_write_env = rp2040" "rt nor_write_env = example_runtime" "spi nor_write_env = nor_env"
  "usbc nor_write_env = rp2040_usb" "sector_buf nor_write_env = 0x50100400" "rom_fn nor_write_env = rom_fn example_env"
  by (simp_all add: nor_write_env_def example_write_env_def boot_example_env_def picoboot_env.defs msc_env.defs vd_env.defs
      example_vd_env_def boot_env.defs example_env_def)

text \<open>The state between two commands with the chip connected, and the table of flash functions in RAM.\<close>

definition with_chip :: "memory \<Rightarrow> 'd flash_hw \<Rightarrow> unit boot_state \<Rightarrow> 'd boot_state" where
  "with_chip m h s = async_state.extend (runtime_hw.extend (runtime_hw.truncate s)
     (async_state.fields m h (flash_funcs s) (last_mutation_source s) (virtual_disk_queue s) (picoboot_queue s) (worker_task s)))
     (async_state.more s)"

lemma with_chip_parts:
  "endpoints (with_chip m h s) = endpoints s" "transfers (with_chip m h s) = transfers s" "endpoint_table (with_chip m h s) = endpoint_table s"
  "mem (with_chip m h s) = m" "flash (with_chip m h s) = h" "flash_funcs (with_chip m h s) = flash_funcs s"
  "the_uf2_info (with_chip m h s) = the_uf2_info s" "virtual_disk_queue (with_chip m h s) = virtual_disk_queue s"
  "rebooting (with_chip m h s) = rebooting s" "stall_direction_before_csw (with_chip m h s) = stall_direction_before_csw s"
  by (cases s; simp add: with_chip_def runtime_hw.defs async_state.defs)+

definition nor_idle :: "nor \<Rightarrow> nor boot_state" where
  "nor_idle d = with_chip (mem example_state) (idle_hw d) example_idle"

lemma example_idle_parts:
  "the_uf2_info example_idle = zero_uf2_info" "\<not> disable (virtual_disk_queue example_idle)" "rebooting example_idle = False"
  "flash_funcs example_idle = 0x1000"
  by (simp_all add: example_idle_def example_boot_state_def example_vd_state_def example_state_def picoboot_state.defs msc_state.defs
      stream_state.defs usb_state.defs vd_state.defs async_state.defs)

lemma nor_idle_ok: "msc_idle nor_write_env (nor_idle d)"
proof -
  have "find_ep n b (nor_idle d) = find_ep n b example_idle" for n b
    by (simp add: find_ep_def nor_idle_def with_chip_parts)
  then show ?thesis
    using example_idle_ok
    by (simp add: msc_idle_def nor_write_env example_write_env nor_idle_def with_chip_parts)
qed

lemma nor_idle_table: "uses_rom_table (boot_env.truncate nor_write_env) (nor_idle d)"
proof -
  have "rom_fn (boot_env.truncate nor_write_env) = rom_fn example_env" by (simp add: boot_env.truncate_def nor_write_env)
  then show ?thesis
    using example_state_table by (simp add: uses_rom_table_def nor_idle_def with_chip_parts example_idle_parts)
qed

lemma nor_idle_memory: "flash_memory nor_write_env (nor_idle d)"
proof -
  have m: "write_memory nor_write_env (nor_idle d) = block 0x50100400 512 \<union> block 0x50100180 128 \<union> block 0x50100200 13"
    by (simp add: write_memory_def nor_write_env nor_idle_def with_chip_parts take_addr_def give_addr_def example_idle_def rp2040_usb_def
        zero_usb_endpoint_def)
  have b: "FLASH_VALID_BLOCKS_BASE (plat nor_write_env) = 0x15000000" using flash_bitmap_sizes(1) [OF rp2040_map_rp2040] by (simp add: nor_write_env)
  have t: "flash_funcs (nor_idle d) = 0x1000" by (simp add: nor_idle_def with_chip_parts example_idle_parts)
  show ?thesis by (simp add: flash_memory_def m b t Int_Un_distrib Int_Un_distrib2 block_apart)
qed

lemma nor_idle_start:
  "num_blocks (the_uf2_info (nor_idle d)) = 0" "\<not> disable (virtual_disk_queue (nor_idle d))" "\<not> watchdog_rebooting (nor_idle d)"
  "taken d = [] \<Longrightarrow> flash_attached nor_ready (flash (nor_idle d))" "chip (flash (nor_idle d)) = d"
  by (simp_all add: nor_idle_def with_chip_parts example_idle_parts zero_uf2_info_def watchdog_rebooting_def flash_attached_def
      nor_ready_def idle_hw_def)

subsection \<open>The properties\<close>

text \<open>
  C1. A UF2 file for the flash, from the host to its second stage: when the blocks of a download, in any order and not known
  before, arrive as the sectors of a WRITE(10), and the worker has its turn after each sector, then every page of the file
  is in the NOR chip, the rest of its sectors is erased and no other cell of the chip is touched; the command is answered with
  status passed and residue zero, and the watchdog is set to restart the chip without a boot vector. When the boot path
  then searches that chip, it enters the page that the file has for the start of the flash, if its checksum is right.
\<close>

theorem flash_download_boots:
  fixes s :: "('d, 'z) picoboot_state_scheme"
  assumes "msc_idle env s" "command_packet (usbc env) pk" "write_cbw (received_cbw env pk s) (length css)"
    and "block_sectors env css bs" "flash_image (plat env) N bs" "flash_aligned (plat env) bs" "length bs = unat N" "N \<le> 0x10000"
    and "num_blocks (the_uf2_info s) \<noteq> N" "\<not> disable (virtual_disk_queue s)" "\<not> watchdog_rebooting s" "flash_memory env s"
    and "uses_rom_table (boot_env.truncate env) s"
    and "nor_chip (spi env) content attached ready" "fair (spi env)" "quiet (spi env)" "flash_attached attached (flash s)"
    and "rp2040_map (plat env)" "clock_ends (rt env)" "unat (offsetof_uf2_data (plat env)) + 256 \<le> 512"
  shows "\<exists>s1 s'. receive_packet (callbacks env (Suc (Suc k))) (usbc env) Msc_Out pk s = Some s1 \<and>
     write_sectors env user (Suc (Suc k)) css s1 = Some s' \<and>
     flash_loaded (plat env) (sector_blocks env css bs) (content (chip (flash s))) (content (chip (flash s'))) \<and>
     same_outside (write_memory env s \<union> flash_bitmaps env) (mem s) (mem s') \<and>
     status_sent env (endpoints s Msc_In) (passed_csw (received_cbw env pk s)) s' \<and> watchdog_rebooting s' \<and> boot_vector s' = None \<and>
     attached (chip (flash s')) \<and>
     (\<forall>i < length bs. target_addr (bs ! i) = XIP_MAIN_BASE (plat env) \<longrightarrow>
        boot2_valid (block_data env (sector_data (css ! i))) \<longrightarrow>
        (\<forall>s2 :: ('d, 'y) boot_state_scheme. flash_attached attached (flash s2) \<longrightarrow> chip (flash s2) = chip (flash s') \<longrightarrow>
         (\<exists>s3. flash_boot (boot_env.truncate env) bc s2 = Some (Some (BOOT2_BASE (plat env) + 1), s3) \<and>
            mem_read (mem s3) (BOOT2_BASE (plat env)) 256 = block_data env (sector_data (css ! i)))))"
  using assms by (rule flash_download_ok)

text \<open>
  C9. Which blocks erase their sector is decided by their numbers, not by where they go: a file whose last block is the only
  one of its sixteen numbers, with a target in a 4 KiB sector that another block has already been written to, loses that
  block. All the same the command is answered with status passed and residue zero, and the watchdog is set to restart the
  chip. Afterwards the page of the other block reads as erased.
\<close>

theorem flash_download_loses_page:
  fixes s :: "('d, 'z) picoboot_state_scheme"
  assumes "msc_idle env s" and "command_packet (usbc env) pk" "write_cbw (received_cbw env pk s) (length css)"
    and "block_sectors env css (xs @ [c])" "flash_image (plat env) N (xs @ [c])" "Suc (length xs) = unat N" "N \<le> 0x10000"
    and "num_blocks (the_uf2_info s) \<noteq> N" "\<not> disable (virtual_disk_queue s)" "\<not> watchdog_rebooting s" "flash_memory env s"
      "uses_rom_table (boot_env.truncate env) s"
    and "nor_chip (spi env) content attached ready" "fair (spi env)" "quiet (spi env)" "flash_attached attached (flash s)"
    and "rp2040_map (plat env)" "clock_ends (rt env)" "unat (offsetof_uf2_data (plat env)) + 256 \<le> 512"
    and "uf2_page (uf2_block_no c) \<notin> uf2_page ` uf2_block_no ` set xs" "b \<in> set xs"
      "sector_of (target_addr b) = sector_of (target_addr c)" "target_addr b \<noteq> target_addr c"
  shows "\<exists>s1 s'. receive_packet (callbacks env (Suc (Suc k))) (usbc env) Msc_Out pk s = Some s1 \<and>
     write_sectors env user (Suc (Suc k)) css s1 = Some s' \<and>
     status_sent env (endpoints s Msc_In) (passed_csw (received_cbw env pk s)) s' \<and> watchdog_rebooting s' \<and>
     mem_read (content (chip (flash s'))) (flash_offset (plat env) (target_addr b)) 256 = replicate 256 0xff"
  using assms by (rule flash_download_loses_ok)

subsection \<open>Concrete downloads\<close>

abbreviation blank_nor :: nor where
  "blank_nor \<equiv> \<lparr>cells = \<lambda>_. 0, write_enabled = False, taken = []\<rparr>"

lemma example_flash_sectors:
  "block_sectors nor_write_env (map (\<lambda>n. example_sector (example_uf2_bytes (f n) N (a n))) ns) (map (\<lambda>n. example_uf2_block (f n) N (a n)) ns)"
  using example_sector_packets [OF example_uf2_length] example_uf2_sector [of nor_write_env]
  by (simp add: block_sectors_def nor_write_env example_sector_data example_uf2_length list_all2_map1 list_all2_map2 list_all2_same)

lemma example_flash_env: "rp2040_map rp2040" "clock_ends example_runtime" "unat (offsetof_uf2_data rp2040) + 256 \<le> 512"
proof -
  show "clock_ends example_runtime" using example_runtime_selected by (auto simp: clock_ends_def)
  show "rp2040_map rp2040" by (rule rp2040_map_rp2040)
  show "unat (offsetof_uf2_data rp2040) + 256 \<le> 512" by (simp add: rp2040_def)
qed

text \<open>
  The four bytes 0xff clear the register of the checksum, the zeros keep it, and the last four bytes
  before the checksum are what it is computed from.
\<close>

lemma example_payload_valid: "boot2_valid example_payload"
proof -
  have "crc32_small (replicate 4 0xff) 0xffffffff = 0" by code_simp
  moreover have "crc32_small (replicate 4 0x5a) 0 = 0x29928e70" by code_simp
  ultimately have "crc32_small (replicate 4 0xff @ replicate 244 0 @ replicate 4 0x5a) 0xffffffff = 0x29928e70"
    by (simp only: crc32_small_append crc32_small_zeros [THEN iffD2, OF refl])
  then show ?thesis by (simp add: boot2_valid_def example_payload_def)
qed

text \<open>One block for the start of the flash.\<close>

abbreviation "example_flash_bytes \<equiv> example_uf2_bytes 0 1 0x10000000"
abbreviation "example_flash_block \<equiv> example_uf2_block 0 1 0x10000000"

theorem flash_download_boots_witness:
  "\<exists>s1 s' s3. receive_packet (callbacks nor_write_env (Suc (Suc 0))) rp2040_usb Msc_Out (example_write_packet 1) (nor_idle blank_nor) = Some s1 \<and>
     write_sectors nor_write_env (\<lambda>_ _ _. None) (Suc (Suc 0)) [example_sector example_flash_bytes] s1 = Some s' \<and>
     mem_read (cells (chip (flash s'))) 0 256 = example_payload \<and> cells (chip (flash s')) 256 = 0xff \<and>
     cells (chip (flash s')) 4096 = 0 \<and> watchdog_rebooting s' \<and> boot_vector s' = None \<and>
     flash_boot (boot_env.truncate nor_write_env) example_boot_consts
       (with_chip (\<lambda>_. 0) (idle_hw (chip (flash s'))) example_idle) = Some (Some (BOOT2_BASE rp2040 + 1), s3)"
proof -
  let ?css = "[example_sector example_flash_bytes]" and ?bs = "[example_flash_block]" and ?s = "nor_idle blank_nor"
  let ?bc = "example_boot_consts"
  have "(1 :: nat) \<in> {1, 17}" by simp
  note cbw = example_write_cbw [where s = ?s, OF refl nor_write_env(4) this]
  have main: "main_flash rp2040 0x10000000" by (simp add: main_flash_def flash_offset_def rp2040_def)
  have img: "flash_image rp2040 1 ?bs" using main by (simp add: flash_image_def example_uf2_block_def)
  have al: "flash_aligned rp2040 ?bs" by (simp add: flash_aligned_def)
  have wr: "write_cbw (received_cbw nor_write_env (example_write_packet 1) ?s) (length ?css)" using cbw(2) by simp
  have sec: "block_sectors nor_write_env ?css ?bs"
    using example_flash_sectors [of "\<lambda>_. 0" 1 "\<lambda>_. 0x10000000" "[0 :: nat]"] by simp
  have n: "length ?bs = unat (1 :: u32)" "(1 :: u32) \<le> 0x10000" by simp_all
  have fresh: "num_blocks (the_uf2_info ?s) \<noteq> 1" by (simp add: nor_idle_start)
  have att: "flash_attached nor_ready (flash ?s)" by (simp add: nor_idle_start)
  obtain s1 s' where s':
    "receive_packet (callbacks nor_write_env (Suc (Suc 0))) rp2040_usb Msc_Out (example_write_packet 1) ?s = Some s1"
    "write_sectors nor_write_env (\<lambda>_ _ _. None) (Suc (Suc 0)) ?css s1 = Some s'"
    "flash_loaded rp2040 (sector_blocks nor_write_env ?css ?bs) (cells (chip (flash ?s))) (cells (chip (flash s')))"
    "watchdog_rebooting s'" "boot_vector s' = None" "nor_ready (chip (flash s'))"
    and boots: "\<And>(s2 :: nor boot_state) i. i < length ?bs \<Longrightarrow> target_addr (?bs ! i) = XIP_MAIN_BASE rp2040 \<Longrightarrow>
      boot2_valid (block_data nor_write_env (sector_data (?css ! i))) \<Longrightarrow> flash_attached nor_ready (flash s2) \<Longrightarrow>
      chip (flash s2) = chip (flash s') \<Longrightarrow>
      \<exists>s3. flash_boot (boot_env.truncate nor_write_env) ?bc s2 = Some (Some (BOOT2_BASE rp2040 + 1), s3)"
    using flash_download_boots [where env = nor_write_env and k = 0 and user = "\<lambda>_ _ _. None" and s = ?s and N = 1 and bc = ?bc,
        OF nor_idle_ok, unfolded nor_write_env, OF cbw(1) wr sec img al n fresh nor_idle_start(2,3) nor_idle_memory nor_idle_table
          nor_chip_nor nor_env_ok att example_flash_env] by blast
  have data: "block_data nor_write_env (sector_data (example_sector example_flash_bytes)) = example_payload"
    using example_uf2_data [OF nor_write_env(1)] by (simp add: example_sector_data example_uf2_length)
  have L: "sector_blocks nor_write_env ?css ?bs = [(example_flash_block, example_payload)]" by (simp add: sector_blocks_def data)
  have off: "flash_offset rp2040 (target_addr example_flash_block) = 0" by (simp add: example_uf2_block_def flash_offset_def rp2040_def)
  have cells: "mem_read (cells (chip (flash s'))) 0 256 = example_payload" "cells (chip (flash s')) 256 = 0xff"
    "cells (chip (flash s')) 4096 = 0"
    using s'(3) unfolding L by (simp_all add: flash_loaded_def off nor_idle_start)
  have "flash_attached nor_ready (flash (with_chip (\<lambda>_. 0) (idle_hw (chip (flash s'))) example_idle))"
    using s'(6) by (simp add: with_chip_parts flash_attached_def idle_hw_def)
  moreover note example_payload_valid
  ultimately have "\<exists>s3. flash_boot (boot_env.truncate nor_write_env) ?bc (with_chip (\<lambda>_. 0) (idle_hw (chip (flash s'))) example_idle) =
      Some (Some (BOOT2_BASE rp2040 + 1), s3)"
    using boots [of 0 "with_chip (\<lambda>_. 0) (idle_hw (chip (flash s'))) example_idle"] data
    by (simp add: with_chip_parts idle_hw_def example_uf2_block_def rp2040_def)
  then show ?thesis using s' cells by blast
qed

text \<open>
  Seventeen blocks: the first sixteen numbers go to two sectors, the last one into the first of them, where block 0 is.
\<close>

definition lossy_target :: "nat \<Rightarrow> u32" where
  "lossy_target n = 0x10000000 + (if n = 15 then 0x1000 else if n = 16 then 0xf00 else 256 * word_of_nat n)"

abbreviation lossy_block :: "nat \<Rightarrow> uf2_block" where
  "lossy_block n \<equiv> example_uf2_block (word_of_nat n) 17 (lossy_target n)"

abbreviation lossy_sector :: "nat \<Rightarrow> usb_packet list" where
  "lossy_sector n \<equiv> example_sector (example_uf2_bytes (word_of_nat n) 17 (lossy_target n))"

lemma lossy_main_flash: "n < 17 \<Longrightarrow> main_flash rp2040 (lossy_target n)"
proof -
  assume "n < 17"
  then have "n \<in> {0, 1, 2, 3, 4, 5, 6, 7, 8, 9, 10, 11, 12, 13, 14, 15, 16}" unfolding insert_iff empty_iff by presburger
  then show ?thesis by (elim insertE) (simp_all add: main_flash_def flash_offset_def lossy_target_def rp2040_def)
qed

lemma lossy_image: "flash_image rp2040 17 (map lossy_block [0..<16] @ [lossy_block 16])"
proof -
  have inj: "(word_of_nat m :: u32) = word_of_nat n \<longleftrightarrow> m = n" if "m < 17" "n < 17" for m n
  proof -
    have "unat (word_of_nat m :: u32) = m" "unat (word_of_nat n :: u32) = n" using that by (simp_all add: unat_of_nat_small)
    then show ?thesis by metis
  qed
  have "distinct (map (word_of_nat :: nat \<Rightarrow> u32) [0..<17])" by (simp add: distinct_map inj_on_def inj)
  then have "distinct (map uf2_block_no (map lossy_block [0..<17]))" by (simp add: example_uf2_block_def comp_def)
  moreover have "map lossy_block [0..<16] @ [lossy_block 16] = map lossy_block [0..<17]"
    using upt_Suc_append [of 0 16] by (simp add: eval_nat_numeral)
  moreover have "word_of_nat n < (17 :: u32)" if "n < 17" for n
    using that by (simp add: word_less_nat_alt unat_of_nat_small)
  ultimately show ?thesis using lossy_main_flash by (auto simp: flash_image_def example_uf2_block_def)
qed

theorem flash_download_loses_page_witness:
  "\<exists>s1 s'. receive_packet (callbacks nor_write_env (Suc (Suc 0))) rp2040_usb Msc_Out (example_write_packet 17) (nor_idle blank_nor) = Some s1 \<and>
     write_sectors nor_write_env (\<lambda>_ _ _. None) (Suc (Suc 0)) (map lossy_sector [0..<17]) s1 = Some s' \<and>
     watchdog_rebooting s' \<and> mem_read (cells (chip (flash s'))) 0 256 = replicate 256 0xff"
proof -
  let ?css = "map lossy_sector [0..<17]" and ?xs = "map lossy_block [0..<16]" and ?s = "nor_idle blank_nor"
  have "(17 :: nat) \<in> {1, 17}" by simp
  note cbw = example_write_cbw [where s = ?s, OF refl nor_write_env(4) this]
  have wr: "write_cbw (received_cbw nor_write_env (example_write_packet 17) ?s) (length ?css)" using cbw(2) by simp
  have "map lossy_block [0..<17] = ?xs @ [lossy_block 16]"
    using upt_Suc_append [of 0 16] by (simp add: eval_nat_numeral)
  then have sec: "block_sectors nor_write_env ?css (?xs @ [lossy_block 16])"
    using example_flash_sectors [of word_of_nat 17 lossy_target "[0..<17]"] by simp
  have n: "Suc (length ?xs) = unat (17 :: u32)" "(17 :: u32) \<le> 0x10000" by simp_all
  have fresh: "num_blocks (the_uf2_info ?s) \<noteq> 17" by (simp add: nor_idle_start)
  have att: "flash_attached nor_ready (flash ?s)" by (simp add: nor_idle_start)
  have page: "uf2_page (word_of_nat n) = 0" if "n < 16" for n
  proof -
    have u: "unat (word_of_nat n :: u32) = n" using that by (intro unat_of_nat_small) simp
    then have "(word_of_nat n :: u32) < 0x10000" using that by (simp add: word_less_nat_alt)
    then have "unat (uf2_page (word_of_nat n)) = 0" using unat_uf2_page(1) u that by simp
    then show ?thesis by (simp add: unat_eq_zero)
  qed
  have "uf2_page (uf2_block_no (lossy_block 16)) = 1" by (simp add: uf2_page_def example_uf2_block_def)
  then have alone: "uf2_page (uf2_block_no (lossy_block 16)) \<notin> uf2_page ` uf2_block_no ` set ?xs"
    using page by (auto simp: example_uf2_block_def)
  have t: "lossy_target 0 = 0x10000000" "lossy_target 16 = 0x10000f00" by (simp_all add: lossy_target_def)
  have "0 \<in> set [0..<16 :: nat]" by simp
  then have first: "lossy_block 0 \<in> set ?xs" unfolding set_map by (rule imageI)
  have same: "sector_of (target_addr (lossy_block 0)) = sector_of (target_addr (lossy_block 16))"
    by (simp add: example_uf2_block_def t sector_of_def)
  have other: "target_addr (lossy_block 0) \<noteq> target_addr (lossy_block 16)" by (simp add: example_uf2_block_def t)
  have off: "flash_offset rp2040 (target_addr (lossy_block 0)) = 0" by (simp add: example_uf2_block_def t flash_offset_def rp2040_def)
  show ?thesis
    using flash_download_loses_page [where env = nor_write_env and k = 0 and user = "\<lambda>_ _ _. None" and s = ?s and N = 17,
        OF nor_idle_ok, unfolded nor_write_env, OF cbw(1) wr sec lossy_image n fresh nor_idle_start(2,3) nor_idle_memory nor_idle_table
          nor_chip_nor nor_env_ok att example_flash_env alone first same other] off by auto
qed

end
