(* ===== verification/Spec2Isabelle.thy ===== *)
theory Spec2Isabelle
  imports Rom_Text Rom_Tables Usb_Properties Stream_Chunks Flash_Properties
begin

text \<open>
  Verification development of the boot ROM of the RP2040 (\<open>bootrom/\<close>, \<open>usb_device_tiny/\<close> and the
  build tool \<open>generator/\<close>).

  \<^bold>\<open>The program.\<close> After a reset \<open>main\<close> (\<open>bootrom_main.c\<close>) votes on the chip select strap and searches the
  flash for a second stage (\<open>_flash_boot\<close>); without one it starts the USB bootloader (\<open>_usb_boot\<close>). The
  bootloader is a USB device with two interfaces, a mass storage disk (\<open>usb_msc.c\<close> over \<open>virtual_disk.c\<close>) that
  takes UF2 files, and PICOBOOT (\<open>usb_boot_device.c\<close>), both on the device library \<open>usb_device.c\<close>
  and its streams (\<open>usb_stream_helper.c\<close>). The USB interrupt handler queues tasks;
  the boot thread executes them (\<open>async_task.c\<close>), reads and writes memory, and programs the flash through the
  SSI controller (\<open>program_flash_generic.c\<close>); a finished task calls back into the USB code. A
  completed UF2 download reboots by the watchdog (\<open>runtime.c\<close>).

  \<^bold>\<open>Theories and what they model.\<close>
  \<^item> \<open>Prelude\<close>, \<open>Platform\<close>: C integers as words, byte memory, the address map and classes of \<open>usb_boot_device.h\<close>.
  \<^item> \<open>Runtime\<close>: \<open>watchdog_reboot\<close>, interrupt enables, the activity pin.
  \<^item> \<open>Flash_Port\<close>: \<open>flash_put_get\<close>, one iteration per \<open>put_get_step\<close>, with the FIFO contents and
    an arbitrary pace of the controller. \<open>Flash_Program\<close>: every other function of \<open>program_flash_generic.c\<close>.
  \<^item> \<open>Async_Task\<close>: task, queues, the phases of \<open>_execute_task\<close> in the order of the code, the worker's round.
    \<open>Task_Invariant\<close>: when a property of the state survives a round.
  \<^item> \<open>Virtual_Disk\<close>: the sectors of the disk, the bookkeeping of a download, \<open>vd_write_block\<close>.
  \<^item> \<open>Usb_Device\<close> and \<open>Usb_Control\<close>: the two halves of \<open>usb_device.c\<close>. \<open>Usb_Wf\<close>: its invariant, and the
    contract of its clients. \<open>Usb_Transfers\<close>: what giving buffers and single-packet transfers do.
  \<^item> \<open>Usb_Stream\<close>, \<open>Usb_Msc\<close>, \<open>Picoboot\<close>: the streams, the mass storage class, the PICOBOOT interface
    and the descriptors. \<open>Stream_Chunks\<close>: chunks against a reference. \<open>Boot_Layout\<close>: what the initialisation leaves.
  \<^item> \<open>Usb_System\<close>: the function pointers of the USB code, bound. \<open>Boot_Main\<close>: the boot path, with the clocks and resets.
    \<open>Boot_Flash\<close>: the search for a second stage, and the reboot into the bootloader.
  \<^item> \<open>Usb_Reach\<close>: the transition relation of the bootloader and its invariant. \<open>Usb_Requests\<close> and \<open>Usb_Properties\<close>:
    requests and commands from the packet to the answer.
  \<^item> \<open>Stream_Out\<close>, \<open>Sector_Write\<close>: the packets of an OUT stream into the buffer of a chunk, and of a WRITE(10) into the
    sectors that \<open>vd_write_block\<close> is given; \<open>Ram_Download\<close>: a UF2 file for RAM block by block. \<open>Nor_Flash\<close>: what data sheets say of a
    NOR chip behind the port, and the flash functions on its cells; \<open>Flash_Download\<close> and \<open>Flash_Image\<close>: a UF2 file for
    the flash, and what it leaves there. \<open>Write_Properties\<close> and \<open>Flash_Properties\<close>: the whole commands, with a concrete host and chip.
  \<^item> Assembler: \<open>Bit_Functions\<close> (\<open>bit_functions.S\<close>), \<open>Rom_Routines\<close> (\<open>crc32_small\<close> and \<open>poor_mans_text_decompress\<close> of
    \<open>bootrom_misc.S\<close>), \<open>Rom_Tables\<close> (\<open>table_lookup\<close> and the tables of \<open>bootrom_rt0.S\<close>): one binding per instruction.
  \<^item> \<open>Generator\<close>: \<open>compress\<close> and \<open>decompress\<close> of the build tool; \<open>Rom_Text\<close>: its output and the ROM's decompressor. \<open>Boot_Example\<close>: the documented constants, for examples.

  \<^bold>\<open>State.\<close> The records of the theories extend each other in one chain (\<open>runtime_hw\<close>, \<open>async_state\<close>, \<open>vd_state\<close>,
  \<open>usb_state\<close>, \<open>stream_state\<close>, \<open>msc_state\<close>, \<open>picoboot_state\<close>, \<open>boot_state\<close>), so that an operation of one theory is
  an operation on the whole device. Static objects of the C code are named by constructors (\<open>ep_id\<close>,
  \<open>transfer_id\<close>, \<open>queue_id\<close>), function pointers as well (\<open>transfer_type\<close>, \<open>completed_func\<close>, \<open>stall_func\<close>, \<open>task_callback\<close>).
  Packet buffers, the sector buffer, the bitmaps and the table of flash functions are in byte memory.
  Calls through pointers go up the theories and back down: the record \<open>usb_callbacks\<close> is an argument of
  the USB operations, and \<open>callbacks env n\<close> ties the knot for calls that nest at most \<open>n\<close> deep.

  \<^bold>\<open>Results.\<close> An \<open>option\<close> is a call that may not return, or that follows a null pointer: \<open>None\<close>.
  Loops that may run forever are \<open>partial_function\<close>s; the bounded ones have a measure. Status codes are
  words, as in the code; the compressor's faults are a sum type.

  \<^bold>\<open>Bounds.\<close> Properties of the USB code hold at every nesting depth \<open>n\<close>, or at every depth above zero where a
  callback is needed. Aborting a buffer is given up after 65536 polls, the second stage after 128 attempts, as in the code.
  Theorems that a call returns assume of the hardware what the wait needs and nothing else: that the SSI controller
  always gets on (\<open>fair\<close>), that no abort comes in (\<open>quiet\<close>), that a clock or a reset is ready some time. Downloads to flash
  assume a chip with the documented commands (\<open>nor_chip\<close>), and at most 65536 blocks, the pages that 24-bit addresses reach.

  \<^bold>\<open>What the lemmas show.\<close> Flash: \<open>flash_put_get\<close> returns at any pace of the controller, transfers exactly the bytes asked for,
  cannot overflow its FIFO, and gets out of a stuck transfer; each command is what the chip sees. Tasks and disk: every branch of an
  erase, what a write can change, that a download counts distinct blocks and reboots when all are written, a
  well-formed FAT16 volume. USB: disjoint buffers, typed transfers and the address register over every
  interleaving of interrupts and worker rounds; the order of the steps of SET_ADDRESS; what a mass
  storage command without data is answered; halting and its recovery; refused and accepted PICOBOOT
  commands; the chunks of a stream. Downloads, from the packets of the host: a WRITE(10) of ordinary sectors changes nothing but
  buffers; a UF2 file for RAM is in place and started; one for the flash is in the cells of the chip, on erased
  sectors, and its first page is what the boot path then enters; and which files lose a page. Boot: which image is entered, that the bootloader starts, that
  \<open>reset_usb_boot\<close> hands its arguments through the reset. Assembler: the bit functions and the checksum against
  reference definitions, the tables complete, and the texts of the build tool restored byte by byte.

  \<^bold>\<open>Parameters.\<close> What is not under the sources is a parameter: register fields and protocol codes of the SDK headers
  (\<open>platform\<close>, \<open>ssi_consts\<close>, \<open>runtime_consts\<close>, \<open>usb_consts\<close>, \<open>picoboot_consts\<close>, \<open>boot_consts\<close>), the flash chip and the
  controller's pace (\<open>spi_env\<close>), what polled registers answer, the texts that
  the build generates, code that the user supplies.

  \<^bold>\<open>Not modelled.\<close> Of the assembler sources the reset code, the launch of the second core, the memory functions (block writes
  of the byte memory, where the C code calls them) and the floating point library; the tests; debug output and assertions, which the release build leaves out; file reading and header printing
  of the generator. Interrupts come between rounds of the worker and not inside them, except for
  \<open>flash_abort\<close>, which may come at any register access. In the invariant of the whole system the user's code
  is a function of memory and flash only. In the statements on whole downloads the packets arrive one at a time and the
  worker has its turn after each sector, as the stream makes the host wait. Of reads from the disk and of the data phase of
  PICOBOOT transfers the operations are modelled and the invariant covers them; end-to-end statements about them are not made here.
\<close>

end
